(* ===== verification/Py_Base.thy ===== *)
theory Py_Base imports Complex_Main "HOL-Library.Sublist" "HOL-Library.Char_ord" "HOL-Library.List_Lexorder" begin

text \<open>
  The part of Python the backend relies on: exceptions as values, \<open>str\<close> and its methods,
  JSON values with Python's truthiness and equality, \<open>float\<close>/\<open>int\<close> conversion,
  \<open>round\<close>, slices and list indexing; and the lemmas on them that the components share.

  Conventions. A Python \<open>str\<close> is a \<open>string\<close> whose characters are the code points
  U+0000 to U+00FF, so \<open>lower\<close>, \<open>strip\<close> and \<open>isalnum\<close> are written out on that
  range. A finite Python \<open>float\<close> is a \<open>real\<close>: the arithmetic is exact, the rounding of IEEE
  doubles is not modelled, and infinities and NaN are values of \<open>flt\<close> wherever a float comes
  from outside. A \<open>dict\<close> with string keys is an association list in insertion order.
\<close>

section \<open>Collections of facts\<close>

named_theorems py_defs \<open>definitions of the Python primitives\<close>
named_theorems py_bounds \<open>range facts about computed numbers\<close>

section \<open>Exceptions\<close>

datatype exn_kind =
    ValueErr | TypeErr | AttrErr | KeyErr | IndexErr | ZeroDivErr | OverflowErr | RuntimeErr
  | TimeoutErr | IntegrityErr | NotFoundErr | InvalidRunErr | DispatchErr
  | UrlErr | HttpStatusErr | RequestErr | JsonDecodeErr | ImportErr

datatype exn = Exn (exn_kind_of: exn_kind) (exn_msg: string)

type_synonym 'a res = "exn + 'a"

text \<open>\<open>and_then\<close> runs the next statement unless the previous one raised.\<close>

primrec and_then :: "'err + 'a \<Rightarrow> ('a \<Rightarrow> 'err + 'b) \<Rightarrow> 'err + 'b" where
  "and_then (Inl e) f = Inl e"
| "and_then (Inr x) f = f x"

primrec map_res :: "('a \<Rightarrow> 'err + 'b) \<Rightarrow> 'a list \<Rightarrow> 'err + 'b list" where
  "map_res f [] = Inr []"
| "map_res f (x # xs) = and_then (f x) (\<lambda>y. and_then (map_res f xs) (\<lambda>ys. Inr (y # ys)))"

definition is_ok :: "'e + 'a \<Rightarrow> bool" where
  "is_ok r = (case r of Inl _ \<Rightarrow> False | Inr _ \<Rightarrow> True)"

lemma is_ok_simps [simp]: "is_ok (Inr x)" "\<not> is_ok (Inl e)"
  by (simp_all add: is_ok_def)

lemma and_then_Inr_iff: "and_then m f = Inr y \<longleftrightarrow> (\<exists>x. m = Inr x \<and> f x = Inr y)"
  by (cases m) auto

lemma and_then_Inl_iff:
  "and_then m f = Inl e \<longleftrightarrow> m = Inl e \<or> (\<exists>x. m = Inr x \<and> f x = Inl e)"
  by (cases m) auto

lemma and_then_cong [fundef_cong]:
  assumes "m = m'" and "\<And>x. m' = Inr x \<Longrightarrow> f x = g x"
  shows "and_then m f = and_then m' g"
  using assms by (cases m') auto

lemma map_res_ok:
  assumes "\<And>x. x \<in> set xs \<Longrightarrow> f x = Inr (g x)"
  shows "map_res f xs = Inr (map g xs)"
  using assms by (induction xs) auto

lemma map_res_length: "map_res f xs = Inr ys \<Longrightarrow> length ys = length xs"
  by (induction xs arbitrary: ys) (auto simp: and_then_Inr_iff)

lemma map_res_nth:
  "map_res f xs = Inr ys \<Longrightarrow> i < length xs \<Longrightarrow> f (xs ! i) = Inr (ys ! i)"
proof (induction xs arbitrary: ys i)
  case (Cons x xs)
  then show ?case by (cases i) (auto simp: and_then_Inr_iff)
qed simp

lemma map_res_set:
  assumes "map_res f xs = Inr ys" and "y \<in> set ys"
  shows "\<exists>x \<in> set xs. f x = Inr y"
  using assms by (induction xs arbitrary: ys) (auto simp: and_then_Inr_iff)

section \<open>Lists: indexing and slices\<close>

definition py_index :: "'a list \<Rightarrow> int \<Rightarrow> 'a res" where
  "py_index xs i =
     (let k = (if i < 0 then i + int (length xs) else i)
      in if k < 0 \<or> int (length xs) \<le> k then Inl (Exn IndexErr ''list index out of range'')
         else Inr (xs ! nat k))"

text \<open>\<open>xs[:k]\<close> and \<open>xs[a:b]\<close>; a negative bound counts from the end.\<close>

definition py_take :: "int \<Rightarrow> 'a list \<Rightarrow> 'a list" where
  "py_take k xs = (if k < 0 then take (nat (int (length xs) + k)) xs else take (nat k) xs)"

definition py_slice :: "nat \<Rightarrow> nat \<Rightarrow> 'a list \<Rightarrow> 'a list" where
  "py_slice a b xs = take (b - a) (drop a xs)"

lemma py_index_ok: "0 \<le> i \<Longrightarrow> i < int (length xs) \<Longrightarrow> py_index xs i = Inr (xs ! nat i)"
  by (simp add: py_index_def)

lemma py_index_mem: "py_index xs i = Inr x \<Longrightarrow> x \<in> set xs"
  by (auto simp: py_index_def Let_def split: if_splits)

lemma set_py_take: "set (py_take k xs) \<subseteq> set xs"
  by (auto simp: py_take_def dest: in_set_takeD)

lemma length_py_take: "0 \<le> k \<Longrightarrow> length (py_take k xs) = min (nat k) (length xs)"
  by (simp add: py_take_def min.commute)

lemma py_slice_map: "b \<le> length xs \<Longrightarrow> py_slice a b xs = map ((!) xs) [a..<b]"
  by (rule nth_equalityI) (auto simp: py_slice_def)

lemma set_py_slice_nth: "b \<le> length xs \<Longrightarrow> set (py_slice a b xs) = (!) xs ` {a..<b}"
  by (simp add: py_slice_map)

lemma set_py_slice: "set (py_slice a b xs) \<subseteq> set xs"
  by (auto simp: py_slice_def dest: in_set_takeD in_set_dropD)

subsection \<open>Searching\<close>

lemma filter_none: "(\<And>x. x \<in> set xs \<Longrightarrow> \<not> P x) \<Longrightarrow> filter P xs = []"
  by (auto simp: filter_empty_conv)

lemma find_none: "(\<And>x. x \<in> set xs \<Longrightarrow> \<not> P x) \<Longrightarrow> find P xs = None"
  by (auto simp: find_None_iff)

lemma find_append: "find P (xs @ ys) = (case find P xs of None \<Rightarrow> find P ys | Some x \<Rightarrow> Some x)"
  by (induction xs) auto

section \<open>Strings\<close>

abbreviation code_point :: "char \<Rightarrow> nat" where
  "code_point c \<equiv> of_char c"

definition py_lower_char :: "char \<Rightarrow> char" where
  "py_lower_char c =
     (let n = code_point c
      in if 65 \<le> n \<and> n \<le> 90 \<or> 192 \<le> n \<and> n \<le> 222 \<and> n \<noteq> 215 then char_of (n + 32) else c)"

definition py_lower :: "string \<Rightarrow> string" where
  "py_lower s = map py_lower_char s"

definition py_isspace :: "char \<Rightarrow> bool" where
  "py_isspace c =
     (let n = code_point c in 9 \<le> n \<and> n \<le> 13 \<or> 28 \<le> n \<and> n \<le> 32 \<or> n = 133 \<or> n = 160)"

definition py_isdigit :: "char \<Rightarrow> bool" where
  "py_isdigit c = (let n = code_point c in 48 \<le> n \<and> n \<le> 57)"

definition py_lstrip_by :: "(char \<Rightarrow> bool) \<Rightarrow> string \<Rightarrow> string" where
  "py_lstrip_by P s = dropWhile P s"

definition py_rstrip_by :: "(char \<Rightarrow> bool) \<Rightarrow> string \<Rightarrow> string" where
  "py_rstrip_by P s = rev (dropWhile P (rev s))"

definition py_strip :: "string \<Rightarrow> string" where
  "py_strip s = py_rstrip_by py_isspace (py_lstrip_by py_isspace s)"

text \<open>\<open>part in s\<close> on strings, and \<open>s.removeprefix(p)\<close>.\<close>

definition str_in :: "string \<Rightarrow> string \<Rightarrow> bool" where
  "str_in part s = sublist part s"

definition py_removeprefix :: "string \<Rightarrow> string \<Rightarrow> string" where
  "py_removeprefix p s = (if prefix p s then drop (length p) s else s)"

primrec py_join :: "string \<Rightarrow> string list \<Rightarrow> string" where
  "py_join sep [] = []"
| "py_join sep (x # xs) = (if xs = [] then x else x @ sep @ py_join sep xs)"

text \<open>\<open>s.split(c)\<close> for a one-character separator, and with a bound on the number of splits.\<close>

primrec py_split :: "char \<Rightarrow> string \<Rightarrow> string list" where
  "py_split c [] = [[]]"
| "py_split c (x # xs) =
     (if x = c then [] # py_split c xs
      else (case py_split c xs of [] \<Rightarrow> [[x]] | p # ps \<Rightarrow> (x # p) # ps))"

fun py_split_max :: "char \<Rightarrow> nat \<Rightarrow> string \<Rightarrow> string list" where
  "py_split_max c 0 s = [s]"
| "py_split_max c (Suc n) s =
     (case dropWhile (\<lambda>x. x \<noteq> c) s of
        [] \<Rightarrow> [s]
      | _ # rest \<Rightarrow> takeWhile (\<lambda>x. x \<noteq> c) s # py_split_max c n rest)"

text \<open>\<open>s.partition(c)\<close>: head, whether the separator was found, tail.\<close>

definition py_partition :: "char \<Rightarrow> string \<Rightarrow> string \<times> bool \<times> string" where
  "py_partition c s =
     (case dropWhile (\<lambda>x. x \<noteq> c) s of
        [] \<Rightarrow> (s, False, [])
      | _ # rest \<Rightarrow> (takeWhile (\<lambda>x. x \<noteq> c) s, True, rest))"

lemma length_py_lower [simp]: "length (py_lower s) = length s"
  by (simp add: py_lower_def)

lemma py_lower_append: "py_lower (s @ t) = py_lower s @ py_lower t"
  by (simp add: py_lower_def)

lemma py_lower_char_idem: "py_lower_char (py_lower_char c) = py_lower_char c"
proof -
  show ?thesis
  proof (cases "65 \<le> code_point c \<and> code_point c \<le> 90 \<or>
                192 \<le> code_point c \<and> code_point c \<le> 222 \<and> code_point c \<noteq> 215")
    case True
    then have l: "py_lower_char c = char_of (code_point c + 32)"
      by (simp add: py_lower_char_def)
    have "code_point (py_lower_char c) = code_point c + 32"
      using True by (auto simp: l)
    with True show ?thesis by (auto simp: py_lower_char_def [of "py_lower_char c"] Let_def)
  next
    case False
    then have "py_lower_char c = c" by (auto simp: py_lower_char_def Let_def)
    then show ?thesis by simp
  qed
qed

lemma py_lower_idem [simp]: "py_lower (py_lower s) = py_lower s"
  by (simp add: py_lower_def py_lower_char_idem)

lemma str_in_Nil [simp]: "str_in [] s"
  by (simp add: str_in_def)

lemma dropWhile_rev_last: "dropWhile P (rev s) = rev t \<Longrightarrow> t \<noteq> [] \<Longrightarrow> \<not> P (last t)"
  by (metis hd_dropWhile hd_rev rev_is_Nil_conv)

lemma py_split_not_Nil [simp]: "py_split c s \<noteq> []"
  by (induction s) (auto split: list.splits)

lemma py_split_no_sep: "p \<in> set (py_split c s) \<Longrightarrow> c \<notin> set p"
  by (induction s arbitrary: p) (auto split: if_splits list.splits)

lemma py_join_split: "py_join [c] (py_split c s) = s"
proof (induction s)
  case (Cons x s)
  then show ?case by (cases "py_split c s") (auto split: if_splits)
qed simp

lemma py_split_append:
  "c \<notin> set p \<Longrightarrow> py_split c (p @ c # s) = p # py_split c s"
  by (induction p) auto

lemma py_split_single: "c \<notin> set p \<Longrightarrow> py_split c p = [p]"
  by (induction p) auto

lemma py_split_join:
  assumes "list_all (\<lambda>p. c \<notin> set p) ps" and "ps \<noteq> []"
  shows "py_split c (py_join [c] ps) = ps"
  using assms by (induction ps) (auto simp: py_split_append py_split_single)

subsection \<open>Numbers as text\<close>

definition digit_char :: "nat \<Rightarrow> char" where
  "digit_char d = char_of (48 + d)"

fun show_nat :: "nat \<Rightarrow> string" where
  "show_nat n = (if n < 10 then [digit_char n] else show_nat (n div 10) @ [digit_char (n mod 10)])"

declare show_nat.simps [simp del]

definition show_int :: "int \<Rightarrow> string" where
  "show_int i = (if i < 0 then CHR ''-'' # show_nat (nat (- i)) else show_nat (nat i))"

text \<open>\<open>f"{n:04d}"\<close> pads with zeros on the left.\<close>

definition pad_left :: "nat \<Rightarrow> string \<Rightarrow> string" where
  "pad_left w s = replicate (w - length s) (CHR ''0'') @ s"

definition read_nat :: "string \<Rightarrow> nat" where
  "read_nat s = foldl (\<lambda>n c. 10 * n + (code_point c - 48)) 0 s"

lemma digit_char_value: "d < 10 \<Longrightarrow> code_point (digit_char d) - 48 = d"
  by (simp add: digit_char_def)

lemma read_nat_snoc: "read_nat (s @ [c]) = 10 * read_nat s + (code_point c - 48)"
  by (simp add: read_nat_def)

lemma read_show_nat: "read_nat (show_nat n) = n"
proof (induction n rule: show_nat.induct)
  case (1 n)
  show ?case
  proof (cases "n < 10")
    case True
    then show ?thesis by (simp add: show_nat.simps [of n] read_nat_def digit_char_value)
  next
    case False
    then show ?thesis
      using 1 by (simp add: show_nat.simps [of n] read_nat_snoc digit_char_value)
  qed
qed

text \<open>\<open>repr\<close> of a string: the quote that avoids escaping, and escapes for the rest.\<close>

definition hex_digit :: "nat \<Rightarrow> char" where
  "hex_digit d = (if d < 10 then char_of (48 + d) else char_of (87 + d))"

definition repr_char :: "char \<Rightarrow> char \<Rightarrow> string" where
  "repr_char q c =
     (let n = code_point c
      in if c = q \<or> n = 92 then [CHR 0x5C, c]
         else if n = 9 then [CHR 0x5C, CHR ''t'']
         else if n = 10 then [CHR 0x5C, CHR ''n'']
         else if n = 13 then [CHR 0x5C, CHR ''r'']
         else if 32 \<le> n \<and> n \<le> 126 \<or> 161 \<le> n \<and> n \<noteq> 173 then [c]
         else [CHR 0x5C, CHR ''x'', hex_digit (n div 16), hex_digit (n mod 16)])"

definition py_repr_str :: "string \<Rightarrow> string" where
  "py_repr_str s =
     (let q = (if CHR 0x27 \<in> set s \<and> CHR 0x22 \<notin> set s then CHR 0x22 else CHR 0x27)
      in q # concat (map (repr_char q) s) @ [q])"

section \<open>Floats\<close>

datatype flt = Fin real | PInf | NInf | NaN

fun flt_le :: "flt \<Rightarrow> flt \<Rightarrow> bool" where
  "flt_le (Fin a) (Fin b) = (a \<le> b)"
| "flt_le NaN _ = False"
| "flt_le _ NaN = False"
| "flt_le NInf _ = True"
| "flt_le _ PInf = True"
| "flt_le _ _ = False"

fun flt_eq :: "flt \<Rightarrow> flt \<Rightarrow> bool" where
  "flt_eq (Fin a) (Fin b) = (a = b)"
| "flt_eq PInf PInf = True"
| "flt_eq NInf NInf = True"
| "flt_eq _ _ = False"

definition flt_less :: "flt \<Rightarrow> flt \<Rightarrow> bool" where
  "flt_less x y = (flt_le x y \<and> \<not> flt_eq x y)"

fun isfinite :: "flt \<Rightarrow> bool" where
  "isfinite (Fin _) = True"
| "isfinite _ = False"

text \<open>The magnitude from which a double overflows, \<open>2^1024 - 2^970\<close>.\<close>

definition flt_limit :: real where
  "flt_limit = 2 ^ 1024 - 2 ^ 970"

definition flt_of_real :: "real \<Rightarrow> flt" where
  "flt_of_real x = (if flt_limit \<le> x then PInf else if x \<le> - flt_limit then NInf else Fin x)"

text \<open>Arithmetic on floats: a finite result that overflows is an infinity.\<close>

fun flt_add :: "flt \<Rightarrow> flt \<Rightarrow> flt" where
  "flt_add (Fin a) (Fin b) = flt_of_real (a + b)"
| "flt_add NaN _ = NaN"
| "flt_add _ NaN = NaN"
| "flt_add PInf NInf = NaN"
| "flt_add NInf PInf = NaN"
| "flt_add PInf _ = PInf"
| "flt_add _ PInf = PInf"
| "flt_add NInf _ = NInf"
| "flt_add _ NInf = NInf"

fun flt_neg :: "flt \<Rightarrow> flt" where
  "flt_neg (Fin a) = Fin (- a)"
| "flt_neg PInf = NInf"
| "flt_neg NInf = PInf"
| "flt_neg NaN = NaN"

definition flt_sub :: "flt \<Rightarrow> flt \<Rightarrow> flt" where
  "flt_sub x y = flt_add x (flt_neg y)"

fun flt_sgn :: "flt \<Rightarrow> real option" where
  "flt_sgn (Fin a) = Some (sgn a)"
| "flt_sgn PInf = Some 1"
| "flt_sgn NInf = Some (-1)"
| "flt_sgn NaN = None"

definition flt_mul :: "flt \<Rightarrow> flt \<Rightarrow> flt" where
  "flt_mul x y =
     (case (x, y) of
        (Fin a, Fin b) \<Rightarrow> flt_of_real (a * b)
      | _ \<Rightarrow>
        (case (flt_sgn x, flt_sgn y) of
           (Some s, Some t) \<Rightarrow>
             if s * t = 0 then NaN else if 0 < s * t then PInf else NInf
         | _ \<Rightarrow> NaN))"

text \<open>\<open>x / y\<close> raises on a zero divisor.\<close>

definition flt_div :: "flt \<Rightarrow> flt \<Rightarrow> flt res" where
  "flt_div x y =
     (case (x, y) of
        (_, Fin b) \<Rightarrow>
          if b = 0 then Inl (Exn ZeroDivErr ''float division by zero'')
          else
            (case x of
               Fin a \<Rightarrow> Inr (flt_of_real (a / b))
             | PInf \<Rightarrow> Inr (if 0 < b then PInf else NInf)
             | NInf \<Rightarrow> Inr (if 0 < b then NInf else PInf)
             | NaN \<Rightarrow> Inr NaN)
      | (Fin a, PInf) \<Rightarrow> Inr (Fin 0)
      | (Fin a, NInf) \<Rightarrow> Inr (Fin 0)
      | _ \<Rightarrow> Inr NaN)"

text \<open>\<open>max(a, b)\<close> keeps \<open>a\<close> unless \<open>b\<close> is greater.\<close>

definition flt_max :: "flt \<Rightarrow> flt \<Rightarrow> flt" where
  "flt_max x y = (if flt_less x y then y else x)"

lemma flt_div_zero [simp]:
  "flt_div x (Fin 0) = Inl (Exn ZeroDivErr ''float division by zero'')"
  by (cases x) (simp_all add: flt_div_def)

lemma flt_limit_big: "2 ^ 969 \<le> flt_limit"
proof -
  have "(2::real) ^ 970 + 2 ^ 969 \<le> 2 ^ 971" by simp
  also have "\<dots> \<le> 2 ^ 1024" by (rule power_increasing) simp_all
  finally show ?thesis unfolding flt_limit_def by linarith
qed

lemma flt_limit_gt: "1000000000000 < flt_limit"
proof -
  have "(1000000000000::real) < 2 ^ 40" by simp
  also have "\<dots> \<le> 2 ^ 969" by (rule power_increasing) simp_all
  finally show ?thesis using flt_limit_big by linarith
qed

lemma flt_of_real_small: "\<bar>x\<bar> \<le> 1000000000000 \<Longrightarrow> flt_of_real x = Fin x"
  using flt_limit_gt by (auto simp: flt_of_real_def)

lemma flt_of_real_cases:
  "flt_of_real x = Fin x \<or> flt_of_real x = PInf \<and> 1000000000000 < x \<or>
   flt_of_real x = NInf \<and> x < - 1000000000000"
  using flt_limit_gt by (auto simp: flt_of_real_def)

text \<open>\<open>round(x, n)\<close>: the nearest multiple of \<open>10^-n\<close>, ties to the even one.\<close>

definition round_half_even :: "real \<Rightarrow> int" where
  "round_half_even x =
     (let f = \<lfloor>x\<rfloor>; d = x - of_int f
      in if d < 1 / 2 then f else if 1 / 2 < d then f + 1 else if even f then f else f + 1)"

definition py_round :: "nat \<Rightarrow> real \<Rightarrow> real" where
  "py_round n x = of_int (round_half_even (x * 10 ^ n)) / 10 ^ n"

text \<open>\<open>round(x, n)\<close> on a float that may be infinite or NaN.\<close>

fun flt_round :: "nat \<Rightarrow> flt \<Rightarrow> flt" where
  "flt_round n (Fin x) = Fin (py_round n x)"
| "flt_round n x = x"

text \<open>\<open>int(x)\<close> truncates towards zero.\<close>

definition py_trunc :: "real \<Rightarrow> int" where
  "py_trunc x = (if x < 0 then - \<lfloor>- x\<rfloor> else \<lfloor>x\<rfloor>)"

text \<open>\<open>f"{x:.6f}"\<close>.\<close>

definition format_fixed :: "nat \<Rightarrow> real \<Rightarrow> string" where
  "format_fixed n x =
     (let m = nat (round_half_even (\<bar>x\<bar> * 10 ^ n));
          whole = show_nat (m div 10 ^ n);
          frac = pad_left n (show_nat (m mod 10 ^ n))
      in (if x < 0 then ''-'' else []) @ whole @ (if n = 0 then [] else CHR ''.'' # frac))"

lemma round_half_even_of_int [simp]: "round_half_even (of_int k) = k"
  by (simp add: round_half_even_def)

lemma round_half_even_numerals [simp]:
  "round_half_even 0 = 0" "round_half_even 1 = 1" "round_half_even (numeral n) = numeral n"
  using round_half_even_of_int [of 0] round_half_even_of_int [of 1]
    round_half_even_of_int [of "numeral n"] by simp_all

lemma round_half_even_floor:
  "round_half_even x = \<lfloor>x\<rfloor> \<or> round_half_even x = \<lfloor>x\<rfloor> + 1 \<and> 1 / 2 \<le> x - of_int \<lfloor>x\<rfloor>"
  by (auto simp: round_half_even_def Let_def)

lemma round_half_even_error: "\<bar>of_int (round_half_even x) - x\<bar> \<le> 1 / 2"
proof -
  define f where "f = \<lfloor>x\<rfloor>"
  have "of_int f \<le> x" "x < of_int f + 1" unfolding f_def by linarith+
  then show ?thesis unfolding round_half_even_def Let_def f_def [symmetric] abs_le_iff by auto
qed

lemma round_half_even_mono:
  assumes "x \<le> y" shows "round_half_even x \<le> round_half_even y"
proof (cases "\<lfloor>x\<rfloor> = \<lfloor>y\<rfloor>")
  case True
  with assms show ?thesis by (auto simp: round_half_even_def Let_def)
next
  case False
  with floor_mono [OF assms] have "\<lfloor>x\<rfloor> + 1 \<le> \<lfloor>y\<rfloor>" by linarith
  with round_half_even_floor [of x] round_half_even_floor [of y] show ?thesis by auto
qed

lemma py_round_mono: "x \<le> y \<Longrightarrow> py_round n x \<le> py_round n y"
  by (simp add: py_round_def divide_right_mono round_half_even_mono)

lemma py_round_0 [simp]: "py_round n 0 = 0"
  by (simp add: py_round_def)

lemma py_round_of_nat_power: "py_round n (of_int k) = of_int k"
proof -
  have "of_int k * 10 ^ n = (of_int (k * 10 ^ n) :: real)" by simp
  then show ?thesis unfolding py_round_def by (metis round_half_even_of_int nonzero_mult_div_cancel_right
      of_int_power of_int_numeral of_int_mult power_eq_0_iff zero_neq_numeral)
qed

lemma py_round_1 [simp]: "py_round n 1 = 1"
  using py_round_of_nat_power [of n 1] by simp

lemma py_round_unit: "0 \<le> x \<Longrightarrow> x \<le> 1 \<Longrightarrow> 0 \<le> py_round n x \<and> py_round n x \<le> 1"
  using py_round_mono [of 0 x n] py_round_mono [of x 1 n] by simp

lemma py_round_error: "\<bar>py_round n x - x\<bar> \<le> 1 / (2 * 10 ^ n)"
proof -
  have "py_round n x - x = (of_int (round_half_even (x * 10 ^ n)) - x * 10 ^ n) / 10 ^ n"
    by (simp add: py_round_def field_simps)
  then have "\<bar>py_round n x - x\<bar> = \<bar>of_int (round_half_even (x * 10 ^ n)) - x * 10 ^ n\<bar> / 10 ^ n"
    by (simp add: abs_divide)
  also have "\<dots> \<le> (1 / 2) / 10 ^ n"
    by (rule divide_right_mono [OF round_half_even_error]) simp
  finally show ?thesis by simp
qed

section \<open>JSON values\<close>

datatype json =
    JNull
  | JBool bool
  | JInt int
  | JFloat flt
  | JStr string
  | JList "json list"
  | JObj "(string \<times> json) list"

type_synonym dict = "(string \<times> json) list"

text \<open>\<open>d.get(k)\<close>, \<open>d.get(k, default)\<close>, and \<open>d[k] = v\<close> on an insertion-ordered dict.\<close>

abbreviation dict_get :: "string \<Rightarrow> (string \<times> 'v) list \<Rightarrow> 'v option" where
  "dict_get k d \<equiv> map_of d k"

definition dict_get_or :: "string \<Rightarrow> 'v \<Rightarrow> (string \<times> 'v) list \<Rightarrow> 'v" where
  "dict_get_or k x d = (case map_of d k of None \<Rightarrow> x | Some v \<Rightarrow> v)"

primrec dict_put :: "'k \<Rightarrow> 'v \<Rightarrow> ('k \<times> 'v) list \<Rightarrow> ('k \<times> 'v) list" where
  "dict_put k v [] = [(k, v)]"
| "dict_put k v (p # d) = (if fst p = k then (k, v) # d else p # dict_put k v d)"

lemma map_of_dict_put: "map_of (dict_put k v d) = (map_of d)(k \<mapsto> v)"
  by (induction d) (auto simp: fun_eq_iff)

lemma keys_dict_put: "fst ` set (dict_put k v d) = insert k (fst ` set d)"
  by (induction d) auto

lemma distinct_dict_put: "distinct (map fst d) \<Longrightarrow> distinct (map fst (dict_put k v d))"
proof (induction d)
  case (Cons p d)
  then show ?case using keys_dict_put [of k v d] by (auto simp: image_iff)
qed simp

lemma dict_put_fresh: "k \<notin> fst ` set d \<Longrightarrow> dict_put k v d = d @ [(k, v)]"
  by (induction d) auto

text \<open>Python's truth value of a JSON value.\<close>

fun truthy :: "json \<Rightarrow> bool" where
  "truthy JNull = False"
| "truthy (JBool b) = b"
| "truthy (JInt i) = (i \<noteq> 0)"
| "truthy (JFloat x) = (\<not> flt_eq x (Fin 0))"
| "truthy (JStr s) = (s \<noteq> [])"
| "truthy (JList xs) = (xs \<noteq> [])"
| "truthy (JObj d) = (d \<noteq> [])"

text \<open>\<open>a or b\<close>, where a missing key gives \<open>None\<close>.\<close>

definition json_or :: "json option \<Rightarrow> json option \<Rightarrow> json option" where
  "json_or a b = (case a of Some v \<Rightarrow> (if truthy v then Some v else b) | None \<Rightarrow> b)"

fun type_name :: "json \<Rightarrow> string" where
  "type_name JNull = ''NoneType''"
| "type_name (JBool _) = ''bool''"
| "type_name (JInt _) = ''int''"
| "type_name (JFloat _) = ''float''"
| "type_name (JStr _) = ''str''"
| "type_name (JList _) = ''list''"
| "type_name (JObj _) = ''dict''"

text \<open>The numeric value under which \<open>bool\<close>, \<open>int\<close> and \<open>float\<close> compare.\<close>

fun json_num :: "json \<Rightarrow> flt option" where
  "json_num (JBool b) = Some (Fin (if b then 1 else 0))"
| "json_num (JInt i) = Some (Fin (of_int i))"
| "json_num (JFloat x) = Some x"
| "json_num _ = None"

text \<open>\<open>a == b\<close>.\<close>

lemma json_size_list [termination_simp]: "x \<in> set xs \<Longrightarrow> size x < Suc (size_list size xs)"
  for xs :: "json list"
  by (simp add: less_Suc_eq_le size_list_estimation')

lemma json_size_obj [termination_simp]:
  "(k, v) \<in> set d \<Longrightarrow> size v < Suc (size_list (size_prod (\<lambda>_. 0) size) d)"
  for v :: json
  by (induction d) auto

function py_eq :: "json \<Rightarrow> json \<Rightarrow> bool" where
  "py_eq a b =
     (case (json_num a, json_num b) of
        (Some x, Some y) \<Rightarrow> flt_eq x y
      | _ \<Rightarrow>
        (case (a, b) of
           (JNull, JNull) \<Rightarrow> True
         | (JStr s, JStr t) \<Rightarrow> s = t
         | (JList xs, JList ys) \<Rightarrow> list_all2 py_eq xs ys
         | (JObj d, JObj e) \<Rightarrow>
             length d = length e \<and>
             list_all (\<lambda>p. case map_of e (fst p) of None \<Rightarrow> False | Some w \<Rightarrow> py_eq (snd p) w) d
         | _ \<Rightarrow> False))"
  by pat_completeness auto
termination
  by (relation "measure (\<lambda>(a, b). size a)") (auto simp: termination_simp)

declare py_eq.simps [simp del]

definition py_in :: "json \<Rightarrow> json list \<Rightarrow> bool" where
  "py_in x ys = list_ex (py_eq x) ys"

text \<open>The values a \<open>for\<close> loop over a JSON value visits.\<close>

fun json_iter :: "json \<Rightarrow> json list res" where
  "json_iter (JList xs) = Inr xs"
| "json_iter (JStr s) = Inr (map (\<lambda>c. JStr [c]) s)"
| "json_iter (JObj d) = Inr (map (\<lambda>p. JStr (fst p)) d)"
| "json_iter j = Inl (Exn TypeErr (py_repr_str (type_name j) @ '' object is not iterable''))"

text \<open>\<open>j.get(k)\<close> and \<open>j.get(k, x)\<close> on a value that should be a dict.\<close>

fun as_dict :: "string \<Rightarrow> json \<Rightarrow> dict res" where
  "as_dict attr (JObj d) = Inr d"
| "as_dict attr j =
     Inl (Exn AttrErr (py_repr_str (type_name j) @ '' object has no attribute '' @ py_repr_str attr))"

lemma json_iter_length_0:
  "json_iter j = Inr xs \<Longrightarrow> truthy j \<Longrightarrow> xs \<noteq> []"
  by (cases j) auto

lemma py_eq_JStr [simp]: "py_eq (JStr s) b \<longleftrightarrow> b = JStr s"
  by (cases b) (auto simp: py_eq.simps)

lemma py_eq_JStr2 [simp]: "py_eq a (JStr s) \<longleftrightarrow> a = JStr s"
  by (cases a) (auto simp: py_eq.simps)

lemma py_eq_JNull [simp]: "py_eq JNull b \<longleftrightarrow> b = JNull"
  by (cases b) (auto simp: py_eq.simps)

lemma py_in_JStr: "py_in (JStr s) ys \<longleftrightarrow> JStr s \<in> set ys"
  by (auto simp: py_in_def list_ex_iff)

section \<open>Conversions: \<open>str\<close>, \<open>float\<close>, \<open>int\<close>\<close>

text \<open>
  \<open>repr\<close> and \<open>str\<close> of a JSON value. \<open>fr\<close> stands for the interpreter's shortest
  round-trip rendering of a finite float, which exact reals do not determine.
\<close>

fun py_repr :: "(real \<Rightarrow> string) \<Rightarrow> json \<Rightarrow> string" where
  "py_repr fr JNull = ''None''"
| "py_repr fr (JBool b) = (if b then ''True'' else ''False'')"
| "py_repr fr (JInt i) = show_int i"
| "py_repr fr (JFloat (Fin x)) = fr x"
| "py_repr fr (JFloat PInf) = ''inf''"
| "py_repr fr (JFloat NInf) = ''-inf''"
| "py_repr fr (JFloat NaN) = ''nan''"
| "py_repr fr (JStr s) = py_repr_str s"
| "py_repr fr (JList xs) = ''['' @ py_join '', '' (map (py_repr fr) xs) @ '']''"
| "py_repr fr (JObj d) =
     ''{'' @ py_join '', '' (map (\<lambda>p. py_repr_str (fst p) @ '': '' @ py_repr fr (snd p)) d) @ ''}''"

fun py_str :: "(real \<Rightarrow> string) \<Rightarrow> json \<Rightarrow> string" where
  "py_str fr (JStr s) = s"
| "py_str fr j = py_repr fr j"

text \<open>Digits with single underscores between them, as \<open>float\<close> and \<open>int\<close> accept.\<close>

fun drop_underscores :: "bool \<Rightarrow> string \<Rightarrow> string option" where
  "drop_underscores after_digit [] = Some []"
| "drop_underscores after_digit (c # s) =
     (if c = CHR ''_'' then
        (case s of
           [] \<Rightarrow> None
         | d # _ \<Rightarrow> if after_digit \<and> py_isdigit d then drop_underscores False s else None)
      else map_option (Cons c) (drop_underscores (py_isdigit c) s))"

definition take_sign :: "string \<Rightarrow> int \<times> string" where
  "take_sign s =
     (case s of
        [] \<Rightarrow> (1, s)
      | c # r \<Rightarrow> if c = CHR ''-'' then (-1, r) else if c = CHR ''+'' then (1, r) else (1, s))"

definition parse_int :: "string \<Rightarrow> int option" where
  "parse_int s =
     (case drop_underscores False (py_strip s) of
        None \<Rightarrow> None
      | Some t \<Rightarrow>
          (case take_sign t of
             (sg, ds) \<Rightarrow>
               if ds \<noteq> [] \<and> list_all py_isdigit ds then Some (sg * int (read_nat ds)) else None))"

definition parse_exponent :: "string \<Rightarrow> int option" where
  "parse_exponent s =
     (case s of
        [] \<Rightarrow> Some 0
      | c # r \<Rightarrow>
          if c = CHR ''e'' \<or> c = CHR ''E'' then
            (case take_sign r of
               (sg, ds) \<Rightarrow>
                 if ds \<noteq> [] \<and> list_all py_isdigit ds then Some (sg * int (read_nat ds)) else None)
          else None)"

definition parse_decimal :: "string \<Rightarrow> real option" where
  "parse_decimal s =
     (let ip = takeWhile py_isdigit s;
          r1 = dropWhile py_isdigit s;
          has_dot = (case r1 of [] \<Rightarrow> False | c # _ \<Rightarrow> c = CHR ''.'');
          r2 = (if has_dot then tl r1 else r1);
          fp = (if has_dot then takeWhile py_isdigit r2 else []);
          r3 = (if has_dot then dropWhile py_isdigit r2 else r1)
      in if ip = [] \<and> fp = [] then None
         else (case parse_exponent r3 of
                 None \<Rightarrow> None
               | Some e \<Rightarrow> Some (real (read_nat (ip @ fp)) / 10 ^ length fp *
                               (if 0 \<le> e then 10 ^ nat e else 1 / 10 ^ nat (- e)))))"

definition parse_float :: "string \<Rightarrow> flt option" where
  "parse_float s =
     (case drop_underscores False (py_strip s) of
        None \<Rightarrow> None
      | Some t \<Rightarrow>
          (case take_sign t of
             (sg, u) \<Rightarrow>
               let w = py_lower u
               in if w = ''inf'' \<or> w = ''infinity'' then Some (if sg < 0 then NInf else PInf)
                  else if w = ''nan'' then Some NaN
                  else map_option (\<lambda>x. flt_of_real (of_int sg * x)) (parse_decimal u)))"

text \<open>\<open>float(x)\<close> and \<open>int(x)\<close>.\<close>

fun to_float :: "json \<Rightarrow> flt res" where
  "to_float (JBool b) = Inr (Fin (if b then 1 else 0))"
| "to_float (JInt i) =
     (case flt_of_real (of_int i) of
        Fin x \<Rightarrow> Inr (Fin x)
      | _ \<Rightarrow> Inl (Exn OverflowErr ''int too large to convert to float''))"
| "to_float (JFloat x) = Inr x"
| "to_float (JStr s) =
     (case parse_float s of
        Some x \<Rightarrow> Inr x
      | None \<Rightarrow> Inl (Exn ValueErr (''could not convert string to float: '' @ py_repr_str s)))"
| "to_float j =
     Inl (Exn TypeErr (''float() argument must be a string or a real number, not '' @
       py_repr_str (type_name j)))"

fun to_int :: "json \<Rightarrow> int res" where
  "to_int (JBool b) = Inr (if b then 1 else 0)"
| "to_int (JInt i) = Inr i"
| "to_int (JFloat (Fin x)) = Inr (py_trunc x)"
| "to_int (JFloat NaN) = Inl (Exn ValueErr ''cannot convert float NaN to integer'')"
| "to_int (JFloat _) = Inl (Exn OverflowErr ''cannot convert float infinity to integer'')"
| "to_int (JStr s) =
     (case parse_int s of
        Some i \<Rightarrow> Inr i
      | None \<Rightarrow> Inl (Exn ValueErr
          (''invalid literal for int() with base 10: '' @ py_repr_str s)))"
| "to_int j =
     Inl (Exn TypeErr
       (''int() argument must be a string, a bytes-like object or a real number, not '' @
        py_repr_str (type_name j)))"

text \<open>A rendering of floats for concrete runs.\<close>

definition plain_repr :: "real \<Rightarrow> string" where
  "plain_repr = (\<lambda>_. ''0.5'')"

end
