(* ===== verification/Statistics.thy ===== *)
theory Statistics imports Py_Base begin

text \<open>
  \<open>backend/app/services/statistics.py\<close>: point statistics, the percentile bootstrap for one sample
  and for the paired difference of two, the regression test built on it, and the per-tag report.

  A statistic is a function \<open>real list \<Rightarrow> real res\<close>: the code calls it through a \<open>Callable\<close>, so it
  may raise. \<open>random.Random(seed)\<close> is an argument: \<open>rng_seed\<close> gives the generator's state and
  \<open>rng_below g n\<close> a draw below \<open>n\<close> with the next state, the primitive under \<open>choice\<close> and
  \<open>randrange\<close>. \<open>rng_ok\<close> is what the library documents of it.
\<close>

section \<open>The functions\<close>

definition average :: "real list \<Rightarrow> real" where
  "average values = (if values \<noteq> [] then sum_list values / real (length values) else 0)"

definition average_stat :: "real list \<Rightarrow> real res" where
  "average_stat values = Inr (average values)"

definition percentile :: "real list \<Rightarrow> real \<Rightarrow> real res" where
  "percentile values percentile_value =
     (if values = [] then Inr 0
      else
        let ordered = sort values
        in if length ordered = 1 then py_index ordered 0
           else
             let rank = real (length ordered - 1) * percentile_value;
                 lower = py_trunc rank;
                 upper = min (lower + 1) (int (length ordered) - 1);
                 weight = rank - of_int lower
             in and_then (py_index ordered lower) (\<lambda>lo.
                and_then (py_index ordered upper) (\<lambda>hi.
                Inr (lo * (1 - weight) + hi * weight))))"

record 'g rng =
  rng_seed :: "int \<Rightarrow> 'g"
  rng_below :: "'g \<Rightarrow> nat \<Rightarrow> nat \<times> 'g"

definition rng_ok :: "'g rng \<Rightarrow> bool" where
  "rng_ok R \<longleftrightarrow> (\<forall>g n. 0 < n \<longrightarrow> fst (rng_below R g n) < n)"

primrec draws :: "'g rng \<Rightarrow> nat \<Rightarrow> nat \<Rightarrow> 'g \<Rightarrow> nat list \<times> 'g" where
  "draws R bound 0 g = ([], g)"
| "draws R bound (Suc k) g =
     (let (i, g1) = rng_below R g bound; (is, g2) = draws R bound k g1 in (i # is, g2))"

definition pick :: "real list \<Rightarrow> nat list \<Rightarrow> real list res" where
  "pick values is = map_res (\<lambda>i. py_index values (int i)) is"

primrec bootstrap_estimates ::
  "'g rng \<Rightarrow> real list \<Rightarrow> (real list \<Rightarrow> real res) \<Rightarrow> nat \<Rightarrow> 'g \<Rightarrow> real list res" where
  "bootstrap_estimates R values statistic 0 g = Inr []"
| "bootstrap_estimates R values statistic (Suc n) g =
     (let (is, g') = draws R (length values) (length values) g
      in and_then (pick values is) (\<lambda>sample.
         and_then (statistic sample) (\<lambda>e.
         and_then (bootstrap_estimates R values statistic n g') (\<lambda>es.
         Inr (e # es)))))"

definition interval :: "real list \<Rightarrow> nat \<Rightarrow> (real \<times> real) res" where
  "interval estimates n_resamples =
     (let ordered = sort estimates
      in and_then (py_index ordered (py_trunc (25 / 1000 * (real n_resamples - 1)))) (\<lambda>lo.
         and_then (py_index ordered (py_trunc (975 / 1000 * (real n_resamples - 1)))) (\<lambda>hi.
         Inr (lo, hi))))"

definition bootstrap_ci ::
  "'g rng \<Rightarrow> real list \<Rightarrow> (real list \<Rightarrow> real res) \<Rightarrow> nat \<Rightarrow> int \<Rightarrow> (real \<times> real) res" where
  "bootstrap_ci R values statistic n_resamples seed =
     (if length values < 3 then Inr (0, 0)
      else and_then (bootstrap_estimates R values statistic n_resamples (rng_seed R seed))
             (\<lambda>estimates. interval estimates n_resamples))"

primrec delta_estimates ::
  "'g rng \<Rightarrow> real list \<Rightarrow> real list \<Rightarrow> (real list \<Rightarrow> real res) \<Rightarrow> nat \<Rightarrow> nat \<Rightarrow> 'g \<Rightarrow> real list res"
where
  "delta_estimates R baseline_values candidate_values statistic count 0 g = Inr []"
| "delta_estimates R baseline_values candidate_values statistic count (Suc n) g =
     (let (indices, g') = draws R count count g
      in and_then (pick baseline_values indices) (\<lambda>baseline_sample.
         and_then (pick candidate_values indices) (\<lambda>candidate_sample.
         and_then (statistic candidate_sample) (\<lambda>c.
         and_then (statistic baseline_sample) (\<lambda>b.
         and_then (delta_estimates R baseline_values candidate_values statistic count n g') (\<lambda>es.
         Inr ((c - b) # es)))))))"

definition bootstrap_delta_ci ::
  "'g rng \<Rightarrow> real list \<Rightarrow> real list \<Rightarrow> (real list \<Rightarrow> real res) \<Rightarrow> nat \<Rightarrow> int \<Rightarrow> (real \<times> real) res"
where
  "bootstrap_delta_ci R baseline_values candidate_values statistic n_resamples seed =
     (if baseline_values = [] \<or> candidate_values = [] then Inr (0, 0)
      else
        let count = min (length baseline_values) (length candidate_values)
        in and_then
             (delta_estimates R baseline_values candidate_values statistic count n_resamples
               (rng_seed R seed))
             (\<lambda>estimates. interval estimates n_resamples))"

definition regression_message ::
  "string \<Rightarrow> real \<Rightarrow> real \<Rightarrow> real \<Rightarrow> real \<Rightarrow> real \<Rightarrow> string" where
  "regression_message label baseline_point candidate_point delta_point delta_lower delta_upper =
     label @ ''baseline='' @ format_fixed 6 baseline_point @
     '', candidate='' @ format_fixed 6 candidate_point @
     '', delta='' @ format_fixed 6 delta_point @
     '', ci=('' @ format_fixed 6 delta_lower @ '', '' @ format_fixed 6 delta_upper @ '')''"

definition is_significant_regression ::
  "'g rng \<Rightarrow> real list \<Rightarrow> real list \<Rightarrow> (real list \<Rightarrow> real res) \<Rightarrow> string \<Rightarrow> real \<Rightarrow> nat \<Rightarrow> int \<Rightarrow>
   (bool \<times> string) res" where
  "is_significant_regression R baseline_values candidate_values statistic direction tolerance
     n_resamples seed =
     and_then (statistic baseline_values) (\<lambda>baseline_point.
     and_then (statistic candidate_values) (\<lambda>candidate_point.
     let delta_point = candidate_point - baseline_point in
     and_then (bootstrap_delta_ci R baseline_values candidate_values statistic n_resamples seed)
       (\<lambda>(delta_lower, delta_upper).
     and_then
       (if direction = ''higher_better'' then
          Inr (delta_point < - tolerance, delta_upper < - tolerance)
        else if direction = ''lower_better'' then
          Inr (tolerance < delta_point, tolerance < delta_lower)
        else Inl (Exn ValueErr (''direction must be '' @ py_repr_str ''higher_better'' @ '' or '' @
               py_repr_str ''lower_better'')))
       (\<lambda>(point_regressed, ci_confirms).
     Inr (if ci_confirms then
            (True, regression_message ''Significant regression: '' baseline_point candidate_point
               delta_point delta_lower delta_upper)
          else if point_regressed then
            (False, regression_message ''Possible regression: '' baseline_point candidate_point
               delta_point delta_lower delta_upper)
          else
            (False, regression_message ''No significant regression: '' baseline_point
               candidate_point delta_point delta_lower delta_upper))))))"

record tag_report =
  tag_point :: real
  tag_ci_lower :: real
  tag_ci_upper :: real
  tag_n :: nat

primrec per_tag_analysis ::
  "'g rng \<Rightarrow> (string \<times> real list) list \<Rightarrow> (real list \<Rightarrow> real res) \<Rightarrow> nat \<Rightarrow> int \<Rightarrow>
   (string \<times> tag_report) list res" where
  "per_tag_analysis R [] statistic n_resamples seed = Inr []"
| "per_tag_analysis R (tv # rest) statistic n_resamples seed =
     (let tag = fst tv; values = snd tv in
      and_then
        (if length values < 3 then
           Inr \<lparr>tag_point = 0, tag_ci_lower = 0, tag_ci_upper = 0, tag_n = length values\<rparr>
         else
           and_then (bootstrap_ci R values statistic n_resamples seed) (\<lambda>(ci_lower, ci_upper).
           and_then (statistic values) (\<lambda>point.
           Inr \<lparr>tag_point = point, tag_ci_lower = ci_lower, tag_ci_upper = ci_upper,
                tag_n = length values\<rparr>)))
        (\<lambda>r. and_then (per_tag_analysis R rest statistic n_resamples seed) (\<lambda>rs.
             Inr ((tag, r) # rs))))"

section \<open>Draws and samples\<close>

lemma draws_ok:
  assumes "rng_ok R" and "0 < bound" and "draws R bound k g = (is, g')"
  shows "length is = k" and "\<forall>i \<in> set is. i < bound"
  using assms(3)
proof (induction k arbitrary: g "is" g')
  case (Suc k)
  { case 1 with Suc(1) show ?case by (auto simp: Let_def split: prod.splits) }
  { case 2 with Suc(2) assms(1,2) show ?case
      by (auto simp: Let_def rng_ok_def split: prod.splits) (metis fst_conv) }
qed simp_all

lemma pick_ok:
  assumes "\<forall>i \<in> set is. i < length values"
  shows "pick values is = Inr (map ((!) values) is)"
proof -
  have "map_res (\<lambda>i. py_index values (int i)) is = Inr (map (\<lambda>i. values ! i) is)"
    by (rule map_res_ok) (use assms in \<open>simp add: py_index_ok\<close>)
  then show ?thesis by (simp add: pick_def)
qed

lemma sum_list_between:
  fixes xs :: "real list"
  assumes "\<And>x. x \<in> set xs \<Longrightarrow> a \<le> x \<and> x \<le> b"
  shows "real (length xs) * a \<le> sum_list xs \<and> sum_list xs \<le> real (length xs) * b"
  using assms by (induction xs) (auto simp: algebra_simps intro: add_mono)

lemma average_between:
  assumes "xs \<noteq> []" and "\<And>x. x \<in> set xs \<Longrightarrow> a \<le> x \<and> x \<le> b"
  shows "a \<le> average xs" and "average xs \<le> b"
  using sum_list_between [of xs a b] assms by (simp_all add: average_def field_simps)

lemma convex_between:
  fixes w x y :: real
  assumes "0 \<le> w" "w \<le> 1" "a \<le> x" "x \<le> b" "a \<le> y" "y \<le> b"
  shows "a \<le> x * (1 - w) + y * w" and "x * (1 - w) + y * w \<le> b"
proof -
  have "a * (1 - w) + a * w \<le> x * (1 - w) + y * w"
    by (rule add_mono; rule mult_right_mono) (use assms in auto)
  then show "a \<le> x * (1 - w) + y * w" by (simp add: algebra_simps)
  have "x * (1 - w) + y * w \<le> b * (1 - w) + b * w"
    by (rule add_mono; rule mult_right_mono) (use assms in auto)
  then show "x * (1 - w) + y * w \<le> b" by (simp add: algebra_simps)
qed

lemma py_trunc_nonneg: "0 \<le> x \<Longrightarrow> py_trunc x = \<lfloor>x\<rfloor>"
  by (simp add: py_trunc_def)

lemma percentile_between:
  assumes ne: "xs \<noteq> []" and q: "0 \<le> q" "q \<le> 1"
    and b: "\<And>x. x \<in> set xs \<Longrightarrow> a \<le> x \<and> x \<le> b"
  shows "\<exists>v. percentile xs q = Inr v \<and> a \<le> v \<and> v \<le> b"
proof (cases "length xs = 1")
  case True
  then have "sort xs = xs" by (cases xs) auto
  with True ne b [of "xs ! 0"] show ?thesis by (simp add: percentile_def py_index_ok)
next
  case False
  define n rank lower upper where "n = length xs" and "rank = real (n - 1) * q"
    and "lower = py_trunc rank" and "upper = min (lower + 1) (int n - 1)"
  from ne False have n2: "2 \<le> n" by (cases xs) (auto simp: n_def Suc_le_eq)
  have r0: "0 \<le> rank" using q by (simp add: rank_def)
  have r1: "rank \<le> real (n - 1)" using q mult_left_le [of q "real (n - 1)"] by (simp add: rank_def)
  have lo: "lower = \<lfloor>rank\<rfloor>" using r0 by (simp add: lower_def py_trunc_nonneg)
  have l: "0 \<le> lower" "lower < int n" using r0 r1 n2 unfolding lo by linarith+
  have u: "0 \<le> upper" "upper < int n" using l n2 unfolding upper_def by linarith+
  have w: "0 \<le> rank - of_int lower" "rank - of_int lower \<le> 1" unfolding lo by linarith+
  have mem: "sort xs ! nat i \<in> set xs" if "0 \<le> i" "i < int n" for i
    using that nth_mem [of "nat i" "sort xs"] by (simp add: n_def nat_less_iff)
  have "percentile xs q = Inr (sort xs ! nat lower * (1 - (rank - of_int lower)) +
          sort xs ! nat upper * (rank - of_int lower))"
    using ne False l u
    by (simp add: percentile_def Let_def py_index_ok n_def [symmetric] rank_def [symmetric]
        lower_def [symmetric] upper_def [symmetric] del: of_nat_diff One_nat_def)
  then show ?thesis
    using convex_between [OF w] b [OF mem [OF l]] b [OF mem [OF u]] by blast
qed

section \<open>Intervals\<close>

lemma interval_positions:
  assumes "0 < n"
  shows "0 \<le> py_trunc (25 / 1000 * (real n - 1))"
    and "py_trunc (25 / 1000 * (real n - 1)) \<le> py_trunc (975 / 1000 * (real n - 1))"
    and "py_trunc (975 / 1000 * (real n - 1)) < int n"
proof -
  have r: "0 \<le> real n - 1" using assms by simp
  then show "0 \<le> py_trunc (25 / 1000 * (real n - 1))" by (simp add: py_trunc_nonneg)
  from r show "py_trunc (25 / 1000 * (real n - 1)) \<le> py_trunc (975 / 1000 * (real n - 1))"
    by (simp add: py_trunc_nonneg floor_mono)
  from r have "975 / 1000 * (real n - 1) < real n" by simp
  with r show "py_trunc (975 / 1000 * (real n - 1)) < int n"
    by (simp add: py_trunc_nonneg floor_less_iff)
qed

lemma interval_ok:
  assumes "length es = n" and "0 < n" and b: "\<And>e. e \<in> set es \<Longrightarrow> a \<le> e \<and> e \<le> b"
  shows "\<exists>lo hi. interval es n = Inr (lo, hi) \<and> a \<le> lo \<and> lo \<le> hi \<and> hi \<le> b"
proof -
  let ?i = "py_trunc (25 / 1000 * (real n - 1))" and ?j = "py_trunc (975 / 1000 * (real n - 1))"
  note pos = interval_positions [OF assms(2)]
  have i: "py_index (sort es) ?i = Inr (sort es ! nat ?i)"
    by (rule py_index_ok) (use pos assms(1) in simp_all)
  have j: "py_index (sort es) ?j = Inr (sort es ! nat ?j)"
    by (rule py_index_ok) (use pos assms(1) in simp_all)
  have le: "sort es ! nat ?i \<le> sort es ! nat ?j"
    by (rule sorted_nth_mono) (use pos assms(1) in auto)
  have mem: "sort es ! nat ?i \<in> set es" "sort es ! nat ?j \<in> set es"
    using nth_mem [of "nat ?i" "sort es"] nth_mem [of "nat ?j" "sort es"] pos assms(1)
    by (simp_all add: nat_less_iff)
  from i j le b [OF mem(1)] b [OF mem(2)] show ?thesis by (simp add: interval_def Let_def)
qed

section \<open>The contract of a statistic, and the bootstrap over any of them\<close>

text \<open>
  What \<open>build_metric_report\<close> needs of the callables it passes: 0 on no sample, and on a sample a
  value no smaller and no larger than every element.
\<close>

locale sample_statistic =
  fixes stat :: "real list \<Rightarrow> real res"
  assumes stat_Nil: "stat [] = Inr 0"
    and stat_between: "xs \<noteq> [] \<Longrightarrow> (\<And>x. x \<in> set xs \<Longrightarrow> a \<le> x \<and> x \<le> b) \<Longrightarrow>
          \<exists>v. stat xs = Inr v \<and> a \<le> v \<and> v \<le> b"
begin

lemma stat_total: "\<exists>v. stat xs = Inr v"
proof (cases "xs = []")
  case True
  then show ?thesis by (simp add: stat_Nil)
next
  case False
  have "\<And>x. x \<in> set xs \<Longrightarrow> Min (set xs) \<le> x \<and> x \<le> Max (set xs)" by simp
  from stat_between [OF False this] show ?thesis by blast
qed

lemma estimates_between:
  assumes "rng_ok R" and ne: "values \<noteq> []"
    and b: "\<And>x. x \<in> set values \<Longrightarrow> a \<le> x \<and> x \<le> b"
  shows "\<exists>es. bootstrap_estimates R values stat n g = Inr es \<and> length es = n \<and>
           (\<forall>e \<in> set es. a \<le> e \<and> e \<le> b)"
proof (induction n arbitrary: g)
  case (Suc n)
  obtain "is" g' where d: "draws R (length values) (length values) g = (is, g')"
    by (cases "draws R (length values) (length values) g")
  from ne have pos: "0 < length values" by simp
  note ok = draws_ok [OF assms(1) pos d]
  let ?s = "map ((!) values) is"
  have "?s \<noteq> []" using ok(1) ne by auto
  moreover have "a \<le> x \<and> x \<le> b" if "x \<in> set ?s" for x
    using that ok(2) b by auto
  ultimately obtain v where "stat ?s = Inr v" "a \<le> v" "v \<le> b" using stat_between by blast
  moreover obtain es where "bootstrap_estimates R values stat n g' = Inr es" "length es = n"
    "\<forall>e \<in> set es. a \<le> e \<and> e \<le> b" using Suc.IH by blast
  ultimately show ?case by (simp add: d pick_ok [OF ok(2)])
qed simp

lemma delta_estimates_ok:
  assumes "rng_ok R" and "0 < count" and "count \<le> length bs" and "count \<le> length cs"
    and bb: "\<And>x. x \<in> set bs \<Longrightarrow> a \<le> x \<and> x \<le> b" and cc: "\<And>x. x \<in> set cs \<Longrightarrow> a' \<le> x \<and> x \<le> b'"
  shows "\<exists>es. delta_estimates R bs cs stat count n g = Inr es \<and> length es = n \<and>
           (\<forall>e \<in> set es. a' - b \<le> e \<and> e \<le> b' - a)"
proof (induction n arbitrary: g)
  case (Suc n)
  obtain "is" g' where d: "draws R count count g = (is, g')" by (cases "draws R count count g")
  note ok = draws_ok [OF assms(1,2) d]
  have ib: "\<forall>i \<in> set is. i < length bs" and ic: "\<forall>i \<in> set is. i < length cs"
    using ok(2) assms(3,4) by auto
  from ok(1) assms(2) have ne: "is \<noteq> []" by auto
  have "a \<le> x \<and> x \<le> b" if "x \<in> set (map ((!) bs) is)" for x using that ib bb by auto
  with ne obtain v where v: "stat (map ((!) bs) is) = Inr v" "a \<le> v" "v \<le> b"
    using stat_between [of "map ((!) bs) is" a b] by auto
  have "a' \<le> x \<and> x \<le> b'" if "x \<in> set (map ((!) cs) is)" for x using that ic cc by auto
  with ne obtain w where w: "stat (map ((!) cs) is) = Inr w" "a' \<le> w" "w \<le> b'"
    using stat_between [of "map ((!) cs) is" a' b'] by auto
  obtain es where "delta_estimates R bs cs stat count n g' = Inr es" "length es = n"
    "\<forall>e \<in> set es. a' - b \<le> e \<and> e \<le> b' - a" using Suc.IH by blast
  with v w show ?case by (simp add: d pick_ok [OF ib] pick_ok [OF ic])
qed simp

lemma delta_estimates_same:
  assumes "rng_ok R" and "0 < count" and "count \<le> length bs"
  shows "delta_estimates R bs bs stat count n g = Inr (replicate n 0)"
proof (induction n arbitrary: g)
  case (Suc n)
  obtain "is" g' where d: "draws R count count g = (is, g')" by (cases "draws R count count g")
  have ib: "\<forall>i \<in> set is. i < length bs" using draws_ok [OF assms(1,2) d] assms(3) by auto
  obtain v where "stat (map ((!) bs) is) = Inr v" using stat_total by blast
  then show ?case by (simp add: d pick_ok [OF ib] Suc.IH)
qed simp

end

interpretation avg: sample_statistic average_stat
proof unfold_locales
  show "average_stat [] = Inr 0" by (simp add: average_stat_def average_def)
  show "\<exists>v. average_stat xs = Inr v \<and> a \<le> v \<and> v \<le> b"
    if "xs \<noteq> []" "\<And>x. x \<in> set xs \<Longrightarrow> a \<le> x \<and> x \<le> b" for xs :: "real list" and a b
    using average_between [of xs a b] that by (simp add: average_stat_def)
qed

interpretation p95: sample_statistic "\<lambda>values. percentile values (95 / 100)"
proof unfold_locales
  show "percentile [] (95 / 100) = Inr 0" by (simp add: percentile_def)
  show "\<exists>v. percentile xs (95 / 100) = Inr v \<and> a \<le> v \<and> v \<le> b"
    if "xs \<noteq> []" "\<And>x. x \<in> set xs \<Longrightarrow> a \<le> x \<and> x \<le> b" for xs :: "real list" and a b
    using percentile_between [of xs "95 / 100" a b] that by simp
qed

context sample_statistic begin

lemma bootstrap_ci_ok:
  assumes "rng_ok R" and "0 < n" and b: "\<And>x. x \<in> set values \<Longrightarrow> a \<le> x \<and> x \<le> b"
    and "3 \<le> length values"
  shows "\<exists>lo hi. bootstrap_ci R values stat n seed = Inr (lo, hi) \<and> a \<le> lo \<and> lo \<le> hi \<and> hi \<le> b"
proof -
  from assms(4) have ne: "values \<noteq> []" by auto
  obtain es where es: "bootstrap_estimates R values stat n (rng_seed R seed) = Inr es"
    "length es = n" "\<forall>e \<in> set es. a \<le> e \<and> e \<le> b"
    using estimates_between [OF assms(1) ne b] by blast
  with interval_ok [of es n a b] assms(2,4) show ?thesis by (simp add: bootstrap_ci_def)
qed

lemma bootstrap_ci_total:
  assumes "rng_ok R" and "0 < n"
  shows "\<exists>lo hi. bootstrap_ci R values stat n seed = Inr (lo, hi)"
proof (cases "length values < 3")
  case True
  then show ?thesis by (simp add: bootstrap_ci_def)
next
  case False
  then have len: "3 \<le> length values" by simp
  have "\<And>x. x \<in> set values \<Longrightarrow> Min (set values) \<le> x \<and> x \<le> Max (set values)" by simp
  from bootstrap_ci_ok [OF assms this len] show ?thesis by blast
qed

lemma bootstrap_delta_ok:
  assumes "rng_ok R" and "0 < n" and "bs \<noteq> []" and "cs \<noteq> []"
    and bb: "\<And>x. x \<in> set bs \<Longrightarrow> a \<le> x \<and> x \<le> b" and cc: "\<And>x. x \<in> set cs \<Longrightarrow> a' \<le> x \<and> x \<le> b'"
  shows "\<exists>lo hi. bootstrap_delta_ci R bs cs stat n seed = Inr (lo, hi) \<and>
           a' - b \<le> lo \<and> lo \<le> hi \<and> hi \<le> b' - a"
proof -
  let ?count = "min (length bs) (length cs)"
  have "0 < ?count" "?count \<le> length bs" "?count \<le> length cs" using assms(3,4) by simp_all
  from delta_estimates_ok [OF assms(1) this bb cc] obtain es where
    "delta_estimates R bs cs stat ?count n (rng_seed R seed) = Inr es" "length es = n"
    "\<forall>e \<in> set es. a' - b \<le> e \<and> e \<le> b' - a" by blast
  with interval_ok [of es n "a' - b" "b' - a"] assms(2-4) show ?thesis
    by (simp add: bootstrap_delta_ci_def Let_def)
qed

lemma bootstrap_delta_total:
  assumes "rng_ok R" and "0 < n"
  shows "\<exists>lo hi. bootstrap_delta_ci R bs cs stat n seed = Inr (lo, hi)"
proof (cases "bs = [] \<or> cs = []")
  case True
  then show ?thesis by (auto simp: bootstrap_delta_ci_def)
next
  case False
  then have ne: "bs \<noteq> []" "cs \<noteq> []" by auto
  have "\<And>x. x \<in> set bs \<Longrightarrow> Min (set bs) \<le> x \<and> x \<le> Max (set bs)"
    "\<And>x. x \<in> set cs \<Longrightarrow> Min (set cs) \<le> x \<and> x \<le> Max (set cs)" by simp_all
  from bootstrap_delta_ok [OF assms ne this] show ?thesis by blast
qed

lemma bootstrap_delta_same:
  assumes "rng_ok R" and "0 < n"
  shows "bootstrap_delta_ci R bs bs stat n seed = Inr (0, 0)"
proof (cases "bs = []")
  case True
  then show ?thesis by (simp add: bootstrap_delta_ci_def)
next
  case False
  then have "delta_estimates R bs bs stat (length bs) n (rng_seed R seed) = Inr (replicate n 0)"
    by (intro delta_estimates_same [OF assms(1)]) simp_all
  moreover obtain lo hi where "interval (replicate n 0) n = Inr (lo, hi)" "0 \<le> lo" "lo \<le> hi" "hi \<le> 0"
    using interval_ok [of "replicate n 0" n 0 0] assms(2) by auto
  ultimately show ?thesis using False by (simp add: bootstrap_delta_ci_def Let_def)
qed

end

section \<open>Properties\<close>

text \<open>A generator for concrete runs: it walks through the residues.\<close>

definition cycle_rng :: "nat rng" where
  "cycle_rng = \<lparr>rng_seed = nat, rng_below = (\<lambda>g n. (g mod n, Suc g))\<rparr>"

lemma cycle_rng_ok: "rng_ok cycle_rng"
  by (simp add: rng_ok_def cycle_rng_def)

text \<open>for a quantile between 0 and 1, \<open>percentile\<close> of a non-empty sample never raises and its
  interpolated value lies between the smallest and the largest observation.\<close>

theorem percentile_in_range:
  assumes "xs \<noteq> []" and "0 \<le> q" and "q \<le> 1"
  shows "\<exists>v. percentile xs q = Inr v \<and> Min (set xs) \<le> v \<and> v \<le> Max (set xs)"
  by (rule percentile_between [OF assms]) simp

theorem percentile_in_range_witness:
  "\<exists>v. percentile [4, 1, 3] (95 / 100) = Inr v \<and> Min (set [4, 1, 3]) \<le> v \<and> v \<le> Max (set [4, 1, 3])"
  by (rule percentile_in_range) simp_all

text \<open>C27: the bootstrap interval of the mean is an interval (lower end not above the upper one) inside
  the range of the observations, for every seed and every positive number of resamples.\<close>

theorem bootstrap_ci_sound:
  assumes "rng_ok R" and "0 < n" and "3 \<le> length values"
  shows "\<exists>lo hi. bootstrap_ci R values average_stat n seed = Inr (lo, hi) \<and>
           Min (set values) \<le> lo \<and> lo \<le> hi \<and> hi \<le> Max (set values)"
  by (rule avg.bootstrap_ci_ok [OF assms(1,2) _ assms(3)]) simp

theorem bootstrap_ci_sound_witness:
  "\<exists>lo hi. bootstrap_ci cycle_rng [1, 2, 6] average_stat 1000 42 = Inr (lo, hi) \<and>
     Min (set [1, 2, 6]) \<le> lo \<and> lo \<le> hi \<and> hi \<le> Max (set [1, 2, 6])"
  by (rule bootstrap_ci_sound [OF cycle_rng_ok]) simp_all

text \<open>a sample compared with itself is never reported as a regression, in either direction and for
  any non-negative tolerance, and any other direction name is rejected.\<close>

theorem self_comparison_not_significant:
  assumes "rng_ok R" and "0 < n" and "0 \<le> tolerance"
  shows "is_significant_regression R vs vs average_stat direction tolerance n seed =
     (if direction \<in> {''higher_better'', ''lower_better''} then
        Inr (False, regression_message ''No significant regression: '' (average vs) (average vs) 0 0 0)
      else Inl (Exn ValueErr (''direction must be '' @ py_repr_str ''higher_better'' @ '' or '' @
             py_repr_str ''lower_better'')))"
proof -
  have "bootstrap_delta_ci R vs vs average_stat n seed = Inr (0, 0)"
    by (rule avg.bootstrap_delta_same [OF assms(1,2)])
  moreover have "average_stat vs = Inr (average vs)" by (simp add: average_stat_def)
  ultimately show ?thesis
    using assms(3) by (simp add: is_significant_regression_def Let_def)
qed

theorem self_comparison_not_significant_witness:
  "is_significant_regression cycle_rng [1, 2, 3] [1, 2, 3] average_stat ''lower_better'' 0 1000 42 =
     Inr (False, regression_message ''No significant regression: '' 2 2 0 0 0)"
  using self_comparison_not_significant [OF cycle_rng_ok, of 1000 0 "[1, 2, 3]" "''lower_better''" 42]
  by (simp add: average_def)

end
