(* ===== verification/Calibration.thy ===== *)
theory Calibration imports Statistics "HOL-Library.Product_Lexorder" "HOL-Library.Multiset" begin

text \<open>
  \<open>backend/app/services/flakiness.py\<close> (classification of repeated scores by their population
  standard deviation) and \<open>backend/app/services/calibration.py\<close> (Pearson and Spearman
  correlation, tie-averaged ranks, and the confusion matrix of evaluator scores against gold labels).
\<close>

section \<open>Flaky cases\<close>

definition STABLE_STDDEV_THRESHOLD :: real where
  "STABLE_STDDEV_THRESHOLD = 5 / 100"

definition INCONCLUSIVE_STDDEV_THRESHOLD :: real where
  "INCONCLUSIVE_STDDEV_THRESHOLD = 20 / 100"

record flaky_case =
  fc_case_id :: string
  fc_run_count :: nat
  fc_mean_score :: real
  fc_score_stddev :: real
  fc_classification :: string

record flakiness_summary =
  fs_total_cases :: nat
  fs_stable_count :: nat
  fs_flaky_count :: nat
  fs_inconclusive_count :: nat
  fs_excluded_from_gate :: "string list"

text \<open>\<open>statistics.pstdev\<close>.\<close>

definition pstdev :: "real list \<Rightarrow> real" where
  "pstdev xs =
     sqrt (sum_list (map (\<lambda>x. (x - average xs) ^ 2) xs) / real (length xs))"

definition classification_for_stddev :: "real \<Rightarrow> string" where
  "classification_for_stddev score_stddev =
     (if score_stddev < STABLE_STDDEV_THRESHOLD then ''stable''
      else if score_stddev < INCONCLUSIVE_STDDEV_THRESHOLD then ''flaky''
      else ''inconclusive'')"

definition classify_case :: "string \<Rightarrow> real list \<Rightarrow> flaky_case res" where
  "classify_case case_id scores =
     (if length scores < 2 then
        Inl (Exn ValueErr (''case '' @ case_id @ '' needs at least two scores for flakiness detection''))
      else Inr \<lparr>fc_case_id = case_id, fc_run_count = length scores, fc_mean_score = average scores,
                fc_score_stddev = pstdev scores,
                fc_classification = classification_for_stddev (pstdev scores)\<rparr>)"

definition classify_flaky_cases ::
  "(string \<times> real list) list \<Rightarrow> (string \<times> flaky_case) list res" where
  "classify_flaky_cases observations =
     map_res (\<lambda>(case_id, scores). and_then (classify_case case_id scores) (\<lambda>c. Inr (case_id, c)))
       observations"

definition summarize_flakiness :: "(string \<times> flaky_case) list \<Rightarrow> flakiness_summary" where
  "summarize_flakiness classifications =
     \<lparr>fs_total_cases = length classifications,
      fs_stable_count =
        length (filter (\<lambda>c. fc_classification (snd c) = ''stable'') classifications),
      fs_flaky_count =
        length (filter (\<lambda>c. fc_classification (snd c) = ''flaky'') classifications),
      fs_inconclusive_count =
        length (filter (\<lambda>c. fc_classification (snd c) = ''inconclusive'') classifications),
      fs_excluded_from_gate =
        map fst (filter (\<lambda>c. fc_classification (snd c) \<in> {''flaky'', ''inconclusive''})
          classifications)\<rparr>"

section \<open>Correlation\<close>

definition normalize_gold_label :: "real \<Rightarrow> real" where
  "normalize_gold_label label = (label - 1) / 4"

definition pearson_correlation :: "real list \<Rightarrow> real list \<Rightarrow> real" where
  "pearson_correlation evaluator_scores gold_labels =
     (if length evaluator_scores \<noteq> length gold_labels \<or> length evaluator_scores < 2 then 0
      else
        let x_values = evaluator_scores;
            y_values = map normalize_gold_label gold_labels;
            x_mean = sum_list x_values / real (length x_values);
            y_mean = sum_list y_values / real (length y_values);
            numerator = sum_list (map (\<lambda>(x, y). (x - x_mean) * (y - y_mean)) (zip x_values y_values));
            x_denominator = sqrt (sum_list (map (\<lambda>x. (x - x_mean) ^ 2) x_values));
            y_denominator = sqrt (sum_list (map (\<lambda>y. (y - y_mean) ^ 2) y_values))
        in if x_denominator = 0 \<or> y_denominator = 0 then 0
           else py_round 6 (numerator / (x_denominator * y_denominator)))"

text \<open>The two \<open>while\<close> loops of \<open>rank\<close>: the end of a run of ties, and the walk over the runs.\<close>

function rank_end :: "(real \<times> nat) list \<Rightarrow> nat \<Rightarrow> nat \<Rightarrow> nat" where
  "rank_end ordered position end_pos =
     (if end_pos + 1 < length ordered \<and> fst (ordered ! (end_pos + 1)) = fst (ordered ! position)
      then rank_end ordered position (end_pos + 1) else end_pos)"
  by pat_completeness auto
termination
  by (relation "measure (\<lambda>(ordered, position, end_pos). length ordered - end_pos)") auto

declare rank_end.simps [simp del]

lemma rank_end_ge: "e \<le> rank_end ordered p e"
proof (induction ordered p e rule: rank_end.induct)
  case (1 ordered p e)
  then show ?case by (auto simp: rank_end.simps [of ordered p e])
qed

function rank_loop :: "(real \<times> nat) list \<Rightarrow> nat \<Rightarrow> real list \<Rightarrow> real list" where
  "rank_loop ordered position ranks =
     (if position < length ordered then
        let end_pos = rank_end ordered position position;
            average_rank = real (position + end_pos + 2) / 2
        in rank_loop ordered (end_pos + 1)
             (foldl (\<lambda>rs p. rs[snd p := average_rank]) ranks (py_slice position (end_pos + 1) ordered))
      else ranks)"
  by pat_completeness auto
termination
proof (relation "measure (\<lambda>(ordered, position, ranks). length ordered - position)", goal_cases)
  case (2 ordered position ranks e a)
  then show ?case using rank_end_ge [of position ordered position] by simp
qed simp

declare rank_loop.simps [simp del]

definition rank :: "real list \<Rightarrow> real list" where
  "rank values =
     rank_loop (sort (zip values [0..<length values])) 0 (replicate (length values) 0)"

definition spearman_correlation :: "real list \<Rightarrow> real list \<Rightarrow> real" where
  "spearman_correlation evaluator_scores gold_labels =
     (if length evaluator_scores \<noteq> length gold_labels \<or> length evaluator_scores < 2 then 0
      else pearson_correlation (rank evaluator_scores) (rank gold_labels))"

section \<open>Confusion matrix\<close>

definition bin_evaluator_score :: "real \<Rightarrow> string" where
  "bin_evaluator_score score =
     (if 7 / 10 \<le> score then ''pass'' else if 5 / 10 \<le> score then ''borderline'' else ''fail'')"

definition bin_gold_label :: "int \<Rightarrow> string" where
  "bin_gold_label label =
     (if 4 \<le> label then ''pass'' else if label = 3 then ''borderline'' else ''fail'')"

type_synonym matrix = "(string \<times> (string \<times> nat) list) list"

definition matrix_labels :: "string list" where
  "matrix_labels = [''pass'', ''borderline'', ''fail'']"

definition empty_matrix :: matrix where
  "empty_matrix = map (\<lambda>row. (row, map (\<lambda>column. (column, 0)) matrix_labels)) matrix_labels"

definition cell :: "string \<Rightarrow> string \<Rightarrow> matrix \<Rightarrow> nat" where
  "cell row column m =
     (case map_of m row of
        None \<Rightarrow> 0
      | Some r \<Rightarrow> (case map_of r column of None \<Rightarrow> 0 | Some k \<Rightarrow> k))"

text \<open>\<open>matrix[row][column] += 1\<close>.\<close>

definition bump_cell :: "string \<Rightarrow> string \<Rightarrow> matrix \<Rightarrow> matrix" where
  "bump_cell row column m =
     map (\<lambda>(r, cols). if r = row
        then (r, map (\<lambda>(c, k). if c = column then (c, k + 1) else (c, k)) cols) else (r, cols)) m"

text \<open>\<open>zip(..., strict=True)\<close> raises \<open>ValueError\<close> when the lengths differ.\<close>

definition confusion_matrix :: "real list \<Rightarrow> int list \<Rightarrow> matrix res" where
  "confusion_matrix evaluator_scores gold_labels =
     (if length evaluator_scores \<noteq> length gold_labels then
        Inl (Exn ValueErr (''zip() argument 2 is '' @
          (if length gold_labels < length evaluator_scores then ''shorter'' else ''longer'') @
          '' than argument 1''))
      else Inr (foldl (\<lambda>m (score, label). bump_cell (bin_evaluator_score score) (bin_gold_label label) m)
             empty_matrix (zip evaluator_scores gold_labels)))"

section \<open>Lemmas\<close>

lemma classification_cases:
  "classification_for_stddev d \<in> {''stable'', ''flaky'', ''inconclusive''}"
  by (simp add: classification_for_stddev_def)

lemma length_filter_3:
  assumes "\<And>x. x \<in> set xs \<Longrightarrow> f x \<in> {a, b, c}" and "distinct [a, b, c]"
  shows "length (filter (\<lambda>x. f x = a) xs) + length (filter (\<lambda>x. f x = b) xs) +
         length (filter (\<lambda>x. f x = c) xs) = length xs"
  using assms by (induction xs) auto

lemma classify_flaky_cases_nth:
  assumes "classify_flaky_cases obs = Inr cs" and "(k, c) \<in> set cs"
  shows "\<exists>scores. (k, scores) \<in> set obs \<and> c = \<lparr>fc_case_id = k, fc_run_count = length scores,
           fc_mean_score = average scores, fc_score_stddev = pstdev scores,
           fc_classification = classification_for_stddev (pstdev scores)\<rparr>"
  using map_res_set [OF assms(1) [unfolded classify_flaky_cases_def] assms(2)]
  by (auto simp: and_then_Inr_iff classify_case_def split: if_splits)

lemma cauchy_schwarz_step:
  fixes S A B a b :: real
  assumes "S ^ 2 \<le> A * B" and "0 \<le> A" and "0 \<le> B"
  shows "(S + a * b) ^ 2 \<le> (A + a ^ 2) * (B + b ^ 2)"
proof -
  have "(2 * S * a * b) ^ 2 = 4 * a ^ 2 * b ^ 2 * S ^ 2" by (simp add: power_mult_distrib)
  also have "\<dots> \<le> 4 * a ^ 2 * b ^ 2 * (A * B)" by (rule mult_left_mono [OF assms(1)]) simp
  also have "\<dots> \<le> 4 * a ^ 2 * b ^ 2 * (A * B) + (A * b ^ 2 - B * a ^ 2) ^ 2" by simp
  also have "\<dots> = (A * b ^ 2 + B * a ^ 2) ^ 2" by (simp add: power2_eq_square algebra_simps)
  finally have "2 * S * a * b \<le> A * b ^ 2 + B * a ^ 2"
    by (rule power2_le_imp_le) (use assms in simp)
  with assms(1) show ?thesis by (simp add: power2_eq_square algebra_simps)
qed

lemma cauchy_schwarz_list:
  fixes f g :: "'a \<Rightarrow> real"
  shows "(sum_list (map (\<lambda>p. f p * g p) ps)) ^ 2 \<le>
           sum_list (map (\<lambda>p. f p ^ 2) ps) * sum_list (map (\<lambda>p. g p ^ 2) ps)"
proof (induction ps)
  case (Cons p ps)
  have "0 \<le> sum_list (map (\<lambda>p. f p ^ 2) ps)" "0 \<le> sum_list (map (\<lambda>p. g p ^ 2) ps)"
    by (auto intro!: sum_list_nonneg)
  from cauchy_schwarz_step [OF Cons this, of "f p" "g p"] show ?case
    by (simp add: algebra_simps)
qed simp

lemma cauchy_schwarz_quotient:
  fixes N X Y :: real
  assumes "N ^ 2 \<le> X * Y" and "0 \<le> X" and "0 \<le> Y"
  shows "\<bar>N / (sqrt X * sqrt Y)\<bar> \<le> 1"
proof -
  have "\<bar>N\<bar> = sqrt (N ^ 2)" by simp
  also have "\<dots> \<le> sqrt (X * Y)" using assms(1) by (rule real_sqrt_le_mono)
  finally have n: "\<bar>N\<bar> \<le> sqrt X * sqrt Y" by (simp add: real_sqrt_mult)
  show ?thesis
  proof (cases "sqrt X * sqrt Y = 0")
    case False
    moreover have "0 \<le> sqrt X * sqrt Y" using assms(2,3) by simp
    ultimately have pos: "0 < sqrt X * sqrt Y" by linarith
    then have "\<bar>N / (sqrt X * sqrt Y)\<bar> = \<bar>N\<bar> / (sqrt X * sqrt Y)"
      by (simp only: abs_divide abs_of_pos)
    also have "\<dots> \<le> 1" using n pos by (simp only: divide_le_eq_1_pos)
    finally show ?thesis .
  qed (simp only: div_by_0 abs_zero zero_le_one)
qed

lemma py_round_abs_unit:
  assumes "\<bar>x\<bar> \<le> 1" shows "\<bar>py_round n x\<bar> \<le> 1"
proof -
  have m: "py_round n (-1) = -1" using py_round_of_nat_power [of n "-1"] by simp
  from assms have "-1 \<le> x" "x \<le> 1" by linarith+
  from py_round_mono [OF this(1), of n] py_round_mono [OF this(2), of n] show ?thesis
    unfolding m py_round_1 by linarith
qed

lemma map_of_map_key:
  "map_of (map (\<lambda>(r, v). if r = k then (r, f v) else (r, v)) m) k' =
     (if k' = k then map_option f (map_of m k') else map_of m k')"
  by (induction m) auto

definition full_matrix :: "matrix \<Rightarrow> bool" where
  "full_matrix m \<longleftrightarrow> (\<forall>r \<in> set matrix_labels. \<exists>cols. map_of m r = Some cols \<and>
     (\<forall>c \<in> set matrix_labels. \<exists>k. map_of cols c = Some k))"

lemma full_empty_matrix: "full_matrix empty_matrix"
  by (simp add: full_matrix_def empty_matrix_def matrix_labels_def)

lemma map_of_bump_cell:
  "map_of (bump_cell row column m) r =
     (if r = row then map_option (map (\<lambda>(c, k). if c = column then (c, k + 1) else (c, k))) (map_of m r)
      else map_of m r)"
  unfolding bump_cell_def by (rule map_of_map_key)

lemma full_bump_cell:
  assumes "full_matrix m" shows "full_matrix (bump_cell row column m)"
  unfolding full_matrix_def
proof (rule ballI)
  fix r assume "r \<in> set matrix_labels"
  with assms obtain cols where cols: "map_of m r = Some cols"
    and full: "\<forall>c \<in> set matrix_labels. \<exists>k. map_of cols c = Some k"
    unfolding full_matrix_def by blast
  show "\<exists>cols. map_of (bump_cell row column m) r = Some cols \<and>
      (\<forall>c \<in> set matrix_labels. \<exists>k. map_of cols c = Some k)"
  proof (cases "r = row")
    case True
    with cols have "map_of (bump_cell row column m) r =
        Some (map (\<lambda>(c, k). if c = column then (c, k + 1) else (c, k)) cols)"
      by (simp add: map_of_bump_cell)
    moreover from full have "\<forall>c \<in> set matrix_labels. \<exists>k.
        map_of (map (\<lambda>(c, k). if c = column then (c, k + 1) else (c, k)) cols) c = Some k"
      by (simp add: map_of_map_key)
    ultimately show ?thesis by blast
  next
    case False
    with cols full show ?thesis by (simp add: map_of_bump_cell)
  qed
qed

lemma cell_bump_cell:
  assumes "full_matrix m" and "row \<in> set matrix_labels" and "column \<in> set matrix_labels"
  shows "cell r c (bump_cell row column m) = cell r c m + (if r = row \<and> c = column then 1 else 0)"
proof -
  obtain cols k where "map_of m row = Some cols" "map_of cols column = Some k"
    using assms unfolding full_matrix_def by blast
  then show ?thesis by (auto simp: cell_def map_of_bump_cell map_of_map_key split: option.splits)
qed

lemma bins_in_labels:
  "bin_evaluator_score s \<in> set matrix_labels" "bin_gold_label l \<in> set matrix_labels"
  by (simp_all add: bin_evaluator_score_def bin_gold_label_def matrix_labels_def)

lemma cell_foldl_bump:
  assumes "full_matrix m"
  shows "cell r c (foldl (\<lambda>m (score, label). bump_cell (bin_evaluator_score score)
            (bin_gold_label label) m) m ps) =
         cell r c m + length (filter (\<lambda>(s, l). bin_evaluator_score s = r \<and> bin_gold_label l = c) ps)"
  using assms
proof (induction ps arbitrary: m)
  case (Cons p ps)
  obtain s l where p: "p = (s, l)" by (cases p)
  note step = cell_bump_cell [OF Cons.prems bins_in_labels(1) [of s] bins_in_labels(2) [of l]]
  show ?case using Cons.IH [OF full_bump_cell [OF Cons.prems]] by (auto simp: p step)
qed simp

subsection \<open>Ranks\<close>

definition tie_run :: "(real \<times> nat) list \<Rightarrow> nat \<Rightarrow> nat \<Rightarrow> bool" where
  "tie_run ordered p e \<longleftrightarrow> (\<forall>q. p \<le> q \<and> q \<le> e \<longrightarrow> fst (ordered ! q) = fst (ordered ! p))"

lemma tie_runD: "tie_run ordered p e \<Longrightarrow> p \<le> q \<Longrightarrow> q \<le> e \<Longrightarrow> fst (ordered ! q) = fst (ordered ! p)"
  unfolding tie_run_def by blast

lemma tie_run_refl: "tie_run ordered p p"
  unfolding tie_run_def by (metis le_antisym)

lemma tie_run_Suc:
  assumes "tie_run ordered p e" and "fst (ordered ! (e + 1)) = fst (ordered ! p)"
  shows "tie_run ordered p (e + 1)"
  unfolding tie_run_def
proof (intro allI impI)
  fix q assume "p \<le> q \<and> q \<le> e + 1"
  then consider "p \<le> q" "q \<le> e" | "q = e + 1" by linarith
  then show "fst (ordered ! q) = fst (ordered ! p)"
    using assms tie_runD by cases blast+
qed

lemma rank_end_run:
  assumes "e < length ordered" and "tie_run ordered p e"
  shows "rank_end ordered p e < length ordered \<and> tie_run ordered p (rank_end ordered p e) \<and>
     (rank_end ordered p e + 1 < length ordered \<longrightarrow>
        fst (ordered ! (rank_end ordered p e + 1)) \<noteq> fst (ordered ! p))"
  using assms
proof (induction ordered p e rule: rank_end.induct)
  case (1 ordered p e)
  show ?case
  proof (cases "e + 1 < length ordered \<and> fst (ordered ! (e + 1)) = fst (ordered ! p)")
    case True
    then have "rank_end ordered p e = rank_end ordered p (e + 1)"
      by (simp add: rank_end.simps [of ordered p e])
    with "1.IH" [OF True _ tie_run_Suc] "1.prems"(2) True show ?thesis by simp
  next
    case False
    then have "rank_end ordered p e = e" by (auto simp: rank_end.simps [of ordered p e])
    with "1.prems" False show ?thesis by auto
  qed
qed

lemma foldl_update_nth:
  "foldl (\<lambda>rs p. rs[snd p := a]) rs ps ! i =
     (if i \<in> snd ` set ps \<and> i < length rs then a else rs ! i)"
proof (induction ps arbitrary: rs)
  case (Cons p ps)
  then show ?case by (cases "i < length rs"; cases "snd p = i") (auto simp: not_less list_update_beyond)
qed simp

lemma length_foldl_update: "length (foldl (\<lambda>rs p. rs[snd p := a]) rs ps) = length rs"
  by (induction ps arbitrary: rs) auto

lemma filter_split_at:
  assumes "k \<le> length xs" and "\<And>i. i < k \<Longrightarrow> P (xs ! i)"
    and "\<And>i. k \<le> i \<Longrightarrow> i < length xs \<Longrightarrow> \<not> P (xs ! i)"
  shows "length (filter P xs) = k"
proof -
  have "filter P (take k xs) = take k xs"
    using assms(1,2) by (auto simp: filter_id_conv in_set_conv_nth)
  moreover have "filter P (drop k xs) = []"
    using assms(3) by (auto simp: filter_empty_conv in_set_conv_nth)
  ultimately have "filter P xs = take k xs"
    by (metis append_Nil2 append_take_drop_id filter_append)
  with assms(1) show ?thesis by simp
qed

lemma filter_segment:
  assumes "p \<le> k" and "k \<le> length xs" and "\<And>i. p \<le> i \<Longrightarrow> i < k \<Longrightarrow> P (xs ! i)"
    and "\<And>i. i < p \<Longrightarrow> \<not> P (xs ! i)" and "\<And>i. k \<le> i \<Longrightarrow> i < length xs \<Longrightarrow> \<not> P (xs ! i)"
  shows "length (filter P xs) = k - p"
proof -
  have "filter P (take p xs) = []"
    using assms(1,2,4) by (auto simp: filter_empty_conv in_set_conv_nth)
  then have "length (filter P xs) = length (filter P (drop p xs))"
    by (metis append_Nil append_take_drop_id filter_append)
  also have "\<dots> = k - p"
    by (rule filter_split_at) (use assms in \<open>auto simp: less_diff_conv add.commute\<close>)
  finally show ?thesis .
qed

definition mid_rank :: "(real \<times> nat) list \<Rightarrow> real \<Rightarrow> real" where
  "mid_rank ordered v =
     real (2 * length (filter (\<lambda>p. fst p < v) ordered) + length (filter (\<lambda>p. fst p = v) ordered) + 1) / 2"

lemma run_mid_rank:
  assumes "sorted (map fst ordered)" and p: "p < length ordered"
    and below: "\<forall>q < p. fst (ordered ! q) < fst (ordered ! p)"
  defines "e \<equiv> rank_end ordered p p"
  shows "mid_rank ordered (fst (ordered ! p)) = real (p + e + 2) / 2" and "e < length ordered"
    and "p \<le> e" and "\<And>q. p \<le> q \<Longrightarrow> q \<le> e \<Longrightarrow> fst (ordered ! q) = fst (ordered ! p)"
    and "\<And>q. e < q \<Longrightarrow> q < length ordered \<Longrightarrow> fst (ordered ! p) < fst (ordered ! q)"
proof -
  have run: "e < length ordered" "tie_run ordered p e"
    "e + 1 < length ordered \<longrightarrow> fst (ordered ! (e + 1)) \<noteq> fst (ordered ! p)"
    using rank_end_run [OF p tie_run_refl] by (simp_all add: e_def)
  have pe: "p \<le> e" by (simp add: e_def rank_end_ge)
  have mono: "fst (ordered ! i) \<le> fst (ordered ! j)" if "i \<le> j" "j < length ordered" for i j
    using sorted_nth_mono [OF assms(1), of i j] that by simp
  have gt: "fst (ordered ! p) < fst (ordered ! q)" if "e < q" "q < length ordered" for q
  proof -
    from that have "e + 1 < length ordered" "fst (ordered ! (e + 1)) \<le> fst (ordered ! q)"
      using mono [of "e + 1" q] by auto
    moreover have "fst (ordered ! p) \<le> fst (ordered ! (e + 1))"
      using calculation pe mono [of p "e + 1"] by simp
    ultimately show ?thesis using run(3) by auto
  qed
  have "length (filter (\<lambda>r. fst r < fst (ordered ! p)) ordered) = p"
  proof (rule filter_split_at)
    show "p \<le> length ordered" using p by simp
    show "fst (ordered ! i) < fst (ordered ! p)" if "i < p" for i using below that by blast
    show "\<not> fst (ordered ! i) < fst (ordered ! p)" if "p \<le> i" "i < length ordered" for i
      using mono [OF that] by simp
  qed
  moreover have "length (filter (\<lambda>r. fst r = fst (ordered ! p)) ordered) = e + 1 - p"
  proof (rule filter_segment)
    show "p \<le> e + 1" "e + 1 \<le> length ordered" using pe run(1) by simp_all
    show "fst (ordered ! i) = fst (ordered ! p)" if "p \<le> i" "i < e + 1" for i
      using tie_runD [OF run(2), of i] that by simp
    show "fst (ordered ! i) \<noteq> fst (ordered ! p)" if "i < p" for i
      using below that by fastforce
    show "fst (ordered ! i) \<noteq> fst (ordered ! p)" if "e + 1 \<le> i" "i < length ordered" for i
      using gt [of i] that by simp
  qed
  ultimately show "mid_rank ordered (fst (ordered ! p)) = real (p + e + 2) / 2"
    using pe by (simp add: mid_rank_def)
  show "e < length ordered" "p \<le> e" using run pe by auto
  show "\<And>q. p \<le> q \<Longrightarrow> q \<le> e \<Longrightarrow> fst (ordered ! q) = fst (ordered ! p)" by (rule tie_runD [OF run(2)])
  show "\<And>q. e < q \<Longrightarrow> q < length ordered \<Longrightarrow> fst (ordered ! p) < fst (ordered ! q)" by (rule gt)
qed

lemma rank_loop_ranks:
  assumes "sorted (map fst ordered)" and "distinct (map snd ordered)"
    and "\<forall>r \<in> set ordered. snd r < length ranks"
    and "position < length ordered \<Longrightarrow>
           \<forall>q < position. fst (ordered ! q) < fst (ordered ! position)"
    and "\<forall>q < min position (length ordered).
           ranks ! snd (ordered ! q) = mid_rank ordered (fst (ordered ! q))"
    and "i < length ordered"
  shows "rank_loop ordered position ranks ! snd (ordered ! i) = mid_rank ordered (fst (ordered ! i))"
  using assms
proof (induction ordered position ranks rule: rank_loop.induct)
  case (1 ordered p ranks)
  show ?case
  proof (cases "p < length ordered")
    case False
    then have "rank_loop ordered p ranks = ranks" by (simp add: rank_loop.simps [of ordered p ranks])
    with "1.prems"(5,6) False show ?thesis by simp
  next
    case True
    define e where "e = rank_end ordered p p"
    define a where "a = real (p + e + 2) / 2"
    define ranks' where
      "ranks' = foldl (\<lambda>rs r. rs[snd r := a]) ranks (py_slice p (e + 1) ordered)"
    note lt = "1.prems"(4) [OF True]
    note run = run_mid_rank [OF "1.prems"(1) True lt, folded e_def]
    have in_seg: "snd (ordered ! q) \<in> snd ` set (py_slice p (e + 1) ordered) \<longleftrightarrow> p \<le> q \<and> q \<le> e"
      if "q < length ordered" for q
    proof -
      have "q = j" if "snd (ordered ! q) = snd (ordered ! j)" "j \<le> e" for j
        using nth_eq_iff_index_eq [OF "1.prems"(2), of q j] that \<open>q < length ordered\<close> run(2) by simp
      moreover have "set (py_slice p (e + 1) ordered) = (!) ordered ` {p..<e + 1}"
        by (rule set_py_slice_nth) (use run(2) in simp)
      ultimately show ?thesis by (auto simp: image_iff)
    qed
    have seg: "ranks' ! snd (ordered ! q) = (if p \<le> q \<and> q \<le> e then a else ranks ! snd (ordered ! q))"
      if "q < length ordered" for q
      using in_seg [OF that] "1.prems"(3) that by (simp add: ranks'_def foldl_update_nth)
    have mid: "ranks' ! snd (ordered ! q) = mid_rank ordered (fst (ordered ! q))"
      if "q < min (e + 1) (length ordered)" for q
    proof (cases "p \<le> q")
      case True
      then have "fst (ordered ! q) = fst (ordered ! p)" by (rule run(4)) (use that in simp)
      then show ?thesis using seg [of q] run(1) True that by (simp add: a_def)
    next
      case False
      then show ?thesis using seg [of q] "1.prems"(5) that by simp
    qed
    have below: "fst (ordered ! q) < fst (ordered ! (e + 1))"
      if "e + 1 < length ordered" "q < e + 1" for q
    proof (cases "p \<le> q")
      case True
      then have "fst (ordered ! q) = fst (ordered ! p)" by (rule run(4)) (use that in simp)
      then show ?thesis using run(5) [of "e + 1"] that by simp
    next
      case False
      then show ?thesis using spec [OF lt, of q] run(5) [of "e + 1"] that by simp
    qed
    have step: "rank_loop ordered p ranks = rank_loop ordered (e + 1) ranks'"
      using True by (simp add: rank_loop.simps [of ordered p ranks] Let_def e_def a_def ranks'_def)
    have "rank_loop ordered (e + 1) ranks' ! snd (ordered ! i) = mid_rank ordered (fst (ordered ! i))"
      unfolding ranks'_def a_def e_def
    proof (rule "1.IH" [OF True refl refl "1.prems"(1,2)], goal_cases)
      case 1
      then show ?case using "1.prems"(3) by (simp add: length_foldl_update)
    next
      case 2
      then show ?case using below unfolding e_def by blast
    next
      case 3
      then show ?case using mid unfolding ranks'_def a_def e_def by blast
    next
      case 4
      then show ?case using "1.prems"(6) .
    qed
    with step show ?thesis by simp
  qed
qed

lemma length_filter_perm:
  assumes "mset xs = mset ys" shows "length (filter P xs) = length (filter P ys)"
  using assms by (metis mset_filter size_mset)

lemma sorted_pairs:
  fixes xs :: "real list"
  defines "ordered \<equiv> sort (zip xs [0..<length xs])"
  shows "sorted (map fst ordered)" and "distinct (map snd ordered)"
    and "length ordered = length xs" and "mset (map fst ordered) = mset xs"
    and "\<And>p. p \<in> set ordered \<Longrightarrow> snd p < length xs \<and> fst p = xs ! snd p"
    and "\<And>i. i < length xs \<Longrightarrow> \<exists>k < length ordered. ordered ! k = (xs ! i, i)"
proof -
  have m: "mset ordered = mset (zip xs [0..<length xs])" by (simp add: ordered_def)
  have "sorted ordered" by (simp add: ordered_def)
  then show "sorted (map fst ordered)"
    by (auto simp: sorted_iff_nth_mono less_eq_prod_def split: prod.splits)
      (metis (no_types, lifting) less_eq_prod_def order_less_imp_le prod.collapse)
  have "mset (map snd ordered) = mset (map snd (zip xs [0..<length xs]))"
    using m by (metis mset_map)
  then show "distinct (map snd ordered)"
    by (metis distinct_upt diff_zero length_upt map_snd_zip mset_eq_imp_distinct_iff)
  show len: "length ordered = length xs" by (simp add: ordered_def)
  have "mset (map fst ordered) = mset (map fst (zip xs [0..<length xs]))"
    using m by (metis mset_map)
  then show "mset (map fst ordered) = mset xs" by simp
  have s: "set ordered = set (zip xs [0..<length xs])" by (simp add: ordered_def)
  show "snd p < length xs \<and> fst p = xs ! snd p" if "p \<in> set ordered" for p
    using that unfolding s by (auto simp: set_zip)
  show "\<exists>k < length ordered. ordered ! k = (xs ! i, i)" if "i < length xs" for i
  proof -
    have "(xs ! i, i) \<in> set ordered" unfolding s using that by (auto simp: set_zip)
    then show ?thesis by (auto simp: in_set_conv_nth)
  qed
qed

lemma mid_rank_filter:
  assumes "mset (map fst ordered) = mset xs"
  shows "mid_rank ordered v =
     real (2 * length (filter (\<lambda>x. x < v) xs) + length (filter (\<lambda>x. x = v) xs) + 1) / 2"
proof -
  have "length (filter (\<lambda>p. P (fst p)) ordered) = length (filter P xs)" for P
    using length_filter_perm [OF assms, of P] by (simp add: filter_map comp_def)
  from this [of "\<lambda>x. x < v"] this [of "\<lambda>x. x = v"] show ?thesis by (simp add: mid_rank_def)
qed

section \<open>Properties\<close>

text \<open>the classified cases split into stable, flaky and inconclusive ones, and exactly the cases
  whose scores spread by 0.05 or more are kept out of the gate.\<close>

theorem flakiness_summary_partition:
  assumes "classify_flaky_cases observations = Inr classified"
  shows "fs_stable_count (summarize_flakiness classified) +
           fs_flaky_count (summarize_flakiness classified) +
           fs_inconclusive_count (summarize_flakiness classified) = length observations \<and>
         set (fs_excluded_from_gate (summarize_flakiness classified)) =
           {case_id. \<exists>c. (case_id, c) \<in> set classified \<and> 5 / 100 \<le> fc_score_stddev c}"
proof (rule conjI)
  have cls: "fc_classification (snd c) = classification_for_stddev (fc_score_stddev (snd c))"
    if "c \<in> set classified" for c
    using classify_flaky_cases_nth [OF assms, of "fst c" "snd c"] that by auto
  have "fc_classification (snd c) \<in> {''stable'', ''flaky'', ''inconclusive''}"
    if "c \<in> set classified" for c
    unfolding cls [OF that] by (rule classification_cases)
  from length_filter_3 [of classified "\<lambda>c. fc_classification (snd c)", OF this] map_res_length [OF assms [unfolded classify_flaky_cases_def]]
  show "fs_stable_count (summarize_flakiness classified) +
      fs_flaky_count (summarize_flakiness classified) +
      fs_inconclusive_count (summarize_flakiness classified) = length observations"
    by (simp add: summarize_flakiness_def)
  have "fc_classification (snd c) \<in> {''flaky'', ''inconclusive''} \<longleftrightarrow>
      5 / 100 \<le> fc_score_stddev (snd c)" if "c \<in> set classified" for c
    unfolding cls [OF that]
    by (simp add: classification_for_stddev_def STABLE_STDDEV_THRESHOLD_def)
  then show "set (fs_excluded_from_gate (summarize_flakiness classified)) =
      {case_id. \<exists>c. (case_id, c) \<in> set classified \<and> 5 / 100 \<le> fc_score_stddev c}"
    by (force simp: summarize_flakiness_def)
qed

theorem flakiness_summary_partition_witness:
  "\<exists>classified. classify_flaky_cases [(''a'', [1, 1]), (''b'', [0, 1])] = Inr classified \<and>
     fs_stable_count (summarize_flakiness classified) +
     fs_flaky_count (summarize_flakiness classified) +
     fs_inconclusive_count (summarize_flakiness classified) = 2"
proof -
  obtain cs where cs: "classify_flaky_cases [(''a'', [1, 1]), (''b'', [0, 1])] = Inr cs"
    by (simp add: classify_flaky_cases_def classify_case_def)
  from flakiness_summary_partition [OF cs] cs show ?thesis by simp
qed

lemma rank_nth:
  assumes "i < length xs"
  shows "rank xs ! i =
    real (2 * length (filter (\<lambda>x. x < xs ! i) xs) + length (filter (\<lambda>x. x = xs ! i) xs) + 1) / 2"
proof -
  note sp = sorted_pairs [where xs = xs]
  obtain k where k: "k < length xs" "sort (zip xs [0..<length xs]) ! k = (xs ! i, i)"
    using sp(6) [OF assms] sp(3) by auto
  have "rank xs ! snd (sort (zip xs [0..<length xs]) ! k) =
      mid_rank (sort (zip xs [0..<length xs])) (fst (sort (zip xs [0..<length xs]) ! k))"
    unfolding rank_def by (rule rank_loop_ranks [OF sp(1,2)]) (use sp(3,5) k(1) in auto)
  with k(2) show ?thesis by (simp add: mid_rank_filter [OF sp(4)])
qed

lemma length_rank: "length (rank xs) = length xs"
proof -
  have "length (rank_loop ordered p ranks) = length ranks" for ordered p ranks
  proof (induction ordered p ranks rule: rank_loop.induct)
    case (1 ordered p ranks)
    then show ?case by (cases "p < length ordered") (simp_all add: rank_loop.simps [of ordered p ranks] Let_def length_foldl_update)
  qed
  then show ?thesis by (simp add: rank_def)
qed

lemma rank_map:
  "rank xs = map (\<lambda>x. real (2 * length (filter (\<lambda>y. y < x) xs) + length (filter (\<lambda>y. y = x) xs) + 1) / 2) xs"
  by (rule nth_equalityI) (simp_all add: length_rank rank_nth)

text \<open>C26: \<open>rank\<close> (sort, then walk over runs of equal values) gives every observation its mid-rank: one
  half of twice the number of smaller observations plus the number of equal ones plus one.\<close>

theorem rank_is_mid_rank:
  assumes "i < length xs"
  shows "rank xs ! i =
    real (2 * length (filter (\<lambda>x. x < xs ! i) xs) + length (filter (\<lambda>x. x = xs ! i) xs) + 1) / 2"
  using assms by (rule rank_nth)

theorem rank_is_mid_rank_witness: "rank [5, 2, 5] ! 0 = 5 / 2"
  using rank_is_mid_rank [of 0 "[5, 2, 5]"] by simp

text \<open>the Pearson correlation the calibration report prints lies between -1 and 1.\<close>

theorem pearson_bounded: "\<bar>pearson_correlation scores labels\<bar> \<le> 1"
proof (cases "length scores \<noteq> length labels \<or> length scores < 2")
  case True
  then show ?thesis by (simp add: pearson_correlation_def)
next
  case False
  define ys where "ys = map normalize_gold_label labels"
  define xm ym where "xm = sum_list scores / real (length scores)"
    and "ym = sum_list ys / real (length ys)"
  define N X Y where "N = sum_list (map (\<lambda>(x, y). (x - xm) * (y - ym)) (zip scores ys))"
    and "X = sum_list (map (\<lambda>x. (x - xm) ^ 2) scores)" and "Y = sum_list (map (\<lambda>y. (y - ym) ^ 2) ys)"
  have len: "length ys = length scores" using False by (simp add: ys_def)
  have "X = sum_list (map (\<lambda>p. (fst p - xm) ^ 2) (zip scores ys))"
    unfolding X_def using len by (metis (no_types, lifting) comp_def map_eq_conv map_fst_zip map_map)
  moreover have "Y = sum_list (map (\<lambda>p. (snd p - ym) ^ 2) (zip scores ys))"
    unfolding Y_def using len by (metis (no_types, lifting) comp_def map_eq_conv map_snd_zip map_map)
  ultimately have "N ^ 2 \<le> X * Y"
    using cauchy_schwarz_list [of "\<lambda>p. fst p - xm" "\<lambda>p. snd p - ym" "zip scores ys"]
    by (simp add: N_def case_prod_unfold)
  moreover have "0 \<le> X" "0 \<le> Y" unfolding X_def Y_def by (auto intro!: sum_list_nonneg)
  ultimately have "\<bar>py_round 6 (N / (sqrt X * sqrt Y))\<bar> \<le> 1"
    by (intro py_round_abs_unit cauchy_schwarz_quotient)
  then show ?thesis
    using False unfolding pearson_correlation_def Let_def ys_def [symmetric] xm_def [symmetric]
      ym_def [symmetric] N_def [symmetric] X_def [symmetric] Y_def [symmetric]
    by simp
qed

text \<open>every cell of the confusion matrix counts the entries whose evaluator score falls in its row
  and whose gold label falls in its column.\<close>

theorem confusion_matrix_counts:
  assumes "confusion_matrix scores labels = Inr m"
  shows "cell r c m =
    length (filter (\<lambda>(s, l). bin_evaluator_score s = r \<and> bin_gold_label l = c) (zip scores labels))"
proof -
  have "m = foldl (\<lambda>m (score, label). bump_cell (bin_evaluator_score score) (bin_gold_label label) m)
      empty_matrix (zip scores labels)"
    using assms by (simp add: confusion_matrix_def split: if_splits)
  moreover have "cell r c empty_matrix = 0"
    by (simp add: cell_def empty_matrix_def matrix_labels_def)
  ultimately show ?thesis using cell_foldl_bump [OF full_empty_matrix, of r c] by simp
qed

theorem confusion_matrix_counts_witness:
  "\<exists>m. confusion_matrix [9 / 10, 6 / 10, 1] [5, 1, 2] = Inr m \<and> cell ''pass'' ''fail'' m = 1"
proof -
  obtain m where m: "confusion_matrix [9 / 10, 6 / 10, 1] [5, 1, 2] = Inr m"
    by (simp add: confusion_matrix_def)
  from confusion_matrix_counts [OF m, of "''pass''" "''fail''"] m show ?thesis
    by (simp add: bin_evaluator_score_def bin_gold_label_def)
qed

end
