(* ===== verification/Text_Metrics.thy ===== *)
theory Text_Metrics imports Py_Base begin

text \<open>
  \<open>backend/app/evaluators/text.py\<close> (tokens and the token-set F1 score) and the pure functions of
  \<open>backend/app/services/embedding_cache.py\<close> (clamped dot product, vector text format). The embedding
  model itself is an argument.
\<close>

section \<open>Tokens\<close>

definition token_char :: "char \<Rightarrow> bool" where
  "token_char c =
     (let n = code_point c in 97 \<le> n \<and> n \<le> 122 \<or> 48 \<le> n \<and> n \<le> 57)"

text \<open>\<open>re.compile(r"[a-z0-9]+").findall\<close>: the maximal runs of token characters.\<close>

function find_tokens :: "string \<Rightarrow> string list" where
  "find_tokens [] = []"
| "find_tokens (c # s) =
     (if token_char c then (c # takeWhile token_char s) # find_tokens (dropWhile token_char s)
      else find_tokens s)"
  by pat_completeness auto
termination
  by (relation "measure length") (auto simp: less_Suc_eq_le length_dropWhile_le)

definition tokenize :: "string \<Rightarrow> string list" where
  "tokenize value = find_tokens (py_lower value)"

definition normalize_text :: "string \<Rightarrow> string" where
  "normalize_text value = py_join '' '' (tokenize value)"

definition token_f1 :: "string \<Rightarrow> string \<Rightarrow> real" where
  "token_f1 left right =
     (let left_tokens = tokenize left; right_tokens = tokenize right
      in if left_tokens = [] \<or> right_tokens = [] then 0
         else
           let left_set = set left_tokens; right_set = set right_tokens;
               overlap = card (left_set \<inter> right_set)
           in if overlap = 0 then 0
              else
                let precision = real overlap / real (card left_set);
                    recall = real overlap / real (card right_set)
                in (2 * precision * recall) / (precision + recall))"

section \<open>Embeddings\<close>

definition EMBEDDING_MODEL_ID :: string where
  "EMBEDDING_MODEL_ID = ''all-MiniLM-L6-v2''"

definition EMBEDDING_DIM :: nat where
  "EMBEDDING_DIM = 384"

text \<open>\<open>encode\<close> stands for the sentence-transformer model, which may fail to load.\<close>

definition compute_embedding_sync :: "(string \<Rightarrow> real list res) \<Rightarrow> string \<Rightarrow> real list res" where
  "compute_embedding_sync encode text =
     (if text = [] then Inr (replicate EMBEDDING_DIM 0) else encode text)"

definition cosine_similarity :: "real list \<Rightarrow> real list \<Rightarrow> real" where
  "cosine_similarity vec_a vec_b =
     (if vec_a = [] \<or> vec_b = [] \<or> length vec_a \<noteq> length vec_b then 0
      else
        let dot = sum_list (map (\<lambda>(a, b). a * b) (zip vec_a vec_b))
        in max 0 (min 1 dot))"

definition format_vector :: "(real \<Rightarrow> string) \<Rightarrow> real list \<Rightarrow> string" where
  "format_vector fr embedding = ''['' @ py_join '','' (map fr embedding) @ '']''"

text \<open>\<open>vector_str.strip("[]")\<close>, then \<open>float(x.strip())\<close> for each comma-separated part.\<close>

definition parse_vector :: "string \<Rightarrow> flt list res" where
  "parse_vector vector_str =
     (let is_bracket = (\<lambda>c. c = CHR ''['' \<or> c = CHR '']'');
          stripped = py_rstrip_by is_bracket (py_lstrip_by is_bracket vector_str)
      in if stripped = [] then Inr []
         else map_res (\<lambda>x. to_float (JStr (py_strip x))) (py_split (CHR '','') stripped))"

section \<open>Lemmas\<close>

definition is_token :: "string \<Rightarrow> bool" where
  "is_token t \<longleftrightarrow> t \<noteq> [] \<and> list_all token_char t"

lemma is_token_take: "token_char c \<Longrightarrow> is_token (c # takeWhile token_char s)"
  by (auto simp: is_token_def list_all_iff dest: set_takeWhileD)

lemma find_tokens_sound: "list_all is_token (find_tokens s)"
  by (induction s rule: find_tokens.induct) (simp_all add: is_token_take)

lemma find_tokens_append:
  "\<not> token_char c \<Longrightarrow> find_tokens (s @ c # t) = find_tokens s @ find_tokens t"
proof (induction s rule: find_tokens.induct)
  case 1
  then show ?case by simp
next
  case (2 d s)
  show ?case
  proof (cases "token_char d")
    case True
    have "takeWhile token_char (s @ c # t) = takeWhile token_char s"
      using "2.prems" by (simp add: takeWhile_tail)
    moreover have "dropWhile token_char (s @ c # t) = dropWhile token_char s @ c # t"
    proof (cases "\<forall>x \<in> set s. token_char x")
      case True
      then show ?thesis using "2.prems" by (simp add: dropWhile_append)
    next
      case False
      then show ?thesis by (auto simp: dropWhile_append)
    qed
    ultimately show ?thesis using 2 True by simp
  next
    case False
    with 2 show ?thesis by simp
  qed
qed

lemma find_tokens_word: "is_token t \<Longrightarrow> find_tokens t = [t]"
  by (cases t) (simp_all add: is_token_def list_all_iff takeWhile_eq_all_conv [THEN iffD2]
    dropWhile_eq_Nil_conv [THEN iffD2])

lemma not_token_space: "\<not> token_char (CHR '' '')"
  by (simp add: token_char_def)

lemma find_tokens_join:
  assumes "list_all is_token ts"
  shows "find_tokens (py_join '' '' ts) = ts"
  using assms
proof (induction ts)
  case (Cons t ts)
  then show ?case
    using find_tokens_append [OF not_token_space, of t "py_join '' '' ts"]
    by (auto simp: find_tokens_word)
qed simp

lemma token_char_lower: "token_char c \<Longrightarrow> py_lower_char c = c"
  by (auto simp: token_char_def py_lower_char_def Let_def)

lemma py_lower_tokens: "is_token s \<Longrightarrow> py_lower s = s"
  unfolding py_lower_def by (rule map_idI) (simp add: token_char_lower is_token_def list_all_iff)

lemma py_lower_join: "py_lower (py_join sep ts) = py_join (py_lower sep) (map py_lower ts)"
  by (induction ts) (auto simp: py_lower_append, simp add: py_lower_def)

lemma tokenize_normalize: "tokenize (normalize_text s) = tokenize s"
proof -
  have sound: "list_all is_token (tokenize s)"
    by (simp add: tokenize_def find_tokens_sound)
  then have "map py_lower (tokenize s) = tokenize s"
    by (intro map_idI) (simp add: py_lower_tokens list_all_iff)
  then have "py_lower (normalize_text s) = normalize_text s"
    by (simp add: normalize_text_def py_lower_join) (simp add: py_lower_def py_lower_char_def)
  with find_tokens_join [OF sound] show ?thesis
    by (simp add: tokenize_def [of "normalize_text s"]) (simp add: normalize_text_def)
qed

lemma normalize_text_eq_iff: "normalize_text s = normalize_text t \<longleftrightarrow> tokenize s = tokenize t"
  by (metis normalize_text_def tokenize_normalize)

lemma token_f1_dice:
  assumes "tokenize l \<noteq> []" and "tokenize r \<noteq> []"
  shows "token_f1 l r = 2 * real (card (set (tokenize l) \<inter> set (tokenize r))) /
           (real (card (set (tokenize l))) + real (card (set (tokenize r))))"
proof -
  define a b k where "a = real (card (set (tokenize l)))" and "b = real (card (set (tokenize r)))"
    and "k = real (card (set (tokenize l) \<inter> set (tokenize r)))"
  have pos: "0 < a" "0 < b" using assms by (simp_all add: a_def b_def card_gt_0_iff)
  show ?thesis
  proof (cases "k = 0")
    case True
    then show ?thesis using assms by (simp add: token_f1_def Let_def k_def)
  next
    case False
    then have "token_f1 l r = 2 * (k / a) * (k / b) / (k / a + k / b)"
      using assms by (simp add: token_f1_def Let_def a_def b_def k_def)
    also have "k / a + k / b = k * (a + b) / (a * b)" using pos by (simp add: field_simps)
    also have "2 * (k / a) * (k / b) / (k * (a + b) / (a * b)) = 2 * k / (a + b)"
      using pos False by simp
    finally show ?thesis by (simp add: a_def b_def k_def)
  qed
qed

lemma token_f1_unit: "0 \<le> token_f1 l r" "token_f1 l r \<le> 1"
proof -
  have "0 \<le> token_f1 l r \<and> token_f1 l r \<le> 1"
  proof (cases "tokenize l = [] \<or> tokenize r = []")
    case True
    then show ?thesis by (auto simp: token_f1_def)
  next
    case False
    then have ne: "tokenize l \<noteq> []" "tokenize r \<noteq> []" by auto
    let ?L = "set (tokenize l)" and ?R = "set (tokenize r)"
    have "card (?L \<inter> ?R) \<le> card ?L" "card (?L \<inter> ?R) \<le> card ?R" by (simp_all add: card_mono)
    moreover have "0 < card ?L" using ne by (simp add: card_gt_0_iff)
    ultimately show ?thesis unfolding token_f1_dice [OF ne] by (simp add: field_simps)
  qed
  then show "0 \<le> token_f1 l r" "token_f1 l r \<le> 1" by simp_all
qed

lemma cosine_unit: "0 \<le> cosine_similarity a b" "cosine_similarity a b \<le> 1"
  by (simp_all add: cosine_similarity_def Let_def)


lemma token_f1_full:
  assumes "tokenize l \<noteq> []" and "tokenize r \<noteq> []"
  shows "token_f1 l r = 1 \<longleftrightarrow> set (tokenize l) = set (tokenize r)"
proof -
  let ?L = "set (tokenize l)" and ?R = "set (tokenize r)"
  have pos: "0 < card ?L" "0 < card ?R" using assms by (simp_all add: card_gt_0_iff)
  have le: "card (?L \<inter> ?R) \<le> card ?L" "card (?L \<inter> ?R) \<le> card ?R" by (simp_all add: card_mono)
  have "token_f1 l r = 1 \<longleftrightarrow> 2 * card (?L \<inter> ?R) = card ?L + card ?R"
    unfolding token_f1_dice [OF assms] using pos by (simp add: field_simps) linarith
  also have "\<dots> \<longleftrightarrow> card (?L \<inter> ?R) = card ?L \<and> card (?L \<inter> ?R) = card ?R" using le by linarith
  also have "\<dots> \<longleftrightarrow> ?L \<inter> ?R = ?L \<and> ?L \<inter> ?R = ?R"
    by (metis List.finite_set card_subset_eq inf_le1 inf_le2)
  also have "\<dots> \<longleftrightarrow> ?L = ?R" by blast
  finally show ?thesis .
qed

section \<open>Properties\<close>

text \<open>The token-set F1 score is the Dice coefficient: it is symmetric, lies in [0, 1], is 1 exactly
  when both texts have the same non-empty set of tokens, is 0 exactly when they share none, and
  depends on the normalized texts only.\<close>

theorem token_f1_characterised:
  "token_f1 l r = token_f1 r l \<and> 0 \<le> token_f1 l r \<and> token_f1 l r \<le> 1 \<and>
   (token_f1 l r = 1 \<longleftrightarrow> tokenize l \<noteq> [] \<and> set (tokenize l) = set (tokenize r)) \<and>
   (token_f1 l r = 0 \<longleftrightarrow> set (tokenize l) \<inter> set (tokenize r) = {}) \<and>
   token_f1 (normalize_text l) (normalize_text r) = token_f1 l r"
proof -
  have "token_f1 (normalize_text l) (normalize_text r) = token_f1 l r"
    by (simp add: token_f1_def tokenize_normalize)
  moreover have "token_f1 l r = token_f1 r l \<and>
      (token_f1 l r = 1 \<longleftrightarrow> tokenize l \<noteq> [] \<and> set (tokenize l) = set (tokenize r)) \<and>
      (token_f1 l r = 0 \<longleftrightarrow> set (tokenize l) \<inter> set (tokenize r) = {})"
  proof (cases "tokenize l = [] \<or> tokenize r = []")
    case True
    then have "token_f1 l r = 0" "token_f1 r l = 0" by (auto simp: token_f1_def)
    with True show ?thesis by auto
  next
    case False
    then have ne: "tokenize l \<noteq> []" "tokenize r \<noteq> []" by auto
    have "token_f1 l r = token_f1 r l"
      unfolding token_f1_dice [OF ne] token_f1_dice [OF ne(2,1)] by (simp add: Int_commute add.commute)
    moreover have "0 < real (card (set (tokenize l))) + real (card (set (tokenize r)))"
      using ne by (simp add: card_gt_0_iff add_pos_pos)
    then have "token_f1 l r = 0 \<longleftrightarrow> set (tokenize l) \<inter> set (tokenize r) = {}"
      unfolding token_f1_dice [OF ne] by simp
    ultimately show ?thesis using token_f1_full [OF ne] ne by simp
  qed
  ultimately show ?thesis using token_f1_unit [of l r] by blast
qed

end
