(* ===== verification/Caches.thy ===== *)
theory Caches imports Text_Metrics begin

text \<open>
  The two database caches: \<open>backend/app/services/adapter_cache.py\<close> (adapter outputs, upsert, 24 hour
  lifetime) and \<open>embedding_cache.py\<close> (embeddings, insert if absent). A table is an association list
  from primary key to row; times are microseconds. SHA-256, \<open>json.dumps\<close> and the embedding model are
  arguments.
\<close>

section \<open>Adapter outputs\<close>

definition CACHE_TTL_HOURS :: int where
  "CACHE_TTL_HOURS = 24"

definition hour_us :: int where
  "hour_us = 3600 * 1000000"

definition compute_cache_key :: "(string \<Rightarrow> string) \<Rightarrow> (dict \<Rightarrow> string) \<Rightarrow> string \<Rightarrow> dict \<Rightarrow> string" where
  "compute_cache_key sha256 dumps_sorted case_input version_config =
     sha256 (case_input @ ''|||'' @ dumps_sorted version_config)"

type_synonym output_table = "(string \<times> dict \<times> int) list"

definition get_cached_output :: "output_table \<Rightarrow> string \<Rightarrow> int \<Rightarrow> dict option" where
  "get_cached_output table key now =
     (case map_of table key of
        None \<Rightarrow> None
      | Some (output, created_at) \<Rightarrow>
          if now - created_at > CACHE_TTL_HOURS * hour_us then None else Some output)"

definition set_cached_output :: "output_table \<Rightarrow> string \<Rightarrow> dict \<Rightarrow> int \<Rightarrow> output_table" where
  "set_cached_output table key output now = dict_put key (output, now) table"

section \<open>Embeddings\<close>

type_synonym embedding_table = "((string \<times> string) \<times> string) list"

record embedder =
  em_hash :: "string \<Rightarrow> string"
  em_encode :: "string \<Rightarrow> real list res"
  em_repr :: "real \<Rightarrow> string"

definition insert_if_absent :: "'k \<Rightarrow> 'v \<Rightarrow> ('k \<times> 'v) list \<Rightarrow> ('k \<times> 'v) list" where
  "insert_if_absent k v table = (case map_of table k of None \<Rightarrow> table @ [(k, v)] | Some _ \<Rightarrow> table)"

definition get_or_compute_embedding ::
  "embedder \<Rightarrow> embedding_table \<Rightarrow> string \<Rightarrow> flt list res \<times> embedding_table" where
  "get_or_compute_embedding M table text =
     (if text = [] then (Inr (map Fin (replicate EMBEDDING_DIM 0)), table)
      else
        let key = (em_hash M text, EMBEDDING_MODEL_ID);
            computed =
              (case em_encode M text of
                 Inl e \<Rightarrow> (Inl e, table)
               | Inr embedding \<Rightarrow>
                   (Inr (map Fin embedding),
                    insert_if_absent key (format_vector (em_repr M) embedding) table))
        in (case map_of table key of
              Some embedding_str \<Rightarrow>
                if embedding_str \<noteq> [] then (parse_vector embedding_str, table) else computed
            | None \<Rightarrow> computed))"

section \<open>What a cache promises\<close>

text \<open>
  \<open>get s k t\<close> reads at time \<open>t\<close>, \<open>put s k v t\<close> writes; \<open>fresh t t'\<close> says a value written at \<open>t\<close> is
  still served at \<open>t'\<close>.
\<close>

locale timed_cache =
  fixes get :: "'s \<Rightarrow> 'k \<Rightarrow> int \<Rightarrow> 'v option"
    and put :: "'s \<Rightarrow> 'k \<Rightarrow> 'v \<Rightarrow> int \<Rightarrow> 's"
    and fresh :: "int \<Rightarrow> int \<Rightarrow> bool"
  assumes get_put: "get (put s k v t) k t' = (if fresh t t' then Some v else None)"
    and get_put_other: "k' \<noteq> k \<Longrightarrow> get (put s k v t) k' t' = get s k' t'"
begin

fun put_all :: "'s \<Rightarrow> ('k \<times> 'v \<times> int) list \<Rightarrow> 's" where
  "put_all s [] = s"
| "put_all s ((k, v, t) # ws) = put_all (put s k v t) ws"

lemma put_all_untouched: "k \<notin> fst ` set ws \<Longrightarrow> get (put_all s ws) k t' = get s k t'"
  by (induction s ws rule: put_all.induct) (auto simp: get_put_other)

text \<open>After any writes, a key holds its last value for as long as it is fresh.\<close>

lemma last_write_wins:
  assumes "k \<notin> fst ` set later"
  shows "get (put_all s (earlier @ (k, v, t) # later)) k t' = (if fresh t t' then Some v else None)"
proof (induction s earlier rule: put_all.induct)
  case (1 s)
  then show ?case using put_all_untouched [OF assms] by (simp add: get_put)
qed simp

end

interpretation output_cache:
  timed_cache get_cached_output set_cached_output "\<lambda>t t'. t' - t \<le> CACHE_TTL_HOURS * hour_us"
  by unfold_locales (simp_all add: get_cached_output_def set_cached_output_def map_of_dict_put)

section \<open>Lemmas\<close>

text \<open>The rendering of the floats of \<open>X\<close> reads back and contains no separator.\<close>

definition repr_ok :: "(real \<Rightarrow> string) \<Rightarrow> real set \<Rightarrow> bool" where
  "repr_ok r X \<longleftrightarrow>
     (\<forall>x \<in> X. to_float (JStr (r x)) = Inr (Fin x) \<and> py_strip (r x) = r x \<and> r x \<noteq> [] \<and>
          list_all (\<lambda>c. c \<noteq> CHR '','' \<and> c \<noteq> CHR ''['' \<and> c \<noteq> CHR '']'') (r x))"

lemma strip_brackets:
  assumes "list_all (\<lambda>c. \<not> P c) s" and "P a" and "P b"
  shows "py_rstrip_by P (py_lstrip_by P (a # s @ [b])) = s"
proof (cases "s = []")
  case True
  then show ?thesis using assms by (simp add: py_lstrip_by_def py_rstrip_by_def)
next
  case False
  have l: "dropWhile P (s @ [b]) = s @ [b]" using assms False by (cases s) auto
  have "dropWhile P (rev s) = rev s"
    using assms(1) by (auto simp: list_all_iff dropWhile_eq_self_iff hd_rev)
  with l show ?thesis using assms by (simp add: py_lstrip_by_def py_rstrip_by_def)
qed

lemma list_all_join:
  "list_all P sep \<Longrightarrow> list_all (list_all P) ps \<Longrightarrow> list_all P (py_join sep ps)"
  by (induction ps) auto


lemma parse_format:
  assumes "repr_ok r (set v)"
  shows "parse_vector (format_vector r v) = Inr (map Fin v)"
proof -
  let ?P = "\<lambda>c. c = CHR ''['' \<or> c = CHR '']''"
  let ?body = "py_join '','' (map r v)"
  have clean: "list_all (list_all (\<lambda>c. \<not> ?P c)) (map r v)" "list_all (\<lambda>p. CHR '','' \<notin> set p) (map r v)"
    using assms by (auto simp: repr_ok_def list_all_iff)
  have "list_all (\<lambda>c. \<not> ?P c) ?body" by (rule list_all_join [OF _ clean(1)]) simp
  then have body: "py_rstrip_by ?P (py_lstrip_by ?P (format_vector r v)) = ?body"
    unfolding format_vector_def using strip_brackets [of ?P ?body "CHR ''[''" "CHR '']''"] by simp
  show ?thesis
  proof (cases v)
    case Nil
    then show ?thesis using body by (simp add: parse_vector_def Let_def)
  next
    case (Cons x xs)
    have "r x \<noteq> []" using assms Cons by (simp add: repr_ok_def)
    then have "?body \<noteq> []" using Cons by auto
    moreover have "py_split (CHR '','') ?body = map r v"
      by (rule py_split_join [OF clean(2)]) (simp add: Cons)
    moreover have "map_res (\<lambda>x. to_float (JStr (py_strip x))) (map r v) = Inr (map Fin v)"
      using assms by (induction v) (auto simp: repr_ok_def simp del: to_float.simps)
    ultimately show ?thesis using body by (simp add: parse_vector_def Let_def del: to_float.simps)
  qed
qed

text \<open>Every stored embedding is the model's.\<close>

definition embeddings_consistent :: "embedder \<Rightarrow> embedding_table \<Rightarrow> bool" where
  "embeddings_consistent M table \<longleftrightarrow>
     (\<forall>text s. text \<noteq> [] \<and> map_of table (em_hash M text, EMBEDDING_MODEL_ID) = Some s \<longrightarrow>
        s \<noteq> [] \<and> (\<exists>v. em_encode M text = Inr v \<and> parse_vector s = Inr (map Fin v)))"

lemma map_of_insert_if_absent:
  "map_of (insert_if_absent k v table) k' =
     (if k' = k \<and> map_of table k = None then Some v else map_of table k')"
  by (auto simp: insert_if_absent_def map_add_def split: option.splits)

section \<open>Properties\<close>

text \<open>A stored embedding reads back as it was: formatting a vector for the database and parsing the
  text returns the same numbers.\<close>

theorem vector_roundtrip:
  assumes "repr_ok r (set v)"
  shows "parse_vector (format_vector r v) = Inr (map Fin v)"
  using assms by (rule parse_format)


text \<open>After any sequence of writes, the adapter cache serves the last output written under a key
  until it is 24 hours old, and then nothing.\<close>

theorem adapter_cache_last_write:
  assumes "key \<notin> fst ` set later"
  shows "get_cached_output (output_cache.put_all table (earlier @ (key, output, t) # later)) key now =
     (if now - t \<le> CACHE_TTL_HOURS * hour_us then Some output else None)"
  using assms by (rule output_cache.last_write_wins)

lemma adapter_cache_last_write_witness:
  "get_cached_output (output_cache.put_all [] [(''k'', [], 0), (''k'', [(''a'', JNull)], 5), (''j'', [], 7)])
     ''k'' 1000 = Some [(''a'', JNull)]"
  using adapter_cache_last_write [of "''k''" "[(''j'', [], 7)]" "[]" "[(''k'', [], 0)]" "[(''a'', JNull)]" 5 1000]
  by (simp add: CACHE_TTL_HOURS_def hour_us_def)


definition half_embedder :: embedder where
  "half_embedder = \<lparr>em_hash = (\<lambda>t. t), em_encode = (\<lambda>_. Inr [1 / 2]), em_repr = (\<lambda>_. ''0.5'')\<rparr>"

lemma half_repr_ok: "repr_ok (em_repr half_embedder) (set [1 / 2])"
proof -
  have "drop_underscores False (py_strip ''0.5'') = Some ''0.5''"
    "take_sign ''0.5'' = (1, ''0.5'')" "py_lower ''0.5'' = ''0.5''" "py_strip ''0.5'' = ''0.5''"
    by code_simp+
  moreover have "parse_decimal ''0.5'' = Some (1 / 2)"
    by (simp add: parse_decimal_def py_isdigit_def parse_exponent_def read_nat_def)
  ultimately show ?thesis
    by (simp add: repr_ok_def half_embedder_def parse_float_def flt_of_real_small)
qed

lemma vector_roundtrip_witness:
  "parse_vector (format_vector (em_repr half_embedder) [1 / 2]) = Inr [Fin (1 / 2)]"
  using vector_roundtrip [OF half_repr_ok] by simp


end
