(* ===== verification/Evaluators.thy ===== *)
theory Evaluators imports Text_Metrics begin

text \<open>
  \<open>backend/app/evaluators/basic.py\<close>, \<open>faithfulness.py\<close> and \<open>base.py\<close>, with the output record of
  \<open>backend/app/adapters/base.py\<close>. An evaluator takes a case payload, an adapter output and its
  configuration, and returns a result or raises. The embedding model, the NLI model and the float
  rendering of \<open>str\<close> are fields of \<open>ml_env\<close>. The locale \<open>evaluator_contract\<close> is what the engine
  relies on; every evaluator is interpreted as an instance of it.
\<close>

section \<open>Data\<close>

record adapter_output =
  answer :: string
  retrieved_chunks :: "dict list"
  prompt_used :: string
  model_used :: string
  latency_ms :: int
  estimated_cost_usd :: flt
  trace_steps :: "json list"

record evaluation_result =
  evaluator_name :: string
  score :: "flt option"
  passed :: "bool option"
  details :: dict
  errored :: bool
  was_skipped :: bool
  error_message :: "string option"

record ml_env =
  float_repr :: "real \<Rightarrow> string"
  encode :: "string \<Rightarrow> real list res"
  nli_probs :: "string \<Rightarrow> string list \<Rightarrow> (real \<times> real \<times> real) list res"

type_synonym evaluator_fn =
  "ml_env \<Rightarrow> dict \<Rightarrow> adapter_output \<Rightarrow> dict \<Rightarrow> evaluation_result res"

section \<open>Results\<close>

definition skipped :: "string \<Rightarrow> string \<Rightarrow> evaluation_result" where
  "skipped name reason =
     \<lparr>evaluator_name = name, score = None, passed = None, details = [(''reason'', JStr reason)],
      errored = False, was_skipped = True, error_message = None\<rparr>"

definition scored :: "string \<Rightarrow> flt \<Rightarrow> bool \<Rightarrow> dict \<Rightarrow> evaluation_result" where
  "scored name s ok d =
     \<lparr>evaluator_name = name, score = Some s, passed = Some ok, details = d,
      errored = False, was_skipped = False, error_message = None\<rparr>"

definition errored_result :: "string \<Rightarrow> string \<Rightarrow> evaluation_result" where
  "errored_result name msg =
     \<lparr>evaluator_name = name, score = None, passed = None, details = [],
      errored = True, was_skipped = False, error_message = Some msg\<rparr>"

definition no_context :: "string \<Rightarrow> evaluation_result" where
  "no_context msg =
     \<lparr>evaluator_name = ''faithfulness'', score = None, passed = None, details = [],
      errored = False, was_skipped = True, error_message = Some msg\<rparr>"

text \<open>\<open>payload.get(k)\<close> with an absent key read as \<open>None\<close>, and \<open>float(config.get(k, x))\<close>.\<close>

definition present :: "string \<Rightarrow> dict \<Rightarrow> json option" where
  "present k d = (case dict_get k d of Some JNull \<Rightarrow> None | r \<Rightarrow> r)"

definition float_config :: "string \<Rightarrow> real \<Rightarrow> dict \<Rightarrow> flt res" where
  "float_config k x cfg = to_float (dict_get_or k (JFloat (Fin x)) cfg)"

section \<open>\<open>basic.py\<close>\<close>

definition exact_match :: evaluator_fn where
  "exact_match E payload out cfg =
     (case present ''expected_output'' payload of
        None \<Rightarrow> Inr (skipped ''exact_match'' ''missing expected_output'')
      | Some expected \<Rightarrow>
          let same = (normalize_text (answer out) = normalize_text (py_str (float_repr E) expected))
          in Inr (scored ''exact_match'' (Fin (if same then 1 else 0)) same
                   [(''expected'', expected)]))"

text \<open>A list member is found by identity or by equality, hence the two disjuncts of \<open>missed\<close>.\<close>

definition contains_keywords :: evaluator_fn where
  "contains_keywords E payload out cfg =
     (case dict_get ''expected_facts'' payload of
        None \<Rightarrow> Inr (skipped ''contains_keywords'' ''missing expected_facts'')
      | Some v \<Rightarrow>
          if \<not> truthy v then Inr (skipped ''contains_keywords'' ''missing expected_facts'')
          else and_then (json_iter v) (\<lambda>facts.
            let found = (\<lambda>fact. str_in (py_lower (py_str (float_repr E) fact)) (py_lower (answer out)));
                hits = filter found facts;
                missed = filter (\<lambda>fact. \<not> (found fact \<or> py_in fact hits)) facts;
                s = real (length hits) / real (length facts)
            in and_then (float_config ''threshold'' 1 cfg) (\<lambda>threshold.
               Inr (scored ''contains_keywords'' (Fin s) (flt_le threshold (Fin s))
                 [(''facts_hit'', JList hits), (''facts_missed'', JList missed),
                  (''threshold'', JFloat threshold)]))))"

definition token_f1_result :: "string \<Rightarrow> evaluator_fn" where
  "token_f1_result name E payload out cfg =
     (case present ''expected_output'' payload of
        None \<Rightarrow> Inr (skipped name ''missing expected_output'')
      | Some expected \<Rightarrow>
          let s = token_f1 (answer out) (py_str (float_repr E) expected)
          in and_then (float_config ''threshold'' (7 / 10) cfg) (\<lambda>threshold.
             Inr (scored name (Fin s) (flt_le threshold (Fin s))
               [(''threshold'', JFloat threshold), (''method'', JStr ''token_f1'')])))"

definition semantic_similarity :: evaluator_fn where
  "semantic_similarity E payload out cfg =
     and_then (token_f1_result ''semantic_similarity'' E payload out cfg) (\<lambda>r.
     Inr (if was_skipped r then r
          else r\<lparr>details := dict_put ''alias_for'' (JStr ''token_f1_overlap'') (details r)\<rparr>))"

definition token_f1_overlap :: evaluator_fn where
  "token_f1_overlap = token_f1_result ''token_f1_overlap''"

definition embedding_similarity :: evaluator_fn where
  "embedding_similarity E payload out cfg =
     (case present ''expected_output'' payload of
        None \<Rightarrow> Inr (skipped ''embedding_similarity'' ''missing expected_output'')
      | Some expected \<Rightarrow>
          and_then (compute_embedding_sync (encode E) (py_str (float_repr E) expected)) (\<lambda>expected_embedding.
          and_then (compute_embedding_sync (encode E) (answer out)) (\<lambda>actual_embedding.
          let s = py_round 6 (cosine_similarity actual_embedding expected_embedding) in
          and_then (float_config ''threshold'' (7 / 10) cfg) (\<lambda>threshold.
          Inr (scored ''embedding_similarity'' (Fin s) (flt_le threshold (Fin s))
            [(''threshold'', JFloat threshold), (''method'', JStr ''sentence_transformer_cosine''),
             (''model'', JStr EMBEDDING_MODEL_ID)])))))"

definition retrieval_hit_rate :: evaluator_fn where
  "retrieval_hit_rate E payload out cfg =
     (case json_or (dict_get ''expected_chunk_id'' payload) (dict_get ''expected_doc_id'' payload) of
        None \<Rightarrow> Inr (skipped ''retrieval_hit_rate'' ''missing expected_chunk_id or expected_doc_id'')
      | Some JNull \<Rightarrow>
          Inr (skipped ''retrieval_hit_rate'' ''missing expected_chunk_id or expected_doc_id'')
      | Some expected_id \<Rightarrow>
          let retrieved_ids = map (dict_get_or ''doc_id'' JNull) (retrieved_chunks out);
              matched = py_in expected_id retrieved_ids
          in Inr (scored ''retrieval_hit_rate'' (Fin (if matched then 1 else 0)) matched
               [(''expected_id'', expected_id), (''retrieved_ids'', JList retrieved_ids),
                (''matched'', JBool matched)]))"

definition forbidden_claim :: evaluator_fn where
  "forbidden_claim E payload out cfg =
     (case dict_get ''forbidden_claims'' payload of
        None \<Rightarrow> Inr (skipped ''forbidden_claim'' ''missing forbidden_claims'')
      | Some v \<Rightarrow>
          if \<not> truthy v then Inr (skipped ''forbidden_claim'' ''missing forbidden_claims'')
          else and_then (json_iter v) (\<lambda>claims.
            let triggered = filter
                  (\<lambda>claim. str_in (py_lower (py_str (float_repr E) claim)) (py_lower (answer out))) claims;
                ok = (triggered = [])
            in Inr (scored ''forbidden_claim'' (Fin (if ok then 1 else 0)) ok
                 [(''triggered_claims'', JList triggered)])))"

definition latency_threshold :: evaluator_fn where
  "latency_threshold E payload out cfg =
     and_then (to_int (dict_get_or ''threshold_ms'' (JInt 2000) cfg)) (\<lambda>threshold.
     and_then
       (if latency_ms out \<le> threshold then Inr 1
        else if threshold = 0 then Inl (Exn ZeroDivErr ''division by zero'')
        else Inr (max 0 (1 - (of_int (latency_ms out - threshold) / of_int threshold)))) (\<lambda>s.
     Inr (scored ''latency_threshold'' (Fin s) (latency_ms out \<le> threshold)
       [(''latency_ms'', JInt (latency_ms out)), (''threshold_ms'', JInt threshold)])))"

definition cost_threshold :: evaluator_fn where
  "cost_threshold E payload out cfg =
     and_then (float_config ''threshold_usd'' (1 / 100) cfg) (\<lambda>threshold.
     and_then
       (if flt_le (estimated_cost_usd out) threshold then Inr (Fin 1)
        else and_then (flt_div (flt_sub (estimated_cost_usd out) threshold) threshold) (\<lambda>excess.
             Inr (flt_max (Fin 0) (flt_sub (Fin 1) excess)))) (\<lambda>s.
     Inr (scored ''cost_threshold'' s (flt_le (estimated_cost_usd out) threshold)
       [(''estimated_cost_usd'', JFloat (estimated_cost_usd out)),
        (''threshold_usd'', JFloat threshold)])))"

section \<open>\<open>faithfulness.py\<close>\<close>

definition NLI_MODEL_ID :: string where
  "NLI_MODEL_ID = ''cross-encoder/nli-deberta-v3-base''"

definition MAX_SENTENCES :: nat where
  "MAX_SENTENCES = 5"

definition ends_sentence :: "char \<Rightarrow> bool" where
  "ends_sentence c \<longleftrightarrow> c = CHR ''.'' \<or> c = CHR ''!'' \<or> c = CHR ''?''"

text \<open>
  \<open>re.split(r"(?<=[.!?])\s+", text)\<close>; the first argument says whether the character before the
  current position ends a sentence.
\<close>

function split_after_punctuation :: "bool \<Rightarrow> string \<Rightarrow> string list" where
  "split_after_punctuation after [] = [[]]"
| "split_after_punctuation after (c # s) =
     (if after \<and> py_isspace c then [] # split_after_punctuation False (dropWhile py_isspace s)
      else (case split_after_punctuation (ends_sentence c) s of
              [] \<Rightarrow> [[c]]
            | p # ps \<Rightarrow> (c # p) # ps))"
  by pat_completeness auto
termination
  by (relation "measure (\<lambda>(a, s). length s)") (auto simp: less_Suc_eq_le length_dropWhile_le)

definition split_sentences :: "string \<Rightarrow> string list" where
  "split_sentences text =
     (let pieces = split_after_punctuation False (py_strip text);
          sentences = filter (\<lambda>s. s \<noteq> []) (map py_strip pieces)
      in if sentences = [] then (if py_strip text \<noteq> [] then [py_strip text] else [])
         else take MAX_SENTENCES sentences)"

definition weighted_score :: "real \<times> real \<times> real \<Rightarrow> real" where
  "weighted_score probs =
     (case probs of (p0, p1, p2) \<Rightarrow> py_round 4 (0 * p0 + (1 / 2) * p1 + 1 * p2))"

definition nli_scores :: "ml_env \<Rightarrow> string \<Rightarrow> string list \<Rightarrow> real list res" where
  "nli_scores E premise hypotheses =
     (if hypotheses = [] then Inr []
      else and_then (nli_probs E premise hypotheses) (\<lambda>ps. Inr (map weighted_score ps)))"

definition nli_score :: "ml_env \<Rightarrow> string \<Rightarrow> string \<Rightarrow> real res" where
  "nli_score E premise hypothesis =
     and_then (nli_scores E premise [hypothesis]) (\<lambda>ss. py_index ss 0)"

definition verdict_for :: "real \<Rightarrow> string" where
  "verdict_for s =
     (if 75 / 100 \<le> s then ''entailment'' else if 35 / 100 \<le> s then ''neutral''
      else ''contradiction'')"

definition sentence_details :: "string \<Rightarrow> real \<Rightarrow> json" where
  "sentence_details sentence s =
     JObj [(''sentence'', JStr sentence), (''verdict'', JStr (verdict_for s)),
           (''score'', JFloat (Fin s))]"

text \<open>\<open>zip(.., strict=True)\<close>.\<close>

definition zip_strict :: "'a list \<Rightarrow> 'b list \<Rightarrow> ('a \<times> 'b) list res" where
  "zip_strict xs ys =
     (if length ys < length xs then Inl (Exn ValueErr ''zip() argument 2 is shorter than argument 1'')
      else if length xs < length ys then
        Inl (Exn ValueErr ''zip() argument 2 is longer than argument 1'')
      else Inr (zip xs ys))"

definition compute_faithfulness ::
  "ml_env \<Rightarrow> string \<Rightarrow> string \<Rightarrow> bool \<Rightarrow> (real \<times> json list) res" where
  "compute_faithfulness E text retrieved_context batch =
     (let sentences = split_sentences text
      in if sentences = [] then Inr (1, [])
         else if py_strip retrieved_context = [] then
           Inr (0, map (\<lambda>s. sentence_details s 0) sentences)
         else
           and_then
             (if batch then nli_scores E retrieved_context sentences
              else map_res (nli_score E retrieved_context) sentences) (\<lambda>scores.
           and_then (zip_strict sentences scores) (\<lambda>pairs.
           Inr (py_round 4 (sum_list (map snd pairs) / real (length pairs)),
                map (\<lambda>(sentence, s). sentence_details sentence s) pairs))))"

text \<open>\<open>chunk.get("chunk_text", "") or chunk.get("content", "") or chunk.get("text", "")\<close>.\<close>

definition chunk_content :: "dict \<Rightarrow> json" where
  "chunk_content chunk =
     (let a = dict_get_or ''chunk_text'' (JStr []) chunk;
          b = dict_get_or ''content'' (JStr []) chunk
      in if truthy a then a else if truthy b then b else dict_get_or ''text'' (JStr []) chunk)"

fun join_item :: "nat \<times> json \<Rightarrow> string res" where
  "join_item (i, JStr s) = Inr s"
| "join_item (i, j) =
     Inl (Exn TypeErr (''sequence item '' @ show_nat i @ '': expected str instance, '' @
       type_name j @ '' found''))"

definition join_json :: "string \<Rightarrow> json list \<Rightarrow> string res" where
  "join_json sep js = and_then (map_res join_item (zip [0..<length js] js)) (\<lambda>ss. Inr (py_join sep ss))"

definition faithfulness_evaluator :: evaluator_fn where
  "faithfulness_evaluator E payload out cfg =
     (if retrieved_chunks out = [] then
        Inr (no_context ''No retrieved chunks available for NLI faithfulness check'')
      else and_then (join_json '' '' (map chunk_content (retrieved_chunks out))) (\<lambda>retrieved_context.
        if py_strip retrieved_context = [] then Inr (no_context ''Retrieved context is empty'')
        else (case compute_faithfulness E (answer out) retrieved_context True of
                Inl exc \<Rightarrow> Inr (errored_result ''faithfulness'' (exn_msg exc))
              | Inr (s, per_sentence) \<Rightarrow>
                  and_then (float_config ''threshold'' (1 / 2) cfg) (\<lambda>threshold.
                  Inr (scored ''faithfulness'' (Fin s) (flt_le threshold (Fin s))
                    [(''per_sentence'', JList per_sentence), (''threshold'', JFloat threshold),
                     (''model'', JStr NLI_MODEL_ID)])))))"


section \<open>What the engine relies on\<close>

definition well_shaped :: "evaluation_result \<Rightarrow> bool" where
  "well_shaped r \<longleftrightarrow>
     (if errored r \<or> was_skipped r then score r = None \<and> passed r = None \<and> \<not> (errored r \<and> was_skipped r)
      else score r \<noteq> None \<and> passed r \<noteq> None)"

fun unit_flt :: "flt \<Rightarrow> bool" where
  "unit_flt (Fin x) = (0 \<le> x \<and> x \<le> 1)"
| "unit_flt _ = False"

definition unit_score :: "evaluation_result \<Rightarrow> bool" where
  "unit_score r \<longleftrightarrow> (case score r of None \<Rightarrow> True | Some s \<Rightarrow> unit_flt s)"

text \<open>The class probabilities of the NLI model, as a softmax gives them.\<close>

definition nli_ok :: "ml_env \<Rightarrow> bool" where
  "nli_ok E \<longleftrightarrow>
     (\<forall>premise hyps ps. nli_probs E premise hyps = Inr ps \<longrightarrow>
        list_all (\<lambda>(p0, p1, p2). 0 \<le> p0 \<and> 0 \<le> p1 \<and> 0 \<le> p2 \<and> p0 + p1 + p2 = 1) ps)"

definition nonneg_thresholds :: "dict \<Rightarrow> bool" where
  "nonneg_thresholds cfg \<longleftrightarrow>
     (case to_int (dict_get_or ''threshold_ms'' (JInt 2000) cfg) of Inl _ \<Rightarrow> True | Inr t \<Rightarrow> 0 \<le> t) \<and>
     (case float_config ''threshold_usd'' (1 / 100) cfg of
        Inl _ \<Rightarrow> True | Inr t \<Rightarrow> \<not> flt_less t (Fin 0))"

locale evaluator_contract =
  fixes name :: string and fn :: evaluator_fn
  assumes named: "fn E payload out cfg = Inr r \<Longrightarrow> evaluator_name r = name"
    and shaped: "fn E payload out cfg = Inr r \<Longrightarrow> well_shaped r"
    and unit: "fn E payload out cfg = Inr r \<Longrightarrow> nli_ok E \<Longrightarrow> nonneg_thresholds cfg \<Longrightarrow> unit_score r"

text \<open>An evaluator whose score ignores the configuration and passes when it reaches a threshold.\<close>

locale threshold_contract = evaluator_contract +
  fixes default :: real
  assumes gated: "fn E payload out cfg = Inr r \<Longrightarrow> score r = Some s \<Longrightarrow>
      \<exists>t. float_config ''threshold'' default cfg = Inr t \<and> passed r = Some (flt_le t s)"
    and score_only: "fn E payload out cfg = Inr r \<Longrightarrow> fn E payload out cfg' = Inr r' \<Longrightarrow>
      score r' = score r"
begin

lemma lower_threshold_keeps_pass:
  assumes r: "fn E payload out cfg = Inr r" and r': "fn E payload out cfg' = Inr r'"
    and t: "float_config ''threshold'' default cfg = Inr t"
    and t': "float_config ''threshold'' default cfg' = Inr t'"
    and le: "flt_le t' t" and pass: "passed r = Some True"
  shows "passed r' = Some True"
proof -
  have "well_shaped r" by (rule shaped [OF r])
  with pass obtain s where s: "score r = Some s" by (auto simp: well_shaped_def split: if_splits)
  have s': "score r' = Some s" using score_only [OF r r'] s by simp
  have "flt_le t s" using gated [OF r s] t pass by auto
  then have "flt_le t' s" using le by (cases t; cases t'; cases s) auto
  with gated [OF r' s'] t' show ?thesis by auto
qed

end

lemmas evaluator_results =
  skipped_def scored_def errored_result_def no_context_def well_shaped_def

lemma skipped_facts [simp]:
  "evaluator_name (skipped n m) = n" "well_shaped (skipped n m)" "unit_score (skipped n m)"
  "score (skipped n m) = None" "was_skipped (skipped n m)"
  by (simp_all add: evaluator_results unit_score_def)

lemma scored_facts [simp]:
  "evaluator_name (scored n s b d) = n" "well_shaped (scored n s b d)"
  "unit_score (scored n s b d) = unit_flt s" "score (scored n s b d) = Some s"
  "passed (scored n s b d) = Some b" "\<not> was_skipped (scored n s b d)"
  "scored n s b d \<noteq> no_context m"
  by (simp_all add: evaluator_results unit_score_def)

lemma no_context_facts [simp]:
  "evaluator_name (no_context m) = ''faithfulness''" "well_shaped (no_context m)"
  "unit_score (no_context m)" "score (no_context m) = None"
  by (simp_all add: evaluator_results unit_score_def)

lemma errored_facts [simp]:
  "evaluator_name (errored_result n m) = n" "well_shaped (errored_result n m)"
  "unit_score (errored_result n m)" "score (errored_result n m) = None"
  "errored (errored_result n m)"
  by (simp_all add: evaluator_results unit_score_def)

lemma length_filter_ratio:
  "0 \<le> real (length (filter P xs)) / real (length xs)"
  "real (length (filter P xs)) / real (length xs) \<le> 1"
  by (simp_all add: divide_le_eq_1)

lemma over_threshold_unit:
  assumes "(0::real) < t" and "t < l"
  shows "0 \<le> max 0 (1 - (l - t) / t)" and "max 0 (1 - (l - t) / t) \<le> 1"
  using assms by (simp_all add: divide_nonneg_pos)

lemma mean_unit:
  assumes "ss \<noteq> []" and "\<forall>s \<in> set ss. 0 \<le> s \<and> s \<le> (1::real)"
  shows "0 \<le> sum_list ss / real (length ss)" and "sum_list ss / real (length ss) \<le> 1"
proof -
  have "0 \<le> sum_list ss \<and> sum_list ss \<le> real (length ss)"
    using assms(2) by (induction ss) auto
  with assms(1) show "0 \<le> sum_list ss / real (length ss)" "sum_list ss / real (length ss) \<le> 1"
    by (simp_all add: divide_le_eq_1)
qed

section \<open>Every evaluator meets the contract\<close>

interpretation exact_match_fn: evaluator_contract "''exact_match''" exact_match
  by unfold_locales (auto simp: exact_match_def Let_def split: option.splits)

interpretation contains_keywords_fn: threshold_contract "''contains_keywords''" contains_keywords 1
  by unfold_locales
    (auto simp: contains_keywords_def Let_def and_then_Inr_iff length_filter_ratio
      split: option.splits if_splits)

interpretation token_f1_overlap_fn: threshold_contract "''token_f1_overlap''" token_f1_overlap "7 / 10"
  by unfold_locales
    (auto simp: token_f1_overlap_def token_f1_result_def Let_def and_then_Inr_iff token_f1_unit
      split: option.splits)

interpretation semantic_similarity_fn:
  threshold_contract "''semantic_similarity''" semantic_similarity "7 / 10"
  by unfold_locales
    (auto simp: semantic_similarity_def token_f1_result_def Let_def and_then_Inr_iff token_f1_unit
      well_shaped_def unit_score_def scored_def skipped_def split: option.splits if_splits)

interpretation embedding_similarity_fn:
  threshold_contract "''embedding_similarity''" embedding_similarity "7 / 10"
  by unfold_locales
    (auto simp: embedding_similarity_def Let_def and_then_Inr_iff py_round_unit cosine_unit
      split: option.splits)

interpretation retrieval_hit_rate_fn: evaluator_contract "''retrieval_hit_rate''" retrieval_hit_rate
  by unfold_locales (auto simp: retrieval_hit_rate_def Let_def split: option.splits json.splits)

interpretation forbidden_claim_fn: evaluator_contract "''forbidden_claim''" forbidden_claim
  by unfold_locales
    (auto simp: forbidden_claim_def Let_def and_then_Inr_iff split: option.splits if_splits)

lemma latency_unit:
  assumes "latency_threshold E payload out cfg = Inr r" and "nonneg_thresholds cfg"
  shows "unit_score r"
proof -
  from assms(1) obtain t s where t: "to_int (dict_get_or ''threshold_ms'' (JInt 2000) cfg) = Inr t"
    and s: "(if latency_ms out \<le> t then Inr 1
        else if t = 0 then Inl (Exn ZeroDivErr ''division by zero'')
        else Inr (max 0 (1 - (of_int (latency_ms out - t) / of_int t)))) = Inr s"
    and r: "unit_score r = unit_flt (Fin s)"
    by (auto simp: latency_threshold_def and_then_Inr_iff)
  have "0 \<le> t" using assms(2) t by (simp add: nonneg_thresholds_def)
  have "0 \<le> s \<and> s \<le> 1"
  proof (cases "latency_ms out \<le> t")
    case False
    with s \<open>0 \<le> t\<close> have "0 < t" "t < latency_ms out"
      "s = max 0 (1 - (of_int (latency_ms out) - of_int t) / of_int t)"
      by (auto split: if_splits)
    with over_threshold_unit [of "of_int t" "of_int (latency_ms out)"] show ?thesis by simp
  qed (use s in simp)
  with r show ?thesis by simp
qed

interpretation latency_threshold_fn: evaluator_contract "''latency_threshold''" latency_threshold
  by unfold_locales (auto simp: latency_unit, auto simp: latency_threshold_def and_then_Inr_iff)


lemma cost_unit:
  assumes "cost_threshold E payload out cfg = Inr r" and "nonneg_thresholds cfg"
  shows "unit_score r"
proof -
  let ?c = "estimated_cost_usd out"
  from assms(1) obtain t s where t: "float_config ''threshold_usd'' (1 / 100) cfg = Inr t"
    and s: "(if flt_le ?c t then Inr (Fin 1)
        else and_then (flt_div (flt_sub ?c t) t) (\<lambda>excess.
             Inr (flt_max (Fin 0) (flt_sub (Fin 1) excess)))) = Inr s"
    and r: "unit_score r = unit_flt s"
    by (auto simp: cost_threshold_def and_then_Inr_iff)
  have t0: "\<not> flt_less t (Fin 0)" using assms(2) t by (simp add: nonneg_thresholds_def)
  have "unit_flt s"
  proof (cases "flt_le ?c t")
    case True
    with s have "s = Fin 1" by simp
    then show ?thesis by simp
  next
    case False
    with s obtain q where q: "flt_div (flt_sub ?c t) t = Inr q"
      and sq: "s = flt_max (Fin 0) (flt_sub (Fin 1) q)" by (auto simp: and_then_Inr_iff)
    have "q = NaN \<or> q = PInf \<or> (\<exists>x. q = Fin x \<and> 0 \<le> x)"
    proof (cases t)
      case (Fin b)
      moreover have "b \<noteq> 0" using q Fin by auto
      ultimately have "0 < b" using t0 by (auto simp: flt_less_def)
      show ?thesis
      proof (cases ?c)
        case (Fin a)
        with False \<open>t = Fin b\<close> have "0 < a - b" by simp
        moreover have "\<not> (a - b) / b < 0"
          using divide_pos_pos [OF \<open>0 < a - b\<close> \<open>0 < b\<close>] by linarith
        ultimately show ?thesis using Fin \<open>t = Fin b\<close> \<open>0 < b\<close> q flt_of_real_cases [of "a - b"]
          flt_of_real_cases [of "(a - b) / b"]
          by (auto simp: flt_sub_def flt_div_def)
      next
        case PInf
        with q \<open>t = Fin b\<close> \<open>0 < b\<close> show ?thesis by (simp add: flt_sub_def flt_div_def)
      next
        case NInf
        with False \<open>t = Fin b\<close> show ?thesis by simp
      next
        case NaN
        with q \<open>t = Fin b\<close> \<open>0 < b\<close> show ?thesis by (simp add: flt_sub_def flt_div_def)
      qed
    next
      case PInf
      with q False show ?thesis by (cases ?c) (auto simp: flt_sub_def flt_div_def)
    next
      case NInf
      with t0 show ?thesis by (simp add: flt_less_def)
    next
      case NaN
      with q show ?thesis by (cases ?c) (auto simp: flt_sub_def flt_div_def)
    qed
    then show ?thesis
    proof (elim disjE exE conjE)
      fix x assume "q = Fin x" "0 \<le> x"
      then show ?thesis using sq flt_of_real_cases [of "1 - x"]
        by (auto simp: flt_sub_def flt_max_def flt_less_def)
    qed (use sq in \<open>simp_all add: flt_sub_def flt_max_def flt_less_def\<close>)
  qed
  with r show ?thesis by simp
qed

interpretation cost_threshold_fn: evaluator_contract "''cost_threshold''" cost_threshold
  by unfold_locales (auto simp: cost_unit, auto simp: cost_threshold_def and_then_Inr_iff)

lemma weighted_score_unit:
  "0 \<le> p0 \<Longrightarrow> 0 \<le> p1 \<Longrightarrow> 0 \<le> p2 \<Longrightarrow> p0 + p1 + p2 = 1 \<Longrightarrow>
   0 \<le> weighted_score (p0, p1, p2) \<and> weighted_score (p0, p1, p2) \<le> 1"
  by (simp add: weighted_score_def py_round_unit)

lemma nli_scores_unit:
  assumes "nli_ok E" and "nli_scores E premise hyps = Inr ss"
  shows "\<forall>s \<in> set ss. 0 \<le> s \<and> s \<le> 1"
proof
  fix s assume "s \<in> set ss"
  with assms(2) obtain ps p0 p1 p2 where ps: "nli_probs E premise hyps = Inr ps"
    and mem: "(p0, p1, p2) \<in> set ps" and s: "s = weighted_score (p0, p1, p2)"
    by (auto simp: nli_scores_def and_then_Inr_iff split: if_splits)
  from assms(1) ps mem have "0 \<le> p0" "0 \<le> p1" "0 \<le> p2" "p0 + p1 + p2 = 1"
    by (fastforce simp: nli_ok_def list_all_iff)+
  with weighted_score_unit s show "0 \<le> s \<and> s \<le> 1" by blast
qed

lemma nli_score_unit:
  assumes "nli_ok E" and "nli_score E premise hyp = Inr s"
  shows "0 \<le> s \<and> s \<le> 1"
  using assms nli_scores_unit [OF assms(1)]
  by (fastforce simp: nli_score_def and_then_Inr_iff dest: py_index_mem)

lemma zip_strict_Inr: "zip_strict xs ys = Inr ps \<Longrightarrow> ps = zip xs ys \<and> length ys = length xs"
  by (auto simp: zip_strict_def split: if_splits)

lemma compute_faithfulness_cases:
  assumes "compute_faithfulness E text ctx batch = Inr (s, ds)"
  obtains "split_sentences text = []" "s = 1" "ds = []"
  | "split_sentences text \<noteq> []" "py_strip ctx = []" "s = 0"
    "ds = map (\<lambda>x. sentence_details x 0) (split_sentences text)"
  | scores where "split_sentences text \<noteq> []" "py_strip ctx \<noteq> []"
    "(if batch then nli_scores E ctx (split_sentences text)
      else map_res (nli_score E ctx) (split_sentences text)) = Inr scores"
    "length scores = length (split_sentences text)"
    "s = py_round 4 (sum_list scores / real (length scores))"
    "ds = map (\<lambda>(x, y). sentence_details x y) (zip (split_sentences text) scores)"
  using assms
  by (auto simp: compute_faithfulness_def Let_def and_then_Inr_iff dest!: zip_strict_Inr split: if_splits)

lemma faithfulness_unit:
  assumes E: "nli_ok E" and f: "compute_faithfulness E text ctx batch = Inr (s, ds)"
  shows "0 \<le> s \<and> s \<le> 1"
  using f
proof (cases rule: compute_faithfulness_cases)
  case (3 scores)
  have "\<forall>x \<in> set scores. 0 \<le> x \<and> x \<le> 1"
  proof (cases batch)
    case True
    with 3 nli_scores_unit [OF E] show ?thesis by auto
  next
    case False
    with 3 show ?thesis using nli_score_unit [OF E] map_res_set by fastforce
  qed
  moreover have "scores \<noteq> []" using 3 by auto
  ultimately show ?thesis using 3 mean_unit [of scores] by (simp add: py_round_unit)
qed simp_all

interpretation faithfulness_fn: threshold_contract "''faithfulness''" faithfulness_evaluator "1 / 2"
proof unfold_locales
  fix E payload out cfg r
  assume r: "faithfulness_evaluator E payload out cfg = Inr r"
  then show "evaluator_name r = ''faithfulness''" and "well_shaped r"
    by (auto simp: faithfulness_evaluator_def and_then_Inr_iff split: if_splits sum.splits)
  assume E: "nli_ok E"
  show "unit_score r"
    using r faithfulness_unit [OF E]
    by (auto simp: faithfulness_evaluator_def and_then_Inr_iff split: if_splits sum.splits)
next
  fix E payload out cfg r s
  assume "faithfulness_evaluator E payload out cfg = Inr r" and "score r = Some s"
  then show "\<exists>t. float_config ''threshold'' (1 / 2) cfg = Inr t \<and> passed r = Some (flt_le t s)"
    by (auto simp: faithfulness_evaluator_def and_then_Inr_iff split: if_splits sum.splits)
next
  fix E payload out cfg cfg' r r'
  assume "faithfulness_evaluator E payload out cfg = Inr r"
    and "faithfulness_evaluator E payload out cfg' = Inr r'"
  then show "score r' = score r"
    by (auto simp: faithfulness_evaluator_def and_then_Inr_iff split: if_splits sum.splits)
qed


section \<open>The sentence splitter\<close>

definition ink :: "string \<Rightarrow> string" where
  "ink s = filter (\<lambda>c. \<not> py_isspace c) s"

lemma ink_append [simp]: "ink (s @ t) = ink s @ ink t"
  by (simp add: ink_def)

lemma ink_spaces: "(\<forall>c \<in> set s. py_isspace c) \<Longrightarrow> ink s = []"
  by (simp add: ink_def)

lemma ink_dropWhile: "ink (dropWhile py_isspace s) = ink s"
proof -
  have "ink (takeWhile py_isspace s) = []" by (intro ink_spaces) (auto dest: set_takeWhileD)
  then have "ink s = ink (dropWhile py_isspace s)"
    by (metis append_Nil ink_append takeWhile_dropWhile_id)
  then show ?thesis by simp
qed

lemma ink_strip: "ink (py_strip s) = ink s"
proof -
  have "ink (rev (dropWhile py_isspace (rev t))) = ink t" for t
    using ink_dropWhile [of "rev t"] by (metis ink_def rev_filter rev_rev_ident)
  then show ?thesis by (simp add: py_strip_def py_rstrip_by_def py_lstrip_by_def ink_dropWhile)
qed

lemma ink_split: "concat (map ink (split_after_punctuation after s)) = ink s"
proof (induction after s rule: split_after_punctuation.induct)
  case (2 after c s)
  show ?case
  proof (cases "after \<and> py_isspace c")
    case True
    with 2 show ?thesis by (simp add: ink_dropWhile) (simp add: ink_def)
  next
    case False
    with 2 show ?thesis
      by (cases "split_after_punctuation (ends_sentence c) s") (auto simp: ink_def)
  qed
qed (simp add: ink_def)

lemma concat_ink_filter: "concat (map ink (filter (\<lambda>s. s \<noteq> []) xs)) = concat (map ink xs)"
  by (induction xs) (auto simp: ink_def)

lemma prefix_concat_take: "prefix (concat (take n xs)) (concat xs)"
  by (metis append_take_drop_id concat_append prefixI)

lemma strip_no_edge: "py_strip s \<noteq> [] \<Longrightarrow> \<not> py_isspace (hd (py_strip s)) \<and> \<not> py_isspace (last (py_strip s))"
proof -
  assume ne: "py_strip s \<noteq> []"
  define t where "t = dropWhile py_isspace s"
  have st: "py_strip s = rev (dropWhile py_isspace (rev t))"
    by (simp add: py_strip_def py_rstrip_by_def py_lstrip_by_def t_def)
  with ne have d: "dropWhile py_isspace (rev t) \<noteq> []" by auto
  have "\<not> py_isspace (last (py_strip s))" using hd_dropWhile [OF d] by (simp add: st last_rev)
  moreover have "\<not> py_isspace (hd (py_strip s))"
  proof -
    have "rev t = takeWhile py_isspace (rev t) @ dropWhile py_isspace (rev t)" by simp
    then have "t = py_strip s @ rev (takeWhile py_isspace (rev t))"
      unfolding st by (metis rev_append rev_rev_ident)
    then have "hd (py_strip s) = hd t" "t \<noteq> []" using ne by (metis hd_append2, auto)
    then show ?thesis using hd_dropWhile [of py_isspace s] by (simp add: t_def)
  qed
  ultimately show ?thesis by simp
qed

text \<open>The sentences of an answer are at most five, each is non-empty and starts and ends with a
  non-space character, their non-space characters are, in order, a prefix of those of the answer,
  all of them unless the cap was reached; an answer of white space has none.\<close>

theorem split_sentences_sound:
  "length (split_sentences text) \<le> MAX_SENTENCES \<and>
   (\<forall>s \<in> set (split_sentences text).
      s \<noteq> [] \<and> \<not> py_isspace (hd s) \<and> \<not> py_isspace (last s)) \<and>
   prefix (ink (concat (split_sentences text))) (ink text) \<and>
   (length (split_sentences text) < MAX_SENTENCES \<longrightarrow>
      ink (concat (split_sentences text)) = ink text) \<and>
   (split_sentences text = [] \<longleftrightarrow> ink text = [])"
proof -
  define full where "full = filter (\<lambda>s. s \<noteq> [])
    (map py_strip (split_after_punctuation False (py_strip text)))"
  have ink_concat: "ink (concat xs) = concat (map ink xs)" for xs
    by (induction xs) (simp_all add: ink_def)
  have all: "ink (concat full) = ink text"
    unfolding full_def ink_concat concat_ink_filter
    by (simp add: comp_def ink_strip ink_split)
  have edge: "\<forall>s \<in> set full. s \<noteq> [] \<and> \<not> py_isspace (hd s) \<and> \<not> py_isspace (last s)"
    using strip_no_edge by (auto simp: full_def)
  have ink_ne: "s \<noteq> [] \<Longrightarrow> \<not> py_isspace (hd s) \<Longrightarrow> ink s \<noteq> []" for s
    by (cases s) (simp_all add: ink_def)
  have empty: "full = [] \<longleftrightarrow> ink text = []"
    using all edge ink_ne by (cases full) (auto simp: ink_def)
  have blank: "full = [] \<Longrightarrow> py_strip text = []"
    using empty ink_strip [of "text"] ink_ne strip_no_edge by metis
  have res: "split_sentences text = take MAX_SENTENCES full"
    using blank by (simp add: split_sentences_def full_def [symmetric] Let_def)
  have "prefix (ink (concat (split_sentences text))) (ink text)"
    unfolding res all [symmetric] ink_concat
    using prefix_concat_take [of MAX_SENTENCES "map ink full"] by (simp add: take_map)
  moreover have "length (split_sentences text) < MAX_SENTENCES \<longrightarrow> split_sentences text = full"
    by (simp add: res)
  moreover have "split_sentences text = [] \<longleftrightarrow> full = []" by (simp add: res MAX_SENTENCES_def)
  moreover have "\<forall>s \<in> set (split_sentences text).
      s \<noteq> [] \<and> \<not> py_isspace (hd s) \<and> \<not> py_isspace (last s)"
    using edge by (auto simp: res dest: in_set_takeD)
  moreover have "length (split_sentences text) \<le> MAX_SENTENCES" by (simp add: res)
  ultimately show ?thesis using all empty by metis
qed

theorem split_sentences_sound_witness:
  "split_sentences ''Hi.  Ok'' = [''Hi.'', ''Ok''] \<and>
   ink (concat (split_sentences ''Hi.  Ok'')) = ink ''Hi.  Ok''"
proof -
  have "split_sentences ''Hi.  Ok'' = [''Hi.'', ''Ok'']" by code_simp
  with split_sentences_sound [of "''Hi.  Ok''"] show ?thesis by (simp add: MAX_SENTENCES_def)
qed

end
