(* ===== verification/Engine.thy ===== *)
theory Engine imports Evaluators begin

text \<open>
  \<open>backend/app/evaluators/engine.py\<close>: the evaluator registry, the capability report, validation of
  an evaluator configuration, and the evaluation of one case. \<open>installed\<close> stands for
  \<open>find_spec(module) is not None\<close>.
\<close>

section \<open>Registry\<close>

definition EVALUATOR_REGISTRY :: "(string \<times> evaluator_fn) list" where
  "EVALUATOR_REGISTRY =
     [(''exact_match'', exact_match),
      (''contains_keywords'', contains_keywords),
      (''semantic_similarity'', semantic_similarity),
      (''token_f1_overlap'', token_f1_overlap),
      (''embedding_similarity'', embedding_similarity),
      (''retrieval_hit_rate'', retrieval_hit_rate),
      (''forbidden_claim'', forbidden_claim),
      (''latency_threshold'', latency_threshold),
      (''cost_threshold'', cost_threshold),
      (''faithfulness'', faithfulness_evaluator)]"

definition EVALUATOR_METADATA :: "(string \<times> dict) list" where
  "EVALUATOR_METADATA =
     [(''exact_match'', [(''category'', JStr ''quality''), (''deterministic'', JBool True)]),
      (''contains_keywords'', [(''category'', JStr ''quality''), (''deterministic'', JBool True)]),
      (''semantic_similarity'',
        [(''category'', JStr ''quality''), (''deterministic'', JBool True),
         (''deprecated'', JBool True), (''alias_for'', JStr ''token_f1_overlap'')]),
      (''token_f1_overlap'', [(''category'', JStr ''quality''), (''deterministic'', JBool True)]),
      (''embedding_similarity'',
        [(''category'', JStr ''quality''), (''deterministic'', JBool True),
         (''dependency_group'', JStr ''ml''),
         (''required_modules'', JList [JStr ''sentence_transformers''])]),
      (''retrieval_hit_rate'', [(''category'', JStr ''retrieval''), (''deterministic'', JBool True)]),
      (''forbidden_claim'', [(''category'', JStr ''safety''), (''deterministic'', JBool True)]),
      (''latency_threshold'', [(''category'', JStr ''performance''), (''deterministic'', JBool True)]),
      (''cost_threshold'', [(''category'', JStr ''cost''), (''deterministic'', JBool True)]),
      (''faithfulness'',
        [(''category'', JStr ''groundedness''), (''deterministic'', JBool True),
         (''dependency_group'', JStr ''ml''),
         (''required_modules'', JList [JStr ''transformers'', JStr ''torch''])])]"

definition required_modules :: "dict \<Rightarrow> string list" where
  "required_modules metadata =
     (case dict_get ''required_modules'' metadata of
        Some (JList ms) \<Rightarrow> map (py_str (\<lambda>_. [])) ms
      | _ \<Rightarrow> [])"

definition evaluator_capability :: "(string \<Rightarrow> bool) \<Rightarrow> string \<Rightarrow> dict" where
  "evaluator_capability installed name =
     (let metadata = dict_get_or name [] EVALUATOR_METADATA;
          missing_modules = filter (\<lambda>m. \<not> installed m) (required_modules metadata)
      in (''name'', JStr name) # metadata @
         [(''available'', JBool (missing_modules = [])),
          (''missing_modules'', JList (map JStr missing_modules))])"

definition evaluator_capabilities :: "(string \<Rightarrow> bool) \<Rightarrow> dict list" where
  "evaluator_capabilities installed =
     map (evaluator_capability installed) (sort (map fst EVALUATOR_REGISTRY))"

section \<open>Validation\<close>

definition missing_of :: "dict \<Rightarrow> string list" where
  "missing_of capability =
     (case dict_get ''missing_modules'' capability of
        Some (JList ms) \<Rightarrow> map (py_str (\<lambda>_. [])) ms
      | _ \<Rightarrow> [])"

definition capability_by_name :: "(string \<Rightarrow> bool) \<Rightarrow> (string \<times> dict) list" where
  "capability_by_name installed =
     map (\<lambda>item. (py_str (\<lambda>_. []) (dict_get_or ''name'' JNull item), item))
       (evaluator_capabilities installed)"

definition check_spec ::
  "(real \<Rightarrow> string) \<Rightarrow> (string \<times> dict) list \<Rightarrow> nat \<Rightarrow> string set \<Rightarrow> json \<Rightarrow> string res" where
  "check_spec fr capabilities index seen spec =
     (case spec of
        JObj d \<Rightarrow>
          let name = py_strip (py_str fr (dict_get_or ''name'' (JStr []) d)) in
          if name = [] then
            Inl (Exn ValueErr (''Evaluator at index '' @ show_nat index @ '' is missing a name''))
          else if name \<notin> set (map fst EVALUATOR_REGISTRY) then
            Inl (Exn ValueErr (''Unknown evaluator: '' @ name))
          else if name \<in> seen then Inl (Exn ValueErr (''Duplicate evaluator: '' @ name))
          else
            let capability = dict_get_or name [] capabilities in
            if missing_of capability \<noteq> [] then
              Inl (Exn ValueErr (''Evaluator '' @ name @
                '' is unavailable; install the ml dependency group (missing: '' @
                py_join '', '' (missing_of capability) @ '')''))
            else Inr name
      | _ \<Rightarrow> Inl (Exn ValueErr (''Evaluator at index '' @ show_nat index @ '' must be an object'')))"

fun check_specs ::
  "(real \<Rightarrow> string) \<Rightarrow> (string \<times> dict) list \<Rightarrow> nat \<Rightarrow> string set \<Rightarrow> json list \<Rightarrow> unit res" where
  "check_specs fr capabilities index seen [] = Inr ()"
| "check_specs fr capabilities index seen (spec # specs) =
     and_then (check_spec fr capabilities index seen spec) (\<lambda>name.
     check_specs fr capabilities (Suc index) (insert name seen) specs)"

definition validate_evaluator_config ::
  "(real \<Rightarrow> string) \<Rightarrow> (string \<Rightarrow> bool) \<Rightarrow> dict \<Rightarrow> dict res" where
  "validate_evaluator_config fr installed config =
     (case dict_get ''evaluators'' config of
        Some (JList specs) \<Rightarrow>
          if specs = [] then
            Inl (Exn ValueErr ''Evaluator config must contain a non-empty evaluators list'')
          else and_then (check_specs fr (capability_by_name installed) 0 {} specs) (\<lambda>_. Inr config)
      | _ \<Rightarrow> Inl (Exn ValueErr ''Evaluator config must contain a non-empty evaluators list''))"

section \<open>Evaluation of a case\<close>

text \<open>The \<open>try\<close> around an evaluator: an exception becomes an errored result.\<close>

definition run_guarded ::
  "string \<Rightarrow> evaluator_fn \<Rightarrow> ml_env \<Rightarrow> dict \<Rightarrow> adapter_output \<Rightarrow> dict \<Rightarrow> evaluation_result" where
  "run_guarded name evaluator E payload out spec =
     (case evaluator E payload out spec of
        Inr r \<Rightarrow> r
      | Inl exc \<Rightarrow> errored_result name (exn_msg exc))"

definition evaluate_spec ::
  "ml_env \<Rightarrow> dict \<Rightarrow> adapter_output \<Rightarrow> json \<Rightarrow> evaluation_result res" where
  "evaluate_spec E payload out spec =
     and_then (as_dict ''get'' spec) (\<lambda>d.
     let name = py_str (float_repr E) (dict_get_or ''name'' (JStr []) d) in
     Inr (case dict_get name EVALUATOR_REGISTRY of
            None \<Rightarrow> errored_result (if name = [] then ''unknown'' else name) (''Unknown evaluator: '' @ name)
          | Some evaluator \<Rightarrow> run_guarded name evaluator E payload out d))"

definition evaluate_case ::
  "ml_env \<Rightarrow> dict \<Rightarrow> adapter_output \<Rightarrow> dict \<Rightarrow> evaluation_result list res" where
  "evaluate_case E payload out evaluator_config =
     and_then (json_iter (dict_get_or ''evaluators'' (JList []) evaluator_config)) (\<lambda>evaluator_specs.
     map_res (evaluate_spec E payload out) evaluator_specs)"

section \<open>Lemmas\<close>

context evaluator_contract
begin

lemma run_guarded_contract:
  "evaluator_name (run_guarded name fn E payload out cfg) = name"
  "well_shaped (run_guarded name fn E payload out cfg)"
  "nli_ok E \<Longrightarrow> nonneg_thresholds cfg \<Longrightarrow> unit_score (run_guarded name fn E payload out cfg)"
  by (auto simp: run_guarded_def named shaped unit split: sum.splits)

end

lemmas guarded_contracts =
  exact_match_fn.run_guarded_contract contains_keywords_fn.run_guarded_contract
  semantic_similarity_fn.run_guarded_contract token_f1_overlap_fn.run_guarded_contract
  embedding_similarity_fn.run_guarded_contract retrieval_hit_rate_fn.run_guarded_contract
  forbidden_claim_fn.run_guarded_contract latency_threshold_fn.run_guarded_contract
  cost_threshold_fn.run_guarded_contract faithfulness_fn.run_guarded_contract

lemma registered_contract:
  assumes "dict_get name EVALUATOR_REGISTRY = Some evaluator"
  shows "evaluator_name (run_guarded name evaluator E payload out cfg) = name"
    and "well_shaped (run_guarded name evaluator E payload out cfg)"
    and "nli_ok E \<Longrightarrow> nonneg_thresholds cfg \<Longrightarrow>
         unit_score (run_guarded name evaluator E payload out cfg)"
  using assms by (auto simp: EVALUATOR_REGISTRY_def guarded_contracts split: if_splits)

definition spec_name :: "(real \<Rightarrow> string) \<Rightarrow> json \<Rightarrow> string" where
  "spec_name fr spec =
     (case spec of JObj d \<Rightarrow> py_str fr (dict_get_or ''name'' (JStr []) d) | _ \<Rightarrow> [])"

definition is_obj :: "json \<Rightarrow> bool" where
  "is_obj j = (case j of JObj _ \<Rightarrow> True | _ \<Rightarrow> False)"

definition spec_nonneg :: "json \<Rightarrow> bool" where
  "spec_nonneg j = (case j of JObj d \<Rightarrow> nonneg_thresholds d | _ \<Rightarrow> True)"

lemma evaluate_spec_total:
  assumes "is_obj spec"
  obtains r where "evaluate_spec E payload out spec = Inr r"
    "evaluator_name r = (if spec_name (float_repr E) spec = [] then ''unknown''
                         else spec_name (float_repr E) spec)"
    "well_shaped r" "nli_ok E \<Longrightarrow> spec_nonneg spec \<Longrightarrow> unit_score r"
proof -
  from assms obtain d where d: "spec = JObj d" by (auto simp: is_obj_def split: json.splits)
  define name where "name = spec_name (float_repr E) spec"
  have n: "py_str (float_repr E) (dict_get_or ''name'' (JStr []) d) = name"
    by (simp add: name_def spec_name_def d)
  have s: "spec_name (float_repr E) (JObj d) = name" by (simp add: name_def d)
  show thesis
  proof (cases "dict_get name EVALUATOR_REGISTRY")
    case None
    then show thesis
      by (intro that [of "errored_result (if name = [] then ''unknown'' else name)
            (''Unknown evaluator: '' @ name)"])
        (simp_all add: evaluate_spec_def d n Let_def s)
  next
    case (Some f)
    have "name \<noteq> []" using Some by (auto simp: EVALUATOR_REGISTRY_def)
    then show thesis using registered_contract [OF Some] Some
      by (intro that [of "run_guarded name f E payload out d"])
        (simp_all add: evaluate_spec_def d n Let_def s spec_nonneg_def)
  qed
qed

lemma check_spec_ok:
  assumes "check_spec fr capabilities index seen spec = Inr name"
  shows "is_obj spec" and "name = py_strip (spec_name fr spec)" and "name \<noteq> []"
    and "name \<in> set (map fst EVALUATOR_REGISTRY)" and "name \<notin> seen"
  using assms
  by (auto simp: check_spec_def is_obj_def spec_name_def Let_def split: json.splits if_splits)

lemma check_specs_Cons:
  "check_specs fr capabilities index seen (spec # specs) = Inr () \<Longrightarrow>
   \<exists>name. check_spec fr capabilities index seen spec = Inr name \<and>
     check_specs fr capabilities (Suc index) (insert name seen) specs = Inr ()"
  by (auto simp: and_then_Inr_iff)

lemma check_specs_ok:
  assumes "check_specs fr capabilities index seen specs = Inr ()"
  shows "list_all is_obj specs"
    and "set (map (py_strip \<circ> spec_name fr) specs) \<subseteq> set (map fst EVALUATOR_REGISTRY)"
    and "distinct (map (py_strip \<circ> spec_name fr) specs)"
    and "set (map (py_strip \<circ> spec_name fr) specs) \<inter> seen = {}"
  using assms
proof (induction specs arbitrary: index seen)
  case (Cons spec specs)
  case 1
  from check_specs_Cons [OF 1] show ?case using Cons.IH(1) check_spec_ok(1) by auto
  case 2
  from check_specs_Cons [OF 2] obtain name where
    "check_spec fr capabilities index seen spec = Inr name"
    and IH: "set (map (py_strip \<circ> spec_name fr) specs) \<subseteq> set (map fst EVALUATOR_REGISTRY)"
    using Cons.IH(2) by blast
  from check_spec_ok [OF this(1)] IH show ?case by simp
  case 3
  from check_specs_Cons [OF 3] obtain name where
    "check_spec fr capabilities index seen spec = Inr name"
    and IH: "distinct (map (py_strip \<circ> spec_name fr) specs)"
      "set (map (py_strip \<circ> spec_name fr) specs) \<inter> insert name seen = {}"
    using Cons.IH(3,4) by blast
  from check_spec_ok [OF this(1)] IH show ?case by (auto simp: comp_def)
  case 4
  from check_specs_Cons [OF 4] obtain name where
    "check_spec fr capabilities index seen spec = Inr name"
    and IH: "set (map (py_strip \<circ> spec_name fr) specs) \<inter> insert name seen = {}"
    using Cons.IH(4) by blast
  from check_spec_ok [OF this(1)] IH show ?case by auto
qed auto


lemma capability_facts [simp]:
  "dict_get ''name'' (evaluator_capability installed name) = Some (JStr name)"
  by (simp add: evaluator_capability_def Let_def)

lemma capability_lookup:
  assumes "name \<in> set (map fst EVALUATOR_REGISTRY)"
  shows "dict_get_or name [] (capability_by_name installed) = evaluator_capability installed name"
proof -
  have "capability_by_name installed =
      map (\<lambda>n. (n, evaluator_capability installed n)) (sort (map fst EVALUATOR_REGISTRY))"
    by (simp add: capability_by_name_def evaluator_capabilities_def dict_get_or_def comp_def)
  with assms show ?thesis by (simp add: dict_get_or_def map_of_map_restrict)
qed

lemma metadata_has_no_report:
  "\<forall>p \<in> set EVALUATOR_METADATA. dict_get ''missing_modules'' (snd p) = None"
  by (simp add: EVALUATOR_METADATA_def)

lemma missing_of_capability:
  "missing_of (evaluator_capability installed name) =
     filter (\<lambda>m. \<not> installed m) (required_modules (dict_get_or name [] EVALUATOR_METADATA))"
proof -
  have "dict_get ''missing_modules'' (dict_get_or name [] EVALUATOR_METADATA) = None"
  proof (cases "dict_get name EVALUATOR_METADATA")
    case (Some m)
    then have "(name, m) \<in> set EVALUATOR_METADATA" by (rule map_of_SomeD)
    then show ?thesis using metadata_has_no_report Some by (fastforce simp: dict_get_or_def)
  qed (simp add: dict_get_or_def)
  then show ?thesis
    by (simp add: missing_of_def evaluator_capability_def Let_def map_add_def comp_def)
qed

lemma check_specs_available:
  assumes "check_specs fr (capability_by_name installed) index seen specs = Inr ()"
    and "spec \<in> set specs"
    and "m \<in> set (required_modules (dict_get_or (py_strip (spec_name fr spec)) [] EVALUATOR_METADATA))"
  shows "installed m"
  using assms
proof (induction specs arbitrary: index seen)
  case (Cons x specs)
  from check_specs_Cons [OF Cons.prems(1)] obtain name where
    head: "check_spec fr (capability_by_name installed) index seen x = Inr name"
    and rest: "check_specs fr (capability_by_name installed) (Suc index) (insert name seen) specs = Inr ()"
    by blast
  show ?case
  proof (cases "spec = x")
    case True
    note ok = check_spec_ok [OF head]
    have "missing_of (evaluator_capability installed name) = []"
      using head capability_lookup [OF ok(4), of installed] ok(2)
      by (auto simp: check_spec_def spec_name_def Let_def split: json.splits if_splits)
    with True Cons.prems(3) ok(2) show ?thesis
      by (auto simp: missing_of_capability filter_empty_conv)
  next
    case False
    with Cons rest show ?thesis by auto
  qed
qed simp

lemma py_strip_Nil [simp]: "py_strip [] = []"
  by (simp add: py_strip_def py_rstrip_by_def py_lstrip_by_def)

lemma validated_specs:
  assumes "validate_evaluator_config fr installed cfg = Inr cfg'"
  obtains specs where "dict_get ''evaluators'' cfg = Some (JList specs)" "specs \<noteq> []" "cfg' = cfg"
    "check_specs fr (capability_by_name installed) 0 {} specs = Inr ()"
  using assms
  by (auto simp: validate_evaluator_config_def and_then_Inr_iff split: option.splits json.splits if_splits)

lemma checked_names_nonempty:
  assumes "check_specs fr capabilities index seen specs = Inr ()" and "spec \<in> set specs"
  shows "spec_name fr spec \<noteq> []"
proof
  assume "spec_name fr spec = []"
  with assms(2) check_specs_ok(2) [OF assms(1)] have "[] \<in> set (map fst EVALUATOR_REGISTRY)" by force
  then show False by (simp add: EVALUATOR_REGISTRY_def)
qed

lemma evaluate_specs_total:
  assumes "list_all is_obj specs" and "\<forall>spec \<in> set specs. spec_name (float_repr E) spec \<noteq> []"
  shows "\<exists>rs. map_res (evaluate_spec E payload out) specs = Inr rs \<and>
     map evaluator_name rs = map (spec_name (float_repr E)) specs \<and> list_all well_shaped rs \<and>
     (nli_ok E \<and> list_all spec_nonneg specs \<longrightarrow> list_all unit_score rs)"
  using assms
proof (induction specs)
  case (Cons spec specs)
  then obtain rs where rs: "map_res (evaluate_spec E payload out) specs = Inr rs"
     "map evaluator_name rs = map (spec_name (float_repr E)) specs" "list_all well_shaped rs"
     "nli_ok E \<and> list_all spec_nonneg specs \<longrightarrow> list_all unit_score rs" by auto
  from Cons.prems evaluate_spec_total [of spec E payload out] obtain r where
    "evaluate_spec E payload out spec = Inr r" "evaluator_name r = spec_name (float_repr E) spec"
    "well_shaped r" "nli_ok E \<Longrightarrow> spec_nonneg spec \<Longrightarrow> unit_score r" by auto
  with rs show ?case by auto
qed simp

lemma validated_case_evaluates:
  assumes "validate_evaluator_config (float_repr E) installed cfg = Inr cfg'"
    and "dict_get ''evaluators'' cfg = Some (JList specs)"
  shows "\<exists>rs. evaluate_case E payload out cfg' = Inr rs \<and>
     map evaluator_name rs = map (spec_name (float_repr E)) specs \<and>
     list_all well_shaped rs \<and>
     (nli_ok E \<and> list_all spec_nonneg specs \<longrightarrow> list_all unit_score rs)"
proof -
  from validated_specs [OF assms(1)] assms(2)
  have "cfg' = cfg" and ok: "check_specs (float_repr E) (capability_by_name installed) 0 {} specs = Inr ()"
    by auto
  moreover have "list_all is_obj specs" by (rule check_specs_ok(1) [OF ok])
  ultimately show ?thesis
    using evaluate_specs_total [of specs E payload out] checked_names_nonempty [OF ok] assms(2)
    by (simp add: evaluate_case_def dict_get_or_def)
qed

section \<open>Properties\<close>

text \<open>A configuration that validates never makes \<open>evaluate_case\<close> raise: the case gets exactly one
  result per evaluator, in the configured order and under its name, each is either scored, skipped
  or errored (never a mixture), and every score lies in [0, 1] when the thresholds are not negative
  and the NLI model returns probabilities.\<close>

theorem evaluate_case_total:
  assumes "validate_evaluator_config (float_repr E) installed cfg = Inr cfg'"
    and "dict_get ''evaluators'' cfg = Some (JList specs)"
  shows "\<exists>rs. evaluate_case E payload out cfg' = Inr rs \<and>
     map evaluator_name rs = map (spec_name (float_repr E)) specs \<and>
     list_all well_shaped rs \<and>
     (nli_ok E \<and> list_all spec_nonneg specs \<longrightarrow> list_all unit_score rs)"
  by (rule validated_case_evaluates [OF assms])



definition plain_env :: ml_env where
  "plain_env = \<lparr>float_repr = (\<lambda>_. ''0.5''), encode = (\<lambda>_. Inr [1, 0]),
     nli_probs = (\<lambda>_ hyps. Inr (map (\<lambda>_. (0, 0, 1)) hyps))\<rparr>"

definition plain_output :: "string \<Rightarrow> adapter_output" where
  "plain_output text =
     \<lparr>answer = text, retrieved_chunks = [], prompt_used = [], model_used = ''m'', latency_ms = 3000,
      estimated_cost_usd = Fin 0, trace_steps = []\<rparr>"

definition two_specs :: "json list" where
  "two_specs = [JObj [(''name'', JStr ''exact_match'')], JObj [(''name'', JStr ''latency_threshold'')]]"

lemma two_specs_valid:
  "validate_evaluator_config (float_repr plain_env) (\<lambda>_. False) [(''evaluators'', JList two_specs)] =
   Inr [(''evaluators'', JList two_specs)]"
  by code_simp

lemma two_specs_facts:
  "map (spec_name (float_repr plain_env)) two_specs = [''exact_match'', ''latency_threshold'']"
  "\<forall>spec \<in> set two_specs.
     py_strip (spec_name (float_repr plain_env) spec) = spec_name (float_repr plain_env) spec"
  by code_simp+

lemma evaluate_case_total_witness:
  "\<exists>rs. evaluate_case plain_env [(''expected_output'', JStr ''Blue'')] (plain_output ''blue!'')
      [(''evaluators'', JList two_specs)] = Inr rs \<and>
    map evaluator_name rs = [''exact_match'', ''latency_threshold''] \<and> list_all well_shaped rs"
  using evaluate_case_total [OF two_specs_valid, of two_specs
      "[(''expected_output'', JStr ''Blue'')]" "plain_output ''blue!''"] two_specs_facts(1)
  by auto


text \<open>A name padded with white space passes validation, which strips it, but the engine looks the
  name up as it is: the configured evaluator never runs and the case gets an errored result.\<close>

theorem padded_name_validates_but_never_runs:
  "validate_evaluator_config (float_repr E) installed
      [(''evaluators'', JList [JObj [(''name'', JStr '' exact_match'')]])] =
    Inr [(''evaluators'', JList [JObj [(''name'', JStr '' exact_match'')]])] \<and>
   evaluate_case E payload out [(''evaluators'', JList [JObj [(''name'', JStr '' exact_match'')]])] =
    Inr [errored_result '' exact_match'' ''Unknown evaluator:  exact_match'']"
proof
  have "check_specs (float_repr E) (capability_by_name installed) 0 {}
      [JObj [(''name'', JStr '' exact_match'')]] = Inr ()"
  proof -
    have strip: "py_strip '' exact_match'' = ''exact_match''" by code_simp
    have mem: "''exact_match'' \<in> set (map fst EVALUATOR_REGISTRY)"
      by (simp add: EVALUATOR_REGISTRY_def)
    have "missing_of (evaluator_capability installed ''exact_match'') = []"
      by (simp add: missing_of_capability EVALUATOR_METADATA_def dict_get_or_def required_modules_def)
    with mem show ?thesis
      by (simp add: check_spec_def dict_get_or_def [of "''name''"] strip
        capability_lookup [OF mem] del: set_map list.set_map)
  qed
  then show "validate_evaluator_config (float_repr E) installed
      [(''evaluators'', JList [JObj [(''name'', JStr '' exact_match'')]])] =
    Inr [(''evaluators'', JList [JObj [(''name'', JStr '' exact_match'')]])]"
    by (simp add: validate_evaluator_config_def)
  show "evaluate_case E payload out [(''evaluators'', JList [JObj [(''name'', JStr '' exact_match'')]])] =
    Inr [errored_result '' exact_match'' ''Unknown evaluator:  exact_match'']"
    by (simp add: evaluate_case_def evaluate_spec_def dict_get_or_def EVALUATOR_REGISTRY_def Let_def)
qed

text \<open>For the five evaluators that compare a score with \<open>threshold\<close>, lowering the threshold never
  turns a pass into a failure.\<close>

theorem threshold_monotone:
  assumes "(fn, dflt) \<in> {(contains_keywords, 1), (semantic_similarity, 7 / 10), (token_f1_overlap, 7 / 10),
       (embedding_similarity, 7 / 10), (faithfulness_evaluator, 1 / 2)}"
    and "fn E payload out cfg = Inr r" and "fn E payload out cfg' = Inr r'"
    and "float_config ''threshold'' dflt cfg = Inr t"
    and "float_config ''threshold'' dflt cfg' = Inr t'" and "flt_le t' t"
    and "passed r = Some True"
  shows "passed r' = Some True"
  using assms(1)
proof -
  note args = assms(2-7)
  consider "fn = contains_keywords" "dflt = 1" | "fn = semantic_similarity" "dflt = 7 / 10"
    | "fn = token_f1_overlap" "dflt = 7 / 10" | "fn = embedding_similarity" "dflt = 7 / 10"
    | "fn = faithfulness_evaluator" "dflt = 1 / 2"
    using assms(1) by auto
  then show ?thesis
  proof cases
    case 1 then show ?thesis using contains_keywords_fn.lower_threshold_keeps_pass args by blast
  next
    case 2 then show ?thesis using semantic_similarity_fn.lower_threshold_keeps_pass args by blast
  next
    case 3 then show ?thesis using token_f1_overlap_fn.lower_threshold_keeps_pass args by blast
  next
    case 4 then show ?thesis using embedding_similarity_fn.lower_threshold_keeps_pass args by blast
  next
    case 5 then show ?thesis using faithfulness_fn.lower_threshold_keeps_pass args by blast
  qed
qed

lemma threshold_monotone_witness:
  "\<exists>r'. contains_keywords plain_env [(''expected_facts'', JList [JStr ''Paris''])]
      (plain_output ''It is paris.'') [(''threshold'', JInt 0)] = Inr r' \<and> passed r' = Some True"
proof -
  have hit: "str_in (py_lower ''Paris'') (py_lower ''It is paris.'')" by code_simp
  have one: "flt_of_real 1 = Fin 1" "flt_of_real 0 = Fin 0" by (simp_all add: flt_of_real_small)
  let ?run = "\<lambda>cfg. contains_keywords plain_env [(''expected_facts'', JList [JStr ''Paris''])]
      (plain_output ''It is paris.'') cfg"
  have "\<exists>r. ?run [] = Inr r \<and> passed r = Some True"
    by (simp add: contains_keywords_def float_config_def dict_get_or_def plain_output_def hit)
  moreover have "\<exists>r'. ?run [(''threshold'', JInt 0)] = Inr r'"
    by (simp add: contains_keywords_def float_config_def dict_get_or_def one)
  moreover have "float_config ''threshold'' 1 [] = Inr (Fin 1)"
    "float_config ''threshold'' 1 [(''threshold'', JInt 0)] = Inr (Fin 0)"
    by (simp_all add: float_config_def dict_get_or_def one)
  moreover have "flt_le (Fin 0) (Fin 1)" by simp
  ultimately show ?thesis
    using threshold_monotone [of contains_keywords 1 plain_env
        "[(''expected_facts'', JList [JStr ''Paris''])]" "plain_output ''It is paris.''" "[]" _
        "[(''threshold'', JInt 0)]"] by blast
qed

text \<open>The score of \<open>latency_threshold\<close> never rises with latency under a positive threshold, while
  a negative threshold gives scores above 1.\<close>

theorem latency_score_monotone:
  assumes "to_int (dict_get_or ''threshold_ms'' (JInt 2000) cfg) = Inr t" and "t \<noteq> 0"
    and "latency_threshold E payload out1 cfg = Inr r1" and "latency_threshold E payload out2 cfg = Inr r2"
    and "score r1 = Some (Fin s1)" and "score r2 = Some (Fin s2)"
    and "t < latency_ms out1" and "latency_ms out1 \<le> latency_ms out2"
  shows "if 0 < t then s2 \<le> s1 else 1 < s1 \<and> s1 \<le> s2"
proof -
  let ?f = "\<lambda>l::int. max 0 (1 - (of_int (l - t) / of_int t)) :: real"
  have s: "s1 = ?f (latency_ms out1)" "s2 = ?f (latency_ms out2)"
    using assms by (auto simp: latency_threshold_def)
  have le: "of_int (latency_ms out1 - t) \<le> (of_int (latency_ms out2 - t) :: real)"
    using assms(8) by simp
  show ?thesis
  proof (cases "0 < t")
    case True
    then have "of_int (latency_ms out1 - t) / of_int t \<le> (of_int (latency_ms out2 - t) / of_int t :: real)"
      using le by (intro divide_right_mono) simp_all
    with True show ?thesis unfolding s by simp
  next
    case False
    with assms(2) have "t < 0" by simp
    then have "(of_int (latency_ms out2 - t) / of_int t :: real) \<le> of_int (latency_ms out1 - t) / of_int t"
      using le by (intro divide_right_mono_neg) simp_all
    moreover have "of_int (latency_ms out1 - t) / of_int t < (0::real)"
      using \<open>t < 0\<close> assms(7) by (intro divide_pos_neg) simp_all
    ultimately show ?thesis using False unfolding s by simp
  qed
qed

lemma latency_score_monotone_witness:
  "\<exists>r s. latency_threshold plain_env [] (plain_output []) [(''threshold_ms'', JInt (- 500))] = Inr r \<and>
     score r = Some (Fin s) \<and> 1 < s"
proof -
  let ?cfg = "[(''threshold_ms'', JInt (- 500))]"
  have t: "to_int (dict_get_or ''threshold_ms'' (JInt 2000) ?cfg) = Inr (- 500)"
    by (simp add: dict_get_or_def)
  have run: "latency_threshold plain_env [] (plain_output []) ?cfg =
      Inr (scored ''latency_threshold'' (Fin (2 + 3000 / 500)) False
        [(''latency_ms'', JInt 3000), (''threshold_ms'', JInt (- 500))])"
    by (simp add: latency_threshold_def t) (simp add: plain_output_def)
  show ?thesis
    using latency_score_monotone [OF t _ run run] run by (simp add: plain_output_def)
qed

end
