(* ===== verification/Cost_Simulator.thy ===== *)
theory Cost_Simulator imports Evaluators begin

text \<open>
  \<open>backend/app/services/cost_simulator.py\<close>: rate lookup, token counting and the simulated cost.
  The YAML parser's answer is an argument, as is the tokenizer library (\<open>tiktoken\<close>), which maps an
  encoding name and a text to a token count and may be missing.
\<close>

text \<open>The document the rates come from: what \<open>yaml.safe_load\<close> answers, if the library and the file are there. The first answer is
  kept for the process.\<close>

definition load_cost_config :: "bool \<Rightarrow> json res option \<Rightarrow> json res" where
  "load_cost_config yaml_installed file =
     (let none = JObj [(''models'', JObj [])] in
      if \<not> yaml_installed then Inr none
      else (case file of
              None \<Rightarrow> Inr none
            | Some parsed \<Rightarrow> and_then parsed (\<lambda>doc. Inr (if truthy doc then doc else none))))"

text \<open>The first model whose name contains the wanted name or is contained in it.\<close>

primrec find_rates :: "string \<Rightarrow> (string \<times> json) list \<Rightarrow> json option" where
  "find_rates model_name [] = None"
| "find_rates model_name (kv # rest) =
     (if fst kv \<noteq> ''_default'' \<and> (str_in model_name (fst kv) \<or> str_in (fst kv) model_name)
      then Some (snd kv) else find_rates model_name rest)"

definition none_if_null :: "json option \<Rightarrow> json option" where
  "none_if_null v = (case v of Some JNull \<Rightarrow> None | r \<Rightarrow> r)"

definition default_rates :: json where
  "default_rates = JObj [(''input_per_1k'', JFloat (Fin (1 / 1000))), (''output_per_1k'', JFloat (Fin (2 / 1000)))]"

definition get_model_rates :: "dict \<Rightarrow> string \<Rightarrow> (flt \<times> flt) res" where
  "get_model_rates config model_name =
     and_then (as_dict ''get'' (dict_get_or ''models'' (JObj []) config)) (\<lambda>models.
     let model_config =
           (case none_if_null (dict_get model_name models) of
              Some m \<Rightarrow> m
            | None \<Rightarrow>
                (case none_if_null (find_rates model_name models) of
                   Some m \<Rightarrow> m
                 | None \<Rightarrow> dict_get_or ''_default'' default_rates models)) in
     and_then (as_dict ''get'' model_config) (\<lambda>rates.
     and_then (float_config ''input_per_1k'' (1 / 1000) rates) (\<lambda>i.
     and_then (float_config ''output_per_1k'' (2 / 1000) rates) (\<lambda>o'.
     Inr (i, o')))))"

definition encoding_name :: "string \<Rightarrow> string" where
  "encoding_name model_name =
     (let m = py_lower model_name in
      if str_in ''gpt-4'' m \<or> str_in ''gpt-3'' m then ''cl100k_base''
      else if str_in ''davinci'' m \<or> str_in ''text-davinci'' m then ''p50k_base''
      else ''cl100k_base'')"

definition count_tokens :: "(string \<Rightarrow> string \<Rightarrow> nat res) \<Rightarrow> string \<Rightarrow> string \<Rightarrow> nat" where
  "count_tokens tiktoken text model_name =
     (if text = [] then 0
      else (case tiktoken (encoding_name model_name) text of
              Inr n \<Rightarrow> n
            | Inl _ \<Rightarrow> max 1 (length text div 4)))"

definition simulate_cost ::
  "(string \<Rightarrow> string \<Rightarrow> nat res) \<Rightarrow> dict \<Rightarrow> string \<Rightarrow> string \<Rightarrow> string \<Rightarrow> (flt \<times> nat \<times> nat) res" where
  "simulate_cost tiktoken config prompt response model_name =
     (let input_tokens = count_tokens tiktoken prompt model_name;
          output_tokens = count_tokens tiktoken response model_name in
      and_then (get_model_rates config model_name) (\<lambda>(input_rate, output_rate).
      and_then (flt_div (flt_add (flt_mul (Fin (real input_tokens)) input_rate)
                                 (flt_mul (Fin (real output_tokens)) output_rate)) (Fin 1000)) (\<lambda>cost.
      Inr (flt_round 8 cost, input_tokens, output_tokens))))"

section \<open>Lemmas\<close>

lemma find_rates_sound:
  "find_rates m models = Some v \<Longrightarrow>
   \<exists>k. (k, v) \<in> set models \<and> k \<noteq> ''_default'' \<and> (str_in m k \<or> str_in k m)"
proof (induction models)
  case (Cons kv rest)
  then show ?case by (cases kv) (fastforce split: if_splits)
qed simp

lemma find_rates_None:
  "find_rates m models = None \<longleftrightarrow>
   (\<forall>(k, v) \<in> set models. k = ''_default'' \<or> \<not> str_in m k \<and> \<not> str_in k m)"
  by (induction models) auto

lemma count_tokens_fallback:
  assumes "tiktoken (encoding_name m) text = Inl e" and "text \<noteq> []"
  shows "count_tokens tiktoken text m = max 1 (length text div 4)"
  using assms by (simp add: count_tokens_def)

text \<open>Without the library, the file or anything in it, every model has the default rates.\<close>

lemma rates_without_document:
  assumes "\<not> yaml_installed \<or> file = None \<or> file = Some (Inr JNull)"
  shows "\<exists>config. load_cost_config yaml_installed file = Inr (JObj config) \<and>
    get_model_rates config m = Inr (Fin (1 / 1000), Fin (2 / 1000))"
  using assms
  by (auto simp: load_cost_config_def get_model_rates_def dict_get_or_def none_if_null_def default_rates_def float_config_def
    Let_def)

text \<open>A model that the document lists gets its own rates whatever other names contain its name.\<close>

lemma exact_rates:
  assumes "dict_get ''models'' config = Some (JObj models)" and "dict_get m models = Some (JObj rates)"
    and "float_config ''input_per_1k'' (1 / 1000) rates = Inr i"
    and "float_config ''output_per_1k'' (2 / 1000) rates = Inr j"
  shows "get_model_rates config m = Inr (i, j)"
  using assms by (simp add: get_model_rates_def dict_get_or_def none_if_null_def)

lemma simulate_cost_exact:
  assumes "get_model_rates config m = Inr (Fin i, Fin j)"
    and "a = real (count_tokens tiktoken prompt m)" and "b = real (count_tokens tiktoken response m)"
    and "0 \<le> i" and "0 \<le> j" and "a * i + b * j \<le> 1000000000000"
  shows "simulate_cost tiktoken config prompt response m =
     Inr (Fin (py_round 8 ((a * i + b * j) / 1000)), count_tokens tiktoken prompt m,
          count_tokens tiktoken response m)"
proof -
  have "0 \<le> a * i" "0 \<le> b * j" using assms(2-5) by simp_all
  then have "a * i \<le> 1000000000000" "b * j \<le> 1000000000000"
    "\<bar>(a * i + b * j) / 1000\<bar> \<le> 1000000000000" using assms(6) by (auto simp: abs_le_iff)
  with \<open>0 \<le> a * i\<close> \<open>0 \<le> b * j\<close> assms(6)
  have "flt_of_real (a * i) = Fin (a * i)" "flt_of_real (b * j) = Fin (b * j)"
    "flt_of_real (a * i + b * j) = Fin (a * i + b * j)"
    "flt_of_real ((a * i + b * j) / 1000) = Fin ((a * i + b * j) / 1000)"
    by (auto intro!: flt_of_real_small)
  then show ?thesis
    by (simp add: simulate_cost_def assms(1) assms(2,3) [symmetric] flt_mul_def flt_div_def)
qed

end
