(* ===== verification/Gates.thy ===== *)
theory Gates imports Statistics begin

text \<open>
  The pure half of \<open>backend/app/services/comparison.py\<close>: the metric report of two runs, validation of
  gate rules and the release verdict. \<open>verdict\<close> orders the three outcomes by severity; it is the
  specification the string-valued code is proved against.
\<close>

section \<open>Samples and the metric report\<close>

text \<open>\<open>Sequence[float] | Mapping[str, float]\<close>; a mapping is an association list with distinct keys.\<close>

datatype samples = Listed "real list" | ByCase "(string \<times> real) list"

type_synonym metric_samples = "(string \<times> samples) list"

definition at_key :: "(string \<times> real) list \<Rightarrow> string \<Rightarrow> real" where
  "at_key d k = dict_get_or k 0 d"

fun sample_values :: "samples \<Rightarrow> real list" where
  "sample_values (ByCase d) = map (at_key d) (sort (map fst d))"
| "sample_values (Listed values) = values"

fun paired_values :: "samples \<Rightarrow> samples \<Rightarrow> real list \<times> real list" where
  "paired_values (ByCase b) (ByCase c) =
     (let shared_case_ids = sort (filter (\<lambda>k. k \<in> set (map fst c)) (map fst b))
      in (map (at_key b) shared_case_ids, map (at_key c) shared_case_ids))"
| "paired_values baseline candidate =
     (let baseline_values = sample_values baseline; candidate_values = sample_values candidate;
          paired_count = min (length baseline_values) (length candidate_values)
      in (take paired_count baseline_values, take paired_count candidate_values))"

definition p95_stat :: "real list \<Rightarrow> real res" where
  "p95_stat values = percentile values (95 / 100)"

definition statistic_by_metric :: "(string \<times> (real list \<Rightarrow> real res)) list" where
  "statistic_by_metric =
     [(''pass_rate'', average_stat), (''semantic_similarity'', average_stat),
      (''p95_latency_ms'', p95_stat), (''cost_mean_usd'', average_stat)]"

definition rounded :: "real \<Rightarrow> json" where
  "rounded x = JFloat (Fin (py_round 6 x))"

definition metric_entry ::
  "'g rng \<Rightarrow> (real list \<Rightarrow> real res) \<Rightarrow> samples \<Rightarrow> samples \<Rightarrow> dict res" where
  "metric_entry R statistic baseline_raw candidate_raw =
     (let baseline_values = sample_values baseline_raw;
          candidate_values = sample_values candidate_raw;
          (paired_baseline, paired_candidate) = paired_values baseline_raw candidate_raw in
      and_then (statistic baseline_values) (\<lambda>baseline_point.
      and_then (statistic candidate_values) (\<lambda>candidate_point.
      and_then (bootstrap_ci R baseline_values statistic 1000 42) (\<lambda>baseline_ci.
      and_then (bootstrap_ci R candidate_values statistic 1000 42) (\<lambda>candidate_ci.
      and_then (bootstrap_delta_ci R paired_baseline paired_candidate statistic 1000 42) (\<lambda>delta_ci.
      Inr [(''baseline_point'', rounded baseline_point),
           (''baseline_ci_lower'', rounded (fst baseline_ci)),
           (''baseline_ci_upper'', rounded (snd baseline_ci)),
           (''candidate_point'', rounded candidate_point),
           (''candidate_ci_lower'', rounded (fst candidate_ci)),
           (''candidate_ci_upper'', rounded (snd candidate_ci)),
           (''delta_point'', rounded (candidate_point - baseline_point)),
           (''delta_ci_lower'', rounded (fst delta_ci)),
           (''delta_ci_upper'', rounded (snd delta_ci)),
           (''baseline_sample_count'', JInt (int (length baseline_values))),
           (''candidate_sample_count'', JInt (int (length candidate_values))),
           (''paired_sample_count'', JInt (int (length paired_baseline)))]))))))"

definition build_metric_report :: "'g rng \<Rightarrow> metric_samples \<Rightarrow> metric_samples \<Rightarrow> dict res" where
  "build_metric_report R baseline_samples candidate_samples =
     map_res (\<lambda>(metric, statistic).
        and_then (metric_entry R statistic (dict_get_or metric (Listed []) baseline_samples)
                    (dict_get_or metric (Listed []) candidate_samples)) (\<lambda>entry.
        Inr (metric, JObj entry))) statistic_by_metric"

section \<open>Gate rules\<close>

definition gate_rule :: "string \<Rightarrow> real \<Rightarrow> json" where
  "gate_rule direction tolerance =
     JObj [(''direction'', JStr direction), (''tolerance'', JFloat (Fin tolerance))]"

definition DEFAULT_GATE_RULES :: dict where
  "DEFAULT_GATE_RULES =
     [(''pass_rate'', gate_rule ''higher_better'' (2 / 100)),
      (''semantic_similarity'', gate_rule ''higher_better'' (2 / 100)),
      (''p95_latency_ms'', gate_rule ''lower_better'' 50),
      (''cost_mean_usd'', gate_rule ''lower_better'' (1 / 1000))]"

definition VALID_GATE_DIRECTIONS :: "string list" where
  "VALID_GATE_DIRECTIONS = [''higher_better'', ''lower_better'']"

text \<open>\<open>direction not in VALID_GATE_DIRECTIONS\<close>: a list or dict cannot be hashed.\<close>

fun check_direction :: "(real \<Rightarrow> string) \<Rightarrow> string \<Rightarrow> json \<Rightarrow> string res" where
  "check_direction fr metric (JList _) = Inl (Exn TypeErr (''unhashable type: '' @ py_repr_str ''list''))"
| "check_direction fr metric (JObj _) = Inl (Exn TypeErr (''unhashable type: '' @ py_repr_str ''dict''))"
| "check_direction fr metric j =
     (case j of
        JStr s \<Rightarrow>
          if s \<in> set VALID_GATE_DIRECTIONS then Inr s
          else Inl (Exn ValueErr (''Invalid direction for '' @ metric @ '': '' @ s))
      | _ \<Rightarrow> Inl (Exn ValueErr (''Invalid direction for '' @ metric @ '': '' @ py_str fr j)))"

definition check_tolerance :: "string \<Rightarrow> json \<Rightarrow> flt res" where
  "check_tolerance metric j =
     (case to_float j of
        Inl (Exn kind msg) \<Rightarrow>
          if kind = TypeErr \<or> kind = ValueErr then
            Inl (Exn ValueErr (''Invalid tolerance for '' @ metric))
          else Inl (Exn kind msg)
      | Inr tolerance \<Rightarrow>
          if \<not> isfinite tolerance \<or> flt_less tolerance (Fin 0) then
            Inl (Exn ValueErr (''Tolerance for '' @ metric @ '' must be a finite non-negative number''))
          else Inr tolerance)"

definition validate_rule :: "(real \<Rightarrow> string) \<Rightarrow> string \<times> json \<Rightarrow> (string \<times> json) res" where
  "validate_rule fr p =
     (let metric = fst p in
      if metric \<notin> set (map fst DEFAULT_GATE_RULES) then
        Inl (Exn ValueErr (''Unsupported gate metric: '' @ metric))
      else
        (case snd p of
           JObj rule \<Rightarrow>
             and_then (check_direction fr metric (dict_get_or ''direction'' JNull rule)) (\<lambda>direction.
             and_then (check_tolerance metric (dict_get_or ''tolerance'' JNull rule)) (\<lambda>tolerance.
             Inr (metric, JObj [(''direction'', JStr direction), (''tolerance'', JFloat tolerance)])))
         | _ \<Rightarrow> Inl (Exn ValueErr (''Gate rule for '' @ metric @ '' must be an object''))))"

definition validate_gate_rules :: "(real \<Rightarrow> string) \<Rightarrow> json \<Rightarrow> dict res" where
  "validate_gate_rules fr rules =
     (case rules of
        JObj d \<Rightarrow>
          if d = [] then Inl (Exn ValueErr ''Gate rules must contain at least one metric'')
          else map_res (validate_rule fr) d
      | _ \<Rightarrow> Inl (Exn ValueErr ''Gate rules must contain at least one metric''))"

section \<open>The verdict\<close>

text \<open>\<open>d[k]\<close>, and \<open>float(d[k])\<close> where \<open>d\<close> must be a dict.\<close>

definition key_of :: "string \<Rightarrow> dict \<Rightarrow> json res" where
  "key_of k d =
     (case dict_get k d of None \<Rightarrow> Inl (Exn KeyErr (py_repr_str k)) | Some v \<Rightarrow> Inr v)"

definition subscript :: "json \<Rightarrow> string \<Rightarrow> json res" where
  "subscript j k =
     (case j of
        JObj d \<Rightarrow> key_of k d
      | _ \<Rightarrow> Inl (Exn TypeErr (py_repr_str (type_name j) @ '' object is not subscriptable'')))"

definition float_at :: "json \<Rightarrow> string \<Rightarrow> flt res" where
  "float_at j k = and_then (subscript j k) to_float"

definition metric_verdict :: "string \<Rightarrow> flt \<Rightarrow> flt \<Rightarrow> flt \<Rightarrow> flt \<Rightarrow> string" where
  "metric_verdict direction tolerance delta_lower delta_upper delta_point =
     (let higher = (direction = ''higher_better'');
          normalized_upper = (if higher then delta_upper else flt_neg delta_lower);
          normalized_lower = (if higher then delta_lower else flt_neg delta_upper);
          normalized_point = (if higher then delta_point else flt_neg delta_point)
      in if flt_less normalized_upper (flt_neg tolerance) then ''fail''
         else if flt_less normalized_lower (flt_neg tolerance) \<or>
                 flt_less normalized_point (flt_neg tolerance) then ''warn''
         else ''pass'')"

definition gate_reason :: "string \<Rightarrow> string \<Rightarrow> flt \<Rightarrow> flt \<Rightarrow> dict" where
  "gate_reason metric verdict tolerance delta_point =
     [(''metric'', JStr metric), (''verdict'', JStr verdict), (''tolerance'', JFloat tolerance),
      (''delta_point'', JFloat delta_point)]"

definition judge_metric :: "dict \<Rightarrow> string \<times> json \<Rightarrow> (string \<times> dict) res" where
  "judge_metric metrics p =
     (let metric = fst p; rule = snd p in
      and_then (key_of metric metrics) (\<lambda>metric_report.
      and_then (subscript rule ''direction'') (\<lambda>direction.
      and_then (float_at rule ''tolerance'') (\<lambda>tolerance.
      and_then (float_at metric_report ''delta_ci_lower'') (\<lambda>delta_lower.
      and_then (float_at metric_report ''delta_ci_upper'') (\<lambda>delta_upper.
      and_then (float_at metric_report ''delta_point'') (\<lambda>delta_point.
      let v = metric_verdict (py_str (\<lambda>_. []) direction) tolerance delta_lower delta_upper delta_point
      in Inr (v, gate_reason metric v tolerance delta_point))))))))"

fun gate_loop ::
  "dict \<Rightarrow> string \<Rightarrow> dict list \<Rightarrow> (string \<times> json) list \<Rightarrow> (string \<times> dict list) res" where
  "gate_loop metrics verdict reasons [] = Inr (verdict, reasons)"
| "gate_loop metrics verdict reasons (p # rest) =
     and_then (judge_metric metrics p) (\<lambda>(v, reason).
     let reasons' = (if v \<noteq> ''pass'' then reasons @ [reason] else reasons);
         verdict' = (if v = ''fail'' then ''fail''
                     else if v = ''warn'' \<and> verdict \<noteq> ''fail'' then ''warn'' else verdict)
     in gate_loop metrics verdict' reasons' rest)"

definition apply_gates :: "(real \<Rightarrow> string) \<Rightarrow> dict \<Rightarrow> json \<Rightarrow> (string \<times> dict list) res" where
  "apply_gates fr metrics gate_rules =
     and_then (validate_gate_rules fr gate_rules) (\<lambda>rules. gate_loop metrics ''pass'' [] rules)"

section \<open>Specification of the verdict\<close>

datatype verdict = Pass | Warn | Fail

fun severity :: "verdict \<Rightarrow> nat" where
  "severity Pass = 0"
| "severity Warn = 1"
| "severity Fail = 2"

fun verdict_name :: "verdict \<Rightarrow> string" where
  "verdict_name Pass = ''pass''"
| "verdict_name Warn = ''warn''"
| "verdict_name Fail = ''fail''"

instantiation verdict :: linorder
begin

definition less_eq_verdict :: "verdict \<Rightarrow> verdict \<Rightarrow> bool" where
  "less_eq_verdict a b \<longleftrightarrow> severity a \<le> severity b"

definition less_verdict :: "verdict \<Rightarrow> verdict \<Rightarrow> bool" where
  "less_verdict a b \<longleftrightarrow> severity a < severity b"

instance
proof
  fix a b c :: verdict
  show "a < b \<longleftrightarrow> a \<le> b \<and> \<not> b \<le> a" by (auto simp: less_eq_verdict_def less_verdict_def)
  show "a \<le> a" by (simp add: less_eq_verdict_def)
  show "a \<le> b \<Longrightarrow> b \<le> c \<Longrightarrow> a \<le> c" by (simp add: less_eq_verdict_def)
  show "a \<le> b \<Longrightarrow> b \<le> a \<Longrightarrow> a = b" by (cases a; cases b) (simp_all add: less_eq_verdict_def)
  show "a \<le> b \<or> b \<le> a" by (auto simp: less_eq_verdict_def)
qed

end

text \<open>
  The regression of a metric with change in \<open>[lo, hi]\<close>, point \<open>p\<close> and tolerance \<open>t\<close>: it fails when
  the whole interval is worse than tolerated, and warns when only part of it or the point is.
\<close>

definition worse :: "string \<Rightarrow> real \<Rightarrow> real \<Rightarrow> bool" where
  "worse direction tolerance delta =
     (if direction = ''higher_better'' then delta < - tolerance else tolerance < delta)"

definition spec_verdict :: "string \<Rightarrow> real \<Rightarrow> real \<Rightarrow> real \<Rightarrow> real \<Rightarrow> verdict" where
  "spec_verdict direction t lo hi p =
     (if worse direction t lo \<and> worse direction t hi then Fail
      else if worse direction t lo \<or> worse direction t hi \<or> worse direction t p then Warn
      else Pass)"


text \<open>A normalized rule: metric, direction and tolerance.\<close>

type_synonym norm_rule = "string \<times> string \<times> real"

definition rule_json :: "norm_rule \<Rightarrow> string \<times> json" where
  "rule_json r = (case r of (metric, direction, t) \<Rightarrow> (metric, gate_rule direction t))"

definition rule_ok :: "norm_rule \<Rightarrow> bool" where
  "rule_ok r = (case r of (metric, direction, t) \<Rightarrow>
     metric \<in> set (map fst DEFAULT_GATE_RULES) \<and> direction \<in> set VALID_GATE_DIRECTIONS \<and> 0 \<le> t)"

text \<open>Lower end, upper end and point of a metric's change in a report.\<close>

definition report_deltas :: "dict \<Rightarrow> string \<Rightarrow> (real \<times> real \<times> real) option" where
  "report_deltas metrics m =
     (case dict_get m metrics of
        Some (JObj r) \<Rightarrow>
          (case (dict_get ''delta_ci_lower'' r, dict_get ''delta_ci_upper'' r, dict_get ''delta_point'' r) of
             (Some (JFloat (Fin lo)), Some (JFloat (Fin hi)), Some (JFloat (Fin p))) \<Rightarrow> Some (lo, hi, p)
           | _ \<Rightarrow> None)
      | _ \<Rightarrow> None)"

definition spec_of :: "dict \<Rightarrow> norm_rule \<Rightarrow> verdict" where
  "spec_of metrics r =
     (case r of (m, d, t) \<Rightarrow>
        (case report_deltas metrics m of
           Some (lo, hi, p) \<Rightarrow> spec_verdict d t lo hi p
         | None \<Rightarrow> Pass))"

definition reason_of :: "dict \<Rightarrow> norm_rule \<Rightarrow> dict" where
  "reason_of metrics r =
     (case r of (m, d, t) \<Rightarrow>
        (case report_deltas metrics m of
           Some (lo, hi, p) \<Rightarrow> gate_reason m (verdict_name (spec_of metrics r)) (Fin t) (Fin p)
         | None \<Rightarrow> []))"

definition worst :: "verdict list \<Rightarrow> verdict" where
  "worst vs = foldl max Pass vs"

definition deltas_ok :: "dict \<Rightarrow> string \<Rightarrow> bool" where
  "deltas_ok metrics m = (case report_deltas metrics m of Some (lo, hi, p) \<Rightarrow> lo \<le> hi | None \<Rightarrow> False)"

section \<open>Lemmas\<close>

lemma verdict_max [simp]:
  "max a Fail = Fail" "max Fail a = Fail" "max Pass a = a" "max a Pass = a" "max Warn Warn = Warn"
  by (cases a; simp add: max_def less_eq_verdict_def)+

lemma verdict_name_eq [simp]:
  "verdict_name v = ''fail'' \<longleftrightarrow> v = Fail" "verdict_name v = ''warn'' \<longleftrightarrow> v = Warn"
  "verdict_name v = ''pass'' \<longleftrightarrow> v = Pass" "verdict_name v = verdict_name w \<longleftrightarrow> v = w"
  by ((cases v; cases w; simp), (cases v; cases w; simp), (cases v; cases w; simp),
      (cases v; cases w; simp))

lemma check_direction_Inr:
  "check_direction fr m j = Inr s \<longleftrightarrow> j = JStr s \<and> s \<in> set VALID_GATE_DIRECTIONS"
  by (cases j) auto

lemma check_tolerance_Inr:
  "check_tolerance m j = Inr x \<Longrightarrow> \<exists>t. x = Fin t \<and> 0 \<le> t"
  by (cases x) (auto simp: check_tolerance_def flt_less_def split: sum.splits exn.splits if_splits)

lemma check_tolerance_float [simp]: "0 \<le> t \<Longrightarrow> check_tolerance m (JFloat (Fin t)) = Inr (Fin t)"
  by (simp add: check_tolerance_def flt_less_def)

lemma validate_rule_Inr:
  assumes "validate_rule fr p = Inr q"
  shows "\<exists>r. q = rule_json r \<and> rule_ok r \<and> fst r = fst p"
proof -
  from assms obtain rule direction x where p: "snd p = JObj rule"
    and m: "fst p \<in> set (map fst DEFAULT_GATE_RULES)"
    and d: "direction \<in> set VALID_GATE_DIRECTIONS"
    and x: "check_tolerance (fst p) (dict_get_or ''tolerance'' JNull rule) = Inr x"
    and q: "q = (fst p, JObj [(''direction'', JStr direction), (''tolerance'', JFloat x)])"
    by (auto simp: validate_rule_def Let_def and_then_Inr_iff check_direction_Inr
        simp del: list.set_map split: json.splits if_splits)
  from check_tolerance_Inr [OF x] obtain t where "x = Fin t" "0 \<le> t" by blast
  then have "q = rule_json (fst p, direction, t) \<and> rule_ok (fst p, direction, t)"
    using m d by (simp add: q rule_json_def gate_rule_def rule_ok_def del: list.set_map)
  then show ?thesis by (intro exI [of _ "(fst p, direction, t)"]) simp
qed

lemma validate_rule_json: "rule_ok r \<Longrightarrow> validate_rule fr (rule_json r) = Inr (rule_json r)"
  by (cases r) (auto simp: rule_ok_def rule_json_def validate_rule_def gate_rule_def dict_get_or_def
      check_direction_Inr [THEN iffD2] simp del: list.set_map check_direction.simps)

lemma validated_rules:
  assumes "map_res (validate_rule fr) d = Inr vr"
  shows "\<exists>rs. vr = map rule_json rs \<and> list_all rule_ok rs \<and> map fst rs = map fst d"
  using assms
proof (induction d arbitrary: vr)
  case (Cons p d)
  from Cons.prems obtain q vr' where q: "validate_rule fr p = Inr q"
    and vr': "map_res (validate_rule fr) d = Inr vr'" "vr = q # vr'"
    by (auto simp: and_then_Inr_iff)
  from Cons.IH [OF vr'(1)] obtain rs where rs: "vr' = map rule_json rs" "list_all rule_ok rs"
    "map fst rs = map fst d" by blast
  from validate_rule_Inr [OF q] obtain r where "q = rule_json r" "rule_ok r" "fst r = fst p" by blast
  with rs vr'(2) show ?case by (intro exI [of _ "r # rs"]) simp
qed simp

lemma validate_gate_rules_Inr:
  assumes "validate_gate_rules fr rules = Inr vr"
  obtains d rs where "rules = JObj d" "vr = map rule_json rs" "rs \<noteq> []" "list_all rule_ok rs"
    "map fst rs = map fst d"
proof -
  from assms obtain d where d: "rules = JObj d" "d \<noteq> []" "map_res (validate_rule fr) d = Inr vr"
    by (auto simp: validate_gate_rules_def split: json.splits if_splits)
  from validated_rules [OF d(3)] d that show thesis by (metis list.map_disc_iff)
qed

lemma validate_normal_rules:
  assumes "rs \<noteq> []" and "list_all rule_ok rs"
  shows "validate_gate_rules fr (JObj (map rule_json rs)) = Inr (map rule_json rs)"
proof -
  have "map_res (validate_rule fr) (map rule_json rs) = Inr (map rule_json rs)"
    using assms(2) by (induction rs) (auto simp: validate_rule_json)
  with assms(1) show ?thesis by (simp add: validate_gate_rules_def)
qed

lemma metric_verdict_spec:
  assumes "d \<in> set VALID_GATE_DIRECTIONS" and "lo \<le> hi"
  shows "metric_verdict d (Fin t) (Fin lo) (Fin hi) (Fin p) = verdict_name (spec_verdict d t lo hi p)"
  using assms
  by (auto simp: metric_verdict_def spec_verdict_def worse_def VALID_GATE_DIRECTIONS_def flt_less_def)

lemma judge_metric_spec:
  assumes "rule_ok r" and "deltas_ok metrics (fst r)"
  shows "judge_metric metrics (rule_json r) =
    Inr (verdict_name (spec_of metrics r), reason_of metrics r)"
proof -
  obtain m d t where r: "r = (m, d, t)" by (cases r)
  from assms(2) obtain lo hi p where del: "report_deltas metrics m = Some (lo, hi, p)" "lo \<le> hi"
    by (auto simp: r deltas_ok_def split: option.splits)
  from del(1) obtain e where e: "dict_get m metrics = Some (JObj e)"
    "dict_get ''delta_ci_lower'' e = Some (JFloat (Fin lo))"
    "dict_get ''delta_ci_upper'' e = Some (JFloat (Fin hi))"
    "dict_get ''delta_point'' e = Some (JFloat (Fin p))"
    by (auto simp: report_deltas_def split: option.splits json.splits flt.splits)
  from assms(1) have "d \<in> set VALID_GATE_DIRECTIONS" by (simp add: r rule_ok_def)
  from metric_verdict_spec [OF this del(2)] show ?thesis
    by (simp add: judge_metric_def rule_json_def gate_rule_def r key_of_def subscript_def float_at_def e
      spec_of_def reason_of_def del(1) Let_def)
qed

lemma gate_loop_spec:
  assumes "list_all rule_ok rs" and "\<forall>r \<in> set rs. deltas_ok metrics (fst r)"
  shows "gate_loop metrics (verdict_name v) reasons (map rule_json rs) =
    Inr (verdict_name (foldl max v (map (spec_of metrics) rs)),
         reasons @ map (reason_of metrics) (filter (\<lambda>r. spec_of metrics r \<noteq> Pass) rs))"
  using assms
proof (induction rs arbitrary: v reasons)
  case (Cons r rs)
  then have step: "judge_metric metrics (rule_json r) =
      Inr (verdict_name (spec_of metrics r), reason_of metrics r)"
    by (simp add: judge_metric_spec)
  have next_v: "(if verdict_name s = ''fail'' then ''fail''
      else if verdict_name s = ''warn'' \<and> verdict_name v \<noteq> ''fail'' then ''warn'' else verdict_name v) =
      verdict_name (max v s)" for s
    by (cases s; cases v) (simp_all add: max_def less_eq_verdict_def)
  show ?case using Cons.IH [of "max v (spec_of metrics r)"] Cons.prems
    by (simp add: step next_v Let_def del: verdict_name_eq) simp
qed simp

lemma worst_ge: "v \<in> set vs \<Longrightarrow> v \<le> worst vs"
proof -
  have "foldl max a vs = Max (insert a (set vs))" for a :: verdict
  proof (induction vs arbitrary: a)
    case (Cons v vs)
    have "Max (insert (max a v) (set vs)) = Max (insert a (insert v (set vs)))"
      by (cases "vs = []") (simp_all add: max.assoc)
    with Cons show ?case by simp
  qed simp
  moreover assume "v \<in> set vs"
  ultimately show ?thesis by (simp add: worst_def)
qed

lemma apply_gates_spec:
  assumes "validate_gate_rules fr rules = Inr (map rule_json rs)" and "list_all rule_ok rs"
    and "\<forall>r \<in> set rs. deltas_ok metrics (fst r)"
  shows "apply_gates fr metrics rules =
    Inr (verdict_name (worst (map (spec_of metrics) rs)),
         map (reason_of metrics) (filter (\<lambda>r. spec_of metrics r \<noteq> Pass) rs))"
  using gate_loop_spec [OF assms(2,3), of Pass "[]"] assms(1)
  by (simp add: apply_gates_def worst_def)


section \<open>The report\<close>

interpretation p95s: sample_statistic p95_stat
  using p95.sample_statistic_axioms by (simp add: p95_stat_def [abs_def])

context sample_statistic
begin

lemma metric_entry_ok:
  assumes "rng_ok R"
  shows "\<exists>e lo hi p. metric_entry R stat b c = Inr e \<and> lo \<le> hi \<and>
     dict_get ''delta_ci_lower'' e = Some (JFloat (Fin lo)) \<and>
     dict_get ''delta_ci_upper'' e = Some (JFloat (Fin hi)) \<and>
     dict_get ''delta_point'' e = Some (JFloat (Fin p))"
proof -
  obtain pb pc where pair: "paired_values b c = (pb, pc)" by fastforce
  obtain v w where pts: "stat (sample_values b) = Inr v" "stat (sample_values c) = Inr w"
    using stat_total by blast
  obtain bl bh cl ch where cis: "bootstrap_ci R (sample_values b) stat 1000 42 = Inr (bl, bh)"
    "bootstrap_ci R (sample_values c) stat 1000 42 = Inr (cl, ch)"
    by (meson bootstrap_ci_total [OF assms, of 1000] zero_less_numeral)
  have "\<exists>lo hi. bootstrap_delta_ci R pb pc stat 1000 42 = Inr (lo, hi) \<and> lo \<le> hi"
  proof (cases "pb = [] \<or> pc = []")
    case True
    then show ?thesis by (auto simp: bootstrap_delta_ci_def)
  next
    case False
    then have ne: "pb \<noteq> []" "pc \<noteq> []" by auto
    have "\<And>x. x \<in> set pb \<Longrightarrow> Min (set pb) \<le> x \<and> x \<le> Max (set pb)"
      "\<And>x. x \<in> set pc \<Longrightarrow> Min (set pc) \<le> x \<and> x \<le> Max (set pc)" by simp_all
    from bootstrap_delta_ok [OF assms zero_less_numeral ne this] show ?thesis by blast
  qed
  then obtain lo hi where "bootstrap_delta_ci R pb pc stat 1000 42 = Inr (lo, hi)" "lo \<le> hi" by blast
  then show ?thesis
    by (simp add: metric_entry_def pair pts cis rounded_def py_round_mono Let_def)
qed

lemma metric_entry_same:
  assumes "rng_ok R" and "fst (paired_values s s) = snd (paired_values s s)"
  shows "\<exists>e. metric_entry R stat s s = Inr e \<and>
     dict_get ''delta_ci_lower'' e = Some (JFloat (Fin 0)) \<and>
     dict_get ''delta_ci_upper'' e = Some (JFloat (Fin 0)) \<and>
     dict_get ''delta_point'' e = Some (JFloat (Fin 0))"
proof -
  obtain pb where pair: "paired_values s s = (pb, pb)" using assms(2) by (metis prod.collapse)
  obtain v where "stat (sample_values s) = Inr v" using stat_total by blast
  moreover obtain bl bh where "bootstrap_ci R (sample_values s) stat 1000 42 = Inr (bl, bh)"
    by (meson bootstrap_ci_total [OF assms(1), of 1000] zero_less_numeral)
  moreover have "bootstrap_delta_ci R pb pb stat 1000 42 = Inr (0, 0)"
    by (rule bootstrap_delta_same [OF assms(1)]) simp
  ultimately show ?thesis by (simp add: metric_entry_def pair rounded_def Let_def)
qed

end

lemmas metric_entries_ok = avg.metric_entry_ok p95s.metric_entry_ok
lemmas metric_entries_same = avg.metric_entry_same p95s.metric_entry_same

lemma report_ok:
  assumes "rng_ok R"
  shows "\<exists>metrics. build_metric_report R b c = Inr metrics \<and>
     map fst metrics = map fst DEFAULT_GATE_RULES \<and>
     (\<forall>m \<in> set (map fst DEFAULT_GATE_RULES). deltas_ok metrics m)"
proof -
  let ?s = "\<lambda>m sm. dict_get_or m (Listed []) sm"
  obtain e1 l1 h1 p1 where 1: "metric_entry R average_stat (?s ''pass_rate'' b) (?s ''pass_rate'' c) = Inr e1"
    "l1 \<le> h1" "dict_get ''delta_ci_lower'' e1 = Some (JFloat (Fin l1))"
    "dict_get ''delta_ci_upper'' e1 = Some (JFloat (Fin h1))" "dict_get ''delta_point'' e1 = Some (JFloat (Fin p1))"
    using metric_entries_ok(1) [OF assms] by meson
  obtain e2 l2 h2 p2 where 2: "metric_entry R average_stat (?s ''semantic_similarity'' b)
      (?s ''semantic_similarity'' c) = Inr e2"
    "l2 \<le> h2" "dict_get ''delta_ci_lower'' e2 = Some (JFloat (Fin l2))"
    "dict_get ''delta_ci_upper'' e2 = Some (JFloat (Fin h2))" "dict_get ''delta_point'' e2 = Some (JFloat (Fin p2))"
    using metric_entries_ok(1) [OF assms] by meson
  obtain e3 l3 h3 p3 where 3: "metric_entry R p95_stat (?s ''p95_latency_ms'' b) (?s ''p95_latency_ms'' c) = Inr e3"
    "l3 \<le> h3" "dict_get ''delta_ci_lower'' e3 = Some (JFloat (Fin l3))"
    "dict_get ''delta_ci_upper'' e3 = Some (JFloat (Fin h3))" "dict_get ''delta_point'' e3 = Some (JFloat (Fin p3))"
    using metric_entries_ok(2) [OF assms] by meson
  obtain e4 l4 h4 p4 where 4: "metric_entry R average_stat (?s ''cost_mean_usd'' b) (?s ''cost_mean_usd'' c) = Inr e4"
    "l4 \<le> h4" "dict_get ''delta_ci_lower'' e4 = Some (JFloat (Fin l4))"
    "dict_get ''delta_ci_upper'' e4 = Some (JFloat (Fin h4))" "dict_get ''delta_point'' e4 = Some (JFloat (Fin p4))"
    using metric_entries_ok(1) [OF assms] by meson
  show ?thesis
    by (simp add: build_metric_report_def statistic_by_metric_def 1 2 3 4 DEFAULT_GATE_RULES_def
      deltas_ok_def report_deltas_def)
qed

text \<open>A mapping paired with itself, and a list paired with itself, give the same two lists.\<close>

lemma paired_self: "fst (paired_values s s) = snd (paired_values s s)"
  by (cases s) (simp_all add: Let_def)

lemma report_same:
  assumes "rng_ok R"
  shows "\<exists>metrics. build_metric_report R s s = Inr metrics \<and>
     (\<forall>m \<in> set (map fst DEFAULT_GATE_RULES). report_deltas metrics m = Some (0, 0, 0))"
proof -
  let ?s = "\<lambda>m. dict_get_or m (Listed []) s"
  note same = metric_entries_same [OF assms paired_self]
  obtain e1 where 1: "metric_entry R average_stat (?s ''pass_rate'') (?s ''pass_rate'') = Inr e1"
    "dict_get ''delta_ci_lower'' e1 = Some (JFloat (Fin 0))"
    "dict_get ''delta_ci_upper'' e1 = Some (JFloat (Fin 0))" "dict_get ''delta_point'' e1 = Some (JFloat (Fin 0))"
    using same(1) by meson
  obtain e2 where 2: "metric_entry R average_stat (?s ''semantic_similarity'') (?s ''semantic_similarity'') = Inr e2"
    "dict_get ''delta_ci_lower'' e2 = Some (JFloat (Fin 0))"
    "dict_get ''delta_ci_upper'' e2 = Some (JFloat (Fin 0))" "dict_get ''delta_point'' e2 = Some (JFloat (Fin 0))"
    using same(1) by meson
  obtain e3 where 3: "metric_entry R p95_stat (?s ''p95_latency_ms'') (?s ''p95_latency_ms'') = Inr e3"
    "dict_get ''delta_ci_lower'' e3 = Some (JFloat (Fin 0))"
    "dict_get ''delta_ci_upper'' e3 = Some (JFloat (Fin 0))" "dict_get ''delta_point'' e3 = Some (JFloat (Fin 0))"
    using same(2) by meson
  obtain e4 where 4: "metric_entry R average_stat (?s ''cost_mean_usd'') (?s ''cost_mean_usd'') = Inr e4"
    "dict_get ''delta_ci_lower'' e4 = Some (JFloat (Fin 0))"
    "dict_get ''delta_ci_upper'' e4 = Some (JFloat (Fin 0))" "dict_get ''delta_point'' e4 = Some (JFloat (Fin 0))"
    using same(1) by meson
  show ?thesis
    by (simp add: build_metric_report_def statistic_by_metric_def 1 2 3 4 DEFAULT_GATE_RULES_def
      report_deltas_def)
qed

lemma rule_metric: "list_all rule_ok rs \<Longrightarrow> r \<in> set rs \<Longrightarrow> fst r \<in> set (map fst DEFAULT_GATE_RULES)"
  by (cases r) (auto simp: list_all_iff rule_ok_def simp del: list.set_map)

lemma spec_zero: "rule_ok r \<Longrightarrow> report_deltas metrics (fst r) = Some (0, 0, 0) \<Longrightarrow> spec_of metrics r = Pass"
  by (cases r) (auto simp: spec_of_def spec_verdict_def worse_def rule_ok_def)

lemma identical_runs:
  assumes "rng_ok R" and "validate_gate_rules fr rules = Inr vr"
  shows "\<exists>metrics. build_metric_report R s s = Inr metrics \<and> apply_gates fr metrics rules = Inr (''pass'', [])"
proof -
  from validate_gate_rules_Inr [OF assms(2)] obtain rs where
    vr: "vr = map rule_json rs" and ok: "list_all rule_ok rs" by blast
  from report_same [OF assms(1)] obtain metrics where m: "build_metric_report R s s = Inr metrics"
    "\<forall>m \<in> set (map fst DEFAULT_GATE_RULES). report_deltas metrics m = Some (0, 0, 0)" by blast
  have z: "report_deltas metrics (fst r) = Some (0, 0, 0)" if "r \<in> set rs" for r
    using m(2) rule_metric [OF ok that] by blast
  then have pass: "spec_of metrics r = Pass" if "r \<in> set rs" for r
    using spec_zero ok that by (simp add: list_all_iff)
  have "\<forall>r \<in> set rs. deltas_ok metrics (fst r)" using z by (simp add: deltas_ok_def)
  from apply_gates_spec [OF assms(2) [unfolded vr] ok this]
  have "apply_gates fr metrics rules = Inr (verdict_name (worst (map (\<lambda>_. Pass) rs)), [])"
    using pass by (simp add: filter_empty_conv cong: map_cong)
  moreover have "worst (map (\<lambda>_. Pass) rs) = Pass"
    unfolding worst_def by (induction rs) simp_all
  ultimately show ?thesis using m(1) by simp
qed


lemma gate_verdict:
  assumes "rng_ok R" and "validate_gate_rules fr rules = Inr vr"
  shows "\<exists>metrics rs. build_metric_report R baseline candidate = Inr metrics \<and>
     vr = map rule_json rs \<and> list_all rule_ok rs \<and>
     apply_gates fr metrics rules =
       Inr (verdict_name (worst (map (spec_of metrics) rs)),
            map (reason_of metrics) (filter (\<lambda>r. spec_of metrics r \<noteq> Pass) rs))"
proof -
  from validate_gate_rules_Inr [OF assms(2)] obtain rs where
    vr: "vr = map rule_json rs" and ok: "list_all rule_ok rs" by blast
  from report_ok [OF assms(1)] obtain metrics where m: "build_metric_report R baseline candidate = Inr metrics"
    "\<forall>m \<in> set (map fst DEFAULT_GATE_RULES). deltas_ok metrics m" by blast
  have "\<forall>r \<in> set rs. deltas_ok metrics (fst r)" using m(2) rule_metric [OF ok] by blast
  from apply_gates_spec [OF assms(2) [unfolded vr] ok this] m(1) vr ok show ?thesis by blast
qed

section \<open>Properties\<close>

text \<open>C5: The release verdict is the worst verdict over the configured metrics. For any samples of the
  two runs and any gate rules that validate, computing the report and applying the gates never
  raises; a metric fails when its whole confidence interval regresses by more than the tolerance,
  warns when part of the interval or the point does, and the reasons list exactly the metrics that
  did not pass, in rule order.\<close>

theorem gate_verdict_is_worst_metric:
  assumes "rng_ok R" and "validate_gate_rules fr rules = Inr vr"
  shows "\<exists>metrics rs. build_metric_report R baseline candidate = Inr metrics \<and>
     vr = map rule_json rs \<and> list_all rule_ok rs \<and>
     apply_gates fr metrics rules =
       Inr (verdict_name (worst (map (spec_of metrics) rs)),
            map (reason_of metrics) (filter (\<lambda>r. spec_of metrics r \<noteq> Pass) rs))"
  by (rule gate_verdict [OF assms])

text \<open>Comparing a run with itself always passes every gate, without reasons, whatever the rules.\<close>

theorem identical_runs_pass:
  assumes "rng_ok R" and "validate_gate_rules fr rules = Inr vr"
  shows "\<exists>metrics. build_metric_report R s s = Inr metrics \<and> apply_gates fr metrics rules = Inr (''pass'', [])"
  by (rule identical_runs [OF assms])

lemma spec_verdict_mono:
  assumes "t' \<le> t" and "d \<in> set VALID_GATE_DIRECTIONS"
  shows "spec_verdict d t lo hi p \<le> spec_verdict d t' lo hi p"
  using assms
  by (auto simp: spec_verdict_def worse_def VALID_GATE_DIRECTIONS_def less_eq_verdict_def)

lemma worst_mono: "list_all2 (\<le>) vs ws \<Longrightarrow> worst vs \<le> worst ws"
proof -
  have "a \<le> b \<Longrightarrow> list_all2 (\<le>) vs ws \<Longrightarrow> foldl max a vs \<le> foldl max b ws" for a b :: verdict
  proof (induction vs arbitrary: a b ws)
    case (Cons v vs)
    then obtain w ws' where ws: "ws = w # ws'" "v \<le> w" "list_all2 (\<le>) vs ws'"
      by (auto simp: list_all2_Cons1)
    have "max a v \<le> max b w" using Cons.prems(1) ws(2) by (auto simp: max_def)
    from Cons.IH [OF this ws(3)] show ?case by (simp add: ws(1))
  qed simp
  then show "list_all2 (\<le>) vs ws \<Longrightarrow> worst vs \<le> worst ws" by (simp add: worst_def)
qed

text \<open>\<open>r'\<close> is \<open>r\<close> with a tolerance that is not larger.\<close>

definition stricter :: "norm_rule \<Rightarrow> norm_rule \<Rightarrow> bool" where
  "stricter r r' \<longleftrightarrow> fst r' = fst r \<and> fst (snd r') = fst (snd r) \<and> snd (snd r') \<le> snd (snd r)"

text \<open>Tightening tolerances never improves the verdict: on the same report, the same metrics with
  smaller tolerances give a verdict that is equal or more severe.\<close>

theorem stricter_rules_never_improve:
  assumes "list_all2 stricter rs rs'" and "rs \<noteq> []" and "list_all rule_ok rs" and "list_all rule_ok rs'"
    and "\<forall>m \<in> set (map fst rs). deltas_ok metrics m"
  shows "\<exists>v v' why why'. apply_gates fr metrics (JObj (map rule_json rs)) = Inr (verdict_name v, why) \<and>
    apply_gates fr metrics (JObj (map rule_json rs')) = Inr (verdict_name v', why') \<and> v \<le> v'"
proof -
  have same: "map fst rs' = map fst rs" "length rs' = length rs"
    using assms(1) by (induction rule: list_all2_induct) (auto simp: stricter_def)
  have ok: "\<forall>r \<in> set rs. deltas_ok metrics (fst r)" "\<forall>r \<in> set rs'. deltas_ok metrics (fst r)"
    using assms(5) same(1) by (metis list.set_map image_eqI)+
  have "rs' \<noteq> []" using same(2) assms(2) by auto
  note valid = validate_normal_rules [OF assms(2,3)] validate_normal_rules [OF this assms(4)]
  have "list_all2 (\<le>) (map (spec_of metrics) rs) (map (spec_of metrics) rs')"
    using assms(1,3)
  proof (induction rule: list_all2_induct)
    case (Cons r rs r' rs')
    then show ?case
      by (cases r; cases r')
        (auto simp: stricter_def spec_of_def rule_ok_def spec_verdict_mono split: option.splits)
  qed simp
  from worst_mono [OF this] apply_gates_spec [OF valid(1) assms(3) ok(1)]
    apply_gates_spec [OF valid(2) assms(4) ok(2)] show ?thesis by blast
qed

text \<open>Validation of gate rules keeps exactly the metrics it was given, in order, and its result is a
  normal form that validates to itself.\<close>

theorem gate_rules_normal_form:
  assumes "validate_gate_rules fr rules = Inr vr"
  shows "validate_gate_rules fr' (JObj vr) = Inr vr \<and> vr \<noteq> [] \<and> (\<exists>d. rules = JObj d \<and> map fst vr = map fst d)"
proof -
  from validate_gate_rules_Inr [OF assms] obtain d rs where rs: "rules = JObj d" "vr = map rule_json rs"
    "rs \<noteq> []" "list_all rule_ok rs" "map fst rs = map fst d" .
  have "map fst vr = map fst rs" unfolding rs(2) by (auto simp: rule_json_def split: prod.splits)
  with rs validate_normal_rules [OF rs(3,4)] show ?thesis by auto
qed

section \<open>Witnesses\<close>

definition loose :: norm_rule where "loose = (''pass_rate'', ''higher_better'', 1)"
definition tight :: norm_rule where "tight = (''pass_rate'', ''higher_better'', 0)"

lemma loose_tight_ok: "rule_ok loose" "rule_ok tight" "stricter loose tight"
  by (simp_all add: rule_ok_def loose_def tight_def DEFAULT_GATE_RULES_def VALID_GATE_DIRECTIONS_def
      stricter_def)

lemma tight_valid: "validate_gate_rules fr (JObj [rule_json tight]) = Inr [rule_json tight]"
  using validate_normal_rules [of "[tight]" fr] loose_tight_ok by simp

lemma gate_verdict_is_worst_metric_witness:
  "\<exists>metrics v why. build_metric_report cycle_rng [(''pass_rate'', ByCase [(''a'', 1)])]
      [(''pass_rate'', ByCase [(''a'', 0)])] = Inr metrics \<and>
    apply_gates plain_repr metrics (JObj [rule_json tight]) = Inr (verdict_name v, why)"
  using gate_verdict_is_worst_metric [OF cycle_rng_ok tight_valid] by blast

lemma identical_runs_pass_witness:
  "\<exists>metrics. build_metric_report cycle_rng [(''pass_rate'', ByCase [(''a'', 1)])]
      [(''pass_rate'', ByCase [(''a'', 1)])] = Inr metrics \<and>
    apply_gates plain_repr metrics (JObj [rule_json tight]) = Inr (''pass'', [])"
  by (rule identical_runs_pass [OF cycle_rng_ok tight_valid])

lemma stricter_rules_never_improve_witness:
  "\<exists>metrics v v' why why'. apply_gates plain_repr metrics (JObj [rule_json loose]) = Inr (verdict_name v, why) \<and>
    apply_gates plain_repr metrics (JObj [rule_json tight]) = Inr (verdict_name v', why') \<and> v \<le> v'"
proof -
  obtain metrics where "\<forall>m \<in> set (map fst DEFAULT_GATE_RULES). deltas_ok metrics m"
    using report_ok [OF cycle_rng_ok] by blast
  then have "\<forall>m \<in> set (map fst [loose]). deltas_ok metrics m"
    by (simp add: loose_def DEFAULT_GATE_RULES_def)
  from stricter_rules_never_improve [OF _ _ _ _ this, of "[tight]" plain_repr] loose_tight_ok
  show ?thesis by auto
qed

lemma gate_rules_normal_form_witness:
  "validate_gate_rules plain_repr (JObj [rule_json tight]) = Inr [rule_json tight]"
  using gate_rules_normal_form [OF tight_valid] by blast

end
