(* ===== verification/Entities.thy ===== *)
theory Entities imports Py_Base begin

text \<open>
  \<open>backend/app/models/entities.py\<close>: one record per table, with the table's columns, and the database
  as a record of row lists; \<open>backend/app/core/tenancy.py\<close>: roles and principals. Times are
  microseconds since the epoch. A handler maps a database to a response and a database; what a handler
  has not committed when it raises is rolled back, so such a branch returns the database it had.
  UUIDs and the clock are fields of the request environment of each component.
\<close>

section \<open>Roles and principals\<close>

datatype role = Viewer | Evaluator | Admin | Owner

fun role_name :: "role \<Rightarrow> string" where
  "role_name Viewer = ''viewer''"
| "role_name Evaluator = ''evaluator''"
| "role_name Admin = ''admin''"
| "role_name Owner = ''owner''"

fun role_level :: "role \<Rightarrow> int" where
  "role_level Viewer = 10"
| "role_level Evaluator = 20"
| "role_level Admin = 30"
| "role_level Owner = 40"

instantiation role :: linorder
begin

definition less_eq_role :: "role \<Rightarrow> role \<Rightarrow> bool" where
  "less_eq_role a b \<longleftrightarrow> role_level a \<le> role_level b"

definition less_role :: "role \<Rightarrow> role \<Rightarrow> bool" where
  "less_role a b \<longleftrightarrow> role_level a < role_level b"

instance
proof
  fix a b c :: role
  show "a < b \<longleftrightarrow> a \<le> b \<and> \<not> b \<le> a" by (auto simp: less_eq_role_def less_role_def)
  show "a \<le> a" by (simp add: less_eq_role_def)
  show "a \<le> b \<Longrightarrow> b \<le> c \<Longrightarrow> a \<le> c" by (simp add: less_eq_role_def)
  show "a \<le> b \<Longrightarrow> b \<le> a \<Longrightarrow> a = b" by (cases a; cases b) (simp_all add: less_eq_role_def)
  show "a \<le> b \<or> b \<le> a" by (auto simp: less_eq_role_def)
qed

end

definition parse_role :: "string \<Rightarrow> role option" where
  "parse_role s =
     map_of [(''owner'', Owner), (''admin'', Admin), (''evaluator'', Evaluator), (''viewer'', Viewer)] s"

lemma parse_role_name [simp]: "parse_role (role_name r) = Some r"
  by (cases r) (simp_all add: parse_role_def)

datatype auth_type = SystemApiKey | Development | SessionToken | ApiKeyToken

record principal =
  p_user :: "string option"
  p_org :: string
  p_role :: role
  p_auth :: auth_type
  p_session :: "string option"
  p_api_key :: "string option"

definition DEFAULT_ORGANIZATION_ID :: string where
  "DEFAULT_ORGANIZATION_ID = ''00000000-0000-0000-0000-000000000001''"

section \<open>Responses\<close>

datatype failure = Http (status_of: nat) (detail_of: json) | Unhandled exn

type_synonym 'a response = "failure + 'a"

definition http :: "nat \<Rightarrow> string \<Rightarrow> 'a response" where
  "http code text = Inl (Http code (JStr text))"

definition require_role :: "principal \<Rightarrow> role \<Rightarrow> unit response" where
  "require_role p minimum =
     (if role_level (p_role p) < role_level minimum then
        http 403 (''Role '' @ role_name minimum @ '' or higher is required'')
      else Inr ())"

lemma require_role_ok: "require_role p r = Inr () \<longleftrightarrow> r \<le> p_role p"
  by (auto simp: require_role_def http_def less_eq_role_def)

lemma require_role_cases: "require_role p r = Inr () \<or> (\<exists>e. require_role p r = Inl e)"
  by (auto simp: require_role_def http_def)

section \<open>Tables\<close>

record user_row =
  u_id :: string
  u_email :: string
  u_display_name :: string
  u_password_hash :: "string option"
  u_active :: bool
  u_failed :: nat
  u_locked_until :: "int option"
  u_created :: int

record org_row =
  o_id :: string
  o_name :: string
  o_slug :: string
  o_created :: int

record membership_row =
  m_org :: string
  m_user :: string
  m_role :: role
  m_created :: int

record session_row =
  as_id :: string
  as_user :: string
  as_org :: string
  as_token_hash :: string
  as_expires :: int
  as_revoked :: "int option"
  as_created :: int

record api_key_row =
  ak_id :: string
  ak_user :: string
  ak_org :: string
  ak_name :: string
  ak_prefix :: string
  ak_token_hash :: string
  ak_expires :: "int option"
  ak_last_used :: "int option"
  ak_revoked :: "int option"
  ak_created :: int

record app_row =
  ap_id :: string
  ap_org :: string
  ap_name :: string
  ap_description :: string
  ap_created :: int

record version_row =
  av_id :: string
  av_app :: string
  av_name :: string
  av_config :: dict
  av_adapter :: string
  av_created :: int

record suite_row =
  es_id :: string
  es_app :: string
  es_name :: string
  es_created :: int

record case_row =
  ec_id :: string
  ec_external :: "string option"
  ec_payload :: dict
  ec_created :: int

record suite_case_row =
  sc_suite :: string
  sc_case :: string

record evaluator_config_row =
  vc_id :: string
  vc_org :: string
  vc_name :: string
  vc_config :: dict
  vc_created :: int

datatype run_status = RunPending | RunRunning | RunCompleted | RunPartial | RunFailed

fun run_status_text :: "run_status \<Rightarrow> string" where
  "run_status_text RunPending = ''pending''"
| "run_status_text RunRunning = ''running''"
| "run_status_text RunCompleted = ''completed''"
| "run_status_text RunPartial = ''partial''"
| "run_status_text RunFailed = ''failed''"

record run_row =
  er_id :: string
  er_org :: string
  er_version :: string
  er_suite :: string
  er_config :: string
  er_status :: run_status
  er_started :: "int option"
  er_completed_at :: "int option"
  er_case_count :: nat
  er_case_completed :: nat
  er_case_errored :: nat
  er_created :: int

datatype item_status =
  Queued | ItemRunning | ItemCompleted | ItemErrored | ItemTimedOut | ItemCancelled

record item_row =
  ri_id :: string
  ri_run :: string
  ri_case :: string
  ri_status :: item_status
  ri_attempts :: nat
  ri_task :: "string option"
  ri_lease :: "int option"
  ri_latency :: "int option"
  ri_cost :: "real option"
  ri_error :: "string option"
  ri_started :: "int option"
  ri_completed :: "int option"

record trace_row =
  tr_item :: string
  tr_payload :: dict
  tr_created :: int

record result_row =
  rs_item :: string
  rs_name :: string
  rs_score :: "real option"
  rs_passed :: "bool option"
  rs_errored :: bool
  rs_skipped :: bool
  rs_error :: "string option"
  rs_details :: dict
  rs_created :: int

record gate_rule_row =
  gr_id :: string
  gr_org :: string
  gr_name :: string
  gr_rules :: dict
  gr_created :: int

record comparison_row =
  cm_id :: string
  cm_org :: string
  cm_baseline :: string
  cm_candidate :: string
  cm_gate :: string
  cm_status :: string
  cm_created :: int

record report_row =
  rp_id :: string
  rp_comparison :: string
  rp_metrics :: dict
  rp_verdict :: string
  rp_reasons :: "dict list"
  rp_created :: int

record db =
  users :: "user_row list"
  orgs :: "org_row list"
  memberships :: "membership_row list"
  auth_sessions :: "session_row list"
  api_keys :: "api_key_row list"
  apps :: "app_row list"
  versions :: "version_row list"
  suites :: "suite_row list"
  eval_cases :: "case_row list"
  suite_cases :: "suite_case_row list"
  evaluator_configs :: "evaluator_config_row list"
  runs :: "run_row list"
  items :: "item_row list"
  traces :: "trace_row list"
  results :: "result_row list"
  gate_rules :: "gate_rule_row list"
  comparisons :: "comparison_row list"
  reports :: "report_row list"

definition empty_db :: db where
  "empty_db = \<lparr>users = [], orgs = [], memberships = [], auth_sessions = [], api_keys = [], apps = [],
     versions = [], suites = [], eval_cases = [], suite_cases = [], evaluator_configs = [], runs = [],
     items = [], traces = [], results = [], gate_rules = [], comparisons = [], reports = []\<rparr>"

section \<open>Queries\<close>

text \<open>\<open>UPDATE ... SET\<close> on the rows that match, and a page of a list ordered by creation time.\<close>

definition update_where :: "('r \<Rightarrow> bool) \<Rightarrow> ('r \<Rightarrow> 'r) \<Rightarrow> 'r list \<Rightarrow> 'r list" where
  "update_where P f rows = map (\<lambda>r. if P r then f r else r) rows"

definition page_desc :: "('r \<Rightarrow> int) \<Rightarrow> nat \<Rightarrow> nat \<Rightarrow> 'r list \<Rightarrow> 'r list" where
  "page_desc created limit offset rows = take limit (drop offset (sort_key (\<lambda>r. - created r) rows))"

text \<open>
  A \<open>Numeric(10, 6)\<close> column keeps six decimals and rejects magnitudes from \<open>10^4\<close> and infinities;
  a NaN is treated as rejected, so that columns hold numbers.
\<close>

fun numeric_10_6 :: "flt \<Rightarrow> real res" where
  "numeric_10_6 (Fin x) =
     (if \<bar>py_round 6 x\<bar> < 10000 then Inr (py_round 6 x)
      else Inl (Exn IntegrityErr ''numeric field overflow''))"
| "numeric_10_6 _ = Inl (Exn IntegrityErr ''numeric field overflow'')"

definition numeric_opt :: "flt option \<Rightarrow> real option res" where
  "numeric_opt v =
     (case v of None \<Rightarrow> Inr None | Some x \<Rightarrow> and_then (numeric_10_6 x) (\<lambda>r. Inr (Some r)))"

lemma update_where_length [simp]: "length (update_where P f rows) = length rows"
  by (simp add: update_where_def)

lemma map_id_update_where:
  "(\<And>r. g (f r) = g r) \<Longrightarrow> map g (update_where P f rows) = map g rows"
  by (simp add: update_where_def)

lemma set_update_where: "set (update_where P f rows) = (\<lambda>r. if P r then f r else r) ` set rows"
  by (simp add: update_where_def)

lemma update_where_keeps: "i \<in> set rows \<Longrightarrow> \<not> P i \<Longrightarrow> i \<in> set (update_where P f rows)"
  by (force simp: set_update_where)

lemma update_where_filter:
  "(\<And>r. Q (f r) = Q r) \<Longrightarrow> filter Q (update_where P f rows) = update_where P f (filter Q rows)"
  by (induction rows) (auto simp: update_where_def)

lemma update_where_untouched:
  "(\<And>r. r \<in> set rows \<Longrightarrow> \<not> P r) \<Longrightarrow> update_where P f rows = rows"
  unfolding update_where_def by (rule map_idI) auto

lemma set_page_desc: "set (page_desc c l d rows) \<subseteq> set rows"
  unfolding page_desc_def by (metis set_drop_subset set_sort set_take_subset subset_trans)

end
