(* ===== verification/Gate_Report.thy ===== *)
theory Gate_Report imports Gates Entities begin

text \<open>
  \<open>backend/app/services/ci_gate_report.py\<close> (the CI payload and its Markdown) and
  \<open>backend/app/cli/gate.py\<close> (the exit code of the gate command). The HTTP request of the command and
  the ISO time stamp are arguments.
\<close>

definition METRIC_ORDER :: "string list" where
  "METRIC_ORDER = [''pass_rate'', ''semantic_similarity'', ''p95_latency_ms'', ''cost_mean_usd'']"

definition should_fail_ci :: "string \<Rightarrow> bool \<Rightarrow> bool" where
  "should_fail_ci verdict fail_on_warn =
     (let normalized = py_lower verdict
      in normalized = ''fail'' \<or> (fail_on_warn \<and> normalized = ''warn''))"

section \<open>Rows\<close>

record metric_row =
  mr_name :: string
  mr_baseline :: flt
  mr_candidate :: flt
  mr_delta :: flt
  mr_delta_ci :: "flt list"
  mr_status :: json

definition as_float :: "json option \<Rightarrow> flt res" where
  "as_float v =
     (case v of None \<Rightarrow> Inr (Fin 0) | Some JNull \<Rightarrow> Inr (Fin 0) | Some j \<Rightarrow> to_float j)"

text \<open>The last reason whose metric is \<open>name\<close>; a list or dict as a metric cannot be a dict key.\<close>

definition unhashable :: "dict \<Rightarrow> bool" where
  "unhashable reason =
     (case dict_get ''metric'' reason of Some (JList _) \<Rightarrow> True | Some (JObj _) \<Rightarrow> True | _ \<Rightarrow> False)"

definition reason_for :: "dict list \<Rightarrow> string \<Rightarrow> dict option" where
  "reason_for gate_reasons name =
     find (\<lambda>r. dict_get ''metric'' r = Some (JStr name)) (rev gate_reasons)"

definition ordered_names :: "dict \<Rightarrow> string list" where
  "ordered_names metrics =
     filter (\<lambda>n. n \<in> set (map fst metrics)) METRIC_ORDER @
     sort (filter (\<lambda>n. n \<notin> set METRIC_ORDER) (map fst metrics))"

definition metric_row_of :: "dict \<Rightarrow> dict list \<Rightarrow> string \<Rightarrow> metric_row res" where
  "metric_row_of metrics gate_reasons name =
     and_then (key_of name metrics) (\<lambda>j.
     and_then (as_dict ''get'' j) (\<lambda>metric.
     and_then (as_float (dict_get ''baseline_point'' metric)) (\<lambda>baseline.
     and_then (as_float (dict_get ''candidate_point'' metric)) (\<lambda>candidate.
     and_then (as_float (dict_get ''delta_point'' metric)) (\<lambda>delta.
     and_then (as_float (dict_get ''delta_ci_lower'' metric)) (\<lambda>lower.
     and_then (as_float (dict_get ''delta_ci_upper'' metric)) (\<lambda>upper.
     Inr \<lparr>mr_name = name, mr_baseline = baseline, mr_candidate = candidate, mr_delta = delta,
          mr_delta_ci = [lower, upper],
          mr_status = (case reason_for gate_reasons name of
                         None \<Rightarrow> JStr ''pass''
                       | Some reason \<Rightarrow> dict_get_or ''verdict'' (JStr ''pass'') reason)\<rparr>)))))))"

definition build_metric_rows :: "dict \<Rightarrow> dict list \<Rightarrow> metric_row list res" where
  "build_metric_rows metrics gate_reasons =
     (if list_ex unhashable gate_reasons then
        Inl (Exn TypeErr (''unhashable type''))
      else map_res (metric_row_of metrics gate_reasons) (ordered_names metrics))"

section \<open>Markdown\<close>

fun format_number :: "flt \<Rightarrow> string" where
  "format_number (Fin x) = format_fixed 6 x"
| "format_number PInf = ''inf''"
| "format_number NInf = ''-inf''"
| "format_number NaN = ''nan''"

definition nl :: string where
  "nl = [CHR 0x0A]"

definition tick :: "string \<Rightarrow> string" where
  "tick s = CHR 0x60 # s @ [CHR 0x60]"

record ci_payload =
  ci_comparison_id :: string
  ci_baseline_run_id :: string
  ci_candidate_run_id :: string
  ci_verdict :: string
  ci_should_fail :: bool
  ci_dashboard_url :: "string option"
  ci_generated_at :: string
  ci_metrics :: "metric_row list"
  ci_gate_reasons :: "dict list"
  ci_markdown :: string

definition metric_line :: "(real \<Rightarrow> string) \<Rightarrow> metric_row \<Rightarrow> string" where
  "metric_line fr row =
     ''| '' @ mr_name row @ '' | '' @ format_number (mr_baseline row) @ '' | '' @
     format_number (mr_candidate row) @ '' | '' @ format_number (mr_delta row) @ '' | '' @
     py_str fr (mr_status row) @ '' |''"

definition reason_line :: "(real \<Rightarrow> string) \<Rightarrow> string \<Rightarrow> dict \<Rightarrow> string res" where
  "reason_line fr payload_verdict reason =
     (let metric = py_str fr (dict_get_or ''metric'' (JStr ''unknown_metric'') reason);
          verdict = py_str fr (dict_get_or ''verdict'' (JStr payload_verdict) reason);
          delta = dict_get_or ''delta'' JNull reason;
          tolerance = dict_get_or ''tolerance'' JNull reason;
          detail = ''- '' @ tick metric @ '' returned '' @ tick verdict
      in if delta \<noteq> JNull \<and> tolerance \<noteq> JNull then
           and_then (to_float delta) (\<lambda>d.
           and_then (to_float tolerance) (\<lambda>t.
           Inr (detail @ '' (delta '' @ tick (format_number d) @ '', tolerance '' @
                tick (format_number t) @ '')'')))
         else Inr detail)"

definition render_markdown :: "(real \<Rightarrow> string) \<Rightarrow> ci_payload \<Rightarrow> string res" where
  "render_markdown fr payload =
     and_then (map_res (reason_line fr (ci_verdict payload)) (ci_gate_reasons payload)) (\<lambda>reason_lines.
     let head = [''## EvalForge Deployment Gate'', [],
            ''Gate verdict: '' @ tick (ci_verdict payload), [],
            ''| Metric | Baseline | Candidate | Delta | Status |'', ''|---|---:|---:|---:|---|''];
         reasons = (if ci_gate_reasons payload \<noteq> [] then [[], ''### Blocking Reasons''] @ reason_lines else []);
         link = (case ci_dashboard_url payload of
                   None \<Rightarrow> []
                 | Some url \<Rightarrow>
                     if url = [] then [] else [[], ''[Open EvalForge dashboard]('' @ url @ '')''])
     in Inr (py_join nl (head @ map (metric_line fr) (ci_metrics payload) @ reasons @ link) @ nl))"

definition build_ci_gate_report ::
  "(real \<Rightarrow> string) \<Rightarrow> string \<Rightarrow> comparison_row \<Rightarrow> report_row \<Rightarrow> string option \<Rightarrow> bool \<Rightarrow> ci_payload res" where
  "build_ci_gate_report fr generated_at comparison report dashboard_url fail_on_warn =
     and_then (build_metric_rows (rp_metrics report) (rp_reasons report)) (\<lambda>rows.
     let payload = \<lparr>ci_comparison_id = cm_id comparison,
           ci_baseline_run_id = cm_baseline comparison,
           ci_candidate_run_id = cm_candidate comparison,
           ci_verdict = rp_verdict report,
           ci_should_fail = should_fail_ci (rp_verdict report) fail_on_warn,
           ci_dashboard_url = dashboard_url, ci_generated_at = generated_at,
           ci_metrics = rows, ci_gate_reasons = rp_reasons report, ci_markdown = []\<rparr>
     in and_then (render_markdown fr payload) (\<lambda>markdown.
        Inr (payload\<lparr>ci_markdown := markdown\<rparr>)))"

section \<open>The gate command\<close>

record gate_args =
  ga_base_url :: string
  ga_comparison_id :: string
  ga_api_key :: "string option"
  ga_dashboard_url :: "string option"
  ga_json_out :: "string option"
  ga_markdown_out :: "string option"
  ga_fail_on_warn :: bool

definition nonempty :: "string option \<Rightarrow> string list" where
  "nonempty v = (case v of None \<Rightarrow> [] | Some s \<Rightarrow> if s = [] then [] else [s])"

text \<open>The files written, as path and content; \<open>dumps\<close> stands for \<open>json.dumps(.., indent=2)\<close>.\<close>

definition write_artifacts :: "(ci_payload \<Rightarrow> string) \<Rightarrow> ci_payload \<Rightarrow> gate_args \<Rightarrow> (string \<times> string) list" where
  "write_artifacts dumps payload args =
     map (\<lambda>path. (path, dumps payload @ nl)) (nonempty (ga_json_out args)) @
     map (\<lambda>path. (path, ci_markdown payload)) (nonempty (ga_markdown_out args))"

definition report_url :: "gate_args \<Rightarrow> string" where
  "report_url args = py_rstrip_by (\<lambda>c. c = CHR ''/'') (ga_base_url args) @ ''/api/comparisons/'' @
     ga_comparison_id args @ ''/ci-report''"

text \<open>\<open>fetch\<close> is \<open>client.get\<close> with \<open>raise_for_status\<close> and \<open>response.json\<close>: it takes the URL, the headers and the query
  parameters, and answers or raises.\<close>

definition fetch_ci_gate_report ::
  "(string \<Rightarrow> (string \<times> string) list \<Rightarrow> bool \<Rightarrow> string option \<Rightarrow> ci_payload res) \<Rightarrow> gate_args \<Rightarrow> ci_payload res" where
  "fetch_ci_gate_report fetch args =
     (let headers = map (\<lambda>key. (''X-EvalForge-Api-Key'', key)) (nonempty (ga_api_key args));
          dashboard_url = (case nonempty (ga_dashboard_url args) of [] \<Rightarrow> None | u # _ \<Rightarrow> Some u)
      in fetch (report_url args) headers (ga_fail_on_warn args) dashboard_url)"

text \<open>The exit code with the files written; exit code 2 is argparse's.\<close>

definition gate_main ::
  "(string \<Rightarrow> (string \<times> string) list \<Rightarrow> bool \<Rightarrow> string option \<Rightarrow> ci_payload res) \<Rightarrow>
   (ci_payload \<Rightarrow> string) \<Rightarrow> gate_args \<Rightarrow> (nat \<times> (string \<times> string) list) res" where
  "gate_main fetch dumps args =
     (if py_strip (ga_base_url args) = [] then Inr (2, [])
      else and_then (fetch_ci_gate_report fetch args) (\<lambda>payload.
           Inr (if ci_should_fail payload then 1 else 0, write_artifacts dumps payload args)))"

section \<open>Lemmas\<close>

lemma should_fail_spec:
  "should_fail_ci (verdict_name v) fail_on_warn \<longleftrightarrow> (if fail_on_warn then Warn \<le> v else v = Fail)"
proof -
  have "py_lower (verdict_name w) = verdict_name w" for w
    by (cases w) (simp_all add: py_lower_def py_lower_char_def)
  then have "should_fail_ci (verdict_name v) fail_on_warn \<longleftrightarrow> v = Fail \<or> fail_on_warn \<and> v = Warn"
    by (simp only: should_fail_ci_def Let_def verdict_name_eq)
  then show ?thesis by (cases v) (simp_all add: less_eq_verdict_def)
qed

lemma reason_for_notin:
  "(\<And>r. r \<in> set reasons \<Longrightarrow> dict_get ''metric'' r \<noteq> Some (JStr name)) \<Longrightarrow> reason_for reasons name = None"
  by (auto simp: reason_for_def find_None_iff)

lemma reason_of_metric:
  "deltas_ok metrics (fst r) \<Longrightarrow> dict_get ''metric'' (reason_of metrics r) = Some (JStr (fst r))"
  "deltas_ok metrics (fst r) \<Longrightarrow>
     dict_get ''verdict'' (reason_of metrics r) = Some (JStr (verdict_name (spec_of metrics r)))"
  by (cases r; auto simp: reason_of_def deltas_ok_def gate_reason_def split: option.splits)+

lemma find_unique:
  assumes "x \<in> set xs" and "P x" and "\<And>y. y \<in> set xs \<Longrightarrow> P y \<Longrightarrow> y = x"
  shows "find P xs = Some x"
proof (cases "find P xs")
  case None
  with assms(1,2) show ?thesis by (auto simp: find_None_iff)
next
  case (Some y)
  then have "y \<in> set xs" "P y" by (auto simp: find_Some_iff)
  with assms(3) Some show ?thesis by simp
qed

lemma reason_for_rule:
  assumes "distinct (map fst rs)" and "r \<in> set rs" and "spec_of metrics r \<noteq> Pass"
    and "\<forall>r \<in> set rs. deltas_ok metrics (fst r)"
  shows "reason_for (map (reason_of metrics) (filter (\<lambda>r. spec_of metrics r \<noteq> Pass) rs)) (fst r) =
    Some (reason_of metrics r)"
  unfolding reason_for_def
proof (rule find_unique)
  show "reason_of metrics r \<in> set (rev (map (reason_of metrics) (filter (\<lambda>r. spec_of metrics r \<noteq> Pass) rs)))"
    using assms(2,3) by auto
  show "dict_get ''metric'' (reason_of metrics r) = Some (JStr (fst r))"
    using assms(2,4) reason_of_metric(1) by blast
  fix y assume "y \<in> set (rev (map (reason_of metrics) (filter (\<lambda>r. spec_of metrics r \<noteq> Pass) rs)))"
    and m: "dict_get ''metric'' y = Some (JStr (fst r))"
  then obtain r' where r': "r' \<in> set rs" "y = reason_of metrics r'" by auto
  with m assms(4) reason_of_metric(1) have "fst r' = fst r" by fastforce
  with r'(1) assms(1,2) have "r' = r" by (metis distinct_map inj_on_def)
  with r' show "y = reason_of metrics r" by simp
qed

text \<open>The status a metric must have in the report: its rule's verdict, or \<open>pass\<close> without a rule.\<close>

definition expected_status :: "dict \<Rightarrow> norm_rule list \<Rightarrow> string \<Rightarrow> string" where
  "expected_status metrics rs name =
     (case find (\<lambda>r. fst r = name) rs of
        None \<Rightarrow> ''pass''
      | Some r \<Rightarrow> verdict_name (spec_of metrics r))"

lemma status_expected:
  assumes "distinct (map fst rs)" and "\<forall>r \<in> set rs. deltas_ok metrics (fst r)"
  defines "reasons \<equiv> map (reason_of metrics) (filter (\<lambda>r. spec_of metrics r \<noteq> Pass) rs)"
  shows "(case reason_for reasons name of None \<Rightarrow> JStr ''pass''
          | Some reason \<Rightarrow> dict_get_or ''verdict'' (JStr ''pass'') reason) =
         JStr (expected_status metrics rs name)"
proof (cases "\<exists>r \<in> set rs. fst r = name \<and> spec_of metrics r \<noteq> Pass")
  case True
  then obtain r where r: "r \<in> set rs" "fst r = name" "spec_of metrics r \<noteq> Pass" by blast
  have "reason_for reasons name = Some (reason_of metrics r)"
    using reason_for_rule [OF assms(1) r(1,3) assms(2)] r(2) by (simp add: reasons_def)
  moreover have "find (\<lambda>r. fst r = name) rs = Some r"
    using r assms(1) by (intro find_unique) (auto simp: distinct_map inj_on_def)
  moreover have "dict_get ''verdict'' (reason_of metrics r) = Some (JStr (verdict_name (spec_of metrics r)))"
    using reason_of_metric(2) assms(2) r(1) by blast
  ultimately show ?thesis by (simp add: expected_status_def dict_get_or_def)
next
  case False
  have "reason_for reasons name = None"
  proof (rule reason_for_notin)
    fix y assume "y \<in> set reasons"
    then obtain r where "r \<in> set rs" "spec_of metrics r \<noteq> Pass" "y = reason_of metrics r"
      by (auto simp: reasons_def)
    with False reason_of_metric(1) assms(2) show "dict_get ''metric'' y \<noteq> Some (JStr name)" by auto
  qed
  moreover have "expected_status metrics rs name = ''pass''"
    using False by (auto simp: expected_status_def find_Some_iff split: option.splits)
  ultimately show ?thesis by simp
qed


lemma entry_floats:
  assumes "metric_entry R st b c = Inr e"
    and "k \<in> {''baseline_point'', ''candidate_point'', ''delta_point'', ''delta_ci_lower'', ''delta_ci_upper''}"
  shows "\<exists>x. dict_get k e = Some (JFloat (Fin x))"
  using assms by (auto simp: metric_entry_def Let_def and_then_Inr_iff rounded_def split: prod.splits)

lemma report_entry:
  assumes "build_metric_report R b c = Inr metrics" and "(m, j) \<in> set metrics"
  shows "\<exists>e st b' c'. j = JObj e \<and> metric_entry R st b' c' = Inr e"
  using map_res_set [OF assms(1) [unfolded build_metric_report_def] assms(2)]
  by (fastforce simp: and_then_Inr_iff split: prod.splits)

lemma row_exists:
  assumes "build_metric_report R b c = Inr metrics" and "name \<in> set (map fst metrics)"
  shows "\<exists>row. metric_row_of metrics reasons name = Inr row \<and> mr_name row = name \<and>
    mr_status row = (case reason_for reasons name of None \<Rightarrow> JStr ''pass''
                     | Some reason \<Rightarrow> dict_get_or ''verdict'' (JStr ''pass'') reason)"
proof -
  from assms(2) obtain j where j: "dict_get name metrics = Some j"
    by (metis list.set_map map_of_eq_None_iff not_None_eq)
  then have "(name, j) \<in> set metrics" by (rule map_of_SomeD)
  from report_entry [OF assms(1) this] obtain e st b' c' where e: "j = JObj e"
    "metric_entry R st b' c' = Inr e" by blast
  from entry_floats [OF e(2)] obtain x1 x2 x3 x4 x5 where
    "dict_get ''baseline_point'' e = Some (JFloat (Fin x1))"
    "dict_get ''candidate_point'' e = Some (JFloat (Fin x2))"
    "dict_get ''delta_point'' e = Some (JFloat (Fin x3))"
    "dict_get ''delta_ci_lower'' e = Some (JFloat (Fin x4))"
    "dict_get ''delta_ci_upper'' e = Some (JFloat (Fin x5))" by fastforce
  then show ?thesis by (simp add: metric_row_of_def key_of_def j e(1) as_float_def)
qed

lemma rows_exist:
  assumes "build_metric_report R b c = Inr metrics" and "set names \<subseteq> set (map fst metrics)"
  shows "\<exists>rows. map_res (metric_row_of metrics reasons) names = Inr rows \<and> map mr_name rows = names \<and>
    map mr_status rows = map (\<lambda>name. case reason_for reasons name of None \<Rightarrow> JStr ''pass''
        | Some reason \<Rightarrow> dict_get_or ''verdict'' (JStr ''pass'') reason) names"
  using assms(2)
proof (induction names)
  case (Cons n names)
  then obtain rows where "map_res (metric_row_of metrics reasons) names = Inr rows" "map mr_name rows = names"
    "map mr_status rows = map (\<lambda>name. case reason_for reasons name of None \<Rightarrow> JStr ''pass''
        | Some reason \<Rightarrow> dict_get_or ''verdict'' (JStr ''pass'') reason) names" by auto
  moreover from row_exists [OF assms(1), of n reasons] Cons.prems obtain row where
    "metric_row_of metrics reasons n = Inr row" "mr_name row = n"
    "mr_status row = (case reason_for reasons n of None \<Rightarrow> JStr ''pass''
                     | Some reason \<Rightarrow> dict_get_or ''verdict'' (JStr ''pass'') reason)" by auto
  ultimately show ?case by simp
qed simp

lemma ordered_names_default:
  "map fst metrics = map fst DEFAULT_GATE_RULES \<Longrightarrow> ordered_names metrics = METRIC_ORDER"
  by (simp add: ordered_names_def DEFAULT_GATE_RULES_def METRIC_ORDER_def)

text \<open>The gate writes the point change under \<open>delta_point\<close>; the renderer reads \<open>delta\<close>.\<close>

lemma reason_line_gate:
  "reason_line fr pv (gate_reason m v t d) = Inr (''- '' @ tick m @ '' returned '' @ tick v)"
  by (simp add: reason_line_def gate_reason_def dict_get_or_def)

lemma reason_of_gate_reason:
  "deltas_ok metrics (fst r) \<Longrightarrow> \<exists>t d. reason_of metrics r =
     gate_reason (fst r) (verdict_name (spec_of metrics r)) (Fin t) (Fin d)"
  by (cases r) (auto simp: reason_of_def deltas_ok_def split: option.splits)

lemma reason_lines_total:
  assumes "\<forall>r \<in> set rs. deltas_ok metrics (fst r)"
  shows "\<exists>ls. map_res (reason_line fr pv) (map (reason_of metrics) rs) = Inr ls"
  using assms
proof (induction rs)
  case (Cons r rs)
  then obtain ls where "map_res (reason_line fr pv) (map (reason_of metrics) rs) = Inr ls" by auto
  moreover from reason_of_gate_reason [of metrics r] Cons.prems obtain t d where
    "reason_of metrics r = gate_reason (fst r) (verdict_name (spec_of metrics r)) (Fin t) (Fin d)" by auto
  ultimately show ?case by (simp add: reason_line_gate)
qed simp

text \<open>The payload of a report whose metrics the statistics computed and whose reasons the gate wrote.\<close>

lemma ci_payload_built:
  assumes "rng_ok R" and "build_metric_report R b c = Inr metrics" and "list_all rule_ok rs"
    and "rp_metrics report = metrics" and "rp_verdict report = verdict_name (worst (map (spec_of metrics) rs))"
    and "rp_reasons report = map (reason_of metrics) (filter (\<lambda>r. spec_of metrics r \<noteq> Pass) rs)"
  obtains payload where "build_ci_gate_report fr ts comparison report url fail_on_warn = Inr payload"
    "map mr_name (ci_metrics payload) = METRIC_ORDER"
    "distinct (map fst rs) \<longrightarrow>
       map mr_status (ci_metrics payload) = map (\<lambda>m. JStr (expected_status metrics rs m)) METRIC_ORDER"
    "ci_should_fail payload \<longleftrightarrow>
       worst (map (spec_of metrics) rs) = Fail \<or> fail_on_warn \<and> worst (map (spec_of metrics) rs) = Warn"
proof -
  let ?w = "worst (map (spec_of metrics) rs)" and ?why = "rp_reasons report"
  from report_ok [OF assms(1)] assms(2) have m: "map fst metrics = map fst DEFAULT_GATE_RULES"
    "\<forall>m \<in> set (map fst DEFAULT_GATE_RULES). deltas_ok metrics m"
    by (metis sum.inject(2))+
  have del: "\<forall>r \<in> set rs. deltas_ok metrics (fst r)" using m(2) rule_metric [OF assms(3)] by blast
  have "set METRIC_ORDER \<subseteq> set (map fst metrics)"
    unfolding m(1) by (simp add: DEFAULT_GATE_RULES_def METRIC_ORDER_def)
  from rows_exist [OF assms(2) this, of ?why] obtain rows where
    rows: "map_res (metric_row_of metrics ?why) METRIC_ORDER = Inr rows" "map mr_name rows = METRIC_ORDER"
    and st: "map mr_status rows = map (\<lambda>name. case reason_for ?why name of None \<Rightarrow> JStr ''pass''
        | Some reason \<Rightarrow> dict_get_or ''verdict'' (JStr ''pass'') reason) METRIC_ORDER" by blast
  have "\<not> list_ex unhashable ?why"
    using reason_of_metric(1) del by (auto simp: assms(6) list_ex_iff unhashable_def)
  then have built: "build_metric_rows metrics ?why = Inr rows"
    using rows(1) by (simp add: build_metric_rows_def ordered_names_default [OF m(1)])
  have status: "distinct (map fst rs) \<longrightarrow> map mr_status rows = map (\<lambda>m. JStr (expected_status metrics rs m)) METRIC_ORDER"
    unfolding st assms(6) using status_expected [OF _ del] by simp
  have "\<exists>ls. map_res (reason_line fr (verdict_name ?w)) ?why = Inr ls"
    unfolding assms(6) by (rule reason_lines_total) (use del in auto)
  then obtain payload where pl: "build_ci_gate_report fr ts comparison report url fail_on_warn = Inr payload"
    "ci_metrics payload = rows" "ci_should_fail payload = should_fail_ci (verdict_name ?w) fail_on_warn"
    by (auto simp: build_ci_gate_report_def built assms(4,5) render_markdown_def Let_def)
  moreover have "should_fail_ci (verdict_name ?w) fail_on_warn \<longleftrightarrow> ?w = Fail \<or> fail_on_warn \<and> ?w = Warn"
    unfolding should_fail_spec by (cases ?w) (auto simp: less_eq_verdict_def)
  ultimately show thesis using that rows(2) status by simp
qed

section \<open>Properties\<close>

text \<open>C23: The CI report is complete and agrees with the gate: for a stored report whose metrics and
  verdict the gate computed, building the payload never raises, it has one row per metric in the
  fixed order, each row's status is the verdict of that metric's rule (\<open>pass\<close> without one), and the
  gate command exits with 1 exactly when the verdict is a failure, or a warning under
  \<open>--fail-on-warn\<close>.\<close>

theorem ci_report_agrees_with_gate:
  assumes "rng_ok R" and "build_metric_report R b c = Inr metrics"
    and "rules = JObj d" and "distinct (map fst d)" and "apply_gates fr metrics rules = Inr (v, why)"
    and "rp_metrics report = metrics" and "rp_verdict report = v" and "rp_reasons report = why"
    and "py_strip (ga_base_url args) \<noteq> []"
  shows "\<exists>payload rs w. build_ci_gate_report fr ts comparison report url (ga_fail_on_warn args) = Inr payload \<and>
    validate_gate_rules fr rules = Inr (map rule_json rs) \<and> v = verdict_name w \<and>
    w = worst (map (spec_of metrics) rs) \<and> map mr_name (ci_metrics payload) = METRIC_ORDER \<and>
    map mr_status (ci_metrics payload) = map (\<lambda>m. JStr (expected_status metrics rs m)) METRIC_ORDER \<and>
    gate_main (\<lambda>_ _ _ _. Inr payload) dumps args =
      Inr (if w = Fail \<or> ga_fail_on_warn args \<and> w = Warn then 1 else 0, write_artifacts dumps payload args)"
proof -
  from assms(5) obtain vr where vr: "validate_gate_rules fr rules = Inr vr"
    by (auto simp: apply_gates_def and_then_Inr_iff)
  from validate_gate_rules_Inr [OF vr] assms(3) obtain rs where rs: "vr = map rule_json rs"
    "list_all rule_ok rs" "map fst rs = map fst d" by (metis json.inject(6))
  from report_ok [OF assms(1)] assms(2) have "\<forall>m \<in> set (map fst DEFAULT_GATE_RULES). deltas_ok metrics m"
    by (metis sum.inject(2))
  with rule_metric [OF rs(2)] have del: "\<forall>r \<in> set rs. deltas_ok metrics (fst r)" by blast
  define w where "w = worst (map (spec_of metrics) rs)"
  have out: "v = verdict_name w" "why = map (reason_of metrics) (filter (\<lambda>r. spec_of metrics r \<noteq> Pass) rs)"
    using apply_gates_spec [OF vr [unfolded rs(1)] rs(2) del] assms(5) by (simp_all add: w_def)
  obtain payload where "build_ci_gate_report fr ts comparison report url (ga_fail_on_warn args) = Inr payload"
    "map mr_name (ci_metrics payload) = METRIC_ORDER"
    "distinct (map fst rs) \<longrightarrow>
       map mr_status (ci_metrics payload) = map (\<lambda>m. JStr (expected_status metrics rs m)) METRIC_ORDER"
    "ci_should_fail payload \<longleftrightarrow> w = Fail \<or> ga_fail_on_warn args \<and> w = Warn"
    using ci_payload_built [OF assms(1,2) rs(2), of report fr ts comparison url "ga_fail_on_warn args"] assms(6-8) out
    unfolding w_def by metis
  then show ?thesis
    using vr rs(1,3) out(1) w_def assms(4,9) by (auto simp: gate_main_def fetch_ci_gate_report_def Let_def)
qed

text \<open>No reason the gate emits is ever rendered with its change and tolerance: the renderer looks for
  the key \<open>delta\<close>, the gate writes \<open>delta_point\<close>.\<close>

theorem gate_reasons_lose_their_numbers:
  "judge_metric metrics p = Inr (v, reason) \<Longrightarrow>
   reason_line fr payload_verdict reason = Inr (''- '' @ tick (fst p) @ '' returned '' @ tick v)"
  by (auto simp: judge_metric_def Let_def and_then_Inr_iff reason_line_gate)


definition sample_report :: "dict \<Rightarrow> string \<Rightarrow> dict list \<Rightarrow> report_row" where
  "sample_report metrics v why = \<lparr>rp_id = ''r'', rp_comparison = ''c'', rp_metrics = metrics,
     rp_verdict = v, rp_reasons = why, rp_created = 0\<rparr>"

definition sample_comparison :: comparison_row where
  "sample_comparison = \<lparr>cm_id = ''c'', cm_org = ''o'', cm_baseline = ''a'', cm_candidate = ''b'',
     cm_gate = ''g'', cm_status = ''computed'', cm_created = 0\<rparr>"

definition sample_args :: gate_args where
  "sample_args = \<lparr>ga_base_url = ''http://h'', ga_comparison_id = ''c'', ga_api_key = None,
     ga_dashboard_url = None, ga_json_out = None, ga_markdown_out = None, ga_fail_on_warn = False\<rparr>"

lemma ci_report_agrees_with_gate_witness:
  "\<exists>metrics payload. build_metric_report cycle_rng [] [] = Inr metrics \<and>
     build_ci_gate_report plain_repr [] sample_comparison (sample_report metrics ''pass'' []) None False = Inr payload \<and>
     map mr_name (ci_metrics payload) = METRIC_ORDER"
proof -
  obtain metrics where m: "build_metric_report cycle_rng [] [] = Inr metrics"
    "apply_gates plain_repr metrics (JObj [rule_json tight]) = Inr (''pass'', [])"
    using identical_runs [OF cycle_rng_ok tight_valid] by blast
  have url: "py_strip (ga_base_url sample_args) \<noteq> []" by code_simp
  from ci_report_agrees_with_gate [OF cycle_rng_ok m(1) refl _ m(2) _ _ _ url,
      of "sample_report metrics ''pass'' []" "[]" sample_comparison None]
  show ?thesis using m(1) by (auto simp: sample_report_def sample_args_def)
qed

lemma gate_reasons_lose_their_numbers_witness:
  "reason_line plain_repr ''fail'' (gate_reason ''pass_rate'' ''fail'' (Fin 0) (Fin (- 1))) =
     Inr (''- '' @ tick ''pass_rate'' @ '' returned '' @ tick ''fail'')"
proof -
  have "judge_metric [(''pass_rate'', JObj [(''delta_ci_lower'', JFloat (Fin (- 1))),
       (''delta_ci_upper'', JFloat (Fin (- 1))), (''delta_point'', JFloat (Fin (- 1)))])] (rule_json tight) =
     Inr (''fail'', gate_reason ''pass_rate'' ''fail'' (Fin 0) (Fin (- 1)))"
    by (simp add: judge_metric_def tight_def rule_json_def gate_rule_def key_of_def float_at_def
      subscript_def metric_verdict_def flt_less_def Let_def)
  from gate_reasons_lose_their_numbers [OF this, of plain_repr "''fail''"]
  show ?thesis by (simp add: tight_def rule_json_def)
qed

end
