(* ===== verification/Comparisons.thy ===== *)
theory Comparisons imports Gate_Report "HOL-Library.Multiset" begin

text \<open>
  The database half of \<open>backend/app/services/comparison.py\<close>: the metric samples of a run and
  \<open>compute_comparison\<close>, which checks that two runs are comparable, judges them and stores the result.
\<close>

section \<open>Samples of a run\<close>

type_synonym sample_table = "(string \<times> (string \<times> real) list) list"

text \<open>\<open>samples[metric][case_id] = x\<close> on a \<open>defaultdict(dict)\<close>.\<close>

definition put_sample :: "string \<Rightarrow> string \<Rightarrow> real \<Rightarrow> sample_table \<Rightarrow> sample_table" where
  "put_sample metric case_id x samples =
     dict_put metric (dict_put case_id x (dict_get_or metric [] samples)) samples"

definition applicable :: "result_row \<Rightarrow> bool" where
  "applicable r \<longleftrightarrow> \<not> rs_skipped r \<and> \<not> rs_errored r \<and> rs_passed r \<noteq> None"

definition case_passes :: "result_row list \<Rightarrow> bool" where
  "case_passes rows \<longleftrightarrow>
     filter applicable rows \<noteq> [] \<and> \<not> list_ex rs_errored rows \<and>
     list_all (\<lambda>r. rs_passed r = Some True) (filter applicable rows)"

definition similarity_score :: "result_row \<Rightarrow> real option" where
  "similarity_score r =
     (if rs_name r \<in> {''semantic_similarity'', ''token_f1_overlap''} \<and> \<not> rs_errored r \<and> \<not> rs_skipped r
      then rs_score r else None)"

definition results_of :: "db \<Rightarrow> item_row \<Rightarrow> result_row list" where
  "results_of s item = filter (\<lambda>r. rs_item r = ri_id item) (results s)"

definition put_opt :: "string \<Rightarrow> string \<Rightarrow> real option \<Rightarrow> sample_table \<Rightarrow> sample_table" where
  "put_opt metric case_id v samples =
     (case v of None \<Rightarrow> samples | Some x \<Rightarrow> put_sample metric case_id x samples)"

definition add_item_samples :: "db \<Rightarrow> sample_table \<Rightarrow> item_row \<Rightarrow> sample_table" where
  "add_item_samples s samples item =
     (let rows = results_of s item;
          s1 = put_sample ''pass_rate'' (ri_case item) (if case_passes rows then 1 else 0) samples;
          s2 = put_opt ''p95_latency_ms'' (ri_case item) (map_option of_int (ri_latency item)) s1;
          s3 = put_opt ''cost_mean_usd'' (ri_case item) (ri_cost item) s2
      in foldl (\<lambda>acc r. put_opt ''semantic_similarity'' (ri_case item) (similarity_score r) acc) s3 rows)"

definition run_items :: "db \<Rightarrow> string \<Rightarrow> item_row list" where
  "run_items s run_id = sort_key ri_case (filter (\<lambda>i. ri_run i = run_id) (items s))"

definition collect_run_metric_samples :: "db \<Rightarrow> string \<Rightarrow> sample_table" where
  "collect_run_metric_samples s run_id = foldl (add_item_samples s) [] (run_items s run_id)"

definition as_samples :: "sample_table \<Rightarrow> metric_samples" where
  "as_samples t = map (\<lambda>(m, d). (m, ByCase d)) t"

section \<open>The comparison\<close>

record 'g compare_env =
  ce_rng :: "'g rng"
  ce_repr :: "real \<Rightarrow> string"
  ce_now :: int
  ce_uuid :: "nat \<Rightarrow> string"

definition tenant_run :: "db \<Rightarrow> string \<Rightarrow> string \<Rightarrow> run_row option" where
  "tenant_run s org rid = find (\<lambda>r. er_id r = rid \<and> er_org r = org) (runs s)"

definition version_by_id :: "db \<Rightarrow> string \<Rightarrow> version_row option" where
  "version_by_id s vid = find (\<lambda>v. av_id v = vid) (versions s)"

definition finished :: "run_row \<Rightarrow> bool" where
  "finished r \<longleftrightarrow> er_status r \<in> {RunCompleted, RunPartial}"

definition case_ids_of :: "db \<Rightarrow> string \<Rightarrow> string set" where
  "case_ids_of s run_id = set (map ri_case (filter (\<lambda>i. ri_run i = run_id) (items s)))"

text \<open>The checks on the two runs, in the order of the code.\<close>

definition check_runs :: "db \<Rightarrow> string \<Rightarrow> string \<Rightarrow> string \<Rightarrow> unit res" where
  "check_runs s org baseline_id candidate_id =
     (case (tenant_run s org baseline_id, tenant_run s org candidate_id) of
        (None, _) \<Rightarrow> Inl (Exn ValueErr ''Baseline run not found'')
      | (_, None) \<Rightarrow> Inl (Exn ValueErr ''Candidate run not found'')
      | (Some b, Some c) \<Rightarrow>
          if er_suite b \<noteq> er_suite c then Inl (Exn ValueErr ''Runs must use the same suite'')
          else if er_config b \<noteq> er_config c then
            Inl (Exn ValueErr ''Runs must use the same evaluator configuration'')
          else
            (case (version_by_id s (er_version b), version_by_id s (er_version c)) of
               (Some vb, Some vc) \<Rightarrow>
                 if av_app vb \<noteq> av_app vc then Inl (Exn ValueErr ''Runs must belong to the same app'')
                 else if \<not> finished b \<or> \<not> finished c then
                   Inl (Exn ValueErr ''Runs must be completed before comparison'')
                 else if case_ids_of s baseline_id \<noteq> case_ids_of s candidate_id then
                   Inl (Exn ValueErr ''Runs must contain the same evaluation cases'')
                 else Inr ()
             | _ \<Rightarrow> Inl (Exn ValueErr ''Run app version not found'')))"

text \<open>The gate rules to apply, and the default row to add when none were named.\<close>

definition choose_gate_rules ::
  "'g compare_env \<Rightarrow> db \<Rightarrow> string \<Rightarrow> string option \<Rightarrow> (string \<times> dict \<times> gate_rule_row list) res" where
  "choose_gate_rules E s org gate_rules_id =
     (case gate_rules_id of
        None \<Rightarrow>
          let gid = ce_uuid E 0 in
          Inr (gid, DEFAULT_GATE_RULES,
            [\<lparr>gr_id = gid, gr_org = org, gr_name = ''default-gates-'' @ take 8 gid,
              gr_rules = DEFAULT_GATE_RULES, gr_created = ce_now E\<rparr>])
      | Some gid \<Rightarrow>
          (case find (\<lambda>g. gr_id g = gid \<and> gr_org g = org) (gate_rules s) of
             None \<Rightarrow> Inl (Exn ValueErr ''Gate rules not found'')
           | Some g \<Rightarrow>
               and_then (validate_gate_rules (ce_repr E) (JObj (gr_rules g))) (\<lambda>rules.
               Inr (if gid = [] then ce_uuid E 0 else gid, rules, []))))"

definition compute_comparison ::
  "'g compare_env \<Rightarrow> string \<Rightarrow> string \<Rightarrow> string option \<Rightarrow> string \<Rightarrow> db \<Rightarrow>
   (comparison_row \<times> report_row) res \<times> db" where
  "compute_comparison E baseline_id candidate_id gate_rules_id org s =
     (case and_then (check_runs s org baseline_id candidate_id) (\<lambda>_.
           and_then (choose_gate_rules E s org gate_rules_id) (\<lambda>(gate_id, rules, new_rules).
           and_then (build_metric_report (ce_rng E)
               (as_samples (collect_run_metric_samples s baseline_id))
               (as_samples (collect_run_metric_samples s candidate_id))) (\<lambda>metrics.
           and_then (apply_gates (ce_repr E) metrics (JObj rules)) (\<lambda>(v, reasons).
           Inr (gate_id, new_rules, metrics, v, reasons))))) of
        Inl exc \<Rightarrow> (Inl exc, s)
      | Inr (gate_id, new_rules, metrics, v, reasons) \<Rightarrow>
          let comparison = \<lparr>cm_id = ce_uuid E 1, cm_org = org, cm_baseline = baseline_id,
                cm_candidate = candidate_id, cm_gate = gate_id, cm_status = ''computed'',
                cm_created = ce_now E\<rparr>;
              report = \<lparr>rp_id = ce_uuid E 2, rp_comparison = cm_id comparison, rp_metrics = metrics,
                rp_verdict = v, rp_reasons = reasons, rp_created = ce_now E\<rparr>
          in (Inr (comparison, report),
              s\<lparr>gate_rules := gate_rules s @ new_rules, comparisons := comparisons s @ [comparison],
                reports := reports s @ [report]\<rparr>))"

section \<open>Lemmas\<close>

definition default_rules :: "norm_rule list" where
  "default_rules = [(''pass_rate'', ''higher_better'', 2 / 100), (''semantic_similarity'', ''higher_better'', 2 / 100),
     (''p95_latency_ms'', ''lower_better'', 50), (''cost_mean_usd'', ''lower_better'', 1 / 1000)]"

lemma default_rules_normal: "DEFAULT_GATE_RULES = map rule_json default_rules" "list_all rule_ok default_rules"
  by (simp_all add: DEFAULT_GATE_RULES_def default_rules_def rule_json_def rule_ok_def VALID_GATE_DIRECTIONS_def)

lemma default_gates_valid: "validate_gate_rules f (JObj DEFAULT_GATE_RULES) = Inr DEFAULT_GATE_RULES"
  unfolding default_rules_normal(1)
  by (rule validate_normal_rules) (simp add: default_rules_def, rule default_rules_normal(2))

text \<open>Whatever rules are chosen validate, to themselves.\<close>

lemma chosen_rules_valid:
  assumes "choose_gate_rules E s org gid = Inr (gate_id, rules, new_rules)"
  shows "validate_gate_rules f (JObj rules) = Inr rules"
proof (cases gid)
  case None
  with assms show ?thesis by (simp add: choose_gate_rules_def Let_def default_gates_valid)
next
  case (Some g)
  with assms obtain row :: gate_rule_row where "validate_gate_rules (ce_repr E) (JObj (gr_rules row)) = Inr rules"
    by (auto simp: choose_gate_rules_def and_then_Inr_iff split: option.splits)
  from validate_gate_rules_Inr [OF this] obtain rs where "rules = map rule_json rs" "rs \<noteq> []" "list_all rule_ok rs"
    by metis
  then show ?thesis by (simp add: validate_normal_rules)
qed

lemma dict_get_put_sample:
  "dict_get_or m [] (put_sample m' k x t) =
     (if m = m' then dict_put k x (dict_get_or m [] t) else dict_get_or m [] t)"
  by (simp add: put_sample_def dict_get_or_def map_of_dict_put)

lemma put_opt_other: "m \<noteq> m' \<Longrightarrow> dict_get_or m [] (put_opt m' k v t) = dict_get_or m [] t"
  by (simp add: put_opt_def dict_get_put_sample split: option.splits)

lemma foldl_put_opt_other:
  "m \<noteq> m' \<Longrightarrow> dict_get_or m [] (foldl (\<lambda>acc r. put_opt m' k (f r) acc) t rows) = dict_get_or m [] t"
  by (induction rows arbitrary: t) (simp_all add: put_opt_other)

text \<open>What one item adds to the samples of a metric: at most one observation, under its case.\<close>

lemma map_filter_Some: "List.map_filter (\<lambda>x. Some (f x)) xs = map f xs"
  by (induction xs) (simp_all add: map_filter_simps)

definition by_case :: "(item_row \<Rightarrow> real option) \<Rightarrow> item_row \<Rightarrow> (string \<times> real) option" where
  "by_case f i = map_option (Pair (ri_case i)) (f i)"

definition sets_metric :: "db \<Rightarrow> string \<Rightarrow> (item_row \<Rightarrow> real option) \<Rightarrow> bool" where
  "sets_metric s m f \<longleftrightarrow> (\<forall>t i. dict_get_or m [] (add_item_samples s t i) =
     (case f i of None \<Rightarrow> dict_get_or m [] t | Some x \<Rightarrow> dict_put (ri_case i) x (dict_get_or m [] t)))"

lemma put_opt_same:
  "dict_get_or m [] (put_opt m k v t) =
     (case v of None \<Rightarrow> dict_get_or m [] t | Some x \<Rightarrow> dict_put k x (dict_get_or m [] t))"
  by (simp add: put_opt_def dict_get_put_sample split: option.split)

lemma metrics_set:
  "sets_metric s ''pass_rate'' (\<lambda>i. Some (if case_passes (results_of s i) then 1 else 0))"
  "sets_metric s ''p95_latency_ms'' (\<lambda>i. map_option of_int (ri_latency i))"
  "sets_metric s ''cost_mean_usd'' ri_cost"
  by (simp_all add: sets_metric_def add_item_samples_def Let_def foldl_put_opt_other put_opt_other
      dict_get_put_sample put_opt_same split: option.split)

lemma samples_fold:
  assumes "sets_metric s m f" and "distinct (map ri_case is)"
    and "fst ` set (dict_get_or m [] t) \<inter> ri_case ` set is = {}"
  shows "dict_get_or m [] (foldl (add_item_samples s) t is) =
    dict_get_or m [] t @ List.map_filter (by_case f) is"
  using assms(2,3)
proof (induction "is" arbitrary: t)
  case (Cons i "is")
  have step: "dict_get_or m [] (add_item_samples s t i) =
      dict_get_or m [] t @ (case f i of None \<Rightarrow> [] | Some x \<Rightarrow> [(ri_case i, x)])"
    using assms(1) Cons.prems(2) by (auto simp: sets_metric_def dict_put_fresh split: option.split)
  then have "fst ` set (dict_get_or m [] (add_item_samples s t i)) \<inter> ri_case ` set is = {}"
    using Cons.prems by (auto split: option.splits)
  from Cons.IH [OF _ this] Cons.prems(1) step show ?case
    by (simp add: by_case_def map_filter_simps split: option.split)
qed (simp add: map_filter_simps)

lemma by_case_props:
  "map snd (List.map_filter (by_case f) is) = List.map_filter f is"
  "map fst (List.map_filter (by_case f) is) = map ri_case (filter (\<lambda>i. f i \<noteq> None) is)"
  by (induction "is") (auto simp: by_case_def map_filter_simps split: option.splits)

lemma by_case_values:
  assumes "distinct (map fst d)" and "sorted (map fst d)"
  shows "sample_values (ByCase d) = map snd d"
proof -
  have "map (at_key d) (map fst d) = map snd d"
    using assms(1) by (auto simp: at_key_def dict_get_or_def)
  then show ?thesis using assms(2) by (simp add: sorted_sort_id)
qed

lemma as_samples_values:
  "sample_values (dict_get_or m (Listed []) (as_samples t)) = sample_values (ByCase (dict_get_or m [] t))"
proof -
  have "map_of (as_samples t) m = map_option ByCase (map_of t m)"
    unfolding as_samples_def by (induction t) auto
  then show ?thesis by (simp add: dict_get_or_def split: option.split)
qed

lemma distinct_run_items:
  assumes "distinct (map ri_case (filter (\<lambda>i. ri_run i = run_id) (items s)))"
  shows "distinct (map ri_case (run_items s run_id))"
proof -
  have "mset (map ri_case (run_items s run_id)) = mset (map ri_case (filter (\<lambda>i. ri_run i = run_id) (items s)))"
    by (simp add: run_items_def)
  with assms show ?thesis by (metis mset_eq_imp_distinct_iff)
qed

lemma compute_comparison_Inr:
  assumes "compute_comparison E b c gid org s = (Inr (cmp, rep), s')"
  obtains gate_id rules new_rules metrics v reasons where
    "check_runs s org b c = Inr ()" "choose_gate_rules E s org gid = Inr (gate_id, rules, new_rules)"
    "build_metric_report (ce_rng E) (as_samples (collect_run_metric_samples s b))
       (as_samples (collect_run_metric_samples s c)) = Inr metrics"
    "apply_gates (ce_repr E) metrics (JObj rules) = Inr (v, reasons)"
    "rp_metrics rep = metrics" "rp_verdict rep = v" "rp_reasons rep = reasons"
    "rp_comparison rep = cm_id cmp" "cm_org cmp = org" "cm_baseline cmp = b" "cm_candidate cmp = c"
    "cm_gate cmp = gate_id"
    "s' = s\<lparr>gate_rules := gate_rules s @ new_rules, comparisons := comparisons s @ [cmp],
       reports := reports s @ [rep]\<rparr>"
  using assms
  by (auto simp: compute_comparison_def and_then_Inr_iff Let_def split: sum.splits)

lemma compute_comparison_total:
  assumes "rng_ok (ce_rng E)" and "check_runs s org b c = Inr ()"
    and "choose_gate_rules E s org gid = Inr (gate_id, rules, new_rules)"
  shows "\<exists>cmp rep s'. compute_comparison E b c gid org s = (Inr (cmp, rep), s')"
proof -
  from gate_verdict [OF assms(1) chosen_rules_valid [OF assms(3), of "ce_repr E"]]
  obtain metrics v why where
    "build_metric_report (ce_rng E) (as_samples (collect_run_metric_samples s b))
       (as_samples (collect_run_metric_samples s c)) = Inr metrics"
    "apply_gates (ce_repr E) metrics (JObj rules) = Inr (v, why)" by meson
  then show ?thesis by (simp add: compute_comparison_def assms(2,3) Let_def)
qed

section \<open>Properties\<close>


text \<open>The pass-rate sample of a run has one entry per case, in case order, equal to 1 exactly when
  some evaluator applied (neither skipped nor errored), none errored and every applicable one passed;
  so a case no evaluator applied to counts as failed.\<close>

theorem pass_rate_samples:
  assumes "distinct (map ri_case (filter (\<lambda>i. ri_run i = run_id) (items s)))"
  shows "dict_get_or ''pass_rate'' [] (collect_run_metric_samples s run_id) =
      map (\<lambda>i. (ri_case i, if case_passes (results_of s i) then 1 else 0)) (run_items s run_id) \<and>
    (\<forall>i. (\<forall>r \<in> set (results_of s i). \<not> applicable r) \<longrightarrow> \<not> case_passes (results_of s i))"
  using samples_fold [OF metrics_set(1) [of s] distinct_run_items [OF assms], of "[]"]
  by (auto simp: collect_run_metric_samples_def dict_get_or_def case_passes_def filter_empty_conv by_case_def [abs_def]
      map_filter_Some)

text \<open>Comparing a finished run with itself always passes.\<close>

theorem self_comparison_passes:
  assumes "rng_ok (ce_rng E)" and "compute_comparison E run_id run_id gid org s = (Inr (cmp, rep), s')"
  shows "rp_verdict rep = ''pass'' \<and> rp_reasons rep = []"
  using assms(2)
proof (cases rule: compute_comparison_Inr)
  case (1 gate_id rules new_rules metrics v reasons)
  from identical_runs [OF assms(1) chosen_rules_valid [OF 1(2), of "ce_repr E"]] 1(3,4) show ?thesis
    unfolding 1(6,7) by (metis prod.inject sum.inject(2))
qed

section \<open>Witnesses\<close>

definition sample_compare_env :: "nat compare_env" where
  "sample_compare_env = \<lparr>ce_rng = cycle_rng, ce_repr = (\<lambda>_. []), ce_now = 0, ce_uuid = show_nat\<rparr>"

definition finished_run :: "string \<Rightarrow> run_row" where
  "finished_run i = \<lparr>er_id = i, er_org = ''o'', er_version = ''v'', er_suite = ''s'', er_config = ''e'',
     er_status = RunCompleted, er_started = None, er_completed_at = None, er_case_count = 1,
     er_case_completed = 1, er_case_errored = 0, er_created = 0\<rparr>"

definition finished_item :: "string \<Rightarrow> string \<Rightarrow> item_row" where
  "finished_item i r = \<lparr>ri_id = i, ri_run = r, ri_case = ''k'', ri_status = ItemCompleted, ri_attempts = 1,
     ri_task = None, ri_lease = None, ri_latency = Some 5, ri_cost = Some 0, ri_error = None,
     ri_started = None, ri_completed = None\<rparr>"

definition two_runs :: db where
  "two_runs = empty_db\<lparr>runs := [finished_run ''a'', finished_run ''b''],
     items := [finished_item ''i'' ''a'', finished_item ''j'' ''b''],
     versions := [\<lparr>av_id = ''v'', av_app = ''p'', av_name = ''1'', av_config = [], av_adapter = [], av_created = 0\<rparr>]\<rparr>"

lemma two_runs_checked:
  "check_runs two_runs ''o'' ''a'' ''b'' = Inr ()" "check_runs two_runs ''o'' ''a'' ''a'' = Inr ()"
  by (simp_all add: check_runs_def tenant_run_def version_by_id_def two_runs_def finished_run_def finished_def
    case_ids_of_def finished_item_def)

lemma default_chosen: "\<exists>g new. choose_gate_rules E s org None = Inr (g, DEFAULT_GATE_RULES, new)"
  by (simp add: choose_gate_rules_def Let_def)


lemma pass_rate_samples_witness:
  "dict_get_or ''pass_rate'' [] (collect_run_metric_samples two_runs ''a'') = [(''k'', 0)]"
proof -
  have "distinct (map ri_case (filter (\<lambda>i. ri_run i = ''a'') (items two_runs)))"
    by (simp add: two_runs_def finished_item_def)
  from pass_rate_samples [OF this]
  have "dict_get_or ''pass_rate'' [] (collect_run_metric_samples two_runs ''a'') =
      map (\<lambda>i. (ri_case i, if case_passes (results_of two_runs i) then 1 else 0)) (run_items two_runs ''a'')"
    by blast
  then show ?thesis
    by (simp add: run_items_def two_runs_def finished_item_def results_of_def case_passes_def empty_db_def)
qed

lemma self_comparison_passes_witness:
  "\<exists>cmp rep s'. compute_comparison sample_compare_env ''a'' ''a'' None ''o'' two_runs = (Inr (cmp, rep), s') \<and>
     rp_verdict rep = ''pass''"
proof -
  have rng: "rng_ok (ce_rng sample_compare_env)" by (simp add: sample_compare_env_def cycle_rng_ok)
  obtain g new where "choose_gate_rules sample_compare_env two_runs ''o'' None = Inr (g, DEFAULT_GATE_RULES, new)"
    using default_chosen by blast
  from compute_comparison_total [OF rng two_runs_checked(2) this] obtain cmp rep s' where
    "compute_comparison sample_compare_env ''a'' ''a'' None ''o'' two_runs = (Inr (cmp, rep), s')" by blast
  with self_comparison_passes [OF rng this] show ?thesis by blast
qed

end
