(* ===== verification/Adapters.thy ===== *)
theory Adapters imports Evaluators Backend_Settings "HOL-Library.Product_Lexorder" "HOL-Library.Multiset" begin

text \<open>
  \<open>backend/app/adapters\<close>: the deterministic retrieval adapter \<open>demo_rag.py\<close>, the two model adapters
  \<open>llm_rag.py\<close> and \<open>groq_chat.py\<close>, the provider checks of \<open>security.py\<close> and the loader of
  \<open>loader.py\<close>. The HTTP call, the process environment, the clock, IP literals, \<open>str.format\<close> and the
  module import are fields of \<open>adapter_env\<close>.
\<close>

section \<open>Environment\<close>

text \<open>What an HTTP POST ends with: a JSON body, an error status with a text, or a transport failure.\<close>

datatype http_reply = HttpJson json | HttpStatus nat string | HttpFailed string

record adapter_env =
  fr :: "real \<Rightarrow> string"
  conf :: settings
  getenv :: "string \<Rightarrow> string option"
  http_post :: "string \<Rightarrow> dict \<Rightarrow> flt \<Rightarrow> (string \<times> string) list \<Rightarrow> http_reply"
  elapsed_s :: "nat \<Rightarrow> real"
  format_question :: "string \<Rightarrow> string \<Rightarrow> string res"
  ip_is_global :: "string \<Rightarrow> bool option"
  bracket_error :: "string \<Rightarrow> string option"

type_synonym adapter_fn = "adapter_env \<Rightarrow> string \<Rightarrow> dict \<Rightarrow> adapter_output res"

section \<open>\<open>demo_rag.py\<close>\<close>

record chunk =
  doc_id :: string
  chunk_text :: string
  chunk_score :: real
  chunk_answer :: string

definition chunk_dict :: "chunk \<Rightarrow> dict" where
  "chunk_dict c =
     [(''doc_id'', JStr (doc_id c)), (''chunk_text'', JStr (chunk_text c)),
      (''score'', JFloat (Fin (chunk_score c))), (''answer'', JStr (chunk_answer c))]"

definition DEFAULT_CORPUS :: json where
  "DEFAULT_CORPUS = JList
     [JObj [(''doc_id'', JStr ''python-venv''),
        (''text'', JStr ''The venv module creates lightweight Python virtual environments.''),
        (''answer'', JStr ''Python uses the venv module for virtual environments.'')],
      JObj [(''doc_id'', JStr ''python-json''),
        (''text'', JStr ''The json module encodes and decodes JSON documents.''),
        (''answer'', JStr ''Python uses the json module for JSON documents.'')],
      JObj [(''doc_id'', JStr ''python-asyncio''),
        (''text'', JStr ''The asyncio module supports concurrent code with async and await syntax.''),
        (''answer'', JStr ''Python uses asyncio for async concurrency.'')]]"

definition score_item :: "(real \<Rightarrow> string) \<Rightarrow> string set \<Rightarrow> json \<Rightarrow> chunk res" where
  "score_item f question_tokens item =
     and_then (as_dict ''get'' item) (\<lambda>d.
     let text = py_str f (dict_get_or ''text'' (JStr []) d);
         text_tokens = set (tokenize text)
     in (case dict_get ''doc_id'' d of
           None \<Rightarrow> Inl (Exn KeyErr (py_repr_str ''doc_id''))
         | Some v \<Rightarrow>
             let did = py_str f v;
                 subject_tokens = set (tokenize (py_removeprefix ''python-'' did));
                 overlap = card (question_tokens \<inter> text_tokens);
                 subject_boost = (if subject_tokens \<inter> question_tokens \<noteq> {} then 1 else 0);
                 s = real overlap / real (max (card question_tokens) 1) + subject_boost
             in Inr \<lparr>doc_id = did, chunk_text = text, chunk_score = py_round 6 s,
                     chunk_answer = py_str f (dict_get_or ''answer'' (JStr []) d)\<rparr>))"

definition chunk_key :: "chunk \<Rightarrow> real \<times> string" where
  "chunk_key c = (- chunk_score c, doc_id c)"

definition retrieve :: "(real \<Rightarrow> string) \<Rightarrow> string \<Rightarrow> json \<Rightarrow> int \<Rightarrow> chunk list res" where
  "retrieve f question corpus top_k =
     and_then (json_iter corpus) (\<lambda>items.
     and_then (map_res (score_item f (set (tokenize question))) items) (\<lambda>scored_chunks.
     Inr (py_take top_k (sort_key chunk_key scored_chunks))))"

definition newline :: string where
  "newline = [CHR 0x0A]"

definition format_prompt :: "string \<Rightarrow> (string \<times> string) list \<Rightarrow> string" where
  "format_prompt question chunks =
     (let context = py_join newline (map (\<lambda>(did, text). ''['' @ did @ ''] '' @ text) chunks)
      in ''Answer only from the retrieved context.'' @ newline @ newline @ ''Context:'' @ newline @
         context @ newline @ newline @ ''Question: '' @ question)"

definition generate_answer :: "dict \<Rightarrow> chunk list \<Rightarrow> string" where
  "generate_answer version_config chunks =
     (let failure_mode = dict_get_or ''failure_mode'' JNull version_config in
      if py_eq failure_mode (JStr ''hallucinate'') then
        ''Python uses a quantum database to create virtual environments.''
      else if py_eq failure_mode (JStr ''refuse'') then ''I do not know.''
      else
        (case chunks of
           [] \<Rightarrow> ''I do not know based on the retrieved context.''
         | c # _ \<Rightarrow>
             if chunk_score c = 0 then ''I do not know based on the retrieved context.''
             else if chunk_answer c \<noteq> [] then chunk_answer c else chunk_text c))"

text \<open>\<open>round((input_tokens * input_rate + output_tokens * output_rate) / 1000, 6)\<close>.\<close>

definition token_cost :: "int \<Rightarrow> int \<Rightarrow> flt \<Rightarrow> flt \<Rightarrow> flt res" where
  "token_cost input_tokens output_tokens input_rate output_rate =
     and_then (flt_div (flt_add (flt_mul (Fin (of_int input_tokens)) input_rate)
                                (flt_mul (Fin (of_int output_tokens)) output_rate)) (Fin 1000))
       (\<lambda>c. Inr (flt_round 6 c))"

definition estimate_cost :: "real \<Rightarrow> real \<Rightarrow> string \<Rightarrow> string \<Rightarrow> dict \<Rightarrow> flt res" where
  "estimate_cost default_input default_output prompt text version_config =
     and_then (float_config ''input_cost_per_1k'' default_input version_config) (\<lambda>input_rate.
     and_then (float_config ''output_cost_per_1k'' default_output version_config) (\<lambda>output_rate.
     token_cost (int (length (tokenize prompt))) (int (length (tokenize text))) input_rate output_rate))"

definition trace_step :: "string \<Rightarrow> int \<Rightarrow> dict \<Rightarrow> json" where
  "trace_step step duration result =
     JObj [(''step'', JStr step), (''duration_ms'', JInt duration), (''result'', JObj result)]"

definition chunks_json :: "dict list \<Rightarrow> json" where
  "chunks_json chunks = JList (map JObj chunks)"

definition demo_rag_run :: adapter_fn where
  "demo_rag_run A question version_config =
     and_then (to_int (dict_get_or ''top_k'' (JInt 3) version_config)) (\<lambda>top_k.
     let corpus = dict_get_or ''corpus'' DEFAULT_CORPUS version_config in
     and_then (retrieve (fr A) question corpus top_k) (\<lambda>chunks.
     let prompt = format_prompt question (map (\<lambda>c. (doc_id c, chunk_text c)) chunks);
         text = generate_answer version_config chunks in
     and_then (to_int (dict_get_or ''latency_ms'' (JInt (100 + 15 * max top_k 1)) version_config))
       (\<lambda>latency.
     and_then (estimate_cost (1 / 10000) (2 / 10000) prompt text version_config) (\<lambda>cost.
     Inr \<lparr>answer = text,
          retrieved_chunks = map chunk_dict chunks,
          prompt_used = prompt,
          model_used = py_str (fr A) (dict_get_or ''model'' (JStr ''deterministic-demo-rag'') version_config),
          latency_ms = latency,
          estimated_cost_usd = cost,
          trace_steps =
            [trace_step ''retrieve'' 15 [(''chunks'', chunks_json (map chunk_dict chunks))],
             trace_step ''format_prompt'' 1 [(''prompt'', JStr prompt)],
             trace_step ''generate'' (max (latency - 16) 1)
               [(''answer'', JStr text),
                (''model'', dict_get_or ''model'' (JStr ''demo'') version_config)]]\<rparr>))))"

section \<open>\<open>security.py\<close>\<close>

text \<open>
  \<open>urllib.parse.urlsplit\<close> on the part the checks read: scheme, user info and host name.
  Literals in brackets are checked by \<open>bracket_error\<close>.
\<close>

definition c0_or_space :: "char \<Rightarrow> bool" where
  "c0_or_space c = (code_point c \<le> 32)"

definition scheme_char :: "char \<Rightarrow> bool" where
  "scheme_char c =
     (let n = code_point c in
      97 \<le> n \<and> n \<le> 122 \<or> 65 \<le> n \<and> n \<le> 90 \<or> 48 \<le> n \<and> n \<le> 57 \<or>
      c = CHR ''+'' \<or> c = CHR ''-'' \<or> c = CHR ''.'')"

definition ascii_alpha :: "char \<Rightarrow> bool" where
  "ascii_alpha c = (let n = code_point c in 97 \<le> n \<and> n \<le> 122 \<or> 65 \<le> n \<and> n \<le> 90)"

definition split_scheme :: "string \<Rightarrow> string \<times> string" where
  "split_scheme url =
     (case py_partition (CHR '':'') url of
        (s, found, rest) \<Rightarrow>
          if found \<and> s \<noteq> [] \<and> ascii_alpha (hd s) \<and> list_all scheme_char s then (py_lower s, rest)
          else ([], url))"

definition split_netloc :: "string \<Rightarrow> string" where
  "split_netloc url =
     (if prefix ''//'' url then
        takeWhile (\<lambda>c. c \<noteq> CHR ''/'' \<and> c \<noteq> CHR ''?'' \<and> c \<noteq> CHR ''#'') (drop 2 url)
      else [])"

text \<open>\<open>s.rpartition("@")\<close>: the part before the last one, whether there is one, the part after.\<close>

definition rpartition_at :: "string \<Rightarrow> string \<times> bool \<times> string" where
  "rpartition_at s =
     (case py_partition (CHR ''@'') (rev s) of
        (after, found, before) \<Rightarrow> if found then (rev before, True, rev after) else ([], False, s))"

record url_parts =
  url_scheme :: string
  url_username :: "string option"
  url_password :: "string option"
  url_hostname :: "string option"

definition host_of :: "string \<Rightarrow> string option" where
  "host_of hostinfo =
     (let (_, have_open, bracketed) = py_partition (CHR ''['') hostinfo;
          hostname = (if have_open then fst (py_partition (CHR '']'') bracketed)
                      else fst (py_partition (CHR '':'') hostinfo))
      in if hostname = [] then None
         else
           let (name, percent, zone) = py_partition (CHR ''%'') hostname
           in Some (py_lower name @ (if percent then CHR ''%'' # zone else [])))"

definition urlsplit :: "(string \<Rightarrow> string option) \<Rightarrow> string \<Rightarrow> url_parts res" where
  "urlsplit bracket url =
     (let cleaned = filter (\<lambda>c. code_point c \<noteq> 9 \<and> code_point c \<noteq> 13 \<and> code_point c \<noteq> 10)
            (py_lstrip_by c0_or_space url);
          (scheme, rest) = split_scheme cleaned;
          netloc = split_netloc rest;
          opened = (CHR ''['' \<in> set netloc); closed = (CHR '']'' \<in> set netloc)
      in and_then
           (if opened \<noteq> closed then Inl (Exn ValueErr ''Invalid IPv6 URL'')
            else if opened then
              (case py_partition (CHR ''['') netloc of
                 (_, _, r) \<Rightarrow>
                   (case bracket (fst (py_partition (CHR '']'') r)) of
                      None \<Rightarrow> Inr ()
                    | Some msg \<Rightarrow> Inl (Exn ValueErr msg)))
            else Inr ())
           (\<lambda>_.
              case rpartition_at netloc of
                (userinfo, have_info, hostinfo) \<Rightarrow>
                  (case py_partition (CHR '':'') userinfo of
                     (user, have_password, pass) \<Rightarrow>
                       Inr \<lparr>url_scheme = scheme,
                            url_username = (if have_info then Some user else None),
                            url_password = (if have_info \<and> have_password then Some pass else None),
                            url_hostname = host_of hostinfo\<rparr>)))"

definition LOCAL_PROVIDER_HOSTS :: "string list" where
  "LOCAL_PROVIDER_HOSTS = [''localhost'', ''127.0.0.1'', ''::1'', ''host.docker.internal'', ''ollama'']"

definition strip_dots :: "string \<Rightarrow> string" where
  "strip_dots s = py_rstrip_by (\<lambda>c. c = CHR ''.'') s"

definition strip_slashes :: "string \<Rightarrow> string" where
  "strip_slashes s = py_rstrip_by (\<lambda>c. c = CHR ''/'') s"

definition allowed_provider_hosts :: "settings \<Rightarrow> string list" where
  "allowed_provider_hosts S =
     map (\<lambda>item. strip_dots (py_lower item)) (comma_list (llm_allowed_hosts S))"

definition validate_provider_url :: "adapter_env \<Rightarrow> string \<Rightarrow> bool \<Rightarrow> string res" where
  "validate_provider_url A base_url allow_local =
     and_then (urlsplit (bracket_error A) base_url) (\<lambda>parsed.
     if url_scheme parsed \<notin> {''http'', ''https''} \<or> url_hostname parsed = None then
       Inl (Exn ValueErr ''Provider base_url must be an absolute HTTP(S) URL'')
     else if is_set (url_username parsed) \<or> is_set (url_password parsed) then
       Inl (Exn ValueErr ''Provider base_url must not contain credentials'')
     else
       let host = strip_dots (py_lower (the (url_hostname parsed))) in
       if host \<in> set (allowed_provider_hosts (conf A)) then
         if url_scheme parsed \<noteq> ''https'' then
           Inl (Exn ValueErr ''Remote provider base_url must use HTTPS'')
         else Inr (strip_slashes base_url)
       else if allow_local \<and> host \<in> set LOCAL_PROVIDER_HOSTS then Inr (strip_slashes base_url)
       else if allow_private_provider_urls (conf A) then Inr (strip_slashes base_url)
       else if ip_is_global A host = Some False then
         Inl (Exn ValueErr ''Private provider URLs are disabled'')
       else Inl (Exn ValueErr (''Provider host '' @ py_repr_str host @
              '' is not allowed; configure EVALFORGE_LLM_ALLOWED_HOSTS'')))"

definition validate_api_key_environment :: "adapter_env \<Rightarrow> string \<Rightarrow> string res" where
  "validate_api_key_environment A name =
     (if name \<notin> set (comma_list (llm_api_key_env_allowlist (conf A))) then
        Inl (Exn ValueErr (''API key environment variable '' @ py_repr_str name @ '' is not allowed''))
      else Inr name)"

section \<open>\<open>loader.py\<close>\<close>

definition validate_adapter_module :: "settings \<Rightarrow> string \<Rightarrow> unit res" where
  "validate_adapter_module S module_path =
     (if module_path \<notin> set (comma_list (allowed_adapter_modules S)) then
        Inl (Exn ValueErr (''Adapter module '' @ py_repr_str module_path @
          '' is not allowed; configure EVALFORGE_ALLOWED_ADAPTER_MODULES to opt in''))
      else Inr ())"

text \<open>\<open>import_module\<close> gives the module's callable \<open>run\<close>, if it has one.\<close>

definition load_adapter ::
  "(string \<Rightarrow> adapter_fn option res) \<Rightarrow> settings \<Rightarrow> string \<Rightarrow> adapter_fn res" where
  "load_adapter import_module S module_path =
     and_then (validate_adapter_module S module_path) (\<lambda>_.
     and_then (import_module module_path) (\<lambda>m.
     case m of
       None \<Rightarrow> Inl (Exn ValueErr (''Adapter module '' @ module_path @ '' does not expose callable run()''))
     | Some run \<Rightarrow> Inr run))"


section \<open>\<open>llm_rag.py\<close>\<close>

definition SYSTEM_PROMPT :: string where
  "SYSTEM_PROMPT =
     ''You are evaluating a RAG application. Answer only from the retrieved context. '' @
     ''If the context does not contain the answer, say you do not know.''"

definition default_model :: "string \<Rightarrow> string" where
  "default_model provider =
     (if provider = ''openai_compatible'' then ''gpt-4o-mini'' else ''llama3.2:3b'')"

definition chat_messages :: "string \<Rightarrow> string \<Rightarrow> json" where
  "chat_messages system user =
     JList [JObj [(''role'', JStr ''system''), (''content'', JStr system)],
            JObj [(''role'', JStr ''user''), (''content'', JStr user)]]"

definition post_json ::
  "adapter_env \<Rightarrow> string \<Rightarrow> dict \<Rightarrow> flt \<Rightarrow> (string \<times> string) list \<Rightarrow> dict res" where
  "post_json A url payload timeout headers =
     (case http_post A url payload timeout ((''Content-Type'', ''application/json'') # headers) of
        HttpFailed reason \<Rightarrow> Inl (Exn RuntimeErr (''LLM provider request failed: '' @ reason))
      | HttpStatus code reason \<Rightarrow>
          Inl (Exn RuntimeErr (''LLM provider request failed: HTTP Error '' @ show_nat code @ '': '' @ reason))
      | HttpJson (JObj d) \<Rightarrow> Inr d
      | HttpJson _ \<Rightarrow> Inl (Exn RuntimeErr ''LLM provider response was not a JSON object''))"

text \<open>\<open>str(message["content"]).strip()\<close> of a message that must be a dict with a true content.\<close>

definition message_content :: "(real \<Rightarrow> string) \<Rightarrow> string \<Rightarrow> json \<Rightarrow> string res" where
  "message_content f error message =
     (case message of
        JObj m \<Rightarrow>
          (case dict_get ''content'' m of
             Some content \<Rightarrow>
               if truthy content then Inr (py_strip (py_str f content))
               else Inl (Exn RuntimeErr error)
           | None \<Rightarrow> Inl (Exn RuntimeErr error))
      | _ \<Rightarrow> Inl (Exn RuntimeErr error))"

definition call_ollama :: "adapter_env \<Rightarrow> dict \<Rightarrow> string \<Rightarrow> string \<Rightarrow> flt \<Rightarrow> string res" where
  "call_ollama A version_config model prompt timeout =
     and_then (validate_provider_url A
        (py_str (fr A) (dict_get_or ''base_url'' (JStr ''http://localhost:11434'') version_config)) True)
       (\<lambda>base_url.
     and_then (post_json A (base_url @ ''/api/chat'')
        [(''model'', JStr model), (''stream'', JBool False),
         (''messages'', chat_messages SYSTEM_PROMPT prompt)] timeout []) (\<lambda>data.
     message_content (fr A) ''Ollama response did not include message.content''
       (dict_get_or ''message'' (JObj []) data)))"

definition call_openai_compatible ::
  "adapter_env \<Rightarrow> dict \<Rightarrow> string \<Rightarrow> string \<Rightarrow> flt \<Rightarrow> string res" where
  "call_openai_compatible A version_config model prompt timeout =
     and_then (validate_provider_url A
        (py_str (fr A) (dict_get_or ''base_url'' (JStr ''https://api.openai.com/v1'') version_config)) False)
       (\<lambda>base_url.
     and_then (validate_api_key_environment A
        (py_str (fr A) (dict_get_or ''api_key_env'' (JStr ''OPENAI_API_KEY'') version_config)))
       (\<lambda>api_key_env.
     if \<not> is_set (getenv A api_key_env) then
       Inl (Exn RuntimeErr (''Missing API key environment variable: '' @ api_key_env))
     else
     and_then (float_config ''temperature'' 0 version_config) (\<lambda>temperature.
     and_then (post_json A (base_url @ ''/chat/completions'')
        [(''model'', JStr model), (''messages'', chat_messages SYSTEM_PROMPT prompt),
         (''temperature'', JFloat temperature)] timeout
        [(''Authorization'', ''Bearer '' @ the (getenv A api_key_env))]) (\<lambda>data.
     case dict_get_or ''choices'' (JList []) data of
       JList (choice # _) \<Rightarrow>
         message_content (fr A) ''OpenAI-compatible response did not include message.content''
           (case choice of JObj c \<Rightarrow> dict_get_or ''message'' (JObj []) c | _ \<Rightarrow> JObj [])
     | _ \<Rightarrow> Inl (Exn RuntimeErr ''OpenAI-compatible response did not include choices'')))))"

definition normalize_chunk :: "(real \<Rightarrow> string) \<Rightarrow> dict \<Rightarrow> dict" where
  "normalize_chunk f c =
     (let text = (case json_or (json_or (dict_get ''text'' c) (dict_get ''chunk_text'' c)) (Some (JStr [])) of
                    Some v \<Rightarrow> py_str f v | None \<Rightarrow> [])
      in dict_put ''chunk_text'' (JStr text) (dict_put ''text'' (JStr text) c))"

definition prompt_pair :: "(real \<Rightarrow> string) \<Rightarrow> dict \<Rightarrow> string \<times> string" where
  "prompt_pair f c =
     (py_str f (dict_get_or ''doc_id'' JNull c), py_str f (dict_get_or ''chunk_text'' JNull c))"

definition elapsed_ms :: "adapter_env \<Rightarrow> nat \<Rightarrow> int" where
  "elapsed_ms A k = py_trunc (elapsed_s A k * 1000)"

definition llm_rag_run :: adapter_fn where
  "llm_rag_run A question version_config =
     (let provider = py_str (fr A) (dict_get_or ''provider'' (JStr ''ollama'') version_config);
          model = py_str (fr A) (dict_get_or ''model'' (JStr (default_model provider)) version_config) in
     and_then (float_config ''timeout_seconds'' 30 version_config) (\<lambda>timeout.
     and_then (to_int (dict_get_or ''top_k'' (JInt 3) version_config)) (\<lambda>top_k.
     and_then (retrieve (fr A) question (dict_get_or ''corpus'' DEFAULT_CORPUS version_config) top_k)
       (\<lambda>found.
     let chunks = map (normalize_chunk (fr A) \<circ> chunk_dict) found;
         prompt = format_prompt question (map (prompt_pair (fr A)) chunks) in
     and_then
       (if provider = ''ollama'' then call_ollama A version_config model prompt timeout
        else if provider = ''openai_compatible'' then
          call_openai_compatible A version_config model prompt timeout
        else Inl (Exn ValueErr (''Unsupported LLM provider: '' @ provider))) (\<lambda>text.
     let latency = elapsed_ms A 0 in
     and_then (estimate_cost 0 0 prompt text version_config) (\<lambda>cost.
     Inr \<lparr>answer = text,
          retrieved_chunks = chunks,
          prompt_used = prompt,
          model_used = provider @ '':'' @ model,
          latency_ms = latency,
          estimated_cost_usd = cost,
          trace_steps =
            [trace_step ''retrieve'' 0 [(''chunks'', chunks_json chunks)],
             trace_step ''format_prompt'' 0 [(''prompt'', JStr prompt)],
             trace_step ''llm_generate'' latency
               [(''answer'', JStr text), (''provider'', JStr provider), (''model'', JStr model)]]\<rparr>))))))"

section \<open>\<open>groq_chat.py\<close>\<close>

definition at_least_1ms :: "adapter_env \<Rightarrow> nat \<Rightarrow> int" where
  "at_least_1ms A k = max 1 (elapsed_ms A k)"

definition retrieve_if_configured ::
  "adapter_env \<Rightarrow> string \<Rightarrow> dict \<Rightarrow> (dict list \<times> json list) res" where
  "retrieve_if_configured A question version_config =
     (let corpus = dict_get_or ''corpus'' JNull version_config in
      if \<not> truthy corpus then Inr ([], [])
      else
        and_then (to_int (dict_get_or ''top_k'' (JInt 3) version_config)) (\<lambda>top_k.
        and_then (json_iter corpus) (\<lambda>items.
        and_then (retrieve (fr A) question (JList items) top_k) (\<lambda>found.
        let chunks = map chunk_dict found in
        Inr (chunks,
             [trace_step ''retrieve'' (at_least_1ms A 0) [(''chunks'', chunks_json chunks)]])))))"

definition format_user_prompt :: "adapter_env \<Rightarrow> string \<Rightarrow> dict list \<Rightarrow> dict \<Rightarrow> string res" where
  "format_user_prompt A question chunks version_config =
     (if chunks \<noteq> [] then Inr (format_prompt question (map (prompt_pair (fr A)) chunks))
      else format_question A
        (py_str (fr A) (dict_get_or ''prompt_template'' (JStr ''{question}'') version_config)) question)"

definition build_payload :: "adapter_env \<Rightarrow> string \<Rightarrow> string \<Rightarrow> dict \<Rightarrow> dict res" where
  "build_payload A prompt model version_config =
     (let system_prompt = py_str (fr A) (dict_get_or ''system_prompt''
            (JStr (''You are a concise assistant. '' @
                   ''Answer only with information supported by the prompt.'')) version_config) in
      and_then (float_config ''temperature'' 0 version_config) (\<lambda>temperature.
      let payload = [(''model'', JStr model), (''messages'', chat_messages system_prompt prompt),
                     (''temperature'', JFloat temperature)] in
      (case dict_get ''max_tokens'' version_config of
         None \<Rightarrow> Inr payload
       | Some v \<Rightarrow> and_then (to_int v) (\<lambda>n. Inr (payload @ [(''max_tokens'', JInt n)])))))"

definition post_chat_completion ::
  "adapter_env \<Rightarrow> string \<Rightarrow> string \<Rightarrow> dict \<Rightarrow> flt \<Rightarrow> json res" where
  "post_chat_completion A base_url key payload timeout =
     (case http_post A (strip_slashes base_url @ ''/chat/completions'') payload timeout
             [(''Authorization'', ''Bearer '' @ key), (''Content-Type'', ''application/json''),
              (''User-Agent'', ''EvalForge-AI/0.1'')] of
        HttpJson j \<Rightarrow> Inr j
      | HttpStatus code body \<Rightarrow>
          Inl (Exn RuntimeErr (''Groq API request failed with HTTP '' @ show_nat code @ '': '' @ take 500 body))
      | HttpFailed reason \<Rightarrow> Inl (Exn RuntimeErr (''Groq API request failed: '' @ reason)))"

definition extract_answer :: "(real \<Rightarrow> string) \<Rightarrow> dict \<Rightarrow> string res" where
  "extract_answer f response =
     (case dict_get_or ''choices'' JNull response of
        JList (first_choice # _) \<Rightarrow>
          (case first_choice of
             JObj c \<Rightarrow>
               (case dict_get_or ''message'' JNull c of
                  JObj m \<Rightarrow>
                    (case present ''content'' m of
                       None \<Rightarrow> Inl (Exn RuntimeErr ''Groq API response message did not include content'')
                     | Some content \<Rightarrow> Inr (py_strip (py_str f content)))
                | _ \<Rightarrow> Inl (Exn RuntimeErr ''Groq API response choice did not include a message''))
           | _ \<Rightarrow> Inl (Exn RuntimeErr ''Groq API response choice was malformed''))
      | _ \<Rightarrow> Inl (Exn RuntimeErr ''Groq API response did not include choices''))"

definition extract_finish_reason :: "(real \<Rightarrow> string) \<Rightarrow> dict \<Rightarrow> json" where
  "extract_finish_reason f response =
     (case dict_get_or ''choices'' JNull response of
        JList (JObj c # _) \<Rightarrow>
          (case present ''finish_reason'' c of None \<Rightarrow> JNull | Some r \<Rightarrow> JStr (py_str f r))
      | _ \<Rightarrow> JNull)"

definition int_or_0 :: "string \<Rightarrow> dict \<Rightarrow> int res" where
  "int_or_0 k d = to_int (case json_or (dict_get k d) (Some (JInt 0)) of Some v \<Rightarrow> v | None \<Rightarrow> JInt 0)"

definition groq_estimate_cost :: "dict \<Rightarrow> dict \<Rightarrow> flt res" where
  "groq_estimate_cost usage version_config =
     and_then (int_or_0 ''prompt_tokens'' usage) (\<lambda>input_tokens.
     and_then (int_or_0 ''completion_tokens'' usage) (\<lambda>output_tokens.
     and_then (float_config ''input_cost_per_1k'' 0 version_config) (\<lambda>input_rate.
     and_then (float_config ''output_cost_per_1k'' 0 version_config) (\<lambda>output_rate.
     token_cost input_tokens output_tokens input_rate output_rate))))"

definition or_string :: "(real \<Rightarrow> string) \<Rightarrow> string \<Rightarrow> string \<Rightarrow> dict \<Rightarrow> string" where
  "or_string f k fallback d =
     (case json_or (dict_get k d) (Some (JStr fallback)) of Some v \<Rightarrow> py_str f v | None \<Rightarrow> fallback)"

definition groq_run :: adapter_fn where
  "groq_run A question version_config =
     (if \<not> is_set (groq_api_key (conf A)) then
        Inl (Exn ValueErr ''GROQ_API_KEY is required for app.adapters.groq_chat'')
      else
      let model = or_string (fr A) ''model'' (llm_model (conf A)) version_config in
      and_then (validate_provider_url A
         (or_string (fr A) ''base_url'' (llm_base_url (conf A)) version_config) False) (\<lambda>base_url.
      and_then (float_config ''timeout_seconds'' 30 version_config) (\<lambda>timeout.
      and_then (retrieve_if_configured A question version_config) (\<lambda>(chunks, steps).
      and_then (format_user_prompt A question chunks version_config) (\<lambda>prompt.
      and_then (build_payload A prompt model version_config) (\<lambda>payload.
      and_then (post_chat_completion A base_url (the (groq_api_key (conf A))) payload timeout) (\<lambda>reply.
      let latency = at_least_1ms A 2 in
      and_then (as_dict ''get'' reply) (\<lambda>response.
      and_then (extract_answer (fr A) response) (\<lambda>text.
      let usage = (case dict_get ''usage'' response of Some (JObj u) \<Rightarrow> u | _ \<Rightarrow> []) in
      and_then (groq_estimate_cost usage version_config) (\<lambda>cost.
      Inr \<lparr>answer = text,
           retrieved_chunks = chunks,
           prompt_used = prompt,
           model_used = model,
           latency_ms = latency,
           estimated_cost_usd = cost,
           trace_steps = steps @
             [trace_step ''format_prompt'' (at_least_1ms A 1) [(''prompt'', JStr prompt)],
              trace_step ''call_groq'' latency
                [(''base_url'', JStr (strip_slashes base_url)), (''model'', JStr model),
                 (''usage'', JObj usage), (''finish_reason'', extract_finish_reason (fr A) response)]]\<rparr>))))))))))"

section \<open>Lemmas\<close>

lemma retrieve_Inr:
  assumes "retrieve f question corpus top_k = Inr cs"
  obtains items all where "json_iter corpus = Inr items"
    "map_res (score_item f (set (tokenize question))) items = Inr all"
    "cs = py_take top_k (sort_key chunk_key all)"
  using assms by (auto simp: retrieve_def and_then_Inr_iff)

lemma py_take_prefix: "\<exists>rest. xs = py_take k xs @ rest"
  by (metis append_take_drop_id py_take_def)

lemma sorted_key_split:
  assumes "sorted (map f (xs @ ys))" and "x \<in> set xs" and "y \<in> set ys"
  shows "f x \<le> f y"
  using assms by (auto simp: sorted_append)

lemma chunk_key_le:
  "chunk_key a \<le> chunk_key b \<longleftrightarrow>
     chunk_score b < chunk_score a \<or> chunk_score a = chunk_score b \<and> doc_id a \<le> doc_id b"
  by (auto simp: chunk_key_def less_eq_prod_def)

lemma score_item_bounds:
  assumes "score_item f q item = Inr c" and "finite q"
  shows "0 \<le> chunk_score c \<and> chunk_score c \<le> 2"
proof -
  define t where "t = set (tokenize (chunk_text c))"
  define b :: real where
    "b = (if set (tokenize (py_removeprefix ''python-'' (doc_id c))) \<inter> q \<noteq> {} then 1 else 0)"
  have t: "chunk_score c = py_round 6 (real (card (q \<inter> t)) / real (max (card q) 1) + b)"
    using assms(1) unfolding score_item_def and_then_Inr_iff Let_def t_def b_def
    by (clarsimp split: option.splits)
  have b: "b = 0 \<or> b = 1" by (simp add: b_def)
  have "card (q \<inter> t) \<le> card q" using assms(2) by (simp add: card_mono)
  then have "real (card (q \<inter> t)) / real (max (card q) 1) \<le> 1"
    by (subst divide_le_eq_1_pos) linarith+
  then have "real (card (q \<inter> t)) / real (max (card q) 1) + b \<le> 2" using b by linarith
  moreover have "0 \<le> real (card (q \<inter> t)) / real (max (card q) 1) + b" using b by auto
  ultimately have "py_round 6 0 \<le> chunk_score c" "chunk_score c \<le> py_round 6 2"
    unfolding t by (simp_all only: py_round_mono)
  moreover have "py_round 6 2 = 2" using py_round_of_nat_power [of 6 2] by simp
  ultimately show ?thesis by simp
qed

lemma score_item_doc_id:
  assumes "score_item f q item = Inr c"
  shows "\<exists>d v. item = JObj d \<and> dict_get ''doc_id'' d = Some v \<and> doc_id c = py_str f v"
  using assms
  by (cases item) (auto simp: score_item_def and_then_Inr_iff Let_def split: option.splits if_splits)

lemma map_res_mset:
  assumes "mset xs = mset ys" and "map_res f xs = Inr us" and "map_res f ys = Inr vs"
  shows "mset us = mset vs"
proof -
  have "map_res f zs = Inr ws \<Longrightarrow> ws = map (projr \<circ> f) zs" for zs ws
    by (induction zs arbitrary: ws) (auto simp: and_then_Inr_iff)
  from this [OF assms(2)] this [OF assms(3)] show ?thesis using assms(1) by simp
qed

lemma map_res_Inr_perm:
  assumes "set ys \<subseteq> set xs" and "map_res f xs = Inr us"
  shows "\<exists>vs. map_res f ys = Inr vs"
proof -
  have "f y = Inr (projr (f y))" if "y \<in> set ys" for y
  proof -
    from that assms(1) have "y \<in> set xs" by blast
    then obtain i where "i < length xs" "xs ! i = y" by (metis in_set_conv_nth)
    with map_res_nth [OF assms(2), of i] show ?thesis by simp
  qed
  from map_res_ok [of ys f "projr \<circ> f"] this show ?thesis by auto
qed

section \<open>Properties\<close>

text \<open>Retrieval returns the best \<open>top_k\<close> items: as many as the corpus allows, ordered by
  decreasing score and then document id, no omitted item ranking before a returned one, with scores
  in [0, 2].\<close>

theorem retrieve_best_first:
  assumes "retrieve f question (JList items) (int k) = Inr cs"
  shows "length cs = min k (length items) \<and> sorted (map chunk_key cs) \<and>
    (\<forall>c \<in> set cs. 0 \<le> chunk_score c \<and> chunk_score c \<le> 2) \<and>
    (\<exists>every omitted. map_res (score_item f (set (tokenize question))) items = Inr every \<and>
       mset every = mset (cs @ omitted) \<and>
       (\<forall>c \<in> set cs. \<forall>d \<in> set omitted. chunk_score d < chunk_score c \<or>
          chunk_score c = chunk_score d \<and> doc_id c \<le> doc_id d))"
proof -
  from assms obtain every where every: "map_res (score_item f (set (tokenize question))) items = Inr every"
    and cs: "cs = py_take (int k) (sort_key chunk_key every)"
    by (auto elim: retrieve_Inr)
  have cs': "cs = take k (sort_key chunk_key every)" by (simp add: cs py_take_def)
  define omitted where "omitted = drop k (sort_key chunk_key every)"
  have parts: "sort_key chunk_key every = cs @ omitted" by (simp add: cs' omitted_def)
  then have srt: "sorted (map chunk_key (cs @ omitted))" by (metis sorted_sort_key)
  have mem: "set cs \<subseteq> set every" by (metis Un_iff parts set_append set_sort subsetI)
  have len: "length cs = min k (length items)"
    using map_res_length [OF every] by (simp add: cs' min.commute)
  have bounds: "\<forall>c \<in> set cs. 0 \<le> chunk_score c \<and> chunk_score c \<le> 2"
    using mem map_res_set [OF every] score_item_bounds by (metis List.finite_set subsetD)
  have "mset every = mset (cs @ omitted)" by (metis mset_sort parts)
  moreover have "\<forall>c \<in> set cs. \<forall>d \<in> set omitted. chunk_score d < chunk_score c \<or>
          chunk_score c = chunk_score d \<and> doc_id c \<le> doc_id d"
    using sorted_key_split [OF srt] chunk_key_le by blast
  moreover have "sorted (map chunk_key cs)" using srt by (simp add: sorted_append)
  ultimately show ?thesis using len bounds every by blast
qed

text \<open>When document ids differ, retrieval does not depend on the order of the corpus.\<close>

theorem retrieve_order_independent:
  assumes "mset items = mset items'"
    and "retrieve f question (JList items) top_k = Inr cs"
    and "\<And>every. map_res (score_item f (set (tokenize question))) items = Inr every \<Longrightarrow>
           distinct (map doc_id every)"
  shows "retrieve f question (JList items') top_k = Inr cs"
proof -
  let ?s = "score_item f (set (tokenize question))"
  from assms(2) obtain every where every: "map_res ?s items = Inr every"
    and cs: "cs = py_take top_k (sort_key chunk_key every)"
    by (auto elim: retrieve_Inr)
  have "set items' \<subseteq> set items" using assms(1) by (metis order_refl set_mset_mset)
  from map_res_Inr_perm [OF this every] obtain every' where every': "map_res ?s items' = Inr every'" ..
  have "mset every = mset every'" by (rule map_res_mset [OF assms(1) every every'])
  moreover have "inj_on chunk_key (set every')"
    using assms(3) [OF every] calculation
    by (auto simp: inj_on_def chunk_key_def distinct_map dest: mset_eq_setD)
  ultimately have "sort_key chunk_key every' = sort_key chunk_key every"
    by (intro sort_key_inj_key_eq) simp_all
  then show ?thesis by (simp add: retrieve_def every' cs)
qed

text \<open>A provider URL is accepted only if it is HTTP(S), carries no credentials and, unless private
  endpoints were enabled, names an allow-listed host over HTTPS or, where the adapter permits it, one
  of the fixed local hosts; it is returned without trailing slashes.\<close>

theorem provider_url_safe:
  assumes "validate_provider_url A base_url allow_local = Inr u"
    and "\<not> allow_private_provider_urls (conf A)"
  shows "\<exists>p h. urlsplit (bracket_error A) base_url = Inr p \<and> url_hostname p = Some h \<and>
     \<not> is_set (url_username p) \<and> \<not> is_set (url_password p) \<and> u = strip_slashes base_url \<and>
     (url_scheme p = ''https'' \<and> strip_dots (py_lower h) \<in> set (allowed_provider_hosts (conf A)) \<or>
      url_scheme p \<in> {''http'', ''https''} \<and> allow_local \<and>
        strip_dots (py_lower h) \<in> set LOCAL_PROVIDER_HOSTS)"
  using assms by (auto simp: validate_provider_url_def and_then_Inr_iff Let_def split: if_splits)


text \<open>The endpoints an adapter may post to, and the environment names it may read.\<close>

definition validated_endpoint :: "adapter_env \<Rightarrow> string \<Rightarrow> bool" where
  "validated_endpoint A url \<longleftrightarrow>
     (\<exists>base_url allow_local u. validate_provider_url A base_url allow_local = Inr u \<and>
        url \<in> {u @ ''/api/chat'', u @ ''/chat/completions'', strip_slashes u @ ''/chat/completions''})"

definition same_outside_world :: "adapter_env \<Rightarrow> adapter_env \<Rightarrow> bool" where
  "same_outside_world A B \<longleftrightarrow>
     (\<forall>url. validated_endpoint A url \<longrightarrow> http_post B url = http_post A url) \<and>
     (\<forall>name \<in> set (comma_list (llm_api_key_env_allowlist (conf A))). getenv B name = getenv A name)"

lemma validate_env_irrelevant:
  assumes "B = A\<lparr>http_post := h, getenv := g\<rparr>"
  shows "validate_provider_url B = validate_provider_url A"
    and "validate_api_key_environment B = validate_api_key_environment A"
    and "fr B = fr A" and "conf B = conf A" and "elapsed_s B = elapsed_s A"
    and "format_question B = format_question A"
  unfolding assms
  by (simp_all add: fun_eq_iff validate_provider_url_def validate_api_key_environment_def Let_def cong: if_cong)

lemma same_post:
  assumes "same_outside_world A B" and "validate_provider_url A base_url allow_local = Inr u"
  shows "http_post B (u @ ''/api/chat'') = http_post A (u @ ''/api/chat'')"
    and "http_post B (u @ ''/chat/completions'') = http_post A (u @ ''/chat/completions'')"
    and "http_post B (strip_slashes u @ ''/chat/completions'') =
         http_post A (strip_slashes u @ ''/chat/completions'')"
  using assms unfolding same_outside_world_def validated_endpoint_def by blast+

lemma call_ollama_guarded:
  assumes B: "B = A\<lparr>http_post := h, getenv := g\<rparr>" and same: "same_outside_world A B"
  shows "call_ollama B cfg model prompt timeout = call_ollama A cfg model prompt timeout"
proof -
  have "post_json B (u @ ''/api/chat'') = post_json A (u @ ''/api/chat'')"
    if "validate_provider_url A base_url True = Inr u" for base_url u
    using same_post [OF same that] by (simp add: post_json_def fun_eq_iff)
  then show ?thesis
    unfolding call_ollama_def validate_env_irrelevant [OF B] by (intro and_then_cong) auto
qed

lemma call_openai_guarded:
  assumes B: "B = A\<lparr>http_post := h, getenv := g\<rparr>" and same: "same_outside_world A B"
  shows "call_openai_compatible B cfg model prompt timeout = call_openai_compatible A cfg model prompt timeout"
proof -
  have "post_json B (u @ ''/chat/completions'') = post_json A (u @ ''/chat/completions'')"
    if "validate_provider_url A base_url False = Inr u" for base_url u
    using same_post [OF same that] by (simp add: post_json_def fun_eq_iff)
  moreover have "getenv B name = getenv A name"
    if "validate_api_key_environment A n = Inr name" for n name
    using same that by (auto simp: same_outside_world_def validate_api_key_environment_def split: if_splits)
  ultimately show ?thesis
    unfolding call_openai_compatible_def validate_env_irrelevant [OF B]
    by (intro and_then_cong if_cong) auto
qed

text \<open>C21: Neither model adapter ever posts to an endpoint that \<open>validate_provider_url\<close> has not accepted,
  nor reads an environment variable outside the allow list: an outside world that differs elsewhere
  gives the same result.\<close>

theorem adapters_reach_validated_endpoints_only:
  assumes "B = A\<lparr>http_post := h, getenv := g\<rparr>" and "same_outside_world A B"
  shows "llm_rag_run B question cfg = llm_rag_run A question cfg \<and>
    groq_run B question cfg = groq_run A question cfg"
proof
  note env = validate_env_irrelevant [OF assms(1)]
  have el: "elapsed_ms B = elapsed_ms A" by (simp add: fun_eq_iff elapsed_ms_def env)
  show "llm_rag_run B question cfg = llm_rag_run A question cfg"
    by (simp add: llm_rag_run_def env el call_ollama_guarded [OF assms] call_openai_guarded [OF assms]
      cong: if_cong)
  have post: "post_chat_completion B u key payload timeout = post_chat_completion A u key payload timeout"
    if "validate_provider_url A base_url False = Inr u" for base_url u key payload timeout
    using same_post [OF assms(2) that] by (simp add: post_chat_completion_def)
  have ms: "at_least_1ms B = at_least_1ms A" by (simp add: fun_eq_iff at_least_1ms_def el)
  have parts: "retrieve_if_configured B = retrieve_if_configured A"
    "format_user_prompt B = format_user_prompt A" "build_payload B = build_payload A"
    by (simp_all add: fun_eq_iff ms retrieve_if_configured_def format_user_prompt_def
      build_payload_def env el Let_def cong: if_cong)
  show "groq_run B question cfg = groq_run A question cfg"
    unfolding groq_run_def env ms parts Let_def
    by (intro if_cong and_then_cong refl) (auto simp: post split: prod.splits intro!: and_then_cong)
qed

section \<open>Witnesses\<close>

definition offline :: adapter_env where
  "offline = \<lparr>fr = (\<lambda>_. ''0.5''), conf = default_settings, getenv = (\<lambda>_. None),
     http_post = (\<lambda>_ _ _ _. HttpFailed ''offline''), elapsed_s = (\<lambda>_. 0),
     format_question = (\<lambda>_ q. Inr q), ip_is_global = (\<lambda>_. None), bracket_error = (\<lambda>_. None)\<rparr>"

definition two_items :: "json list" where
  "two_items = [JObj [(''doc_id'', JStr ''b''), (''text'', JStr ''red'')],
                JObj [(''doc_id'', JStr ''a''), (''text'', JStr ''blue'')]]"

lemma two_items_chunks:
  "map_res (score_item f (set (tokenize ''blue''))) two_items =
     Inr [\<lparr>doc_id = ''b'', chunk_text = ''red'', chunk_score = 0, chunk_answer = []\<rparr>,
          \<lparr>doc_id = ''a'', chunk_text = ''blue'', chunk_score = 1, chunk_answer = []\<rparr>]"
proof -
  have toks: "tokenize ''blue'' = [''blue'']" "tokenize ''red'' = [''red'']"
    "tokenize (py_removeprefix ''python-'' ''b'') = [''b'']"
    "tokenize (py_removeprefix ''python-'' ''a'') = [''a'']"
    by code_simp+
  show ?thesis by (simp add: two_items_def score_item_def toks dict_get_or_def)
qed

lemma two_items_retrieved:
  "retrieve f ''blue'' (JList two_items) (int 1) =
     Inr [\<lparr>doc_id = ''a'', chunk_text = ''blue'', chunk_score = 1, chunk_answer = []\<rparr>]"
  by (simp add: retrieve_def two_items_chunks py_take_def chunk_key_def)

lemma retrieve_best_first_witness:
  "\<exists>omitted :: chunk list. mset [''b'', ''a''] = mset (''a'' # map doc_id omitted)"
proof -
  obtain omitted :: "chunk list" where
    "mset [\<lparr>doc_id = ''b'', chunk_text = ''red'', chunk_score = 0, chunk_answer = []\<rparr>,
           \<lparr>doc_id = ''a'', chunk_text = ''blue'', chunk_score = 1, chunk_answer = []\<rparr>] =
     mset (\<lparr>doc_id = ''a'', chunk_text = ''blue'', chunk_score = 1, chunk_answer = []\<rparr> # omitted)"
    using retrieve_best_first [OF two_items_retrieved] by (auto simp: two_items_chunks)
  then have "mset (map doc_id [\<lparr>doc_id = ''b'', chunk_text = ''red'', chunk_score = 0, chunk_answer = []\<rparr>,
           \<lparr>doc_id = ''a'', chunk_text = ''blue'', chunk_score = 1, chunk_answer = []\<rparr>]) =
     mset (map doc_id (\<lparr>doc_id = ''a'', chunk_text = ''blue'', chunk_score = 1, chunk_answer = []\<rparr> # omitted))"
    by (simp only: mset_map)
  then have "mset [''b'', ''a''] = mset (''a'' # map doc_id omitted)" by simp
  then show ?thesis by blast
qed

lemma retrieve_order_independent_witness:
  "retrieve plain_repr ''blue'' (JList (rev two_items)) (int 1) =
     Inr [\<lparr>doc_id = ''a'', chunk_text = ''blue'', chunk_score = 1, chunk_answer = []\<rparr>]"
  by (rule retrieve_order_independent [OF _ two_items_retrieved]) (simp_all add: two_items_chunks)

lemma api_openai_accepted:
  "validate_provider_url offline ''https://api.openai.com/v1/'' False = Inr ''https://api.openai.com/v1''"
  by code_simp

lemma provider_url_safe_witness:
  "\<exists>p. urlsplit (bracket_error offline) ''https://api.openai.com/v1/'' = Inr p \<and>
     url_scheme p = ''https'' \<and> \<not> is_set (url_password p)"
  using provider_url_safe [OF api_openai_accepted]
  by (auto simp: offline_def default_settings_def)

lemma adapters_reach_validated_endpoints_only_witness:
  "llm_rag_run (offline\<lparr>http_post := http_post offline, getenv := (\<lambda>n. if n = ''HOME'' then Some ''/'' else None)\<rparr>)
     ''hi'' [] = llm_rag_run offline ''hi'' []"
proof -
  have "''HOME'' \<notin> set (comma_list (llm_api_key_env_allowlist (conf offline)))" by code_simp
  then have "same_outside_world offline
      (offline\<lparr>http_post := http_post offline, getenv := (\<lambda>n. if n = ''HOME'' then Some ''/'' else None)\<rparr>)"
    by (auto simp: same_outside_world_def) (auto simp: offline_def)
  with adapters_reach_validated_endpoints_only [OF refl this] show ?thesis by blast
qed

end
