(* ===== verification/Run_Executor.thy ===== *)
theory Run_Executor imports Engine Adapters Entities begin

text \<open>
  \<open>backend/app/services/run_executor.py\<close>: the synchronous run of a suite against an app version. The
  environment holds the adapters' and evaluators' worlds, the module import, the clock (one reading
  per call) and the UUID supply of the call. Rows are flushed with the constraints of their tables:
  numeric and integer ranges and one result per evaluator and item; a violation aborts the whole run.
\<close>

record service_env =
  ml :: ml_env
  world :: adapter_env
  import_module :: "string \<Rightarrow> adapter_fn option res"
  now :: int
  uuid :: "nat \<Rightarrow> string"

section \<open>Lookups\<close>

definition app_in_org :: "db \<Rightarrow> string \<Rightarrow> string \<Rightarrow> bool" where
  "app_in_org s org app_id = list_ex (\<lambda>a. ap_id a = app_id \<and> ap_org a = org) (apps s)"

definition tenant_version :: "db \<Rightarrow> string \<Rightarrow> string \<Rightarrow> version_row option" where
  "tenant_version s org vid = find (\<lambda>v. av_id v = vid \<and> app_in_org s org (av_app v)) (versions s)"

definition tenant_suite :: "db \<Rightarrow> string \<Rightarrow> string \<Rightarrow> suite_row option" where
  "tenant_suite s org sid = find (\<lambda>x. es_id x = sid \<and> app_in_org s org (es_app x)) (suites s)"

definition tenant_config :: "db \<Rightarrow> string \<Rightarrow> string \<Rightarrow> evaluator_config_row option" where
  "tenant_config s org cid = find (\<lambda>c. vc_id c = cid \<and> vc_org c = org) (evaluator_configs s)"

definition in_suite :: "db \<Rightarrow> string \<Rightarrow> string \<Rightarrow> bool" where
  "in_suite s suite_id case_id =
     list_ex (\<lambda>l. sc_suite l = suite_id \<and> sc_case l = case_id) (suite_cases s)"

definition load_suite_cases :: "db \<Rightarrow> string \<Rightarrow> string list option \<Rightarrow> case_row list" where
  "load_suite_cases s suite_id case_ids =
     (let joined = sort_key ec_created (filter (\<lambda>c. in_suite s suite_id (ec_id c)) (eval_cases s))
      in case case_ids of None \<Rightarrow> joined | Some wanted \<Rightarrow> filter (\<lambda>c. ec_id c \<in> set wanted) joined)"

definition validate_selected_cases :: "case_row list \<Rightarrow> string list option \<Rightarrow> unit res" where
  "validate_selected_cases cases case_ids =
     (case case_ids of
        None \<Rightarrow>
          if cases = [] then Inl (Exn InvalidRunErr ''No cases found in suite'') else Inr ()
      | Some wanted \<Rightarrow>
          if \<not> distinct wanted then Inl (Exn InvalidRunErr ''case_ids must not contain duplicates'')
          else
            let missing_ids = sort (filter (\<lambda>i. i \<notin> set (map ec_id cases)) wanted)
            in if missing_ids \<noteq> [] then
                 Inl (Exn InvalidRunErr (''Cases do not belong to the selected suite: '' @
                   py_join '', '' missing_ids))
               else Inr ())"

definition extract_question :: "(real \<Rightarrow> string) \<Rightarrow> dict \<Rightarrow> string" where
  "extract_question f payload =
     (case dict_get_or ''input'' (JStr []) payload of
        JObj d \<Rightarrow> py_str f (dict_get_or ''question'' (JStr []) d)
      | j \<Rightarrow> py_str f j)"

section \<open>Redaction\<close>

definition SENSITIVE_CONFIG_PARTS :: "string list" where
  "SENSITIVE_CONFIG_PARTS =
     [''api_key'', ''apikey'', ''authorization'', ''credential'', ''password'', ''secret'', ''token'']"

definition sensitive_key :: "string \<Rightarrow> bool" where
  "sensitive_key k = list_ex (\<lambda>part. str_in part (py_lower k)) SENSITIVE_CONFIG_PARTS"

fun redact_sensitive_config :: "json \<Rightarrow> json" where
  "redact_sensitive_config (JObj d) =
     JObj (map (\<lambda>(k, v). (k, if sensitive_key k then JStr ''[REDACTED]'' else redact_sensitive_config v)) d)"
| "redact_sensitive_config (JList xs) = JList (map redact_sensitive_config xs)"
| "redact_sensitive_config j = j"

section \<open>One case\<close>

definition trace_payload ::
  "version_row \<Rightarrow> case_row \<Rightarrow> adapter_output \<Rightarrow> dict" where
  "trace_payload version c out =
     [(''input'', dict_get_or ''input'' (JObj []) (ec_payload c)),
      (''version_config'', redact_sensitive_config (JObj (av_config version))),
      (''steps'', JList (trace_steps out)),
      (''output'', JObj [(''answer'', JStr (answer out)),
                         (''retrieved_chunks'', chunks_json (retrieved_chunks out))]),
      (''metadata'', JObj [(''adapter_module'', JStr (av_adapter version)),
         (''model_used'', JStr (model_used out)), (''prompt_used'', JStr (prompt_used out)),
         (''latency_ms'', JInt (latency_ms out)),
         (''estimated_cost_usd'', JFloat (estimated_cost_usd out))])]"

text \<open>What the body of the loop leaves: final status and error, what was recorded, and the two counters.\<close>

record case_outcome =
  co_status :: item_status
  co_error :: "string option"
  co_output :: "adapter_output option"
  co_results :: "evaluation_result list"
  co_completed :: nat
  co_errored :: nat

definition run_case ::
  "service_env \<Rightarrow> adapter_fn \<Rightarrow> version_row \<Rightarrow> evaluator_config_row \<Rightarrow> case_row \<Rightarrow> case_outcome" where
  "run_case E adapter version config c =
     (case adapter (world E) (extract_question (float_repr (ml E)) (ec_payload c)) (av_config version) of
        Inl exc \<Rightarrow>
          \<lparr>co_status = ItemErrored, co_error = Some (exn_msg exc), co_output = None, co_results = [],
           co_completed = 0, co_errored = 1\<rparr>
      | Inr out \<Rightarrow>
          (case evaluate_case (ml E) (ec_payload c) out (vc_config config) of
             Inl exc \<Rightarrow>
               \<lparr>co_status = ItemErrored, co_error = Some (exn_msg exc), co_output = Some out,
                co_results = [], co_completed = 1, co_errored = 1\<rparr>
           | Inr rs \<Rightarrow>
               \<lparr>co_status = ItemCompleted, co_error = None, co_output = Some out, co_results = rs,
                co_completed = 1, co_errored = 0\<rparr>))"

section \<open>Storing\<close>

definition int4 :: "int \<Rightarrow> int res" where
  "int4 i = (if - (2 ^ 31) \<le> i \<and> i < 2 ^ 31 then Inr i
             else Inl (Exn IntegrityErr ''integer out of range''))"

definition result_row_of :: "int \<Rightarrow> string \<Rightarrow> evaluation_result \<Rightarrow> result_row res" where
  "result_row_of t item_id r =
     and_then (numeric_opt (score r)) (\<lambda>s.
     Inr \<lparr>rs_item = item_id, rs_name = evaluator_name r, rs_score = s, rs_passed = passed r,
          rs_errored = errored r, rs_skipped = was_skipped r, rs_error = error_message r,
          rs_details = details r, rs_created = t\<rparr>)"

definition store_results :: "int \<Rightarrow> string \<Rightarrow> evaluation_result list \<Rightarrow> result_row list res" where
  "store_results t item_id rs =
     (if distinct (map evaluator_name rs) then map_res (result_row_of t item_id) rs
      else Inl (Exn IntegrityErr ''uq_eval_results_run_item_id_evaluator_name''))"

text \<open>The rows of one case: its item, its traces and its results.\<close>

definition store_case ::
  "service_env \<Rightarrow> string \<Rightarrow> version_row \<Rightarrow> string \<Rightarrow> case_row \<Rightarrow> case_outcome \<Rightarrow>
   (item_row \<times> trace_row list \<times> result_row list) res" where
  "store_case E run_id version item_id c co =
     and_then (case co_output co of None \<Rightarrow> Inr None
               | Some out \<Rightarrow> and_then (int4 (latency_ms out)) (\<lambda>l. Inr (Some l))) (\<lambda>latency.
     and_then (case co_output co of None \<Rightarrow> Inr None
               | Some out \<Rightarrow> numeric_opt (Some (estimated_cost_usd out))) (\<lambda>cost.
     and_then (store_results (now E) item_id (co_results co)) (\<lambda>rows.
     Inr (\<lparr>ri_id = item_id, ri_run = run_id, ri_case = ec_id c, ri_status = co_status co,
           ri_attempts = 1, ri_task = None, ri_lease = None, ri_latency = latency, ri_cost = cost,
           ri_error = co_error co, ri_started = Some (now E), ri_completed = Some (now E)\<rparr>,
          (case co_output co of None \<Rightarrow> []
           | Some out \<Rightarrow> [\<lparr>tr_item = item_id, tr_payload = trace_payload version c out, tr_created = now E\<rparr>]),
          rows))))"

definition store_all ::
  "service_env \<Rightarrow> string \<Rightarrow> version_row \<Rightarrow> (nat \<times> case_row \<times> case_outcome) list \<Rightarrow>
   (item_row \<times> trace_row list \<times> result_row list) list res" where
  "store_all E run_id version outs =
     map_res (\<lambda>(k, c, co). store_case E run_id version (uuid E (Suc k)) c co) outs"

section \<open>The run\<close>

definition execute_run ::
  "service_env \<Rightarrow> string \<Rightarrow> string \<Rightarrow> string \<Rightarrow> string list option \<Rightarrow> string \<Rightarrow> db \<Rightarrow> run_row res \<times> db"
where
  "execute_run E app_version_id suite_id evaluator_config_id case_ids organization_id s =
     (case (tenant_version s organization_id app_version_id, tenant_suite s organization_id suite_id,
            tenant_config s organization_id evaluator_config_id) of
        (None, _, _) \<Rightarrow> (Inl (Exn NotFoundErr ''App version not found''), s)
      | (_, None, _) \<Rightarrow> (Inl (Exn NotFoundErr ''Eval suite not found''), s)
      | (_, _, None) \<Rightarrow> (Inl (Exn NotFoundErr ''Evaluator config not found''), s)
      | (Some version, Some suite, Some config) \<Rightarrow>
          if av_app version \<noteq> es_app suite then
            (Inl (Exn InvalidRunErr ''App version and eval suite must belong to the same app''), s)
          else
            let cases = load_suite_cases s suite_id case_ids in
            (case and_then (validate_selected_cases cases case_ids)
                    (\<lambda>_. load_adapter (import_module E) (conf (world E)) (av_adapter version)) of
               Inl exc \<Rightarrow> (Inl exc, s)
             | Inr adapter \<Rightarrow>
                 let run_id = uuid E 0;
                     outs = map (run_case E adapter version config) cases;
                     completed = sum_list (map co_completed outs);
                     errored_count = sum_list (map co_errored outs)
                 in (case store_all E run_id version (zip [0..<length cases] (zip cases outs)) of
                       Inl exc \<Rightarrow> (Inl exc, s)
                     | Inr stored \<Rightarrow>
                         let run = \<lparr>er_id = run_id, er_org = organization_id,
                               er_version = app_version_id, er_suite = suite_id,
                               er_config = evaluator_config_id,
                               er_status = (if errored_count = 0 then RunCompleted else RunPartial),
                               er_started = Some (now E), er_completed_at = Some (now E),
                               er_case_count = length cases, er_case_completed = completed,
                               er_case_errored = errored_count, er_created = now E\<rparr>
                         in (Inr run,
                             s\<lparr>runs := runs s @ [run], items := items s @ map fst stored,
                               traces := traces s @ concat (map (fst \<circ> snd) stored),
                               results := results s @ concat (map (snd \<circ> snd) stored)\<rparr>))))"

section \<open>Lemmas\<close>

lemma find_conj: "find P xs = Some x \<Longrightarrow> x \<in> set xs \<and> P x"
  by (auto simp: find_Some_iff)

lemma run_case_status: "co_status (run_case E a v ec c) \<in> {ItemCompleted, ItemErrored}"
  by (auto simp: run_case_def split: sum.splits)

lemma run_case_counts:
  assumes "\<And>out. \<exists>rs. evaluate_case (ml E) (ec_payload c) out (vc_config ec) = Inr rs"
  shows "co_completed (run_case E a v ec c) + co_errored (run_case E a v ec c) = 1"
    and "co_errored (run_case E a v ec c) = (if co_status (run_case E a v ec c) = ItemErrored then 1 else 0)"
  using assms by (auto simp: run_case_def split: sum.splits) (metis sum.distinct(1))+

lemma store_case_item:
  assumes "store_case E run_id v iid c co = Inr (item, ts, rows)"
  shows "ri_id item = iid" and "ri_run item = run_id" and "ri_case item = ec_id c"
    and "ri_status item = co_status co"
    and "\<forall>t \<in> set ts. tr_item t = iid \<and>
          dict_get ''version_config'' (tr_payload t) = Some (redact_sensitive_config (JObj (av_config v)))"
  using assms by (auto simp: store_case_def and_then_Inr_iff trace_payload_def split: option.splits)

lemma store_all_items:
  assumes "store_all E run_id v (zip [n..<n + length cases] (zip cases outs)) = Inr stored"
    and "length outs = length cases"
  shows "map (ri_case \<circ> fst) stored = map ec_id cases \<and> map (ri_status \<circ> fst) stored = map co_status outs \<and>
    (\<forall>x \<in> set stored. ri_run (fst x) = run_id) \<and>
    map (ri_id \<circ> fst) stored = map (\<lambda>k. uuid E (Suc k)) [n..<n + length cases] \<and>
    (\<forall>x \<in> set stored. \<forall>t \<in> set (fst (snd x)).
       dict_get ''version_config'' (tr_payload t) = Some (redact_sensitive_config (JObj (av_config v))))"
  using assms
proof (induction cases arbitrary: n outs stored)
  case Nil
  then show ?case by (simp add: store_all_def)
next
  case (Cons c cases)
  from Cons.prems(2) obtain co outs' where outs: "outs = co # outs'" by (cases outs) auto
  have r: "[n..<n + length (c # cases)] = n # [Suc n..<Suc n + length cases]" 
    using upt_conv_Cons [of n "n + length (c # cases)"] by (simp del: upt_Suc)
  from Cons.prems(1) obtain item ts rows rest where
    h: "store_case E run_id v (uuid E (Suc n)) c co = Inr (item, ts, rows)"
    and rest: "store_all E run_id v (zip [Suc n..<Suc n + length cases] (zip cases outs')) = Inr rest"
    and st: "stored = (item, ts, rows) # rest"
    unfolding r outs by (auto simp: store_all_def and_then_Inr_iff)
  from Cons.IH [OF rest] Cons.prems(2) store_case_item [OF h] show ?case
    unfolding st r by (auto simp: outs)
qed


lemma sum_list_pos_iff: "0 < sum_list (map f xs) \<longleftrightarrow> (\<exists>x \<in> set xs. 0 < f x)" for f :: "'a \<Rightarrow> nat"
  by (induction xs) auto

text \<open>A successful call, taken apart.\<close>

lemma execute_run_Inr:
  assumes "execute_run E vid sid cid ids org s = (Inr run, s')"
  obtains version suite config adapter stored where
    "tenant_version s org vid = Some version" "tenant_suite s org sid = Some suite"
    "tenant_config s org cid = Some config" "av_app version = es_app suite"
    "validate_selected_cases (load_suite_cases s sid ids) ids = Inr ()"
    "store_all E (uuid E 0) version (zip [0..<length (load_suite_cases s sid ids)]
       (zip (load_suite_cases s sid ids)
         (map (run_case E adapter version config) (load_suite_cases s sid ids)))) = Inr stored"
    "er_id run = uuid E 0" "er_org run = org" "er_case_count run = length (load_suite_cases s sid ids)"
    "er_case_completed run = sum_list (map (co_completed \<circ> run_case E adapter version config)
       (load_suite_cases s sid ids))"
    "er_case_errored run = sum_list (map (co_errored \<circ> run_case E adapter version config)
       (load_suite_cases s sid ids))"
    "er_status run = (if er_case_errored run = 0 then RunCompleted else RunPartial)"
    "s' = s\<lparr>runs := runs s @ [run], items := items s @ map fst stored,
       traces := traces s @ concat (map (fst \<circ> snd) stored),
       results := results s @ concat (map (snd \<circ> snd) stored)\<rparr>"
proof -
  let ?cases = "load_suite_cases s sid ids"
  from assms obtain version suite config where
    ents: "tenant_version s org vid = Some version" "tenant_suite s org sid = Some suite"
    "tenant_config s org cid = Some config"
    by (auto simp: execute_run_def split: option.splits)
  note run = assms [unfolded execute_run_def ents, simplified]
  have app: "av_app version = es_app suite" using run by (auto split: if_splits)
  note run = run [simplified app, simplified, unfolded Let_def]
  from run obtain adapter where
    ad: "and_then (validate_selected_cases ?cases ids)
       (\<lambda>_. load_adapter (import_module E) (conf (world E)) (av_adapter version)) = Inr adapter"
    by (auto split: sum.splits)
  note run = run [unfolded ad, simplified]
  from run obtain stored where
    st: "store_all E (uuid E 0) version (zip [0..<length ?cases]
       (zip ?cases (map (run_case E adapter version config) ?cases))) = Inr stored"
    by (auto split: sum.splits)
  note run = run [unfolded st, simplified]
  from ad have sel: "validate_selected_cases ?cases ids = Inr ()" by (auto simp: and_then_Inr_iff)
  show thesis
    by (rule that [OF ents app sel st]) (use run in \<open>auto simp: comp_def sum_list_pos_iff\<close>)
qed

lemma sort_Nil_iff [simp]: "sort xs = [] \<longleftrightarrow> xs = []"
  by (metis set_empty set_sort)

lemma execute_run_Inl:
  "execute_run E vid sid cid ids org s = (Inl exc, s') \<Longrightarrow> s' = s"
  by (auto simp: execute_run_def Let_def split: option.splits if_splits sum.splits)

lemma selected_cases:
  assumes "validate_selected_cases (load_suite_cases s sid ids) ids = Inr ()"
  shows "ids = Some wanted \<Longrightarrow> set (map ec_id (load_suite_cases s sid ids)) = set wanted"
  using assms
  by (auto simp: validate_selected_cases_def load_suite_cases_def Let_def filter_empty_conv
      split: option.splits if_splits)

lemma counts_of_cases:
  assumes "\<And>c. c \<in> set cases \<Longrightarrow> co_completed (f c) + co_errored (f c) = 1"
    and "\<And>c. c \<in> set cases \<Longrightarrow> co_errored (f c) = (if co_status (f c) = ItemErrored then 1 else 0)"
  shows "sum_list (map (co_completed \<circ> f) cases) + sum_list (map (co_errored \<circ> f) cases) = length cases"
    and "sum_list (map (co_errored \<circ> f) cases) =
         length (filter (\<lambda>st. st = ItemErrored) (map (co_status \<circ> f) cases))"
  using assms by (induction cases) force+

section \<open>Properties\<close>

text \<open>C8: A run that succeeds is a faithful ledger of its suite: it appends one run, one item per
  selected case in suite order (exactly the requested cases when a subset was asked for), every item
  belongs to the run and is completed or errored, the counters add up to the number of cases, the
  errored counter counts the errored items, and the run is completed when none errored and partial
  otherwise. Evaluator configurations are those validation admits.\<close>

theorem execute_run_ledger:
  assumes "execute_run E vid sid cid ids org s = (Inr run, s')"
    and "\<And>config. tenant_config s org cid = Some config \<Longrightarrow>
           validate_evaluator_config (float_repr (ml E)) installed (vc_config config) = Inr (vc_config config)"
  shows "\<exists>new. runs s' = runs s @ [run] \<and> items s' = items s @ new \<and>
     map ri_case new = map ec_id (load_suite_cases s sid ids) \<and>
     (\<forall>wanted. ids = Some wanted \<longrightarrow> set (map ri_case new) = set wanted) \<and>
     (\<forall>i \<in> set new. ri_run i = er_id run \<and> ri_status i \<in> {ItemCompleted, ItemErrored}) \<and>
     er_case_count run = length new \<and>
     er_case_completed run + er_case_errored run = er_case_count run \<and>
     er_case_errored run = length (filter (\<lambda>i. ri_status i = ItemErrored) new) \<and>
     er_status run = (if er_case_errored run = 0 then RunCompleted else RunPartial)"
  using assms(1)
proof (cases rule: execute_run_Inr)
  case (1 version suite config adapter stored)
  let ?cases = "load_suite_cases s sid ids" and ?f = "run_case E adapter version config"
  let ?new = "map fst stored"
  from assms(2) [OF 1(3)] obtain specs where "dict_get ''evaluators'' (vc_config config) = Some (JList specs)"
    by (rule validated_specs)
  note total = validated_case_evaluates [OF assms(2) [OF 1(3)] this]
  have ok: "co_completed (?f c) + co_errored (?f c) = 1"
    "co_errored (?f c) = (if co_status (?f c) = ItemErrored then 1 else 0)" for c
    using run_case_counts [of E c config adapter version] total by blast+
  note st = store_all_items [of E "uuid E 0" version 0 ?cases "map ?f ?cases" stored]
  have items: "map ri_case ?new = map ec_id ?cases" "map ri_status ?new = map (co_status \<circ> ?f) ?cases"
    "\<forall>i \<in> set ?new. ri_run i = uuid E 0"
    using st 1(6) by (auto simp: comp_def)
  have len: "length ?new = length ?cases" using items(1) by (metis length_map)
  have stat: "\<forall>i \<in> set ?new. ri_status i \<in> {ItemCompleted, ItemErrored}"
  proof
    fix i assume "i \<in> set ?new"
    then have "ri_status i \<in> set (map ri_status ?new)" by (simp only: set_map imageI)
    then have "ri_status i \<in> set (map (co_status \<circ> ?f) ?cases)" unfolding items(2) .
    then obtain c where "ri_status i = co_status (?f c)" by auto
    then show "ri_status i \<in> {ItemCompleted, ItemErrored}"
      using run_case_status [of E adapter version config c] by simp
  qed
  have "length (filter (\<lambda>i. ri_status i = ItemErrored) ?new) =
      length (filter (\<lambda>st. st = ItemErrored) (map ri_status ?new))"
    by (simp add: filter_map comp_def)
  then have err: "er_case_errored run = length (filter (\<lambda>i. ri_status i = ItemErrored) ?new)"
    unfolding items(2) 1(11) using counts_of_cases(2) [of ?cases ?f] ok by simp
  have "er_case_completed run + er_case_errored run = er_case_count run"
    unfolding 1(9-11) using counts_of_cases(1) [of ?cases ?f] ok by simp
  moreover have "\<forall>wanted. ids = Some wanted \<longrightarrow> set (map ri_case ?new) = set wanted"
    using selected_cases [OF 1(5)] unfolding items(1) by blast
  moreover have "er_case_count run = length ?new" by (simp add: 1(9) len [symmetric])
  moreover have "runs s' = runs s @ [run]" "items s' = items s @ ?new" by (simp_all add: 1(13))
  moreover have "\<forall>i \<in> set ?new. ri_run i = er_id run" using items(3) 1(7) by simp
  ultimately show ?thesis using items(1) stat err 1(12) by blast
qed


section \<open>Redaction\<close>

text \<open>Steps into a configuration, and replacement of the value they lead to.\<close>

datatype config_step = Key string | Index nat

fun set_at :: "config_step list \<Rightarrow> json \<Rightarrow> json \<Rightarrow> json" where
  "set_at [] new j = new"
| "set_at (Key k # path) new (JObj d) =
     JObj (map (\<lambda>(k', v). (k', if k' = k then set_at path new v else v)) d)"
| "set_at (Index i # path) new (JList xs) =
     (if i < length xs then JList (xs[i := set_at path new (xs ! i)]) else JList xs)"
| "set_at path new j = j"

definition sensitive_path :: "config_step list \<Rightarrow> bool" where
  "sensitive_path path = list_ex (\<lambda>st. case st of Key k \<Rightarrow> sensitive_key k | Index _ \<Rightarrow> False) path"

lemma redact_set_at:
  "sensitive_path path \<Longrightarrow> redact_sensitive_config (set_at path new j) = redact_sensitive_config j"
proof (induction path new j rule: set_at.induct)
  case (2 k path new d)
  have "sensitive_key k \<or> sensitive_path path" using "2.prems" by (simp add: sensitive_path_def)
  then have "(k', if sensitive_key k' then JStr ''[REDACTED]''
      else redact_sensitive_config (if k' = k then set_at path new v else v)) =
      (k', if sensitive_key k' then JStr ''[REDACTED]'' else redact_sensitive_config v)"
    if "(k', v) \<in> set d" for k' v
    using "2.IH" [OF that] by auto
  then show ?case by auto
next
  case (3 i path new xs)
  then have p: "sensitive_path path" by (simp add: sensitive_path_def)
  show ?case
  proof (cases "i < length xs")
    case True
    have "map redact_sensitive_config (xs[i := set_at path new (xs ! i)]) = map redact_sensitive_config xs"
      using "3.IH" [OF True p] True list_update_id [of "map redact_sensitive_config xs" i]
      by (simp add: map_update)
    with True show ?thesis by simp
  qed simp
qed (simp_all add: sensitive_path_def)

text \<open>No value stored under a sensitive key survives.\<close>

fun secret_free :: "json \<Rightarrow> bool" where
  "secret_free (JObj d) =
     list_all (\<lambda>(k, v). if sensitive_key k then v = JStr ''[REDACTED]'' else secret_free v) d"
| "secret_free (JList xs) = list_all secret_free xs"
| "secret_free j = True"

lemma redact_secret_free: "secret_free (redact_sensitive_config j)"
  by (induction j rule: redact_sensitive_config.induct) (auto simp: list_all_iff)

lemma secret_free_redact: "secret_free j \<Longrightarrow> redact_sensitive_config j = j"
proof (induction j rule: redact_sensitive_config.induct)
  case (1 d)
  have "(k, if sensitive_key k then JStr ''[REDACTED]'' else redact_sensitive_config v) = (k, v)"
    if "(k, v) \<in> set d" for k v
    using 1(1) [OF that] 1(2) that by (cases "sensitive_key k") (auto simp: list_all_iff)
  then show ?case by (auto intro!: map_idI)
next
  case (2 xs)
  then show ?case by (simp add: list_all_iff map_idI)
qed simp_all

text \<open>C20: Traces never carry secrets: redaction leaves no value under a key that looks sensitive, at any
  depth, does not depend on such a value, keeps everything else (it is the identity on secret-free
  configurations), and every trace a successful run stores holds a redacted configuration.\<close>

theorem traces_carry_no_secrets:
  assumes "execute_run E vid sid cid ids org s = (Inr run, s')"
  shows "secret_free (redact_sensitive_config j) \<and>
    (sensitive_path path \<longrightarrow> redact_sensitive_config (set_at path new j) = redact_sensitive_config j) \<and>
    (secret_free j \<longrightarrow> redact_sensitive_config j = j) \<and>
    (\<exists>fresh. traces s' = traces s @ fresh \<and>
       (\<forall>t \<in> set fresh. \<exists>c. dict_get ''version_config'' (tr_payload t) = Some c \<and> secret_free c))"
  using assms
proof (cases rule: execute_run_Inr)
  case (1 version suite config adapter stored)
  let ?fresh = "concat (map (fst \<circ> snd) stored)"
  have "\<forall>t \<in> set ?fresh. dict_get ''version_config'' (tr_payload t) =
      Some (redact_sensitive_config (JObj (av_config version)))"
    using store_all_items [of E "uuid E 0" version 0 _ _ stored] 1(6) by force
  then have "\<forall>t \<in> set ?fresh. \<exists>c. dict_get ''version_config'' (tr_payload t) = Some c \<and> secret_free c"
    using redact_secret_free by blast
  moreover have "traces s' = traces s @ ?fresh" by (simp add: 1(13))
  ultimately show ?thesis using redact_secret_free secret_free_redact redact_set_at by blast
qed

text \<open>When the evaluators raise as a whole, the case has already been counted as completed and is
  counted as errored as well.\<close>

lemma counters_overlap:
  assumes "adapter (world E) (extract_question (float_repr (ml E)) (ec_payload c)) (av_config v) = Inr out"
    and "evaluate_case (ml E) (ec_payload c) out (vc_config ec) = Inl exc"
  shows "co_completed (run_case E adapter v ec c) + co_errored (run_case E adapter v ec c) = 2"
  using assms by (simp add: run_case_def)

lemma null_spec_raises:
  "evaluate_case E payload out [(''evaluators'', JList [JNull])] =
     Inl (Exn AttrErr (py_repr_str ''NoneType'' @ '' object has no attribute '' @ py_repr_str ''get''))"
  by (simp add: evaluate_case_def dict_get_or_def evaluate_spec_def)


section \<open>Witnesses\<close>

definition echo_adapter :: adapter_fn where
  "echo_adapter A question cfg = Inr (plain_output question)"

definition sample_env :: service_env where
  "sample_env = \<lparr>ml = plain_env, world = offline, import_module = (\<lambda>_. Inr (Some echo_adapter)),
     now = 0, uuid = show_nat\<rparr>"

definition sample_config :: evaluator_config_row where
  "sample_config = \<lparr>vc_id = ''cf'', vc_org = ''org'', vc_name = ''c'',
     vc_config = [(''evaluators'', JList [JObj [(''name'', JStr ''exact_match'')]])], vc_created = 0\<rparr>"

definition sample_db :: db where
  "sample_db = empty_db\<lparr>
     apps := [\<lparr>ap_id = ''ap'', ap_org = ''org'', ap_name = ''a'', ap_description = [], ap_created = 0\<rparr>],
     versions := [\<lparr>av_id = ''v'', av_app = ''ap'', av_name = ''v1'',
        av_config = [(''api_key'', JStr ''hush'')], av_adapter = ''app.adapters.demo_rag'', av_created = 0\<rparr>],
     suites := [\<lparr>es_id = ''su'', es_app = ''ap'', es_name = ''s'', es_created = 0\<rparr>],
     eval_cases := [\<lparr>ec_id = ''k'', ec_external = None, ec_payload = [(''input'', JStr ''hi'')], ec_created = 0\<rparr>],
     suite_cases := [\<lparr>sc_suite = ''su'', sc_case = ''k''\<rparr>],
     evaluator_configs := [sample_config]\<rparr>"

lemma sample_cases: "load_suite_cases sample_db ''su'' None = eval_cases sample_db"
  by (simp add: load_suite_cases_def sample_db_def in_suite_def)

lemma sample_adapter:
  "load_adapter (import_module sample_env) (conf (world sample_env)) ''app.adapters.demo_rag'' = Inr echo_adapter"
proof -
  have "''app.adapters.demo_rag'' \<in> set (comma_list (allowed_adapter_modules (conf (world sample_env))))"
    by code_simp
  then show ?thesis by (simp add: load_adapter_def validate_adapter_module_def) (simp add: sample_env_def)
qed

lemma sample_evaluated:
  "evaluate_case plain_env [(''input'', JStr ''hi'')] (plain_output q) (vc_config sample_config) =
     Inr [skipped ''exact_match'' ''missing expected_output'']"
  by (simp add: evaluate_case_def evaluate_spec_def sample_config_def dict_get_or_def EVALUATOR_REGISTRY_def
    run_guarded_def exact_match_def present_def)

lemma sample_run: "\<exists>run s'. execute_run sample_env ''v'' ''su'' ''cf'' None ''org'' sample_db = (Inr run, s')"
proof -
  have ents: "tenant_version sample_db ''org'' ''v'' = Some (hd (versions sample_db))"
    "tenant_suite sample_db ''org'' ''su'' = Some (hd (suites sample_db))"
    "tenant_config sample_db ''org'' ''cf'' = Some sample_config"
    by (simp_all add: tenant_version_def tenant_suite_def tenant_config_def app_in_org_def sample_db_def
      sample_config_def)
  have row: "av_app (hd (versions sample_db)) = es_app (hd (suites sample_db))"
    "av_adapter (hd (versions sample_db)) = ''app.adapters.demo_rag''"
    by (simp_all add: sample_db_def)
  obtain c where cases: "eval_cases sample_db = [c]" "ec_payload c = [(''input'', JStr ''hi'')]"
    by (simp add: sample_db_def)
  have rc: "run_case sample_env echo_adapter v sample_config c =
     \<lparr>co_status = ItemCompleted, co_error = None,
      co_output = Some (plain_output (extract_question (float_repr plain_env) [(''input'', JStr ''hi'')])),
      co_results = [skipped ''exact_match'' ''missing expected_output''],
      co_completed = 1, co_errored = 0\<rparr>" for v
    unfolding run_case_def cases by (simp add: echo_adapter_def sample_env_def sample_evaluated)
  have st: "\<exists>x. store_all sample_env r v [(0, c, run_case sample_env echo_adapter v sample_config c)] = Inr x"
    for r v
    unfolding rc
    by (simp add: store_all_def store_case_def plain_output_def int4_def numeric_opt_def store_results_def
      result_row_of_def skipped_def)
  obtain x where x: "store_all sample_env (uuid sample_env 0) (hd (versions sample_db))
      [(0, c, run_case sample_env echo_adapter (hd (versions sample_db)) sample_config c)] = Inr x"
    using st by blast
  have "validate_selected_cases [c] None = Inr ()" by (simp add: validate_selected_cases_def)
  then show ?thesis
    unfolding execute_run_def ents prod.case option.case sample_cases cases(1) row(2)
    by (simp add: row(1) sample_adapter x Let_def)
qed

lemma sample_config_valid:
  "validate_evaluator_config (float_repr plain_env) (\<lambda>_. False) (vc_config sample_config) =
     Inr (vc_config sample_config)"
  by code_simp

lemma execute_run_ledger_witness:
  "\<exists>run s' new. execute_run sample_env ''v'' ''su'' ''cf'' None ''org'' sample_db = (Inr run, s') \<and>
     items s' = items sample_db @ new \<and> map ri_case new = [''k'']"
proof -
  from sample_run obtain run s' where
    r: "execute_run sample_env ''v'' ''su'' ''cf'' None ''org'' sample_db = (Inr run, s')" by blast
  have "validate_evaluator_config (float_repr (ml sample_env)) (\<lambda>_. False) (vc_config config) =
      Inr (vc_config config)" if "tenant_config sample_db ''org'' ''cf'' = Some config" for config
  proof -
    have "config = sample_config" using that by (simp add: tenant_config_def sample_db_def sample_config_def)
    then show ?thesis using sample_config_valid by (simp add: sample_env_def)
  qed
  from execute_run_ledger [OF r this] r show ?thesis
    by (auto simp: sample_cases) (auto simp: sample_db_def)
qed

lemma traces_carry_no_secrets_witness:
  "redact_sensitive_config (set_at [Key ''llm'', Key ''Api_Key''] (JInt 7)
      (JObj [(''llm'', JObj [(''Api_Key'', JStr ''hush'')])])) =
   redact_sensitive_config (JObj [(''llm'', JObj [(''Api_Key'', JStr ''hush'')])])"
proof -
  have "sensitive_path [Key ''llm'', Key ''Api_Key'']" by code_simp
  then show ?thesis using traces_carry_no_secrets sample_run by metis
qed

end
