(* ===== verification/Run_Worker.thy ===== *)
theory Run_Worker imports Run_Executor begin

text \<open>
  \<open>backend/app/workers/tasks.py\<close> and the limits of \<open>celery_app.py\<close>: the worker task that evaluates one
  item, its transactions (claim, clearing of stale data, completion, final failure, progress refresh)
  and the completion callback of a run. Each transaction is a function on the database;
  \<open>run_eval_case\<close> composes them as one delivery does. The step relation at the end interleaves the
  transactions of concurrent deliveries under the clock.
\<close>

section \<open>Constants and deliveries\<close>

definition terminal :: "item_status \<Rightarrow> bool" where
  "terminal st \<longleftrightarrow> st \<in> {ItemCompleted, ItemErrored, ItemTimedOut, ItemCancelled}"

fun item_status_name :: "item_status \<Rightarrow> string" where
  "item_status_name Queued = ''queued''"
| "item_status_name ItemRunning = ''running''"
| "item_status_name ItemCompleted = ''completed''"
| "item_status_name ItemErrored = ''errored''"
| "item_status_name ItemTimedOut = ''timed_out''"
| "item_status_name ItemCancelled = ''cancelled''"

definition TASK_LEASE_SECONDS :: int where
  "TASK_LEASE_SECONDS = 240"

definition task_time_limit :: int where
  "task_time_limit = 180"

definition max_retries :: nat where
  "max_retries = 2"

definition seconds :: "int \<Rightarrow> int" where
  "seconds n = n * 1000000"

text \<open>One delivery of the task; \<open>dl_request\<close> is Celery's request id, if it has one.\<close>

record delivery =
  dl_item :: string
  dl_case :: string
  dl_version :: string
  dl_config :: string
  dl_request :: "string option"
  dl_retries :: nat

definition task_id_of :: "delivery \<Rightarrow> string" where
  "task_id_of d =
     (case dl_request d of
        Some r \<Rightarrow> if r = [] then ''manual:'' @ dl_item d else r
      | None \<Rightarrow> ''manual:'' @ dl_item d)"

datatype task_result =
    TaskSkipped string
  | TaskCompleted string int nat
  | TaskErrored string string
  | TaskRetry exn

section \<open>Transactions\<close>

definition item_by_id :: "db \<Rightarrow> string \<Rightarrow> item_row option" where
  "item_by_id s iid = find (\<lambda>i. ri_id i = iid) (items s)"

definition claimable :: "int \<Rightarrow> string \<Rightarrow> item_row \<Rightarrow> bool" where
  "claimable t task_id i \<longleftrightarrow>
     ri_status i = Queued \<or>
     ri_status i = ItemRunning \<and>
       (ri_task i = Some task_id \<or> ri_lease i = None \<or>
        (case ri_lease i of None \<Rightarrow> False | Some l \<Rightarrow> l < t))"

definition claimed_row :: "int \<Rightarrow> string \<Rightarrow> nat \<Rightarrow> item_row \<Rightarrow> item_row" where
  "claimed_row t task_id attempt_count i =
     i\<lparr>ri_status := ItemRunning, ri_task := Some task_id,
       ri_lease := Some (t + seconds TASK_LEASE_SECONDS), ri_attempts := attempt_count,
       ri_started := Some t, ri_completed := None, ri_error := None\<rparr>"

definition claim_run_item :: "int \<Rightarrow> string \<Rightarrow> string \<Rightarrow> nat \<Rightarrow> db \<Rightarrow> bool \<times> db" where
  "claim_run_item t run_item_id task_id attempt_count s =
     (let P = (\<lambda>i. ri_id i = run_item_id \<and> claimable t task_id i)
      in (list_ex P (items s),
          s\<lparr>items := update_where P (claimed_row t task_id attempt_count) (items s)\<rparr>))"

definition clear_stale_data :: "string \<Rightarrow> db \<Rightarrow> db" where
  "clear_stale_data run_item_id s =
     s\<lparr>results := filter (\<lambda>r. rs_item r \<noteq> run_item_id) (results s),
       traces := filter (\<lambda>t. tr_item t \<noteq> run_item_id) (traces s)\<rparr>"

definition count_items :: "db \<Rightarrow> string \<Rightarrow> (item_status \<Rightarrow> bool) \<Rightarrow> nat" where
  "count_items s run_id P = length (filter (\<lambda>i. ri_run i = run_id \<and> P (ri_status i)) (items s))"

definition failed_status :: "item_status \<Rightarrow> bool" where
  "failed_status st \<longleftrightarrow> st \<in> {ItemErrored, ItemTimedOut, ItemCancelled}"

definition refresh_run_progress :: "string \<Rightarrow> db \<Rightarrow> db" where
  "refresh_run_progress run_id s =
     s\<lparr>runs := update_where (\<lambda>r. er_id r = run_id)
         (\<lambda>r. r\<lparr>er_case_completed := count_items s run_id (\<lambda>st. st = ItemCompleted),
               er_case_errored := count_items s run_id failed_status\<rparr>) (runs s)\<rparr>"

definition completed_row :: "int \<Rightarrow> int \<Rightarrow> real \<Rightarrow> item_row \<Rightarrow> item_row" where
  "completed_row t latency cost i =
     i\<lparr>ri_latency := Some latency, ri_cost := Some cost, ri_status := ItemCompleted,
       ri_completed := Some t, ri_lease := None\<rparr>"

text \<open>
  The commit of a finished evaluation: the item's columns, its trace and its results, under the unique
  constraints on traces (per item) and results (per item and evaluator).
\<close>

definition commit_completed ::
  "int \<Rightarrow> string \<Rightarrow> version_row \<Rightarrow> case_row \<Rightarrow> adapter_output \<Rightarrow> evaluation_result list \<Rightarrow> db \<Rightarrow> db res" where
  "commit_completed t run_item_id version c out rs s =
     and_then (int4 (latency_ms out)) (\<lambda>latency.
     and_then (numeric_10_6 (estimated_cost_usd out)) (\<lambda>cost.
     and_then (store_results t run_item_id rs) (\<lambda>rows.
     if list_ex (\<lambda>tr. tr_item tr = run_item_id) (traces s) then
       Inl (Exn IntegrityErr ''duplicate key value violates unique constraint'')
     else if list_ex (\<lambda>r. rs_item r = run_item_id \<and> rs_name r \<in> set (map rs_name rows)) (results s) then
       Inl (Exn IntegrityErr ''duplicate key value violates unique constraint'')
     else Inr (s\<lparr>items := update_where (\<lambda>i. ri_id i = run_item_id) (completed_row t latency cost) (items s),
                 traces := traces s @ [\<lparr>tr_item = run_item_id, tr_payload = trace_payload version c out,
                                        tr_created = t\<rparr>],
                 results := results s @ rows\<rparr>))))"

definition errored_row :: "int \<Rightarrow> exn \<Rightarrow> nat \<Rightarrow> item_row \<Rightarrow> item_row" where
  "errored_row t exc attempts i =
     i\<lparr>ri_status := ItemErrored, ri_error := Some (take 1000 (exn_msg exc)), ri_completed := Some t,
       ri_lease := None, ri_attempts := attempts\<rparr>"

definition commit_failure :: "int \<Rightarrow> exn \<Rightarrow> string \<Rightarrow> nat \<Rightarrow> db \<Rightarrow> db" where
  "commit_failure t exc run_item_id retries s =
     (case item_by_id s run_item_id of
        None \<Rightarrow> s
      | Some i \<Rightarrow>
          if terminal (ri_status i) then s
          else refresh_run_progress (ri_run i)
            (s\<lparr>items := update_where (\<lambda>x. ri_id x = run_item_id) (errored_row t exc (retries + 1)) (items s)\<rparr>))"

definition is_transient_error :: "exn \<Rightarrow> bool" where
  "is_transient_error exc =
     (let error_str = py_lower (exn_msg exc) in
      list_ex (\<lambda>keyword. str_in keyword error_str)
        [''connection'', ''timeout'', ''temporarily unavailable'', ''too many connections'',
         ''connection refused'', ''operationalerror''])"

section \<open>One delivery\<close>

text \<open>The entities of a claimed delivery, and the computation between its transactions.\<close>

definition load_entities ::
  "delivery \<Rightarrow> db \<Rightarrow> (case_row \<times> version_row \<times> evaluator_config_row) res" where
  "load_entities d s =
     (case find (\<lambda>c. ec_id c = dl_case d) (eval_cases s) of
        None \<Rightarrow> Inl (Exn ValueErr (''Case '' @ dl_case d @ '' not found''))
      | Some c \<Rightarrow>
          (case find (\<lambda>v. av_id v = dl_version d) (versions s) of
             None \<Rightarrow> Inl (Exn ValueErr (''Version '' @ dl_version d @ '' not found''))
           | Some v \<Rightarrow>
               (case find (\<lambda>x. vc_id x = dl_config d) (evaluator_configs s) of
                  None \<Rightarrow> Inl (Exn ValueErr (''Evaluator config '' @ dl_config d @ '' not found''))
                | Some ec \<Rightarrow> Inr (c, v, ec))))"

definition evaluate_item ::
  "service_env \<Rightarrow> case_row \<Rightarrow> version_row \<Rightarrow> evaluator_config_row \<Rightarrow>
   (adapter_output \<times> evaluation_result list) res" where
  "evaluate_item E c v ec =
     (let question = extract_question (float_repr (ml E)) (ec_payload c) in
      and_then (load_adapter (import_module E) (conf (world E)) (av_adapter v)) (\<lambda>adapter.
      and_then (adapter (world E) question (av_config v)) (\<lambda>out.
      and_then (evaluate_case (ml E) (ec_payload c) out (vc_config ec)) (\<lambda>rs.
      Inr (out, rs)))))"

text \<open>The \<open>except\<close> clause: a transient error is retried while retries are left, others are final.\<close>

definition on_error :: "service_env \<Rightarrow> delivery \<Rightarrow> exn \<Rightarrow> db \<Rightarrow> task_result \<times> db" where
  "on_error E d exc s =
     (if is_transient_error exc \<and> dl_retries d < max_retries then (TaskRetry exc, s)
      else (TaskErrored (dl_item d) (take 1000 (exn_msg exc)),
            commit_failure (now E) exc (dl_item d) (dl_retries d) s))"

definition run_eval_case :: "service_env \<Rightarrow> delivery \<Rightarrow> db \<Rightarrow> task_result \<times> db" where
  "run_eval_case E d s =
     (case item_by_id s (dl_item d) of
        None \<Rightarrow> on_error E d (Exn ValueErr (''Run item '' @ dl_item d @ '' not found'')) s
      | Some i \<Rightarrow>
          if terminal (ri_status i) then (TaskSkipped (''already_'' @ item_status_name (ri_status i)), s)
          else
            (case claim_run_item (now E) (dl_item d) (task_id_of d) (dl_retries d + 1) s of
               (False, s0) \<Rightarrow> (TaskSkipped ''already_in_progress'', s0)
             | (True, s1) \<Rightarrow>
                 (case load_entities d s1 of
                    Inl exc \<Rightarrow> on_error E d exc s1
                  | Inr (c, v, ec) \<Rightarrow>
                      let s2 = (if 0 < dl_retries d then clear_stale_data (dl_item d) s1 else s1) in
                      (case and_then (evaluate_item E c v ec) (\<lambda>(out, rs).
                            and_then (commit_completed (now E) (dl_item d) v c out rs s2) (\<lambda>s3.
                            Inr (out, rs, s3))) of
                         Inl exc \<Rightarrow> on_error E d exc s2
                       | Inr (out, rs, s3) \<Rightarrow>
                           (TaskCompleted (dl_item d) (latency_ms out) (length rs),
                            refresh_run_progress (ri_run i) s3)))))"

section \<open>Completion of a run\<close>

datatype completion = CompletionUnknown | StillRunning nat nat | Finalized run_status nat nat

text \<open>\<open>chord_results\<close> is the list of a chord, or a run id passed positionally.\<close>

definition callback_run_id :: "string option \<Rightarrow> string option \<Rightarrow> string option" where
  "callback_run_id positional run_id = (case run_id of None \<Rightarrow> positional | Some r \<Rightarrow> Some r)"

definition check_run_completion ::
  "int \<Rightarrow> string option \<Rightarrow> string option \<Rightarrow> db \<Rightarrow> completion \<times> db" where
  "check_run_completion t positional run_id s =
     (case callback_run_id positional run_id of
        None \<Rightarrow> (CompletionUnknown, s)
      | Some rid \<Rightarrow>
          let total = count_items s rid (\<lambda>_. True);
              completed = count_items s rid (\<lambda>st. st = ItemCompleted);
              errored_count = count_items s rid failed_status
          in if total = 0 then (CompletionUnknown, s)
             else if total \<le> completed + errored_count then
               let new_status = (if errored_count = 0 then RunCompleted else RunPartial)
               in (Finalized new_status completed errored_count,
                   s\<lparr>runs := update_where (\<lambda>r. er_id r = rid)
                      (\<lambda>r. r\<lparr>er_status := new_status, er_case_completed := completed,
                            er_case_errored := errored_count, er_completed_at := Some t\<rparr>) (runs s)\<rparr>)
             else (StillRunning completed errored_count, s))"


section \<open>Concurrent deliveries\<close>

text \<open>
  The database, the clock and the deliveries at work, by task id. A delivery is killed at its hard time
  limit, which is shorter than the lease it holds. Computation happens between transactions and is
  pure, so it is part of the committing step.
\<close>

record work =
  wk_delivery :: delivery
  wk_deadline :: int

record cluster =
  cl_db :: db
  cl_now :: int
  cl_busy :: "string \<rightharpoonup> work"

definition kill_late :: "int \<Rightarrow> (string \<rightharpoonup> work) \<Rightarrow> (string \<rightharpoonup> work)" where
  "kill_late t busy = (\<lambda>k. case busy k of None \<Rightarrow> None | Some w \<Rightarrow> if t \<le> wk_deadline w then Some w else None)"

inductive cluster_step :: "service_env \<Rightarrow> cluster \<Rightarrow> cluster \<Rightarrow> bool" for E where
  tick: "cl_now S \<le> t \<Longrightarrow>
    cluster_step E S (S\<lparr>cl_now := t, cl_busy := kill_late t (cl_busy S)\<rparr>)"
| claim: "cl_busy S (task_id_of d) = None \<Longrightarrow>
    claim_run_item (cl_now S) (dl_item d) (task_id_of d) (dl_retries d + 1) (cl_db S) = (True, s') \<Longrightarrow>
    cluster_step E S (S\<lparr>cl_db := s', cl_busy := (cl_busy S)(task_id_of d \<mapsto>
      \<lparr>wk_delivery = d, wk_deadline = cl_now S + seconds task_time_limit\<rparr>)\<rparr>)"
| clear: "cl_busy S k = Some w \<Longrightarrow> 0 < dl_retries (wk_delivery w) \<Longrightarrow>
    cluster_step E S (S\<lparr>cl_db := clear_stale_data (dl_item (wk_delivery w)) (cl_db S)\<rparr>)"
| complete: "cl_busy S k = Some w \<Longrightarrow>
    load_entities (wk_delivery w) (cl_db S) = Inr (c, v, ec) \<Longrightarrow>
    evaluate_item E c v ec = Inr (out, rs) \<Longrightarrow>
    commit_completed (cl_now S) (dl_item (wk_delivery w)) v c out rs (cl_db S) = Inr s' \<Longrightarrow>
    cluster_step E S (S\<lparr>cl_db := s', cl_busy := (cl_busy S)(k := None)\<rparr>)"
| fail: "cl_busy S k = Some w \<Longrightarrow>
    cluster_step E S (S\<lparr>cl_db := commit_failure (cl_now S) exc (dl_item (wk_delivery w))
        (dl_retries (wk_delivery w)) (cl_db S), cl_busy := (cl_busy S)(k := None)\<rparr>)"
| give_up: "cluster_step E S (S\<lparr>cl_busy := (cl_busy S)(k := None)\<rparr>)"
| refresh: "cluster_step E S (S\<lparr>cl_db := refresh_run_progress rid (cl_db S)\<rparr>)"
| callback: "check_run_completion (cl_now S) positional rid (cl_db S) = (outcome, s') \<Longrightarrow>
    cluster_step E S (S\<lparr>cl_db := s'\<rparr>)"

inductive_cases cluster_stepE: "cluster_step E S S'"

inductive cluster_reach :: "service_env \<Rightarrow> cluster \<Rightarrow> cluster \<Rightarrow> bool" for E where
  start: "cluster_reach E S S"
| more: "cluster_reach E S S' \<Longrightarrow> cluster_step E S' S'' \<Longrightarrow> cluster_reach E S S''"

text \<open>Item ids are unique; a task at work owns its item, under a lease that outlives its deadline.\<close>

definition owns :: "cluster \<Rightarrow> string \<Rightarrow> work \<Rightarrow> bool" where
  "owns S k w \<longleftrightarrow>
     cl_now S \<le> wk_deadline w \<and> task_id_of (wk_delivery w) = k \<and>
     (\<exists>i \<in> set (items (cl_db S)). ri_id i = dl_item (wk_delivery w) \<and> ri_status i = ItemRunning \<and>
        ri_task i = Some k \<and> (\<exists>l. ri_lease i = Some l \<and> wk_deadline w < l))"

text \<open>A completed item has exactly one trace, any other item none and no results either.\<close>

definition item_ledger :: "db \<Rightarrow> bool" where
  "item_ledger s \<longleftrightarrow>
     (\<forall>i \<in> set (items s).
        length (filter (\<lambda>t. tr_item t = ri_id i) (traces s)) = (if ri_status i = ItemCompleted then 1 else 0) \<and>
        (ri_status i \<noteq> ItemCompleted \<longrightarrow> filter (\<lambda>r. rs_item r = ri_id i) (results s) = []))"

definition cluster_inv :: "cluster \<Rightarrow> bool" where
  "cluster_inv S \<longleftrightarrow>
     distinct (map ri_id (items (cl_db S))) \<and> item_ledger (cl_db S) \<and>
     (\<forall>k w. cl_busy S k = Some w \<longrightarrow> owns S k w)"

section \<open>Lemmas on the transactions\<close>

lemma row_ids [simp]:
  "ri_id (claimed_row t k n i) = ri_id i" "ri_id (completed_row t l c i) = ri_id i"
  "ri_id (errored_row t e n i) = ri_id i" "ri_run (claimed_row t k n i) = ri_run i"
  "ri_run (completed_row t l c i) = ri_run i" "ri_run (errored_row t e n i) = ri_run i"
  "ri_status (claimed_row t k n i) = ItemRunning" "ri_status (completed_row t l c i) = ItemCompleted"
  "ri_status (errored_row t e n i) = ItemErrored" "ri_task (claimed_row t k n i) = Some k"
  "ri_lease (claimed_row t k n i) = Some (t + seconds TASK_LEASE_SECONDS)"
  by (simp_all add: claimed_row_def completed_row_def errored_row_def)

lemma distinct_id_eq:
  "distinct (map ri_id rows) \<Longrightarrow> i \<in> set rows \<Longrightarrow> j \<in> set rows \<Longrightarrow> ri_id i = ri_id j \<Longrightarrow> i = j"
  by (auto simp: distinct_map inj_on_def)

lemma item_by_id_mem: "item_by_id s iid = Some i \<Longrightarrow> i \<in> set (items s) \<and> ri_id i = iid"
  unfolding item_by_id_def by (drule find_conj) simp

lemma item_by_id_unique:
  "distinct (map ri_id (items s)) \<Longrightarrow> i \<in> set (items s) \<Longrightarrow> item_by_id s (ri_id i) = Some i"
  unfolding item_by_id_def using distinct_id_eq
  by (metis (mono_tags, lifting) find_None_iff find_conj not_None_eq)

lemma refresh_facts [simp]:
  "items (refresh_run_progress rid s) = items s" "traces (refresh_run_progress rid s) = traces s"
  "results (refresh_run_progress rid s) = results s"
  by (simp_all add: refresh_run_progress_def)

lemma completion_facts:
  "check_run_completion t p rid s = (a, s') \<Longrightarrow>
     items s' = items s \<and> traces s' = traces s \<and> results s' = results s"
  by (auto simp: check_run_completion_def Let_def split: option.splits if_splits)

lemma claim_facts:
  assumes "claim_run_item t iid k n s = (True, s')"
  shows "\<exists>i \<in> set (items s). ri_id i = iid \<and> claimable t k i"
    and "items s' = update_where (\<lambda>i. ri_id i = iid \<and> claimable t k i) (claimed_row t k n) (items s)"
    and "traces s' = traces s" and "results s' = results s"
  using assms by (auto simp: claim_run_item_def Let_def list_ex_iff)

lemma commit_failure_facts:
  "traces (commit_failure t e iid n s) = traces s" "results (commit_failure t e iid n s) = results s"
  "items (commit_failure t e iid n s) =
     (case item_by_id s iid of
        None \<Rightarrow> items s
      | Some i \<Rightarrow> if terminal (ri_status i) then items s
                  else update_where (\<lambda>x. ri_id x = iid) (errored_row t e (n + 1)) (items s))"
  by (auto simp: commit_failure_def split: option.splits)

lemma claimable_status: "claimable t k i \<Longrightarrow> ri_status i = Queued \<or> ri_status i = ItemRunning"
  by (auto simp: claimable_def)

lemma commit_completed_facts:
  assumes "commit_completed t iid v c out rs s = Inr s'"
  obtains l cost rows where
    "items s' = update_where (\<lambda>i. ri_id i = iid) (completed_row t l cost) (items s)"
    "traces s' = traces s @ [\<lparr>tr_item = iid, tr_payload = trace_payload v c out, tr_created = t\<rparr>]"
    "results s' = results s @ rows" "\<forall>r \<in> set rows. rs_item r = iid"
    "\<forall>tr \<in> set (traces s). tr_item tr \<noteq> iid"
proof -
  from assms obtain l cost rows where
    "store_results t iid rs = Inr rows"
    "\<not> list_ex (\<lambda>tr. tr_item tr = iid) (traces s)"
    "s' = s\<lparr>items := update_where (\<lambda>i. ri_id i = iid) (completed_row t l cost) (items s),
            traces := traces s @ [\<lparr>tr_item = iid, tr_payload = trace_payload v c out, tr_created = t\<rparr>],
            results := results s @ rows\<rparr>"
    by (auto simp: commit_completed_def and_then_Inr_iff split: if_splits)
  moreover from this(1) have "\<forall>r \<in> set rows. rs_item r = iid"
    by (auto simp: store_results_def result_row_of_def and_then_Inr_iff dest!: map_res_set split: if_splits)
  ultimately show thesis by (intro that) (auto simp: list_ex_iff)
qed

section \<open>The invariant\<close>

lemma owned_item:
  assumes "cluster_inv S" and "cl_busy S k = Some w"
  obtains i l where "i \<in> set (items (cl_db S))" "ri_id i = dl_item (wk_delivery w)"
    "ri_status i = ItemRunning" "ri_task i = Some k" "ri_lease i = Some l" "cl_now S < l"
    "wk_deadline w < l"
proof -
  from assms have "owns S k w" by (simp add: cluster_inv_def)
  then show thesis using that unfolding owns_def by fastforce
qed

lemma busy_items_differ:
  assumes "cluster_inv S" and "cl_busy S k = Some w" and "cl_busy S k' = Some w'" and "k \<noteq> k'"
  shows "dl_item (wk_delivery w) \<noteq> dl_item (wk_delivery w')"
proof
  assume eq: "dl_item (wk_delivery w) = dl_item (wk_delivery w')"
  from owned_item [OF assms(1,2)] obtain i where i: "i \<in> set (items (cl_db S))"
    "ri_id i = dl_item (wk_delivery w)" "ri_task i = Some k" .
  from owned_item [OF assms(1,3)] obtain j where j: "j \<in> set (items (cl_db S))"
    "ri_id j = dl_item (wk_delivery w')" "ri_task j = Some k'" .
  have "distinct (map ri_id (items (cl_db S)))" using assms(1) by (simp add: cluster_inv_def)
  from distinct_id_eq [OF this i(1) j(1)] i j eq assms(4) show False by simp
qed

text \<open>A step that changes only rows of items a task does not own leaves its ownership alone.\<close>

lemma owns_update:
  assumes "owns S k w" and "items (cl_db S') = update_where P f (items (cl_db S))"
    and "\<And>i. i \<in> set (items (cl_db S)) \<Longrightarrow> ri_id i = dl_item (wk_delivery w) \<Longrightarrow> ri_status i = ItemRunning \<Longrightarrow>
           ri_task i = Some k \<Longrightarrow> \<exists>l. ri_lease i = Some l \<and> cl_now S < l \<Longrightarrow> \<not> P i"
    and "cl_now S' = cl_now S"
  shows "owns S' k w"
proof -
  from assms(1) obtain i l where i: "i \<in> set (items (cl_db S))" "ri_id i = dl_item (wk_delivery w)"
    "ri_status i = ItemRunning" "ri_task i = Some k" "ri_lease i = Some l" "wk_deadline w < l"
    "cl_now S \<le> wk_deadline w" by (auto simp: owns_def)
  have "\<not> P i" by (rule assms(3) [OF i(1-4)]) (use i in auto)
  then have "i \<in> set (items (cl_db S'))" unfolding assms(2) by (rule update_where_keeps [OF i(1)])
  with i assms(1,4) show ?thesis unfolding owns_def by auto
qed

lemma ledger_update:
  assumes "item_ledger s" and "items s' = update_where P f (items s)"
    and "traces s' = traces s" and "results s' = results s"
    and "\<And>i. i \<in> set (items s) \<Longrightarrow> P i \<Longrightarrow>
          ri_id (f i) = ri_id i \<and> ri_status i \<noteq> ItemCompleted \<and> ri_status (f i) \<noteq> ItemCompleted"
  shows "item_ledger s'"
  unfolding item_ledger_def assms(3,4)
proof (intro ballI)
  fix x assume "x \<in> set (items s')"
  then obtain i where i: "i \<in> set (items s)" "x = (if P i then f i else i)"
    unfolding assms(2) set_update_where by auto
  with assms(1) have "length (filter (\<lambda>t. tr_item t = ri_id i) (traces s)) = (if ri_status i = ItemCompleted then 1 else 0) \<and>
      (ri_status i \<noteq> ItemCompleted \<longrightarrow> filter (\<lambda>r. rs_item r = ri_id i) (results s) = [])"
    unfolding item_ledger_def by blast
  with i assms(5) [OF i(1)]
  show "length (filter (\<lambda>t. tr_item t = ri_id x) (traces s)) = (if ri_status x = ItemCompleted then 1 else 0) \<and>
      (ri_status x \<noteq> ItemCompleted \<longrightarrow> filter (\<lambda>r. rs_item r = ri_id x) (results s) = [])"
    by (cases "P i") simp_all
qed

lemma ledger_same: "item_ledger s \<Longrightarrow> items s' = items s \<Longrightarrow> traces s' = traces s \<Longrightarrow> results s' = results s \<Longrightarrow> item_ledger s'"
  by (simp add: item_ledger_def)

lemma inv_claim:
  assumes inv: "cluster_inv S" and free: "cl_busy S (task_id_of d) = None"
    and claim: "claim_run_item (cl_now S) (dl_item d) (task_id_of d) n (cl_db S) = (True, s')"
  shows "cluster_inv (S\<lparr>cl_db := s', cl_busy := (cl_busy S)(task_id_of d \<mapsto>
      \<lparr>wk_delivery = d, wk_deadline = cl_now S + seconds task_time_limit\<rparr>)\<rparr>)" (is "cluster_inv ?S'")
proof -
  note f = claim_facts [OF claim]
  let ?P = "\<lambda>i. ri_id i = dl_item d \<and> claimable (cl_now S) (task_id_of d) i"
  have ids: "map ri_id (items s') = map ri_id (items (cl_db S))"
    unfolding f(2) by (rule map_id_update_where) simp
  have "item_ledger s'"
    by (rule ledger_update [OF _ f(2-4)]) (use inv in \<open>auto simp: cluster_inv_def dest: claimable_status\<close>)
  moreover have "owns ?S' k w" if "cl_busy ?S' k = Some w" for k w
  proof (cases "k = task_id_of d")
    case True
    with that have w: "w = \<lparr>wk_delivery = d, wk_deadline = cl_now S + seconds task_time_limit\<rparr>" by simp
    from f(1) obtain i where "i \<in> set (items (cl_db S))" "?P i" by blast
    then have "claimed_row (cl_now S) (task_id_of d) n i \<in> set (items s')" "ri_id i = dl_item d"
      unfolding f(2) set_update_where by (auto intro: rev_image_eqI)
    then show ?thesis unfolding owns_def w
      by (intro conjI bexI [of _ "claimed_row (cl_now S) (task_id_of d) n i"])
        (auto simp: True seconds_def task_time_limit_def TASK_LEASE_SECONDS_def)
  next
    case False
    with that have w: "cl_busy S k = Some w" by simp
    with inv have "owns S k w" by (simp add: cluster_inv_def)
    then show ?thesis
    proof (rule owns_update)
      show "items (cl_db ?S') = update_where ?P (claimed_row (cl_now S) (task_id_of d) n) (items (cl_db S))"
        by (simp add: f(2))
      show "\<not> ?P i" if "ri_status i = ItemRunning" "ri_task i = Some k"
        "\<exists>l. ri_lease i = Some l \<and> cl_now S < l" for i
        using that False by (auto simp: claimable_def)
    qed simp
  qed
  ultimately show ?thesis using inv ids by (simp add: cluster_inv_def)
qed

lemma inv_complete:
  assumes inv: "cluster_inv S" and busy: "cl_busy S k = Some w"
    and commit: "commit_completed t (dl_item (wk_delivery w)) v c out rs (cl_db S) = Inr s'"
  shows "cluster_inv (S\<lparr>cl_db := s', cl_busy := (cl_busy S)(k := None)\<rparr>)" (is "cluster_inv ?S'")
  using commit
proof (cases rule: commit_completed_facts)
  case (1 l cost rows)
  let ?iid = "dl_item (wk_delivery w)"
  have dist: "distinct (map ri_id (items (cl_db S)))" using inv by (simp add: cluster_inv_def)
  have ids: "map ri_id (items s') = map ri_id (items (cl_db S))"
    unfolding 1(1) by (rule map_id_update_where) simp
  have led: "item_ledger (cl_db S)" using inv by (simp add: cluster_inv_def)
  have "item_ledger s'" unfolding item_ledger_def
  proof (intro ballI)
    fix x assume "x \<in> set (items s')"
    then obtain i where i: "i \<in> set (items (cl_db S))" "x = (if ri_id i = ?iid then completed_row t l cost i else i)"
      unfolding 1(1) set_update_where by auto
    show "length (filter (\<lambda>t. tr_item t = ri_id x) (traces s')) = (if ri_status x = ItemCompleted then 1 else 0) \<and>
        (ri_status x \<noteq> ItemCompleted \<longrightarrow> filter (\<lambda>r. rs_item r = ri_id x) (results s') = [])"
    proof (cases "ri_id i = ?iid")
      case True
      have "filter (\<lambda>t. tr_item t = ?iid) (traces (cl_db S)) = []" using 1(5) by (simp add: filter_empty_conv)
      with True i(2) show ?thesis by (simp add: 1(2))
    next
      case False
      then have "filter (\<lambda>r. rs_item r = ri_id i) rows = []" using 1(4) by (auto simp: filter_empty_conv)
      with False i led show ?thesis by (simp add: 1(2,3) item_ledger_def)
    qed
  qed
  moreover have "owns ?S' k' w'" if "cl_busy ?S' k' = Some w'" for k' w'
  proof -
    from that have w': "cl_busy S k' = Some w'" "k \<noteq> k'" by (auto split: if_splits)
    with inv have "owns S k' w'" by (simp add: cluster_inv_def)
    then show ?thesis
      by (rule owns_update [where P = "\<lambda>i. ri_id i = ?iid"])
        (use 1(1) busy_items_differ [OF inv busy w'] in simp_all)
  qed
  ultimately show ?thesis using dist ids by (simp add: cluster_inv_def)
qed

lemma inv_fail:
  assumes inv: "cluster_inv S" and busy: "cl_busy S k = Some w"
  shows "cluster_inv (S\<lparr>cl_db := commit_failure t exc (dl_item (wk_delivery w)) n (cl_db S),
      cl_busy := (cl_busy S)(k := None)\<rparr>)" (is "cluster_inv ?S'")
proof -
  let ?iid = "dl_item (wk_delivery w)" and ?s' = "commit_failure t exc (dl_item (wk_delivery w)) n (cl_db S)"
  have dist: "distinct (map ri_id (items (cl_db S)))" and led: "item_ledger (cl_db S)"
    using inv by (simp_all add: cluster_inv_def)
  from owned_item [OF inv busy] obtain i where i: "i \<in> set (items (cl_db S))" "ri_id i = ?iid"
    "ri_status i = ItemRunning" .
  then have lookup: "item_by_id (cl_db S) ?iid = Some i" using item_by_id_unique [OF dist i(1)] by simp
  have its: "items ?s' = update_where (\<lambda>x. ri_id x = ?iid) (errored_row t exc (n + 1)) (items (cl_db S))"
    by (simp add: commit_failure_facts lookup i(3) terminal_def)
  have "map ri_id (items ?s') = map ri_id (items (cl_db S))"
    unfolding its by (rule map_id_update_where) simp
  moreover have "item_ledger ?s'"
    by (rule ledger_update [OF led its commit_failure_facts(1,2)])
      (use i distinct_id_eq [OF dist] in \<open>auto dest: distinct_id_eq [OF dist i(1)]\<close>)
  moreover have "owns ?S' k' w'" if "cl_busy ?S' k' = Some w'" for k' w'
  proof -
    from that have w': "cl_busy S k' = Some w'" "k \<noteq> k'" by (auto split: if_splits)
    with inv have "owns S k' w'" by (simp add: cluster_inv_def)
    then show ?thesis
      by (rule owns_update [where P = "\<lambda>i. ri_id i = ?iid"])
        (use its busy_items_differ [OF inv busy w'] in simp_all)
  qed
  ultimately show ?thesis using dist by (simp add: cluster_inv_def)
qed

lemma inv_clear:
  assumes inv: "cluster_inv S" and busy: "cl_busy S k = Some w"
  shows "cluster_inv (S\<lparr>cl_db := clear_stale_data (dl_item (wk_delivery w)) (cl_db S)\<rparr>)"
proof -
  from owned_item [OF inv busy] obtain i where i: "i \<in> set (items (cl_db S))"
    "ri_id i = dl_item (wk_delivery w)" "ri_status i = ItemRunning" .
  have dist: "distinct (map ri_id (items (cl_db S)))" and led: "item_ledger (cl_db S)"
    using inv by (simp_all add: cluster_inv_def)
  have "item_ledger (clear_stale_data (dl_item (wk_delivery w)) (cl_db S))" unfolding item_ledger_def
  proof (intro ballI)
    fix j assume j: "j \<in> set (items (clear_stale_data (dl_item (wk_delivery w)) (cl_db S)))"
    then have j': "j \<in> set (items (cl_db S))" by (simp add: clear_stale_data_def)
    show "length (filter (\<lambda>t. tr_item t = ri_id j) (traces (clear_stale_data (dl_item (wk_delivery w)) (cl_db S)))) =
        (if ri_status j = ItemCompleted then 1 else 0) \<and>
        (ri_status j \<noteq> ItemCompleted \<longrightarrow>
          filter (\<lambda>r. rs_item r = ri_id j) (results (clear_stale_data (dl_item (wk_delivery w)) (cl_db S))) = [])"
    proof (cases "ri_id j = ri_id i")
      case True
      then have "j = i" using distinct_id_eq [OF dist j' i(1)] by simp
      with i show ?thesis by (simp add: clear_stale_data_def filter_empty_conv)
    next
      case False
      then have "filter (\<lambda>t. tr_item t = ri_id j) (filter (\<lambda>t. tr_item t \<noteq> dl_item (wk_delivery w)) xs) =
            filter (\<lambda>t. tr_item t = ri_id j) xs"
          "filter (\<lambda>r. rs_item r = ri_id j) (filter (\<lambda>r. rs_item r \<noteq> dl_item (wk_delivery w)) ys) =
            filter (\<lambda>r. rs_item r = ri_id j) ys" for xs :: "trace_row list" and ys :: "result_row list"
        using i(2) by (auto simp: filter_filter intro!: filter_cong)
      with led j' show ?thesis by (simp add: clear_stale_data_def item_ledger_def del: filter_filter)
    qed
  qed
  then show ?thesis using inv by (simp add: cluster_inv_def owns_def clear_stale_data_def)
qed


lemma kill_late_Some:
  "kill_late t busy k = Some w \<longleftrightarrow> busy k = Some w \<and> t \<le> wk_deadline w"
  by (auto simp: kill_late_def split: option.splits)

lemma inv_tick: "cluster_inv S \<Longrightarrow> cluster_inv (S\<lparr>cl_now := t, cl_busy := kill_late t (cl_busy S)\<rparr>)"
  by (simp add: cluster_inv_def owns_def kill_late_Some)

lemma inv_give_up: "cluster_inv S \<Longrightarrow> cluster_inv (S\<lparr>cl_busy := (cl_busy S)(k := None)\<rparr>)"
  by (simp add: cluster_inv_def owns_def)

lemma inv_same_rows:
  assumes "cluster_inv S" and "items s' = items (cl_db S)" and "traces s' = traces (cl_db S)"
    and "results s' = results (cl_db S)"
  shows "cluster_inv (S\<lparr>cl_db := s'\<rparr>)"
  using assms by (simp add: cluster_inv_def owns_def item_ledger_def)

lemma cluster_step_inv:
  assumes "cluster_step E S S'" and "cluster_inv S"
  shows "cluster_inv S'"
  using assms
proof cases
  case (callback positional rid outcome s')
  then show ?thesis using assms(2) completion_facts [OF callback(2)] by (simp add: inv_same_rows)
qed (simp_all add: inv_tick inv_claim inv_clear inv_complete inv_fail inv_give_up inv_same_rows)

lemma cluster_reach_inv: "cluster_reach E S S' \<Longrightarrow> cluster_inv S \<Longrightarrow> cluster_inv S'"
  by (induction rule: cluster_reach.induct) (auto intro: cluster_step_inv)


section \<open>Settled items\<close>

lemma terminal_not_running: "terminal (ri_status i) \<Longrightarrow> ri_status i \<noteq> ItemRunning \<and> \<not> claimable t k i"
  by (auto simp: terminal_def claimable_def)

lemma settled_item_differs:
  assumes "cluster_inv S" and "cl_busy S k = Some w" and "i \<in> set (items (cl_db S))" and "terminal (ri_status i)"
  shows "ri_id i \<noteq> dl_item (wk_delivery w)"
proof
  assume eq: "ri_id i = dl_item (wk_delivery w)"
  from owned_item [OF assms(1,2)] obtain j where j: "j \<in> set (items (cl_db S))"
    "ri_id j = dl_item (wk_delivery w)" "ri_status j = ItemRunning" .
  have "distinct (map ri_id (items (cl_db S)))" using assms(1) by (simp add: cluster_inv_def)
  from distinct_id_eq [OF this assms(3) j(1)] eq j assms(4) show False by (simp add: terminal_def)
qed

definition settled_view :: "db \<Rightarrow> item_row \<Rightarrow> trace_row list \<times> result_row list" where
  "settled_view s i = (filter (\<lambda>t. tr_item t = ri_id i) (traces s), filter (\<lambda>r. rs_item r = ri_id i) (results s))"

lemma settled_step:
  assumes step: "cluster_step E S S'" and inv: "cluster_inv S"
    and i: "i \<in> set (items (cl_db S))" "terminal (ri_status i)"
  shows "i \<in> set (items (cl_db S')) \<and> settled_view (cl_db S') i = settled_view (cl_db S) i"
  using step
proof cases
  case (claim d s')
  note f = claim_facts [OF claim(3)]
  have "i \<in> set (items s')" unfolding f(2)
    by (rule update_where_keeps [OF i(1)]) (use terminal_not_running [OF i(2)] in blast)
  then show ?thesis by (simp add: claim(1) settled_view_def f(3,4))
next
  case (clear k w)
  have "filter (\<lambda>t. tr_item t = ri_id i) (filter (\<lambda>t. tr_item t \<noteq> dl_item (wk_delivery w)) xs) =
      filter (\<lambda>t. tr_item t = ri_id i) xs"
    "filter (\<lambda>r. rs_item r = ri_id i) (filter (\<lambda>r. rs_item r \<noteq> dl_item (wk_delivery w)) ys) =
      filter (\<lambda>r. rs_item r = ri_id i) ys" for xs :: "trace_row list" and ys :: "result_row list"
    using settled_item_differs [OF inv clear(2) i] by (auto simp: filter_filter intro!: filter_cong)
  then show ?thesis using i(1) by (simp add: clear(1) settled_view_def clear_stale_data_def del: filter_filter)
next
  case (complete k w c v ec out rs s')
  note diff = settled_item_differs [OF inv complete(2) i]
  from complete(5) show ?thesis
  proof (cases rule: commit_completed_facts)
    case (1 l cost rows)
    have "i \<in> set (items s')" unfolding 1(1) by (rule update_where_keeps [OF i(1)]) (rule diff)
    moreover have "filter (\<lambda>r. rs_item r = ri_id i) rows = []"
      using 1(4) diff by (auto simp: filter_empty_conv)
    ultimately show ?thesis using diff by (simp add: complete(1) settled_view_def 1(2,3))
  qed
next
  case (fail k w exc)
  note diff = settled_item_differs [OF inv fail(2) i]
  show ?thesis using i(1) diff
    by (simp add: fail(1) settled_view_def commit_failure_facts update_where_keeps split: option.split)
next
  case (callback positional rid outcome s')
  then show ?thesis using i(1) completion_facts [OF callback(2)] by (simp add: settled_view_def)
qed (use i(1) in \<open>simp_all add: settled_view_def\<close>)

lemma settled_reach:
  assumes "cluster_reach E S S'" and "cluster_inv S" and "i \<in> set (items (cl_db S))" and "terminal (ri_status i)"
  shows "i \<in> set (items (cl_db S')) \<and> settled_view (cl_db S') i = settled_view (cl_db S) i"
  using assms
proof (induction rule: cluster_reach.induct)
  case (more S S' S'')
  then have "i \<in> set (items (cl_db S'))" "settled_view (cl_db S') i = settled_view (cl_db S) i" by simp_all
  with settled_step [OF more(2) cluster_reach_inv [OF more(1) more(4)]] more(6) show ?case by simp
qed simp

section \<open>Completion of a run\<close>

lemma count_items_disjoint:
  assumes "\<And>st. P st \<Longrightarrow> \<not> Q st"
  shows "count_items s rid (\<lambda>st. P st \<or> Q st) = count_items s rid P + count_items s rid Q"
proof -
  have "length (filter (\<lambda>i. ri_run i = rid \<and> (P (ri_status i) \<or> Q (ri_status i))) xs) =
      length (filter (\<lambda>i. ri_run i = rid \<and> P (ri_status i)) xs) +
      length (filter (\<lambda>i. ri_run i = rid \<and> Q (ri_status i)) xs)" for xs
    using assms by (induction xs) auto
  then show ?thesis by (simp add: count_items_def)
qed

lemma count_items_split:
  "count_items s rid (\<lambda>_. True) =
     count_items s rid (\<lambda>st. st = ItemCompleted) + count_items s rid failed_status +
     count_items s rid (\<lambda>st. \<not> terminal st)"
proof -
  have all: "(\<lambda>_. True) = (\<lambda>st. (st = ItemCompleted \<or> failed_status st) \<or> \<not> terminal st)"
    by (auto simp: terminal_def failed_status_def)
  show ?thesis unfolding all
    by (subst count_items_disjoint, force simp: terminal_def failed_status_def)
      (subst count_items_disjoint, auto simp: failed_status_def)
qed

lemma count_items_zero:
  "count_items s rid P = 0 \<longleftrightarrow> (\<forall>i \<in> set (items s). ri_run i = rid \<longrightarrow> \<not> P (ri_status i))"
  by (auto simp: count_items_def filter_empty_conv)

lemma check_run_completion_exact:
  "let s' = snd (check_run_completion t positional (Some rid) s);
       open_items = count_items s rid (\<lambda>st. \<not> terminal st);
       good = count_items s rid (\<lambda>st. st = ItemCompleted);
       all_items = count_items s rid (\<lambda>_. True);
       status = if good = all_items then RunCompleted else RunPartial
   in fst (check_run_completion t positional (Some rid) s) =
        (if all_items = 0 then CompletionUnknown
         else if 0 < open_items then StillRunning good (all_items - open_items - good)
         else Finalized status good (all_items - good)) \<and>
      runs s' =
        (if all_items = 0 \<or> 0 < open_items then runs s
         else map (\<lambda>r. if er_id r = rid
                       then r\<lparr>er_status := status, er_case_completed := good,
                              er_case_errored := all_items - good, er_completed_at := Some t\<rparr>
                       else r) (runs s)) \<and>
      s' = s\<lparr>runs := runs s'\<rparr>"
  using count_items_split [of s rid]
  by (auto simp: check_run_completion_def callback_run_id_def Let_def update_where_def)

text \<open>
  C14: the completion callback finalises a run exactly when the run has items and every one is terminal;
  the run is then \<open>completed\<close> if every item completed and \<open>partial\<close> otherwise, its two counters add
  up to the number of its items, and its completion time is set. Otherwise nothing is written.
\<close>

theorem run_completes_with_its_items:
  "let s' = snd (check_run_completion t positional (Some rid) s);
       open_items = count_items s rid (\<lambda>st. \<not> terminal st);
       good = count_items s rid (\<lambda>st. st = ItemCompleted);
       all_items = count_items s rid (\<lambda>_. True);
       status = if good = all_items then RunCompleted else RunPartial
   in fst (check_run_completion t positional (Some rid) s) =
        (if all_items = 0 then CompletionUnknown
         else if 0 < open_items then StillRunning good (all_items - open_items - good)
         else Finalized status good (all_items - good)) \<and>
      runs s' =
        (if all_items = 0 \<or> 0 < open_items then runs s
         else map (\<lambda>r. if er_id r = rid
                       then r\<lparr>er_status := status, er_case_completed := good,
                              er_case_errored := all_items - good, er_completed_at := Some t\<rparr>
                       else r) (runs s)) \<and>
      s' = s\<lparr>runs := runs s'\<rparr>"
  by (rule check_run_completion_exact)

section \<open>Properties\<close>



lemma item_by_id_update:
  assumes "\<And>i. ri_id (f i) = ri_id i" and "items s' = update_where P f (items s)"
  shows "item_by_id s' iid = map_option (\<lambda>i. if P i then f i else i) (item_by_id s iid)"
proof -
  have "find (\<lambda>i. ri_id i = iid) (map (\<lambda>i. if P i then f i else i) xs) =
      map_option (\<lambda>i. if P i then f i else i) (find (\<lambda>i. ri_id i = iid) xs)" for xs
    by (induction xs) (auto simp: assms(1))
  then show ?thesis by (simp add: item_by_id_def assms(2) update_where_def)
qed

lemma on_error_outcome:
  assumes "on_error E d exc s = (r, s')" and "item_by_id s (dl_item d) = Some i" and "ri_status i = ItemRunning"
  shows "r = TaskRetry exc \<and> s' = s \<and> is_transient_error exc \<and> dl_retries d < max_retries \<or>
    r = TaskErrored (dl_item d) (take 1000 (exn_msg exc)) \<and>
      item_by_id s' (dl_item d) = Some (errored_row (now E) exc (dl_retries d + 1) i)"
proof (cases "is_transient_error exc \<and> dl_retries d < max_retries")
  case False
  then have s': "s' = commit_failure (now E) exc (dl_item d) (dl_retries d) s"
    and r: "r = TaskErrored (dl_item d) (take 1000 (exn_msg exc))"
    using assms(1) unfolding on_error_def by (auto split: if_splits)
  have "items s' = update_where (\<lambda>x. ri_id x = dl_item d) (errored_row (now E) exc (dl_retries d + 1)) (items s)"
    using assms by (simp add: s' commit_failure_facts terminal_def)
  then show ?thesis using item_by_id_update [of "errored_row (now E) exc (dl_retries d + 1)" s'] assms(2)
      item_by_id_mem [OF assms(2)] r by simp
qed (use assms(1) in \<open>simp add: on_error_def\<close>)


lemma claim_unclaimable:
  assumes "distinct (map ri_id (items s))" and "item_by_id s iid = Some i"
  shows "claim_run_item t iid k n s =
    (claimable t k i, s\<lparr>items := update_where (\<lambda>x. ri_id x = iid \<and> claimable t k x) (claimed_row t k n) (items s)\<rparr>)"
    and "\<not> claimable t k i \<Longrightarrow> claim_run_item t iid k n s = (False, s)"
proof -
  from item_by_id_mem [OF assms(2)] distinct_id_eq [OF assms(1)]
  have only: "x \<in> set (items s) \<Longrightarrow> ri_id x = iid \<longleftrightarrow> x = i" for x by auto
  then have ex: "list_ex (\<lambda>x. ri_id x = iid \<and> claimable t k x) (items s) = claimable t k i"
    using item_by_id_mem [OF assms(2)] by (auto simp: list_ex_iff)
  then show *: "claim_run_item t iid k n s =
    (claimable t k i, s\<lparr>items := update_where (\<lambda>x. ri_id x = iid \<and> claimable t k x) (claimed_row t k n) (items s)\<rparr>)"
    by (simp add: claim_run_item_def Let_def)
  assume "\<not> claimable t k i"
  with only * show "claim_run_item t iid k n s = (False, s)" by (simp add: update_where_untouched)
qed

lemma clear_stale_items [simp]: "items (clear_stale_data iid s) = items s"
  by (simp add: clear_stale_data_def)

definition settled_as :: "item_status \<Rightarrow> string option \<Rightarrow> delivery \<Rightarrow> db \<Rightarrow> bool" where
  "settled_as st err d s =
     (case item_by_id s (dl_item d) of
        None \<Rightarrow> False
      | Some j \<Rightarrow> ri_status j = st \<and> ri_error j = err \<and> ri_attempts j = dl_retries d + 1)"

definition awaiting_retry :: "delivery \<Rightarrow> db \<Rightarrow> bool" where
  "awaiting_retry d s =
     (case item_by_id s (dl_item d) of
        None \<Rightarrow> False
      | Some j \<Rightarrow> ri_status j = ItemRunning \<and> ri_task j = Some (task_id_of d) \<and>
          ri_attempts j = dl_retries d + 1)"

lemma delivery_after_claim:
  assumes claimed: "item_by_id s1 (dl_item d) = Some (claimed_row (now E) (task_id_of d) (dl_retries d + 1) i)"
    and id: "ri_id i = dl_item d"
    and run: "(case load_entities d s1 of
        Inl exc \<Rightarrow> on_error E d exc s1
      | Inr (c, v, ec) \<Rightarrow>
          let s2 = (if 0 < dl_retries d then clear_stale_data (dl_item d) s1 else s1) in
          (case and_then (evaluate_item E c v ec) (\<lambda>(out, rs).
                and_then (commit_completed (now E) (dl_item d) v c out rs s2) (\<lambda>s3. Inr (out, rs, s3))) of
             Inl exc \<Rightarrow> on_error E d exc s2
           | Inr (out, rs, s3) \<Rightarrow>
               (TaskCompleted (dl_item d) (latency_ms out) (length rs), refresh_run_progress rid s3))) = (r, s')"
  shows "(\<exists>exc. r = TaskRetry exc \<and> is_transient_error exc \<and> dl_retries d < max_retries \<and>
             awaiting_retry d s') \<or>
         (\<exists>msg. r = TaskErrored (dl_item d) msg \<and> settled_as ItemErrored (Some msg) d s') \<or>
         (\<exists>ms n. r = TaskCompleted (dl_item d) ms n \<and> settled_as ItemCompleted None d s')"
proof -
  have err: ?thesis if "on_error E d exc s2 = (r, s')" "items s2 = items s1" for exc s2
  proof -
    have "item_by_id s2 (dl_item d) = Some (claimed_row (now E) (task_id_of d) (dl_retries d + 1) i)"
      using claimed that(2) by (simp add: item_by_id_def)
    from on_error_outcome [OF that(1) this] this show ?thesis
      by (auto simp: settled_as_def awaiting_retry_def errored_row_def claimed_row_def)
  qed
  show ?thesis
  proof (cases "load_entities d s1")
    case (Inl exc)
    with run show ?thesis using err [of exc s1] by simp
  next
    case (Inr ents)
    obtain c v ec where ents: "ents = (c, v, ec)" by (cases ents)
    define s2 where "s2 = (if 0 < dl_retries d then clear_stale_data (dl_item d) s1 else s1)"
    have s2: "items s2 = items s1" by (simp add: s2_def)
    note run = run [unfolded Inr ents sum.case prod.case Let_def, folded s2_def]
    show ?thesis
    proof (cases "and_then (evaluate_item E c v ec) (\<lambda>(out, rs).
        and_then (commit_completed (now E) (dl_item d) v c out rs s2) (\<lambda>s3. Inr (out, rs, s3)))")
      case (Inl exc)
      with run s2 show ?thesis using err [of exc s2] by simp
    next
      case (Inr x)
      obtain out rs s3 where x: "x = (out, rs, s3)" by (cases x)
      from Inr x have "commit_completed (now E) (dl_item d) v c out rs s2 = Inr s3"
        by (auto simp: and_then_Inr_iff split: prod.splits)
      then show ?thesis
      proof (cases rule: commit_completed_facts)
        case (1 l cost rows)
        have "item_by_id s2 (dl_item d) = item_by_id s1 (dl_item d)" by (simp add: item_by_id_def s2)
        with item_by_id_update [OF _ 1(1), of "dl_item d"] claimed id
        have "item_by_id s3 (dl_item d) =
            Some (completed_row (now E) l cost (claimed_row (now E) (task_id_of d) (dl_retries d + 1) i))"
          by simp
        moreover from run have "r = TaskCompleted (dl_item d) (latency_ms out) (length rs)"
          "s' = refresh_run_progress rid s3" by (simp_all add: Inr x)
        ultimately show ?thesis
          by (simp add: settled_as_def item_by_id_def completed_row_def claimed_row_def)
      qed
    qed
  qed
qed

text \<open>A delivery that claims its item.\<close>

lemma claimed_delivery:
  assumes "item_by_id s (dl_item d) = Some i" and "distinct (map ri_id (items s))"
    and "run_eval_case E d s = (r, s')"
    and free: "\<not> terminal (ri_status i)" "claimable (now E) (task_id_of d) i"
  shows "(\<exists>exc. r = TaskRetry exc \<and> is_transient_error exc \<and> dl_retries d < max_retries \<and>
             awaiting_retry d s') \<or>
     (\<exists>msg. r = TaskErrored (dl_item d) msg \<and> settled_as ItemErrored (Some msg) d s') \<or>
     (\<exists>ms n. r = TaskCompleted (dl_item d) ms n \<and> settled_as ItemCompleted None d s')"
proof -
  have id: "ri_id i = dl_item d" using item_by_id_mem [OF assms(1)] by simp
  define s1 where "s1 = s\<lparr>items := update_where
    (\<lambda>x. ri_id x = dl_item d \<and> claimable (now E) (task_id_of d) x)
    (claimed_row (now E) (task_id_of d) (dl_retries d + 1)) (items s)\<rparr>"
  have claim: "claim_run_item (now E) (dl_item d) (task_id_of d) (dl_retries d + 1) s = (True, s1)"
    using claim_unclaimable(1) [OF assms(2,1)] free(2) by (simp add: s1_def)
  have "item_by_id s1 (dl_item d) = Some (claimed_row (now E) (task_id_of d) (dl_retries d + 1) i)"
    using item_by_id_update [of "claimed_row (now E) (task_id_of d) (dl_retries d + 1)" s1] assms(1) free(2) id
    by (simp add: s1_def)
  from delivery_after_claim [OF this id] assms(3) free(1) show ?thesis
    unfolding run_eval_case_def assms(1) option.case claim by (simp add: free)
qed


section \<open>Witnesses\<close>

definition worker_item :: item_row where
  "worker_item = \<lparr>ri_id = ''i'', ri_run = ''r'', ri_case = ''k'', ri_status = Queued, ri_attempts = 0,
     ri_task = None, ri_lease = None, ri_latency = None, ri_cost = None, ri_error = None,
     ri_started = None, ri_completed = None\<rparr>"

definition worker_delivery :: delivery where
  "worker_delivery = \<lparr>dl_item = ''i'', dl_case = ''gone'', dl_version = ''v'', dl_config = ''cf'',
     dl_request = Some ''t'', dl_retries = 0\<rparr>"

definition idle_cluster :: "item_status \<Rightarrow> cluster" where
  "idle_cluster st =
     \<lparr>cl_db = sample_db\<lparr>items := [worker_item\<lparr>ri_status := st\<rparr>]\<rparr>, cl_now = 0, cl_busy = (\<lambda>_. None)\<rparr>"

lemma sample_db_rows: "items sample_db = []" "traces sample_db = []" "results sample_db = []"
  by (simp_all add: sample_db_def empty_db_def)

lemma idle_cluster_inv: "st \<noteq> ItemCompleted \<Longrightarrow> cluster_inv (idle_cluster st)"
  by (simp add: cluster_inv_def idle_cluster_def item_ledger_def sample_db_rows)

lemma claimed_cluster:
  "\<exists>S'. cluster_reach sample_env (idle_cluster Queued) S' \<and> cl_busy S' ''t'' \<noteq> None"
proof -
  have free: "cl_busy (idle_cluster Queued) (task_id_of worker_delivery) = None"
    by (simp add: idle_cluster_def)
  obtain s' where claim: "claim_run_item (cl_now (idle_cluster Queued)) (dl_item worker_delivery)
      (task_id_of worker_delivery) (dl_retries worker_delivery + 1) (cl_db (idle_cluster Queued)) = (True, s')"
    by (simp add: claim_run_item_def idle_cluster_def worker_delivery_def worker_item_def claimable_def)
  have "task_id_of worker_delivery = ''t''" by (simp add: task_id_of_def worker_delivery_def)
  with cluster_reach.more [OF cluster_reach.start cluster_step.claim [OF free claim], of sample_env]
  show ?thesis by (intro exI conjI) auto
qed




end
