(* ===== verification/Run_Dispatcher.thy ===== *)
theory Run_Dispatcher imports Run_Worker begin

text \<open>
  \<open>backend/app/services/run_dispatcher.py\<close>: a run is persisted with queued items and its tasks are
  submitted to the worker queue as one chord, whose callback is \<open>check_run_completion\<close>. Submission is
  a parameter: it accepts the chord or raises. The second half composes the dispatcher with the worker
  of \<open>Run_Worker\<close>: the queue delivers every task, redelivers it when it asks for a retry, and calls
  the callback once.
\<close>

section \<open>Dispatch\<close>

record signature =
  sg_item :: string
  sg_case :: string
  sg_version :: string
  sg_config :: string

definition queued_item :: "string \<Rightarrow> string \<Rightarrow> case_row \<Rightarrow> item_row" where
  "queued_item run_id item_id c =
     \<lparr>ri_id = item_id, ri_run = run_id, ri_case = ec_id c, ri_status = Queued, ri_attempts = 1,
      ri_task = None, ri_lease = None, ri_latency = None, ri_cost = None, ri_error = None,
      ri_started = None, ri_completed = None\<rparr>"

definition queued_items :: "service_env \<Rightarrow> case_row list \<Rightarrow> item_row list" where
  "queued_items E cases =
     map (\<lambda>(k, c). queued_item (uuid E 0) (uuid E (Suc k)) c) (zip [0..<length cases] cases)"

definition task_signature :: "string \<Rightarrow> string \<Rightarrow> item_row \<Rightarrow> signature" where
  "task_signature version_id config_id i =
     \<lparr>sg_item = ri_id i, sg_case = ri_case i, sg_version = version_id, sg_config = config_id\<rparr>"

definition undispatched_item :: "int \<Rightarrow> item_row \<Rightarrow> item_row" where
  "undispatched_item t i =
     i\<lparr>ri_status := ItemErrored, ri_error := Some ''Failed to submit task to worker queue'',
       ri_completed := Some t\<rparr>"

definition failed_run :: "int \<Rightarrow> nat \<Rightarrow> run_row \<Rightarrow> run_row" where
  "failed_run t n r = r\<lparr>er_status := RunFailed, er_case_errored := n, er_completed_at := Some t\<rparr>"

text \<open>\<open>submit\<close> is \<open>chord(signatures, callback).apply_async()\<close>.\<close>

definition dispatch_run ::
  "service_env \<Rightarrow> (signature list \<Rightarrow> string \<Rightarrow> unit res) \<Rightarrow> string \<Rightarrow> string \<Rightarrow> string \<Rightarrow>
   string list option \<Rightarrow> string \<Rightarrow> db \<Rightarrow> run_row res \<times> db"
where
  "dispatch_run E submit app_version_id suite_id evaluator_config_id case_ids organization_id s =
     (case (tenant_version s organization_id app_version_id, tenant_suite s organization_id suite_id,
            tenant_config s organization_id evaluator_config_id) of
        (None, _, _) \<Rightarrow> (Inl (Exn NotFoundErr ''App version not found''), s)
      | (_, None, _) \<Rightarrow> (Inl (Exn NotFoundErr ''Eval suite not found''), s)
      | (_, _, None) \<Rightarrow> (Inl (Exn NotFoundErr ''Evaluator config not found''), s)
      | (Some version, Some suite, Some config) \<Rightarrow>
          if av_app version \<noteq> es_app suite then
            (Inl (Exn InvalidRunErr ''App version and eval suite must belong to the same app''), s)
          else
            let cases = load_suite_cases s suite_id case_ids in
            (case validate_selected_cases cases case_ids of
               Inl exc \<Rightarrow> (Inl exc, s)
             | Inr _ \<Rightarrow>
                 let run = \<lparr>er_id = uuid E 0, er_org = organization_id, er_version = app_version_id,
                       er_suite = suite_id, er_config = evaluator_config_id, er_status = RunRunning,
                       er_started = Some (now E), er_completed_at = None,
                       er_case_count = length cases, er_case_completed = 0, er_case_errored = 0,
                       er_created = now E\<rparr>;
                     run_items = queued_items E cases;
                     signatures = map (task_signature app_version_id evaluator_config_id) run_items
                 in if signatures \<noteq> [] \<and> \<not> is_ok (submit signatures (er_id run)) then
                      (Inl (Exn DispatchErr (''Run '' @ er_id run @ '' could not be dispatched'')),
                       s\<lparr>runs := runs s @ [failed_run (now E) (length cases) run],
                         items := items s @ map (undispatched_item (now E)) run_items\<rparr>)
                    else
                      (Inr run, s\<lparr>runs := runs s @ [run], items := items s @ run_items\<rparr>)))"

definition dispatch_run_sync ::
  "service_env \<Rightarrow> string \<Rightarrow> string \<Rightarrow> string \<Rightarrow> string list option \<Rightarrow> string \<Rightarrow> db \<Rightarrow> run_row res \<times> db"
where
  "dispatch_run_sync E app_version_id suite_id evaluator_config_id case_ids organization_id s =
     execute_run E app_version_id suite_id evaluator_config_id case_ids organization_id s"

section \<open>The queue\<close>

definition delivery_of :: "string \<Rightarrow> signature \<Rightarrow> delivery" where
  "delivery_of task_id sg =
     \<lparr>dl_item = sg_item sg, dl_case = sg_case sg, dl_version = sg_version sg, dl_config = sg_config sg,
      dl_request = Some task_id, dl_retries = 0\<rparr>"

text \<open>
  A task runs until it returns: \<open>self.retry\<close> puts it back with one more retry, under the same task
  id. Every attempt sees its own environment.
\<close>

function drive :: "(nat \<Rightarrow> service_env) \<Rightarrow> delivery \<Rightarrow> db \<Rightarrow> task_result \<times> db" where
  "drive env d s =
     (case run_eval_case (env (dl_retries d)) d s of
        (TaskRetry exc, s') \<Rightarrow>
          if dl_retries d < max_retries then drive env (d\<lparr>dl_retries := Suc (dl_retries d)\<rparr>) s'
          else (TaskRetry exc, s')
      | (r, s') \<Rightarrow> (r, s'))"
  by pat_completeness auto

termination by (relation "measure (\<lambda>(_, d, _). max_retries - dl_retries d)") auto

declare drive.simps [simp del]

fun drive_all :: "(string \<Rightarrow> nat \<Rightarrow> service_env) \<Rightarrow> (signature \<Rightarrow> string) \<Rightarrow> signature list \<Rightarrow> db \<Rightarrow> db" where
  "drive_all env task_id [] s = s"
| "drive_all env task_id (sg # sgs) s =
     drive_all env task_id sgs (snd (drive (env (sg_item sg)) (delivery_of (task_id sg) sg) s))"

section \<open>Frames\<close>

text \<open>A transaction of one task changes no row but its item's, and no identity.\<close>

definition same_but :: "string \<Rightarrow> item_row \<Rightarrow> item_row \<Rightarrow> bool" where
  "same_but iid a b \<longleftrightarrow> ri_id b = ri_id a \<and> ri_run b = ri_run a \<and> (ri_id a \<noteq> iid \<longrightarrow> b = a)"

definition frame :: "string \<Rightarrow> db \<Rightarrow> db \<Rightarrow> bool" where
  "frame iid s s' \<longleftrightarrow>
     list_all2 (same_but iid) (items s) (items s') \<and> map er_id (runs s') = map er_id (runs s)"

lemma frame_refl [simp]: "frame iid s s"
  by (simp add: frame_def same_but_def list_all2_refl)

lemma frame_trans: "frame iid s s' \<Longrightarrow> frame iid s' s'' \<Longrightarrow> frame iid s s''"
  by (auto simp: frame_def list_all2_conv_all_nth same_but_def)

lemma frame_items:
  "items s' = update_where P f (items s) \<Longrightarrow> map er_id (runs s') = map er_id (runs s) \<Longrightarrow>
   (\<And>i. ri_id (f i) = ri_id i \<and> ri_run (f i) = ri_run i) \<Longrightarrow> (\<And>i. P i \<Longrightarrow> ri_id i = iid) \<Longrightarrow> frame iid s s'"
  by (auto simp: frame_def update_where_def list_all2_conv_all_nth same_but_def)

lemma frame_refresh: "frame iid s (refresh_run_progress rid s)"
  unfolding frame_def refresh_run_progress_def
  by (auto simp: same_but_def list_all2_refl intro!: map_id_update_where)

lemma frame_clear [simp]: "frame iid s (clear_stale_data jid s)"
  by (simp add: frame_def clear_stale_data_def same_but_def list_all2_refl)

lemma frame_claim: "claim_run_item t iid k n s = (b, s') \<Longrightarrow> frame iid s s'"
  by (rule frame_items [of _ "\<lambda>i. ri_id i = iid \<and> claimable t k i" "claimed_row t k n"])
    (auto simp: claim_run_item_def Let_def)

lemma frame_commit:
  assumes "commit_completed t iid v c out rs s = Inr s'"
  shows "frame iid s s'"
proof -
  from assms obtain l cost where
    "items s' = update_where (\<lambda>i. ri_id i = iid) (completed_row t l cost) (items s)" "runs s' = runs s"
    by (auto simp: commit_completed_def and_then_Inr_iff split: if_splits)
  then show ?thesis by (intro frame_items [of _ "\<lambda>i. ri_id i = iid" "completed_row t l cost"]) auto
qed

lemma frame_failure: "frame iid s (commit_failure t exc iid n s)"
proof -
  have "frame iid s (s\<lparr>items := update_where (\<lambda>x. ri_id x = iid) (errored_row t exc (n + 1)) (items s)\<rparr>)"
    by (rule frame_items [of _ "\<lambda>x. ri_id x = iid" "errored_row t exc (n + 1)"]) simp_all
  then show ?thesis
    by (auto simp: commit_failure_def intro: frame_trans frame_refresh split: option.splits)
qed

lemma frame_on_error: "on_error E d exc s = (r, s') \<Longrightarrow> frame (dl_item d) s s'"
  by (auto simp: on_error_def frame_failure split: if_splits)


lemma frame_run_eval_case:
  assumes "run_eval_case E d s = (r, s')"
  shows "frame (dl_item d) s s'"
proof (cases "item_by_id s (dl_item d)")
  case None
  with assms show ?thesis by (auto simp: run_eval_case_def intro: frame_on_error)
next
  case (Some i)
  note run = assms [unfolded run_eval_case_def Some option.case]
  show ?thesis
  proof (cases "terminal (ri_status i)")
    case True
    with run show ?thesis by simp
  next
    case False
    obtain b s1 where claim:
      "claim_run_item (now E) (dl_item d) (task_id_of d) (dl_retries d + 1) s = (b, s1)" by fastforce
    note run = run [unfolded claim, simplified False, simplified]
    have f1: "frame (dl_item d) s s1" by (rule frame_claim [OF claim])
    have "frame (dl_item d) s1 s'"
    proof (cases "b \<and> is_ok (load_entities d s1)")
      case False
      with run show ?thesis
        by (cases b; cases "load_entities d s1") (auto intro: frame_on_error)
    next
      case True
      then obtain c v ec where ents: "load_entities d s1 = Inr (c, v, ec)"
        by (cases "load_entities d s1") auto
      define s2 where "s2 = (if 0 < dl_retries d then clear_stale_data (dl_item d) s1 else s1)"
      have f2: "frame (dl_item d) s1 s2" by (simp add: s2_def)
      note run = run [simplified True ents, simplified, folded s2_def [simplified], unfolded Let_def]
      have "frame (dl_item d) s2 s'"
      proof (cases "and_then (evaluate_item E c v ec) (\<lambda>(out, rs).
          and_then (commit_completed (now E) (dl_item d) v c out rs s2) (\<lambda>s3. Inr (out, rs, s3)))")
        case (Inl exc)
        with run True show ?thesis by (auto simp: s2_def intro: frame_on_error)
      next
        case (Inr x)
        obtain out rs s3 where x: "x = (out, rs, s3)" by (cases x)
        from Inr x have "commit_completed (now E) (dl_item d) v c out rs s2 = Inr s3"
          by (auto simp: and_then_Inr_iff split: prod.splits)
        then have "frame (dl_item d) s2 s3" by (rule frame_commit)
        moreover from run Inr x True have "s' = refresh_run_progress (ri_run i) s3" by (auto simp: s2_def)
        ultimately show ?thesis using frame_trans frame_refresh by blast
      qed
      with f2 show ?thesis by (rule frame_trans)
    qed
    with f1 show ?thesis by (rule frame_trans)
  qed
qed

lemma frame_drive: "drive env d s = (r, s') \<Longrightarrow> frame (dl_item d) s s'"
proof (induction env d s arbitrary: r s' rule: drive.induct)
  case (1 env d s)
  obtain r1 s1 where one: "run_eval_case (env (dl_retries d)) d s = (r1, s1)" by fastforce
  note f = frame_run_eval_case [OF one]
  show ?case
  proof (cases "\<exists>exc. r1 = TaskRetry exc \<and> dl_retries d < max_retries")
    case True
    then obtain exc where "r1 = TaskRetry exc" "dl_retries d < max_retries" by blast
    with 1 one f show ?thesis by (auto simp: drive.simps [of env d s] intro: frame_trans)
  next
    case False
    with 1(2) one f show ?thesis by (cases r1) (auto simp: drive.simps [of env d s])
  qed
qed

lemma frame_item:
  assumes "frame iid s s'" and "distinct (map ri_id (items s))" and "jid \<noteq> iid"
  shows "item_by_id s' jid = item_by_id s jid"
proof -
  have "find (\<lambda>i. ri_id i = jid) ys = find (\<lambda>i. ri_id i = jid) xs" if "list_all2 (same_but iid) xs ys" for xs ys
    using that assms(3) by (induction xs ys rule: list_all2_induct) (auto simp: same_but_def)
  with assms(1) show ?thesis by (simp add: frame_def item_by_id_def)
qed

lemma frame_ids: "frame iid s s' \<Longrightarrow> map ri_id (items s') = map ri_id (items s) \<and>
    map ri_run (items s') = map ri_run (items s) \<and> map er_id (runs s') = map er_id (runs s)"
  unfolding frame_def same_but_def by (auto simp: list_eq_iff_nth_eq list_all2_conv_all_nth)

section \<open>A task settles its item\<close>

lemma task_id_retry [simp]: "task_id_of (d\<lparr>dl_retries := n\<rparr>) = task_id_of d"
  by (simp add: task_id_of_def split: option.split)

lemma claimed_is_claimable: "ri_task i = Some k \<Longrightarrow> ri_status i = ItemRunning \<Longrightarrow> claimable t k i"
  by (simp add: claimable_def)


lemma awaiting_claimable:
  assumes "awaiting_retry d s"
  obtains i where "item_by_id s (dl_item d) = Some i" "\<not> terminal (ri_status i)"
    "\<And>t. claimable t (task_id_of d) i"
  using assms that by (auto simp: awaiting_retry_def claimable_def terminal_def split: option.splits)

text \<open>
  A task whose item it may claim ends with the item terminal: after at most \<open>max_retries\<close> redeliveries
  it no longer asks for a retry.
\<close>

lemma drive_settles:
  assumes "distinct (map ri_id (items s))" and "item_by_id s (dl_item d) = Some i"
    and "\<not> terminal (ri_status i)" and "\<And>t. claimable t (task_id_of d) i"
    and "drive env d s = (r, s')"
  shows "\<exists>j. item_by_id s' (dl_item d) = Some j \<and> ri_status j \<in> {ItemCompleted, ItemErrored}"
  using assms
proof (induction env d s arbitrary: i r s' rule: drive.induct)
  case (1 env d s)
  obtain r1 s1 where one: "run_eval_case (env (dl_retries d)) d s = (r1, s1)" by fastforce
  note out = claimed_delivery [OF 1(3,2) one 1(4) 1(5)]
  have go: "(\<exists>exc. r1 = TaskRetry exc \<and> dl_retries d < max_retries \<and> awaiting_retry d s1) \<or>
      (\<exists>msg. r1 = TaskErrored (dl_item d) msg \<and> settled_as ItemErrored (Some msg) d s1) \<or>
      (\<exists>ms n. r1 = TaskCompleted (dl_item d) ms n \<and> settled_as ItemCompleted None d s1)"
    using out by auto
  show ?case
  proof (cases "\<exists>exc. r1 = TaskRetry exc")
    case True
    with go obtain exc where r: "r1 = TaskRetry exc" "dl_retries d < max_retries" "awaiting_retry d s1" by auto
    from r(3) obtain j where j: "item_by_id s1 (dl_item d) = Some j" "\<not> terminal (ri_status j)"
      "\<And>t. claimable t (task_id_of d) j" using awaiting_claimable by blast
    have "distinct (map ri_id (items s1))" using frame_ids [OF frame_run_eval_case [OF one]] 1(2) by simp
    from 1(1) [OF one [symmetric] r(1) r(2) this] j 1(6) one r show ?thesis
      by (simp add: drive.simps [of env d s])
  next
    case False
    with 1(6) one have "s' = s1" by (cases r1) (auto simp: drive.simps [of env d s])
    with go False show ?thesis by (auto simp: settled_as_def split: option.splits)
  qed
qed


lemma drive_all_settles:
  assumes "distinct (map ri_id (items s))" and "distinct (map sg_item sgs)"
    and "\<And>sg. sg \<in> set sgs \<Longrightarrow> \<exists>i. item_by_id s (sg_item sg) = Some i \<and> ri_status i = Queued"
    and "drive_all env task_id sgs s = s'"
  shows "map ri_id (items s') = map ri_id (items s) \<and> map ri_run (items s') = map ri_run (items s) \<and>
    map er_id (runs s') = map er_id (runs s) \<and>
    (\<forall>jid. jid \<notin> sg_item ` set sgs \<longrightarrow> item_by_id s' jid = item_by_id s jid) \<and>
    (\<forall>sg \<in> set sgs. \<exists>j. item_by_id s' (sg_item sg) = Some j \<and> terminal (ri_status j))"
  using assms
proof (induction sgs arbitrary: s)
  case (Cons sg sgs)
  let ?d = "delivery_of (task_id sg) sg"
  obtain r s1 where d: "drive (env (sg_item sg)) ?d s = (r, s1)" by fastforce
  have item: "dl_item ?d = sg_item sg" by (simp add: delivery_of_def)
  from Cons.prems(3) [of sg] obtain i where i: "item_by_id s (sg_item sg) = Some i" "ri_status i = Queued"
    by auto
  obtain j where j: "item_by_id s1 (sg_item sg) = Some j" "terminal (ri_status j)"
    using drive_settles [OF Cons.prems(1) i(1) [folded item] _ _ d] i(2) item
    by (auto simp: terminal_def claimable_def)
  note f = frame_drive [OF d, unfolded item]
  note ids = frame_ids [OF f]
  have other: "item_by_id s1 jid = item_by_id s jid" if "jid \<noteq> sg_item sg" for jid
    using frame_item [OF f Cons.prems(1) that] .
  have "\<exists>i. item_by_id s1 (sg_item x) = Some i \<and> ri_status i = Queued" if "x \<in> set sgs" for x
  proof -
    have "sg_item x \<noteq> sg_item sg" using Cons.prems(2) that by (metis distinct.simps(2) image_eqI list.simps(9) set_map)
    then show ?thesis using other Cons.prems(3) [of x] that by simp
  qed
  with Cons.IH [of s1] Cons.prems d ids
  have ih: "map ri_id (items s') = map ri_id (items s1) \<and> map ri_run (items s') = map ri_run (items s1) \<and>
    map er_id (runs s') = map er_id (runs s1) \<and>
    (\<forall>jid. jid \<notin> sg_item ` set sgs \<longrightarrow> item_by_id s' jid = item_by_id s1 jid) \<and>
    (\<forall>sg \<in> set sgs. \<exists>j. item_by_id s' (sg_item sg) = Some j \<and> terminal (ri_status j))"
    by simp
  have "sg_item sg \<notin> sg_item ` set sgs" using Cons.prems(2) by simp
  with ih j have "\<exists>j. item_by_id s' (sg_item sg) = Some j \<and> terminal (ri_status j)" by simp
  with ih ids other show ?case by simp
qed simp

section \<open>Dispatched runs\<close>

lemma dispatch_run_Inr:
  assumes "dispatch_run E submit vid sid cid ids org s = (Inr run, s')"
  shows "er_id run = uuid E 0 \<and> er_status run = RunRunning \<and>
    er_case_count run = length (load_suite_cases s sid ids) \<and>
    s' = s\<lparr>runs := runs s @ [run], items := items s @ queued_items E (load_suite_cases s sid ids)\<rparr> \<and>
    validate_selected_cases (load_suite_cases s sid ids) ids = Inr ()"
proof -
  from assms obtain version suite config where
    ents: "tenant_version s org vid = Some version" "tenant_suite s org sid = Some suite"
    "tenant_config s org cid = Some config"
    by (auto simp: dispatch_run_def split: option.splits)
  note run = assms [unfolded dispatch_run_def ents, simplified]
  have app: "av_app version = es_app suite" using run by (auto split: if_splits)
  note run = run [simplified app, simplified, unfolded Let_def]
  have sel: "validate_selected_cases (load_suite_cases s sid ids) ids = Inr ()"
    using run by (auto split: sum.splits)
  note run = run [unfolded sel, simplified]
  from run show ?thesis using sel by (auto split: if_splits)
qed

lemma queued_items_facts:
  "map ri_id (queued_items E cases) = map (\<lambda>k. uuid E (Suc k)) [0..<length cases]"
  "map ri_case (queued_items E cases) = map ec_id cases"
  "length (queued_items E cases) = length cases"
  "i \<in> set (queued_items E cases) \<Longrightarrow> ri_run i = uuid E 0 \<and> ri_status i = Queued"
  by (auto simp: queued_items_def queued_item_def intro!: nth_equalityI)

lemma dispatched_items_settle:
  assumes disp: "dispatch_run E submit vid sid cid ids org s = (Inr run, s1)"
    and ids: "distinct (map ri_id (items s) @ map (\<lambda>k. uuid E (Suc k)) [0..<er_case_count run])"
    and fresh: "uuid E 0 \<notin> ri_run ` set (items s)"
    and s2: "s2 = drive_all env task_id
           (map (task_signature vid cid) (queued_items E (load_suite_cases s sid ids))) s1"
  shows "(\<forall>x \<in> set (items s2). ri_run x = uuid E 0 \<longrightarrow> terminal (ri_status x)) \<and>
    map ri_run (items s2) = map ri_run (items s @ queued_items E (load_suite_cases s sid ids)) \<and>
    map er_id (runs s2) = map er_id (runs s @ [run])"
proof -
  let ?cases = "load_suite_cases s sid ids" and ?rid = "uuid E 0"
  let ?new = "queued_items E ?cases"
  let ?sgs = "map (task_signature vid cid) ?new"
  note d = dispatch_run_Inr [OF disp]
  have s1: "items s1 = items s @ ?new" "runs s1 = runs s @ [run]" and rid: "er_id run = ?rid"
    and count: "er_case_count run = length ?cases" using d by simp_all
  have dist: "distinct (map ri_id (items s1))"
    using ids by (simp add: s1 queued_items_facts(1) count)
  have sg: "map sg_item ?sgs = map ri_id ?new" by (simp add: task_signature_def)
  have "distinct (map sg_item ?sgs)" unfolding sg using dist by (simp add: s1)
  moreover have "\<exists>i. item_by_id s1 (sg_item x) = Some i \<and> ri_status i = Queued" if "x \<in> set ?sgs" for x
  proof -
    from that obtain i where "i \<in> set ?new" "sg_item x = ri_id i" by (auto simp: task_signature_def)
    with item_by_id_unique [OF dist, of i] queued_items_facts(4) show ?thesis by (auto simp: s1)
  qed
  ultimately have all: "map ri_id (items s2) = map ri_id (items s1)" "map ri_run (items s2) = map ri_run (items s1)"
    "map er_id (runs s2) = map er_id (runs s1)"
    "\<And>x. x \<in> set ?sgs \<Longrightarrow> \<exists>j. item_by_id s2 (sg_item x) = Some j \<and> terminal (ri_status j)"
    using drive_all_settles [OF dist _ _ s2 [symmetric]] by auto
  have settled: "terminal (ri_status x)" if x: "x \<in> set (items s2)" "ri_run x = ?rid" for x
  proof -
    from x(1) obtain n where n: "n < length (items s2)" "x = items s2 ! n" by (auto simp: in_set_conv_nth)
    have len: "length (items s2) = length (items s1)" using all(1) by (metis length_map)
    have "ri_id (items s1 ! n) = ri_id x" "ri_run (items s1 ! n) = ri_run x"
      using all(1,2) n len by (metis nth_map)+
    moreover have "items s1 ! n \<in> set (items s1)" using n len by simp
    ultimately have "\<exists>i \<in> set ?new. ri_id i = ri_id x" using x(2) fresh unfolding s1 by force
    then obtain i where "i \<in> set ?new" "ri_id i = ri_id x" by blast
    then have "task_signature vid cid i \<in> set ?sgs" "sg_item (task_signature vid cid i) = ri_id x"
      by (auto simp: task_signature_def [of vid cid i, symmetric]) (simp add: task_signature_def)
    with all(4) obtain j where "item_by_id s2 (ri_id x) = Some j" "terminal (ri_status j)" by metis
    moreover have "item_by_id s2 (ri_id x) = Some x" using item_by_id_unique [OF _ x(1)] all(1) dist by simp
    ultimately show ?thesis by simp
  qed
  with all(2,3) show ?thesis by (simp add: s1)
qed

text \<open>
  C4: a dispatched run always finishes: when the queue has driven every task of a run with fresh ids to
  its last attempt, whatever the adapters and evaluators did, every item is settled and the callback
  finalises the run, with counters that add up to its cases.
\<close>

theorem dispatched_run_completes:
  assumes "dispatch_run E submit vid sid cid ids org s = (Inr run, s1)"
    and "distinct (map ri_id (items s) @ map (\<lambda>k. uuid E (Suc k)) [0..<er_case_count run])"
    and "uuid E 0 \<notin> ri_run ` set (items s)" and "0 < er_case_count run"
    and "s2 = drive_all env task_id
           (map (task_signature vid cid) (queued_items E (load_suite_cases s sid ids))) s1"
  shows "\<exists>good bad s3. good + bad = er_case_count run \<and>
    check_run_completion t None (Some (er_id run)) s2 =
      (Finalized (if bad = 0 then RunCompleted else RunPartial) good bad, s3) \<and>
    (\<exists>r \<in> set (runs s3). er_id r = er_id run \<and> er_status r = (if bad = 0 then RunCompleted else RunPartial) \<and>
       er_case_completed r = good \<and> er_case_errored r = bad \<and> er_completed_at r = Some t)"
proof -
  let ?rid = "uuid E 0" and ?new = "queued_items E (load_suite_cases s sid ids)"
  note d = dispatch_run_Inr [OF assms(1)]
  note settled = dispatched_items_settle [OF assms(1,2,3,5)]
  have "count_items s2 ?rid (\<lambda>_. True) = length (filter (\<lambda>r. r = ?rid) (map ri_run (items s2)))"
    by (simp add: count_items_def filter_map comp_def)
  also have "\<dots> = length ?new"
  proof -
    have "filter (\<lambda>r. r = ?rid) (map ri_run (items s)) = []" using assms(3) by (force simp: filter_empty_conv)
    moreover have "filter (\<lambda>r. r = ?rid) (map ri_run ?new) = map ri_run ?new"
      using queued_items_facts(4) by (fastforce simp: filter_id_conv)
    ultimately show ?thesis using settled by simp
  qed
  finally have total: "count_items s2 ?rid (\<lambda>_. True) = er_case_count run" using d by (simp add: queued_items_facts(3))
  have open0: "count_items s2 ?rid (\<lambda>st. \<not> terminal st) = 0"
    unfolding count_items_zero using settled by blast
  define good where "good = count_items s2 ?rid (\<lambda>st. st = ItemCompleted)"
  have le: "good \<le> er_case_count run" using count_items_split [of s2 ?rid] total by (simp add: good_def)
  have present: "er_id run \<in> er_id ` set (runs s2)"
    using arg_cong [OF settled [THEN conjunct2, THEN conjunct2], of set] by auto
  define n where "n = er_case_count run"
  obtain c s3 where c: "check_run_completion t None (Some ?rid) s2 = (c, s3)" by fastforce
  have n: "0 < n" "good \<le> n" "count_items s2 ?rid (\<lambda>_. True) = n" using assms(4) le total by (simp_all add: n_def)
  have status: "(good = n) = (n - good = 0)" using n(2) by auto
  from check_run_completion_exact [of t None ?rid s2] n open0
  have fin: "c = Finalized (if n - good = 0 then RunCompleted else RunPartial) good (n - good)"
    "runs s3 = map (\<lambda>r. if er_id r = ?rid
        then r\<lparr>er_status := (if n - good = 0 then RunCompleted else RunPartial), er_case_completed := good,
               er_case_errored := n - good, er_completed_at := Some t\<rparr> else r) (runs s2)"
    unfolding c good_def [symmetric] Let_def n(3) status by simp_all
  from present obtain r where "r \<in> set (runs s2)" "er_id r = ?rid" using d by auto
  then have "r\<lparr>er_status := (if n - good = 0 then RunCompleted else RunPartial), er_case_completed := good,
               er_case_errored := n - good, er_completed_at := Some t\<rparr> \<in> set (runs s3)"
    unfolding fin(2) by (force intro: rev_image_eqI)
  with c fin(1) n d \<open>er_id r = ?rid\<close> show ?thesis
    by (intro exI [of _ good] exI [of _ "n - good"] exI [of _ s3])
      (auto simp: n_def intro!: bexI [of _ "r\<lparr>er_status := (if n - good = 0 then RunCompleted else RunPartial),
         er_case_completed := good, er_case_errored := n - good, er_completed_at := Some t\<rparr>"])
qed

lemma dispatch_run_Inl:
  assumes "dispatch_run E submit vid sid cid ids org s = (Inl exc, s')"
  shows "s' = s \<and> exn_kind_of exc \<noteq> DispatchErr \<or>
    (\<exists>run. exn_kind_of exc = DispatchErr \<and> er_id run = uuid E 0 \<and>
       map (undispatched_item (now E)) (queued_items E (load_suite_cases s sid ids)) \<noteq> [] \<and>
       er_case_count run = length (load_suite_cases s sid ids) \<and>
       s' = s\<lparr>runs := runs s @ [failed_run (now E) (length (load_suite_cases s sid ids)) run],
              items := items s @ map (undispatched_item (now E)) (queued_items E (load_suite_cases s sid ids))\<rparr>)"
proof (cases "tenant_version s org vid = None \<or> tenant_suite s org sid = None \<or> tenant_config s org cid = None")
  case True
  with assms show ?thesis by (auto simp: dispatch_run_def split: option.splits)
next
  case False
  then obtain version suite config where
    ents: "tenant_version s org vid = Some version" "tenant_suite s org sid = Some suite"
    "tenant_config s org cid = Some config" by auto
  note run = assms [unfolded dispatch_run_def ents, simplified]
  show ?thesis
  proof (cases "av_app version = es_app suite")
    case False
    with run show ?thesis by auto
  next
    case app: True
    note run = run [simplified app, simplified, unfolded Let_def]
    show ?thesis
    proof (cases "validate_selected_cases (load_suite_cases s sid ids) ids")
      case (Inl e)
      then have "exn_kind_of e = InvalidRunErr"
        by (auto simp: validate_selected_cases_def Let_def split: option.splits if_splits)
      with Inl run show ?thesis by auto
    next
      case (Inr u)
      note run = run [unfolded Inr sum.case]
      let ?run = "\<lparr>er_id = uuid E 0, er_org = org, er_version = vid, er_suite = sid, er_config = cid,
        er_status = RunRunning, er_started = Some (now E), er_completed_at = None,
        er_case_count = length (load_suite_cases s sid ids), er_case_completed = 0, er_case_errored = 0,
        er_created = now E\<rparr>"
      from run show ?thesis
        by (intro disjI2 exI [of _ ?run]) (auto split: if_splits)
    qed
  qed
qed

text \<open>
  C32: a request that is not dispatched leaves nothing open: it is refused without a write, or, when the
  queue rejects the chord, the run is stored as failed with every item errored and counted.
\<close>

theorem dispatch_failure_leaves_nothing_open:
  assumes "dispatch_run E submit vid sid cid ids org s = (Inl exc, s')"
  shows "if exn_kind_of exc = DispatchErr
    then (\<exists>run new. s' = s\<lparr>runs := runs s @ [run], items := items s @ new\<rparr> \<and> new \<noteq> [] \<and>
            er_status run = RunFailed \<and> er_completed_at run = Some (now E) \<and>
            er_case_errored run = length new \<and> er_case_count run = length new \<and>
            list_all (\<lambda>i. ri_run i = er_id run \<and> ri_status i = ItemErrored \<and> ri_completed i = Some (now E)) new)
    else s' = s"
proof -
  let ?new = "map (undispatched_item (now E)) (queued_items E (load_suite_cases s sid ids))"
  consider "s' = s" "exn_kind_of exc \<noteq> DispatchErr"
    | run where "exn_kind_of exc = DispatchErr" "er_id run = uuid E 0" "?new \<noteq> []"
      "er_case_count run = length (load_suite_cases s sid ids)"
      "s' = s\<lparr>runs := runs s @ [failed_run (now E) (length (load_suite_cases s sid ids)) run],
             items := items s @ ?new\<rparr>"
    using dispatch_run_Inl [OF assms] by blast
  then show ?thesis
  proof cases
    case (2 run)
    have "list_all (\<lambda>i. ri_run i = uuid E 0 \<and> ri_status i = ItemErrored \<and> ri_completed i = Some (now E)) ?new"
      using queued_items_facts(4) by (auto simp: list_all_iff undispatched_item_def)
    with 2 show ?thesis
      by (intro iffD2 [OF if_P [OF 2(1)]] exI [of _ "failed_run (now E) (length (load_suite_cases s sid ids)) run"]
          exI [of _ ?new]) (simp add: failed_run_def queued_items_facts(3))
  qed simp
qed

text \<open>
  an empty selection of cases passes validation, and the run it creates is \<open>running\<close> for ever: it
  has no items, no task is submitted, so no callback is called, and a callback would not finish it.
\<close>

theorem empty_dispatch_never_completes:
  assumes "dispatch_run E submit vid sid cid (Some []) org s = (Inr run, s')"
    and "uuid E 0 \<notin> ri_run ` set (items s)"
  shows "er_status run = RunRunning \<and> er_case_count run = 0 \<and> items s' = items s \<and>
    check_run_completion t None (Some (er_id run)) s' = (CompletionUnknown, s')"
proof -
  note d = dispatch_run_Inr [OF assms(1)]
  have none: "load_suite_cases s sid (Some []) = []" by (simp add: load_suite_cases_def)
  have "count_items s' (er_id run) (\<lambda>_. True) = 0"
    using d assms(2) by (force simp: none queued_items_def count_items_def filter_empty_conv)
  with d show ?thesis
    by (simp add: none queued_items_def check_run_completion_def callback_run_id_def)
qed

section \<open>Witnesses\<close>

lemma sample_entities:
  "tenant_version sample_db ''org'' ''v'' = Some (hd (versions sample_db))"
  "tenant_suite sample_db ''org'' ''su'' = Some (hd (suites sample_db))"
  "tenant_config sample_db ''org'' ''cf'' = Some sample_config"
  "av_app (hd (versions sample_db)) = es_app (hd (suites sample_db))"
  by (simp_all add: tenant_version_def tenant_suite_def tenant_config_def app_in_org_def sample_db_def
      sample_config_def)

lemma sample_dispatch:
  "\<exists>run s'. dispatch_run sample_env (\<lambda>_ _. Inr ()) ''v'' ''su'' ''cf'' None ''org'' sample_db = (Inr run, s') \<and>
     er_case_count run = 1"
  by (simp add: dispatch_run_def sample_entities sample_cases validate_selected_cases_def Let_def)
    (simp add: sample_db_def)

lemma sample_dispatch_empty:
  "\<exists>run s'. dispatch_run sample_env (\<lambda>_ _. Inr ()) ''v'' ''su'' ''cf'' (Some []) ''org'' sample_db = (Inr run, s')"
  by (simp add: dispatch_run_def sample_entities load_suite_cases_def validate_selected_cases_def Let_def)

lemma sample_dispatch_rejected:
  "\<exists>s'. dispatch_run sample_env (\<lambda>_ _. Inl (Exn RuntimeErr ''redis'')) ''v'' ''su'' ''cf'' None ''org''
     sample_db = (Inl (Exn DispatchErr ''Run 0 could not be dispatched''), s')"
proof -
  have "eval_cases sample_db \<noteq> []" by (simp add: sample_db_def)
  moreover have "uuid sample_env 0 = ''0''" by (simp add: sample_env_def) code_simp
  ultimately show ?thesis
    by (simp add: dispatch_run_def sample_entities sample_cases validate_selected_cases_def Let_def
        queued_items_def)
qed

theorem dispatched_run_completes_witness:
  "\<exists>run s1 good bad s3. dispatch_run sample_env (\<lambda>_ _. Inr ()) ''v'' ''su'' ''cf'' None ''org'' sample_db =
     (Inr run, s1) \<and> good + bad = 1 \<and>
     check_run_completion 9 None (Some (er_id run)) (drive_all (\<lambda>_ _. sample_env) sg_item
       (map (task_signature ''v'' ''cf'') (queued_items sample_env (load_suite_cases sample_db ''su'' None))) s1) =
     (Finalized (if bad = 0 then RunCompleted else RunPartial) good bad, s3)"
proof -
  from sample_dispatch obtain run s1 where
    d: "dispatch_run sample_env (\<lambda>_ _. Inr ()) ''v'' ''su'' ''cf'' None ''org'' sample_db = (Inr run, s1)"
    "er_case_count run = 1" by blast
  have "distinct (map ri_id (items sample_db) @ map (\<lambda>k. uuid sample_env (Suc k)) [0..<er_case_count run])"
    and "uuid sample_env 0 \<notin> ri_run ` set (items sample_db)" and "0 < er_case_count run"
    by (simp_all add: d(2) sample_db_rows)
  from dispatched_run_completes [OF d(1) this refl, of 9 "\<lambda>_ _. sample_env" sg_item]
  obtain good bad s3 where "good + bad = er_case_count run"
    "check_run_completion 9 None (Some (er_id run)) (drive_all (\<lambda>_ _. sample_env) sg_item
       (map (task_signature ''v'' ''cf'') (queued_items sample_env (load_suite_cases sample_db ''su'' None))) s1) =
     (Finalized (if bad = 0 then RunCompleted else RunPartial) good bad, s3)" by blast
  with d show ?thesis
    by (intro exI [of _ run] exI [of _ s1] exI [of _ good] exI [of _ bad] exI [of _ s3]) simp
qed

theorem dispatch_failure_leaves_nothing_open_witness:
  "\<exists>s' run. dispatch_run sample_env (\<lambda>_ _. Inl (Exn RuntimeErr ''redis'')) ''v'' ''su'' ''cf'' None ''org''
     sample_db = (Inl (Exn DispatchErr ''Run 0 could not be dispatched''), s') \<and>
     runs s' = runs sample_db @ [run] \<and> er_status run = RunFailed"
proof -
  from sample_dispatch_rejected obtain s' where
    d: "dispatch_run sample_env (\<lambda>_ _. Inl (Exn RuntimeErr ''redis'')) ''v'' ''su'' ''cf'' None ''org''
     sample_db = (Inl (Exn DispatchErr ''Run 0 could not be dispatched''), s')" by blast
  from dispatch_failure_leaves_nothing_open [OF d] d show ?thesis by auto
qed

theorem empty_dispatch_never_completes_witness:
  "\<exists>run s'. dispatch_run sample_env (\<lambda>_ _. Inr ()) ''v'' ''su'' ''cf'' (Some []) ''org'' sample_db = (Inr run, s') \<and>
     er_status run = RunRunning \<and> check_run_completion 9 None (Some (er_id run)) s' = (CompletionUnknown, s')"
proof -
  from sample_dispatch_empty obtain run s' where
    d: "dispatch_run sample_env (\<lambda>_ _. Inr ()) ''v'' ''su'' ''cf'' (Some []) ''org'' sample_db = (Inr run, s')"
    by blast
  have "uuid sample_env 0 \<notin> ri_run ` set (items sample_db)" by (simp add: sample_db_rows)
  from empty_dispatch_never_completes [OF d this, of 9] d show ?thesis by blast
qed

end
