(* ===== verification/Credentials.thy ===== *)
theory Credentials imports Backend_Settings Entities "HOL-Library.Word" begin

text \<open>
  \<open>backend/app/services/authentication.py\<close>: the text form of salts and digests (base64 with the URL
  alphabet, without padding), password hashes, opaque tokens and expiry; and the normalisers of
  \<open>backend/app/schemas/auth.py\<close>. scrypt, the keyed BLAKE2b of a token and the operating system's
  random bytes are fields of the environment.
\<close>

type_synonym byte = "8 word"

record credential_env =
  ce_now :: int
  ce_conf :: settings
  ce_uuid :: "nat \<Rightarrow> string"
  ce_random :: "nat \<Rightarrow> byte list"
  ce_scrypt :: "string \<Rightarrow> byte list \<Rightarrow> int \<Rightarrow> int \<Rightarrow> int \<Rightarrow> nat \<Rightarrow> byte list res"
  ce_blake2b :: "string \<Rightarrow> string \<Rightarrow> string"
  ce_dummy_hash :: string

section \<open>Base64 with the URL alphabet\<close>

definition b64_alphabet :: string where
  "b64_alphabet = ''ABCDEFGHIJKLMNOPQRSTUVWXYZabcdefghijklmnopqrstuvwxyz0123456789-_''"

fun sextets :: "byte list \<Rightarrow> nat list" where
  "sextets [] = []"
| "sextets [a] = [unat a div 4, unat a mod 4 * 16]"
| "sextets [a, b] = [unat a div 4, unat a mod 4 * 16 + unat b div 16, unat b mod 16 * 4]"
| "sextets (a # b # c # rest) =
     unat a div 4 # (unat a mod 4 * 16 + unat b div 16) # (unat b mod 16 * 4 + unat c div 64) #
     unat c mod 64 # sextets rest"

definition b64_padding :: "nat \<Rightarrow> string" where
  "b64_padding n = replicate (if n mod 4 = 0 then 0 else 4 - n mod 4) (CHR ''='')"

definition urlsafe_b64encode :: "byte list \<Rightarrow> string" where
  "urlsafe_b64encode bs =
     map (\<lambda>v. b64_alphabet ! v) (sextets bs) @ b64_padding (length (sextets bs))"

definition b64_value :: "char \<Rightarrow> nat option" where
  "b64_value c =
     (let n = code_point c in
      if 65 \<le> n \<and> n \<le> 90 then Some (n - 65)
      else if 97 \<le> n \<and> n \<le> 122 then Some (n - 71)
      else if 48 \<le> n \<and> n \<le> 57 then Some (n + 4)
      else if c = CHR ''-'' \<or> c = CHR ''+'' then Some 62
      else if c = CHR ''_'' \<or> c = CHR ''/'' then Some 63
      else None)"

text \<open>
  The decoder of the standard library, which is not strict: characters outside the alphabet are
  skipped, and input after a complete padding is ignored. Its state is the position in a group of four,
  the bits left over and the number of padding characters seen.
\<close>

fun b64_scan :: "nat \<Rightarrow> nat \<Rightarrow> nat \<Rightarrow> string \<Rightarrow> byte list res" where
  "b64_scan pos left pads [] =
     (if pos = 0 then Inr [] else Inl (Exn ValueErr ''Incorrect padding''))"
| "b64_scan pos left pads (c # cs) =
     (if c = CHR ''='' then
        if 2 \<le> pos \<and> 4 \<le> pos + Suc pads then Inr []
        else b64_scan pos left (if 2 \<le> pos then Suc pads else pads) cs
      else
        (case b64_value c of
           None \<Rightarrow> b64_scan pos left pads cs
         | Some v \<Rightarrow>
             if pos = 0 then b64_scan 1 v 0 cs
             else if pos = 1 then
               and_then (b64_scan 2 (v mod 16) 0 cs) (\<lambda>bs. Inr (word_of_nat (left * 4 + v div 16) # bs))
             else if pos = 2 then
               and_then (b64_scan 3 (v mod 4) 0 cs) (\<lambda>bs. Inr (word_of_nat (left * 16 + v div 4) # bs))
             else and_then (b64_scan 0 0 0 cs) (\<lambda>bs. Inr (word_of_nat (left * 64 + v) # bs))))"

definition urlsafe_b64decode :: "string \<Rightarrow> byte list res" where
  "urlsafe_b64decode s =
     (if list_all (\<lambda>c. code_point c < 128) s then b64_scan 0 0 0 s
      else Inl (Exn ValueErr ''string argument should contain only ASCII characters''))"

definition encode_bytes :: "byte list \<Rightarrow> string" where
  "encode_bytes value = py_rstrip_by (\<lambda>c. c = CHR ''='') (urlsafe_b64encode value)"

definition decode_bytes :: "string \<Rightarrow> byte list res" where
  "decode_bytes value = urlsafe_b64decode (value @ b64_padding (length value))"

section \<open>Passwords\<close>

definition SCRYPT_N :: int where "SCRYPT_N = 2 ^ 14"
definition SCRYPT_R :: int where "SCRYPT_R = 8"
definition SCRYPT_P :: int where "SCRYPT_P = 1"

definition dollar :: char where "dollar = CHR ''$''"

definition hash_password :: "credential_env \<Rightarrow> nat \<Rightarrow> string \<Rightarrow> string res" where
  "hash_password E draw password =
     (let salt = ce_random E draw in
      and_then (ce_scrypt E password salt SCRYPT_N SCRYPT_R SCRYPT_P 32) (\<lambda>digest.
      Inr (py_join [dollar]
        [''scrypt'', show_nat (nat SCRYPT_N), show_nat (nat SCRYPT_R), show_nat (nat SCRYPT_P),
         encode_bytes salt, encode_bytes digest])))"

definition int_of_text :: "string \<Rightarrow> int res" where
  "int_of_text s =
     (case parse_int s of
        Some i \<Rightarrow> Inr i
      | None \<Rightarrow> Inl (Exn ValueErr (''invalid literal for int() with base 10: '' @ py_repr_str s)))"

definition caught_by_verify :: "exn_kind \<Rightarrow> bool" where
  "caught_by_verify k \<longleftrightarrow> k \<in> {AttrErr, ValueErr, TypeErr}"

definition check_password :: "credential_env \<Rightarrow> string \<Rightarrow> string option \<Rightarrow> bool res" where
  "check_password E password encoded =
     (case encoded of
        None \<Rightarrow> Inl (Exn AttrErr ''NoneType object has no attribute split'')
      | Some text \<Rightarrow>
          (case py_split_max dollar 5 text of
             [algorithm, n, r, p, salt, expected] \<Rightarrow>
               if algorithm \<noteq> ''scrypt'' then Inr False
               else
                 and_then (decode_bytes expected) (\<lambda>expected_digest.
                 and_then (decode_bytes salt) (\<lambda>salt_bytes.
                 and_then (int_of_text n) (\<lambda>n'.
                 and_then (int_of_text r) (\<lambda>r'.
                 and_then (int_of_text p) (\<lambda>p'.
                 and_then (ce_scrypt E password salt_bytes n' r' p' (length expected_digest)) (\<lambda>digest.
                 Inr (digest = expected_digest)))))))
           | _ \<Rightarrow> Inl (Exn ValueErr ''not enough values to unpack'')))"

definition verify_password :: "credential_env \<Rightarrow> string \<Rightarrow> string option \<Rightarrow> bool res" where
  "verify_password E password encoded =
     (case check_password E password encoded of
        Inl exc \<Rightarrow> if caught_by_verify (exn_kind_of exc) then Inr False else Inl exc
      | Inr b \<Rightarrow> Inr b)"

section \<open>Tokens\<close>

definition token_urlsafe :: "credential_env \<Rightarrow> nat \<Rightarrow> string" where
  "token_urlsafe E draw = encode_bytes (ce_random E draw)"

definition hash_token :: "credential_env \<Rightarrow> string \<Rightarrow> string" where
  "hash_token E token = ce_blake2b E (auth_token_pepper (ce_conf E)) token"

definition hours :: "int \<Rightarrow> int" where
  "hours n = n * 3600000000"

definition new_session_token :: "credential_env \<Rightarrow> nat \<Rightarrow> string \<times> string \<times> int" where
  "new_session_token E draw =
     (let token = ''efs_'' @ token_urlsafe E draw;
          expires_at = ce_now E + hours (session_ttl_hours (ce_conf E))
      in (token, hash_token E token, expires_at))"

definition new_api_key :: "credential_env \<Rightarrow> nat \<Rightarrow> string \<times> string \<times> string" where
  "new_api_key E draw =
     (let secret = token_urlsafe E draw;
          key_prefix = take 8 secret;
          token = ''efk_'' @ key_prefix @ ''_'' @ secret
      in (token, key_prefix, hash_token E token))"

definition is_expired :: "int \<Rightarrow> int option \<Rightarrow> bool" where
  "is_expired t value = (case value of None \<Rightarrow> False | Some v \<Rightarrow> v \<le> t)"

section \<open>Normalised identifiers\<close>

text \<open>
  \<open>casefold\<close> on U+0000 to U+00FF: lower case, and \<open>ss\<close> for U+00DF. (U+00B5 folds to a character beyond
  that range and is left alone.)
\<close>

definition py_casefold :: "string \<Rightarrow> string" where
  "py_casefold s = concat (map (\<lambda>c. if code_point c = 223 then ''ss'' else [py_lower_char c]) s)"

definition plain_char :: "char \<Rightarrow> bool" where
  "plain_char c \<longleftrightarrow> c \<noteq> CHR ''@'' \<and> \<not> py_isspace c"

definition email_shape :: "string \<Rightarrow> bool" where
  "email_shape s =
     (case py_partition (CHR ''@'') s of
        (local_part, found, domain) \<Rightarrow>
          found \<and> local_part \<noteq> [] \<and> list_all plain_char local_part \<and> list_all plain_char domain \<and>
          (\<exists>i \<in> set [1..<length domain - 1]. domain ! i = CHR ''.''))"

definition normalize_email :: "string \<Rightarrow> string res" where
  "normalize_email value =
     (let normalized = py_casefold (py_strip value)
      in if email_shape normalized then Inr normalized
         else Inl (Exn ValueErr ''Invalid email address''))"

definition slug_char :: "char \<Rightarrow> bool" where
  "slug_char c \<longleftrightarrow> py_isdigit c \<or> 97 \<le> code_point c \<and> code_point c \<le> 122"

definition slug_shape :: "string \<Rightarrow> bool" where
  "slug_shape s = list_all (\<lambda>part. part \<noteq> [] \<and> list_all slug_char part) (py_split (CHR ''-'') s)"

definition normalize_slug :: "string \<Rightarrow> string res" where
  "normalize_slug value =
     (let normalized = py_lower (py_strip value)
      in if slug_shape normalized then Inr normalized
         else Inl (Exn ValueErr ''Slug must contain lowercase letters, numbers, and single hyphens''))"

definition length_between :: "nat \<Rightarrow> nat \<Rightarrow> string \<Rightarrow> bool" where
  "length_between lo hi s \<longleftrightarrow> lo \<le> length s \<and> length s \<le> hi"


section \<open>Base64 reads back\<close>

lemma alphabet_table:
  "list_all2 (\<lambda>c v. b64_value c = Some v \<and> c \<noteq> CHR ''='' \<and> code_point c < 128) b64_alphabet [0..<64]"
  by (simp add: b64_alphabet_def b64_value_def upt_rec)

lemma alphabet_values:
  assumes "v < 64"
  shows "b64_value (b64_alphabet ! v) = Some v" "b64_alphabet ! v \<noteq> CHR ''=''"
    "code_point (b64_alphabet ! v) < 128"
proof -
  have "length b64_alphabet = 64" using alphabet_table by (auto dest: list_all2_lengthD)
  with list_all2_nthD [OF alphabet_table, of v] assms
  show "b64_value (b64_alphabet ! v) = Some v" "b64_alphabet ! v \<noteq> CHR ''=''"
    "code_point (b64_alphabet ! v) < 128" by simp_all
qed

lemma byte_bounds: "unat (a :: byte) < 256" "unat a div 4 < 64" "unat a div 16 < 16" "unat a div 64 < 4"
proof -
  show "unat a < 256" using unsigned_less [of a, where 'a = nat] by simp
  then show "unat a div 4 < 64" "unat a div 16 < 16" "unat a div 64 < 4" by auto
qed

lemma sextet_bounds:
  "unat (a :: byte) mod 4 * 16 < 64" "unat a mod 4 * 16 + unat (b :: byte) div 16 < 64"
  "unat b mod 16 * 4 < 64" "unat b mod 16 * 4 + unat (c :: byte) div 64 < 64" "unat c mod 64 < 64"
proof -
  have "unat a mod 4 < 4" "unat b mod 16 < 16" by simp_all
  with byte_bounds(3) [of b] byte_bounds(4) [of c]
  show "unat a mod 4 * 16 < 64" "unat a mod 4 * 16 + unat b div 16 < 64"
    "unat b mod 16 * 4 < 64" "unat b mod 16 * 4 + unat c div 64 < 64" "unat c mod 64 < 64" by linarith+
qed

lemma byte_pieces:
  "word_of_nat (unat (a :: byte) div 4 * 4 + (unat a mod 4 * 16 + unat (b :: byte) div 16) div 16) = a"
  "word_of_nat (unat a div 4 * 4 + unat a mod 4 * 16 div 16) = a"
  "word_of_nat ((unat a mod 4 * 16 + unat b div 16) mod 16 * 16 + (unat b mod 16 * 4 + unat (c :: byte) div 64) div 4) = b"
  "word_of_nat ((unat a mod 4 * 16 + unat b div 16) mod 16 * 16 + unat b mod 16 * 4 div 4) = b"
  "word_of_nat ((unat b mod 16 * 4 + unat c div 64) mod 4 * 64 + unat c mod 64) = c"
proof -
  have "(unat a mod 4 * 16 + unat b div 16) div 16 = unat a mod 4"
    "(unat a mod 4 * 16 + unat b div 16) mod 16 = unat b div 16"
    "(unat b mod 16 * 4 + unat c div 64) div 4 = unat b mod 16"
    "(unat b mod 16 * 4 + unat c div 64) mod 4 = unat c div 64"
    using byte_bounds(3) [of b] byte_bounds(4) [of c] by simp_all
  then show "word_of_nat (unat a div 4 * 4 + (unat a mod 4 * 16 + unat b div 16) div 16) = a"
    "word_of_nat (unat a div 4 * 4 + unat a mod 4 * 16 div 16) = a"
    "word_of_nat ((unat a mod 4 * 16 + unat b div 16) mod 16 * 16 + (unat b mod 16 * 4 + unat c div 64) div 4) = b"
    "word_of_nat ((unat a mod 4 * 16 + unat b div 16) mod 16 * 16 + unat b mod 16 * 4 div 4) = b"
    "word_of_nat ((unat b mod 16 * 4 + unat c div 64) mod 4 * 64 + unat c mod 64) = c"
    by (simp_all add: div_mult_mod_eq)
qed

lemma sextets_small: "v \<in> set (sextets bs) \<Longrightarrow> v < 64"
  by (induction bs rule: sextets.induct) (auto simp: byte_bounds sextet_bounds)

lemma padding_values:
  "b64_padding 0 = []" "b64_padding (Suc (Suc 0)) = [CHR ''='', CHR ''='']"
  "b64_padding (Suc (Suc (Suc 0))) = [CHR ''='']" "b64_padding (Suc (Suc (Suc (Suc n)))) = b64_padding n"
  by (simp_all add: b64_padding_def numeral_2_eq_2)

lemma scan_sextets:
  "b64_scan 0 left pads (map (\<lambda>v. b64_alphabet ! v) (sextets bs) @ b64_padding (length (sextets bs))) = Inr bs"
proof (induction bs arbitrary: left pads rule: sextets.induct)
  case (2 a)
  show ?case by (simp add: alphabet_values byte_bounds sextet_bounds byte_pieces padding_values)
next
  case (3 a b)
  show ?case by (simp add: alphabet_values byte_bounds sextet_bounds byte_pieces padding_values)
next
  case (4 a b c rest)
  then show ?case by (simp add: alphabet_values byte_bounds sextet_bounds byte_pieces padding_values)
qed (simp add: padding_values)

lemma encode_bytes_sextets: "encode_bytes bs = map (\<lambda>v. b64_alphabet ! v) (sextets bs)"
proof -
  have "dropWhile (\<lambda>c. c = CHR ''='') (replicate n (CHR ''='') @ rev (map (\<lambda>v. b64_alphabet ! v) xs)) =
      rev (map (\<lambda>v. b64_alphabet ! v) xs)" if "\<forall>v \<in> set xs. v < 64" for n xs
  proof (induction n)
    case 0
    show ?case using that alphabet_values(2) by (cases "rev xs") (auto simp: dropWhile_eq_Cons_conv rev_map [symmetric] simp flip: rev_map)
  qed simp
  with sextets_small [of _ bs] show ?thesis
    by (simp add: encode_bytes_def urlsafe_b64encode_def py_rstrip_by_def b64_padding_def rev_map)
qed

lemma decode_encode: "decode_bytes (encode_bytes bs) = Inr bs"
proof -
  have "list_all (\<lambda>c. code_point c < 128)
      (map (\<lambda>v. b64_alphabet ! v) (sextets bs) @ b64_padding (length (sextets bs)))"
    using alphabet_values(3) sextets_small [of _ bs] by (auto simp: list_all_iff b64_padding_def)
  then show ?thesis
    by (simp add: decode_bytes_def encode_bytes_sextets urlsafe_b64decode_def scan_sextets)
qed


section \<open>Passwords verify\<close>

lemma split_max_join:
  "list_all (\<lambda>part. c \<notin> set part) xs \<Longrightarrow> py_split_max c (length xs) (py_join [c] (xs @ [last_part])) = xs @ [last_part]"
proof (induction xs)
  case (Cons x xs)
  obtain y ys where ys: "xs @ [last_part] = y # ys" by (cases "xs @ [last_part]") auto
  have "\<And>z. z \<in> set x \<Longrightarrow> z \<noteq> c" using Cons.prems by auto
  then have "dropWhile (\<lambda>z. z \<noteq> c) (x @ c # r) = c # r" "takeWhile (\<lambda>z. z \<noteq> c) (x @ c # r) = x" for r
    by (simp_all add: dropWhile_append2 takeWhile_append2)
  with Cons ys show ?case by simp
qed simp

lemma alphabet_no_dollar: "v < 64 \<Longrightarrow> b64_alphabet ! v \<noteq> dollar"
  using alphabet_values(1) [of v] by (auto simp: b64_value_def dollar_def)

lemma encoded_no_dollar: "dollar \<notin> set (encode_bytes bs)"
  using alphabet_no_dollar sextets_small [of _ bs] by (fastforce simp: encode_bytes_sextets)

lemma digit_values:
  "char_of (49 :: nat) = CHR ''1''" "char_of (51 :: nat) = CHR ''3''" "char_of (52 :: nat) = CHR ''4''"
  "char_of (54 :: nat) = CHR ''6''" "char_of (56 :: nat) = CHR ''8''"
  by code_simp+

lemma scrypt_texts:
  "show_nat (nat SCRYPT_N) = ''16384''" "show_nat (nat SCRYPT_R) = ''8''" "show_nat (nat SCRYPT_P) = ''1''"
  by (simp_all add: SCRYPT_N_def SCRYPT_R_def SCRYPT_P_def digit_char_def show_nat.simps digit_values)

lemma scrypt_parameters:
  "dollar \<notin> set ''16384''" "dollar \<notin> set ''8''" "dollar \<notin> set ''1''" "dollar \<notin> set ''scrypt''"
  "int_of_text ''16384'' = Inr SCRYPT_N" "int_of_text ''8'' = Inr SCRYPT_R" "int_of_text ''1'' = Inr SCRYPT_P"
  by (simp_all add: dollar_def int_of_text_def parse_int_def py_strip_def py_lstrip_by_def py_rstrip_by_def
      py_isspace_def py_isdigit_def take_sign_def read_nat_def SCRYPT_N_def SCRYPT_R_def SCRYPT_P_def)

lemma hash_password_Inr:
  assumes "hash_password E draw p = Inr h"
  obtains digest where "ce_scrypt E p (ce_random E draw) SCRYPT_N SCRYPT_R SCRYPT_P 32 = Inr digest"
    "py_split_max dollar 5 h =
       [''scrypt'', ''16384'', ''8'', ''1'', encode_bytes (ce_random E draw), encode_bytes digest]"
proof -
  from assms obtain digest where
    d: "ce_scrypt E p (ce_random E draw) SCRYPT_N SCRYPT_R SCRYPT_P 32 = Inr digest"
    and h: "h = py_join [dollar] ([''scrypt'', ''16384'', ''8'', ''1'', encode_bytes (ce_random E draw)] @
         [encode_bytes digest])"
    by (auto simp: hash_password_def scrypt_texts Let_def and_then_Inr_iff)
  have "py_split_max dollar (length [''scrypt'', ''16384'', ''8'', ''1'', encode_bytes (ce_random E draw)]) h =
    [''scrypt'', ''16384'', ''8'', ''1'', encode_bytes (ce_random E draw)] @ [encode_bytes digest]"
    unfolding h by (rule split_max_join) (use scrypt_parameters(1-4) encoded_no_dollar in \<open>simp only: list.pred_inject simp_thms\<close>)
  with d that show thesis by (simp add: eval_nat_numeral)
qed

lemma verify_hashed:
  assumes "hash_password E draw p = Inr h"
    and "\<And>q salt d. ce_scrypt E q salt SCRYPT_N SCRYPT_R SCRYPT_P 32 = Inr d \<Longrightarrow> length d = 32"
    and "ce_scrypt E q (ce_random E draw) SCRYPT_N SCRYPT_R SCRYPT_P 32 = Inr d"
  shows "verify_password E q (Some h) =
    Inr (ce_scrypt E p (ce_random E draw) SCRYPT_N SCRYPT_R SCRYPT_P 32 = Inr d)"
proof -
  from assms(1) obtain digest where
    digest: "ce_scrypt E p (ce_random E draw) SCRYPT_N SCRYPT_R SCRYPT_P 32 = Inr digest"
    and parts: "py_split_max dollar 5 h =
       [''scrypt'', ''16384'', ''8'', ''1'', encode_bytes (ce_random E draw), encode_bytes digest]" by (rule hash_password_Inr)
  have "length digest = 32" by (rule assms(2) [OF digest])
  with digest assms(3) show ?thesis
    by (auto simp add: verify_password_def check_password_def parts decode_encode scrypt_parameters)
qed

section \<open>Identifiers are in normal form\<close>

lemma py_strip_no_space: "\<forall>c \<in> set s. \<not> py_isspace c \<Longrightarrow> py_strip s = s"
proof -
  assume no: "\<forall>c \<in> set s. \<not> py_isspace c"
  have "dropWhile py_isspace s = s" "dropWhile py_isspace (rev s) = rev s"
    using no by (auto simp: dropWhile_eq_self_iff) (metis hd_in_set rev_is_Nil_conv set_rev)
  then show ?thesis by (simp add: py_strip_def py_lstrip_by_def py_rstrip_by_def)
qed

lemma lower_char_not_sharp: "code_point c \<noteq> 223 \<Longrightarrow> code_point (py_lower_char c) \<noteq> 223"
  by (auto simp: py_lower_char_def Let_def)

lemma py_casefold_idem: "py_casefold (py_casefold s) = py_casefold s"
proof (induction s)
  case (Cons c s)
  have "py_lower_char CHR ''s'' = CHR ''s''" by code_simp
  with Cons lower_char_not_sharp [of c] show ?case
    by (auto simp: py_casefold_def py_lower_char_idem)
qed (simp add: py_casefold_def)

lemma partition_join: "py_partition c s = (a, True, b) \<Longrightarrow> s = a @ c # b"
  by (auto simp: py_partition_def split: list.splits dest: dropWhile_eq_Cons_conv [THEN iffD1])

lemma email_no_space: "email_shape s \<Longrightarrow> \<forall>c \<in> set s. \<not> py_isspace c"
proof -
  assume e: "email_shape s"
  obtain a f b where p: "py_partition (CHR ''@'') s = (a, f, b)" by (cases "py_partition (CHR ''@'') s")
  with e have "f" "list_all plain_char a" "list_all plain_char b" by (auto simp: email_shape_def)
  moreover have "\<not> py_isspace (CHR ''@'')" by code_simp
  ultimately show ?thesis using partition_join [of "CHR ''@''" s a b] p by (auto simp: list_all_iff plain_char_def)
qed

lemma normalize_email_idem: "normalize_email v = Inr e \<Longrightarrow> normalize_email e = Inr e"
  by (auto simp: normalize_email_def Let_def py_strip_no_space email_no_space py_casefold_idem split: if_splits)

lemma slug_char_no_space: "slug_char c \<Longrightarrow> \<not> py_isspace c"
  by (auto simp: slug_char_def py_isdigit_def py_isspace_def Let_def)

lemma slug_no_space: "slug_shape s \<Longrightarrow> \<forall>c \<in> set s. \<not> py_isspace c"
proof -
  assume "slug_shape s"
  then have "list_all (\<lambda>part. list_all slug_char part) (py_split (CHR ''-'') s)"
    by (auto simp: slug_shape_def list_all_iff)
  moreover have "\<not> py_isspace (CHR ''-'')" by code_simp
  ultimately show ?thesis
  proof (induction s)
    case (Cons x s)
    obtain q qs where "py_split (CHR ''-'') s = q # qs"
      by (cases "py_split (CHR ''-'') s") simp_all
    with Cons show ?case by (auto simp: slug_char_no_space split: if_splits)
  qed simp
qed

lemma normalize_slug_idem: "normalize_slug v = Inr e \<Longrightarrow> normalize_slug e = Inr e"
  by (auto simp: normalize_slug_def Let_def py_strip_no_space slug_no_space split: if_splits)


section \<open>Properties\<close>

text \<open>
  C28: any byte string survives the text form of salts, digests and tokens: decoding its unpadded
  URL-safe base64 gives it back, and the text has neither padding nor the separator of password hashes.
\<close>

theorem base64_roundtrip:
  "decode_bytes (encode_bytes bs) = Inr bs \<and> CHR ''='' \<notin> set (encode_bytes bs) \<and> dollar \<notin> set (encode_bytes bs)"
  using decode_encode encoded_no_dollar alphabet_values(2) sextets_small [of _ bs]
  by (fastforce simp: encode_bytes_sextets [of bs])

text \<open>
  when scrypt answers digests of the length asked for, a stored hash accepts the password it was
  made from, and another password exactly when scrypt maps both to one digest under the stored salt.
\<close>

theorem password_hash_verifies:
  assumes "hash_password E draw p = Inr h"
    and "\<And>q salt d. ce_scrypt E q salt SCRYPT_N SCRYPT_R SCRYPT_P 32 = Inr d \<Longrightarrow> length d = 32"
    and "ce_scrypt E q (ce_random E draw) SCRYPT_N SCRYPT_R SCRYPT_P 32 = Inr d"
  shows "verify_password E p (Some h) = Inr True \<and>
    verify_password E q (Some h) =
      Inr (ce_scrypt E p (ce_random E draw) SCRYPT_N SCRYPT_R SCRYPT_P 32 = Inr d)"
proof -
  from assms(1) obtain digest where
    "ce_scrypt E p (ce_random E draw) SCRYPT_N SCRYPT_R SCRYPT_P 32 = Inr digest" by (rule hash_password_Inr)
  with verify_hashed [OF assms(1,2), where q = p and d = digest] verify_hashed [OF assms] show ?thesis by simp
qed

text \<open>normalised e-mail addresses and slugs are fixed points of their normalisers.\<close>

theorem identifiers_normalise_once:
  "(normalize_email v = Inr e \<longrightarrow> normalize_email e = Inr e) \<and>
   (normalize_slug w = Inr sl \<longrightarrow> normalize_slug sl = Inr sl)"
  using normalize_email_idem normalize_slug_idem by blast

section \<open>Witnesses\<close>

definition plain_credentials :: credential_env where
  "plain_credentials = \<lparr>ce_now = 0, ce_conf = default_settings\<lparr>bootstrap_token := Some ''boot''\<rparr>, ce_uuid = show_nat,
     ce_random = (\<lambda>n. replicate 16 (word_of_nat n)),
     ce_scrypt = (\<lambda>p salt n r k len. Inr (replicate len (word_of_nat (length p)))),
     ce_blake2b = (\<lambda>pepper token. token), ce_dummy_hash = ''none''\<rparr>"

lemma plain_scrypt:
  "ce_scrypt plain_credentials p salt n r k len = Inr (replicate len (word_of_nat (length p)))"
  by (simp add: plain_credentials_def)

theorem password_hash_verifies_witness:
  "\<exists>h. hash_password plain_credentials 1 ''correct horse'' = Inr h \<and>
     verify_password plain_credentials ''correct horse'' (Some h) = Inr True \<and>
     verify_password plain_credentials ''guess'' (Some h) = Inr False"
proof -
  obtain h where h: "hash_password plain_credentials 1 ''correct horse'' = Inr h"
    by (simp add: hash_password_def plain_scrypt Let_def)
  have "(word_of_nat 13 :: byte) \<noteq> word_of_nat 5" by code_simp
  then have "replicate 32 (word_of_nat 13 :: byte) \<noteq> replicate 32 (word_of_nat 5)" by (simp add: eval_nat_numeral)
  moreover have "length d = 32" if "ce_scrypt plain_credentials q salt SCRYPT_N SCRYPT_R SCRYPT_P 32 = Inr d"
    for q salt d using that by (auto simp: plain_scrypt)
  ultimately show ?thesis
    using password_hash_verifies [OF h, where q = "''guess''" and d = "replicate 32 (word_of_nat 5)"] h
    by (simp add: plain_scrypt)
qed

theorem identifiers_normalise_once_witness:
  "normalize_slug '' Acme-Labs '' = Inr ''acme-labs'' \<and> normalize_slug ''acme-labs'' = Inr ''acme-labs''"
proof -
  have s: "normalize_slug '' Acme-Labs '' = Inr ''acme-labs''" by code_simp
  with identifiers_normalise_once [where v = "[]" and e = "[]" and w = "'' Acme-Labs ''" and sl = "''acme-labs''"] show ?thesis by simp
qed

end
