(* ===== verification/Auth_Api.thy ===== *)
theory Auth_Api imports Credentials "HOL-Library.Product_Lexorder" begin

text \<open>
  \<open>backend/app/core/auth.py\<close> and \<open>backend/app/api/auth.py\<close>: from credentials to a principal, and the
  handlers for bootstrap, login with its lockout, logout, passwords, organisations and personal API
  keys. A handler takes its validated payload; it maps the database to a response and the database it
  leaves, which is the one it had unless it committed.
\<close>

section \<open>Who is calling\<close>

text \<open>\<open>hmac.compare_digest\<close> on strings: equality, but a \<open>TypeError\<close> outside ASCII.\<close>

definition ascii :: "string \<Rightarrow> bool" where
  "ascii s \<longleftrightarrow> list_all (\<lambda>c. code_point c < 128) s"

definition compare_digest :: "string \<Rightarrow> string \<Rightarrow> bool res" where
  "compare_digest a b =
     (if ascii a \<and> ascii b then Inr (a = b)
      else Inl (Exn TypeErr ''comparing strings with non-ASCII characters is not supported''))"

definition bearer_token :: "string option \<Rightarrow> string option" where
  "bearer_token authorization =
     (case authorization of
        None \<Rightarrow> None
      | Some text \<Rightarrow>
          if text = [] then None
          else (case py_partition (CHR '' '') text of
                  (scheme, _, token) \<Rightarrow>
                    if py_lower scheme \<noteq> ''bearer'' \<or> token = [] then None else Some token))"

definition supplied_key :: "string option \<Rightarrow> string option \<Rightarrow> string option" where
  "supplied_key x_api_key authorization =
     (if is_set x_api_key then x_api_key else bearer_token authorization)"

definition authentication_error :: "'a response" where
  "authentication_error = http 401 ''Valid EvalForge credentials required''"

definition user_by_id :: "db \<Rightarrow> string \<Rightarrow> user_row option" where
  "user_by_id s uid = find (\<lambda>u. u_id u = uid) (users s)"

definition active_membership :: "db \<Rightarrow> string \<Rightarrow> string \<Rightarrow> membership_row option" where
  "active_membership s uid org =
     find (\<lambda>m. m_user m = uid \<and> m_org m = org \<and> list_ex (\<lambda>u. u_id u = uid \<and> u_active u) (users s))
       (memberships s)"

definition authenticate_opaque_token ::
  "credential_env \<Rightarrow> string \<Rightarrow> db \<Rightarrow> principal option \<times> db" where
  "authenticate_opaque_token E token s =
     (let token_hash = hash_token E token in
      case find (\<lambda>r. as_token_hash r = token_hash) (auth_sessions s) of
        Some r \<Rightarrow>
          if as_revoked r \<noteq> None \<or> is_expired (ce_now E) (Some (as_expires r)) then (None, s)
          else
            (case active_membership s (as_user r) (as_org r) of
               None \<Rightarrow> (None, s)
             | Some m \<Rightarrow>
                 (Some \<lparr>p_user = Some (as_user r), p_org = as_org r, p_role = m_role m,
                        p_auth = SessionToken, p_session = Some (as_id r), p_api_key = None\<rparr>, s))
      | None \<Rightarrow>
          (case find (\<lambda>k. ak_token_hash k = token_hash) (api_keys s) of
             None \<Rightarrow> (None, s)
           | Some k \<Rightarrow>
               if ak_revoked k \<noteq> None \<or> is_expired (ce_now E) (ak_expires k) then (None, s)
               else
                 (case active_membership s (ak_user k) (ak_org k) of
                    None \<Rightarrow> (None, s)
                  | Some m \<Rightarrow>
                      (Some \<lparr>p_user = Some (ak_user k), p_org = ak_org k, p_role = m_role m,
                             p_auth = ApiKeyToken, p_session = None, p_api_key = Some (ak_id k)\<rparr>,
                       s\<lparr>api_keys := update_where (\<lambda>x. ak_id x = ak_id k)
                           (\<lambda>x. x\<lparr>ak_last_used := Some (ce_now E)\<rparr>) (api_keys s)\<rparr>))))"

definition unowned_principal :: "auth_type \<Rightarrow> principal" where
  "unowned_principal a =
     \<lparr>p_user = None, p_org = DEFAULT_ORGANIZATION_ID, p_role = Owner, p_auth = a, p_session = None,
      p_api_key = None\<rparr>"

definition get_current_principal ::
  "credential_env \<Rightarrow> string option \<Rightarrow> string option \<Rightarrow> db \<Rightarrow> principal response \<times> db" where
  "get_current_principal E x_api_key authorization s =
     (let key = supplied_key x_api_key authorization;
          system_key = api_key (ce_conf E);
          same = (if is_set key \<and> is_set system_key
                  then compare_digest (the key) (the system_key) else Inr False)
      in case same of
           Inl exc \<Rightarrow> (Inl (Unhandled exc), s)
         | Inr True \<Rightarrow> (Inr (unowned_principal SystemApiKey), s)
         | Inr False \<Rightarrow>
             if is_set key then
               (case authenticate_opaque_token E (the key) s of
                  (Some p, s') \<Rightarrow> (Inr p, s')
                | (None, s') \<Rightarrow> (authentication_error, s'))
             else if \<not> is_set system_key \<and> environment (ce_conf E) \<noteq> ''production'' then
               (Inr (unowned_principal Development), s)
             else (authentication_error, s))"

section \<open>Handlers\<close>

definition MAX_FAILED_LOGIN_ATTEMPTS :: nat where "MAX_FAILED_LOGIN_ATTEMPTS = 5"
definition LOGIN_LOCK_MINUTES :: int where "LOGIN_LOCK_MINUTES = 15"

definition minutes :: "int \<Rightarrow> int" where "minutes n = n * 60000000"
definition days :: "int \<Rightarrow> int" where "days n = n * 86400000000"

record token_response =
  tk_access_token :: string
  tk_expires_at :: int
  tk_user :: user_row
  tk_org :: org_row
  tk_role :: role

definition invalid_login :: "'a response" where
  "invalid_login = http 401 ''Invalid email, password, or organization''"

definition require_user :: "db \<Rightarrow> principal \<Rightarrow> user_row response" where
  "require_user s p =
     (case p_user p of
        None \<Rightarrow> http 403 ''This operation requires a user credential''
      | Some uid \<Rightarrow>
          (case user_by_id s uid of
             None \<Rightarrow> http 401 ''User is inactive''
           | Some u \<Rightarrow> if u_active u then Inr u else http 401 ''User is inactive''))"

text \<open>A new session row, under the unique constraint on its token hash.\<close>

definition add_session ::
  "credential_env \<Rightarrow> nat \<Rightarrow> nat \<Rightarrow> user_row \<Rightarrow> org_row \<Rightarrow> role \<Rightarrow> db \<Rightarrow> token_response response \<times> db" where
  "add_session E id_draw token_draw user org role s =
     (case new_session_token E token_draw of
        (token, token_hash, expires_at) \<Rightarrow>
          if list_ex (\<lambda>r. as_token_hash r = token_hash) (auth_sessions s) then
            (Inl (Unhandled (Exn IntegrityErr ''duplicate key value violates unique constraint'')), s)
          else
            (Inr \<lparr>tk_access_token = token, tk_expires_at = expires_at, tk_user = user, tk_org = org,
                  tk_role = role\<rparr>,
             s\<lparr>auth_sessions := auth_sessions s @
                 [\<lparr>as_id = ce_uuid E id_draw, as_user = u_id user, as_org = o_id org,
                   as_token_hash = token_hash, as_expires = expires_at, as_revoked = None,
                   as_created = ce_now E\<rparr>]\<rparr>))"

definition bootstrap ::
  "credential_env \<Rightarrow> string \<Rightarrow> string \<Rightarrow> string \<Rightarrow> string \<Rightarrow> string \<Rightarrow> string option \<Rightarrow> db \<Rightarrow>
   token_response response \<times> db" where
  "bootstrap E email password display_name organization_name organization_slug token s =
     (let expected = bootstrap_token (ce_conf E) in
      case (if is_set expected \<and> is_set token then compare_digest (the token) (the expected)
            else Inr False) of
        Inl exc \<Rightarrow> (Inl (Unhandled exc), s)
      | Inr False \<Rightarrow> (http 403 ''Valid bootstrap token required'', s)
      | Inr True \<Rightarrow>
          if users s \<noteq> [] then (http 409 ''Bootstrap has already been completed'', s)
          else
            (case hash_password E 0 password of
               Inl exc \<Rightarrow> (Inl (Unhandled exc), s)
             | Inr hash \<Rightarrow>
                 let found = find (\<lambda>o'. o_slug o' = organization_slug) (orgs s);
                     fresh = \<lparr>o_id = ce_uuid E 0, o_name = organization_name, o_slug = organization_slug,
                              o_created = ce_now E\<rparr>;
                     org = (case found of None \<Rightarrow> fresh | Some o' \<Rightarrow> o');
                     user = \<lparr>u_id = ce_uuid E 1, u_email = email, u_display_name = display_name,
                             u_password_hash = Some hash, u_active = True, u_failed = 0,
                             u_locked_until = None, u_created = ce_now E\<rparr>;
                     s1 = s\<lparr>orgs := (if found = None then orgs s @ [fresh] else orgs s),
                            users := users s @ [user],
                            memberships := memberships s @
                              [\<lparr>m_org = o_id org, m_user = u_id user, m_role = Owner, m_created = ce_now E\<rparr>]\<rparr>
                 in (case add_session E 2 1 user org Owner s1 of
                       (Inl e, _) \<Rightarrow> (Inl e, s)
                     | (Inr r, s2) \<Rightarrow> (Inr r, s2))))"

definition put_user :: "user_row \<Rightarrow> db \<Rightarrow> db" where
  "put_user u s = s\<lparr>users := update_where (\<lambda>x. u_id x = u_id u) (\<lambda>_. u) (users s)\<rparr>"

definition user_organizations :: "db \<Rightarrow> string \<Rightarrow> string option \<Rightarrow> (membership_row \<times> org_row) list" where
  "user_organizations s uid slug =
     sort_key (\<lambda>(m, o'). (m_created m, o_slug o'))
       (filter (\<lambda>(m, o'). o_id o' = m_org m \<and> m_user m = uid \<and>
                  (is_set slug \<longrightarrow> Some (o_slug o') = slug))
          (List.product (memberships s) (orgs s)))"

definition failed_attempt :: "int \<Rightarrow> user_row \<Rightarrow> user_row" where
  "failed_attempt t u =
     (let n = Suc (u_failed u)
      in u\<lparr>u_failed := n,
           u_locked_until := (if MAX_FAILED_LOGIN_ATTEMPTS \<le> n then Some (t + minutes LOGIN_LOCK_MINUTES)
                              else u_locked_until u)\<rparr>)"

definition unlocked :: "user_row \<Rightarrow> user_row" where
  "unlocked u = u\<lparr>u_failed := 0, u_locked_until := None\<rparr>"

definition login ::
  "credential_env \<Rightarrow> string \<Rightarrow> string \<Rightarrow> string option \<Rightarrow> db \<Rightarrow> token_response response \<times> db" where
  "login E email password organization_slug s =
     (let found = find (\<lambda>u. u_email u = email) (users s);
          candidate_hash = (case found of
              Some u \<Rightarrow> if u_active u \<and> u_password_hash u \<noteq> None then u_password_hash u
                        else Some (ce_dummy_hash E)
            | None \<Rightarrow> Some (ce_dummy_hash E))
      in case verify_password E password candidate_hash of
           Inl exc \<Rightarrow> (Inl (Unhandled exc), s)
         | Inr password_valid \<Rightarrow>
             (case found of
                None \<Rightarrow> (invalid_login, s)
              | Some u \<Rightarrow>
                  if \<not> u_active u then (invalid_login, s)
                  else if u_locked_until u \<noteq> None \<and> \<not> is_expired (ce_now E) (u_locked_until u) then
                    (invalid_login, s)
                  else
                    let u1 = (if u_locked_until u \<noteq> None then unlocked u else u)
                    in if \<not> password_valid then (invalid_login, put_user (failed_attempt (ce_now E) u1) s)
                       else
                         let u2 = unlocked u1;
                             s2 = put_user u2 s
                         in (case user_organizations s2 (u_id u2) organization_slug of
                               [] \<Rightarrow> (invalid_login, s2)
                             | (m, org) # _ \<Rightarrow>
                                 (case add_session E 0 0 u2 org (m_role m) s2 of
                                    (Inl e, _) \<Rightarrow> (Inl e, s)
                                  | (Inr r, s3) \<Rightarrow> (Inr r, s3)))))"

definition principal_entities :: "db \<Rightarrow> principal \<Rightarrow> (user_row option \<times> org_row) response" where
  "principal_entities s p =
     (case find (\<lambda>o'. o_id o' = p_org p) (orgs s) of
        None \<Rightarrow> http 404 ''Active organization not found''
      | Some org \<Rightarrow>
          Inr (if is_set (p_user p) then user_by_id s (the (p_user p)) else None, org))"

record principal_read =
  pr_user :: "user_row option"
  pr_org :: org_row
  pr_role :: role
  pr_auth :: auth_type

definition current_principal :: "principal \<Rightarrow> db \<Rightarrow> principal_read response" where
  "current_principal p s =
     and_then (principal_entities s p) (\<lambda>(u, org).
     Inr \<lparr>pr_user = u, pr_org = org, pr_role = p_role p, pr_auth = p_auth p\<rparr>)"

definition logout :: "credential_env \<Rightarrow> principal \<Rightarrow> db \<Rightarrow> unit response \<times> db" where
  "logout E p s =
     (Inr (),
      case p_session p of
        None \<Rightarrow> s
      | Some sid \<Rightarrow>
          s\<lparr>auth_sessions := update_where (\<lambda>r. as_id r = sid \<and> as_revoked r = None)
              (\<lambda>r. r\<lparr>as_revoked := Some (ce_now E)\<rparr>) (auth_sessions s)\<rparr>)"

definition change_password ::
  "credential_env \<Rightarrow> string \<Rightarrow> string \<Rightarrow> principal \<Rightarrow> db \<Rightarrow> unit response \<times> db" where
  "change_password E current_password new_password p s =
     (case require_user s p of
        Inl e \<Rightarrow> (Inl e, s)
      | Inr u \<Rightarrow>
          (case (if u_password_hash u = None then Inr False
                 else verify_password E current_password (u_password_hash u)) of
             Inl exc \<Rightarrow> (Inl (Unhandled exc), s)
           | Inr False \<Rightarrow> (http 401 ''Current password is invalid'', s)
           | Inr True \<Rightarrow>
               (case hash_password E 0 new_password of
                  Inl exc \<Rightarrow> (Inl (Unhandled exc), s)
                | Inr hash \<Rightarrow>
                    let s1 = put_user (u\<lparr>u_password_hash := Some hash\<rparr>) s
                    in (Inr (),
                        s1\<lparr>auth_sessions := update_where
                             (\<lambda>r. as_user r = u_id u \<and> as_revoked r = None \<and>
                                (is_set (p_session p) \<longrightarrow> Some (as_id r) \<noteq> p_session p))
                             (\<lambda>r. r\<lparr>as_revoked := Some (ce_now E)\<rparr>) (auth_sessions s1)\<rparr>))))"

definition switch_organization ::
  "credential_env \<Rightarrow> string \<Rightarrow> principal \<Rightarrow> db \<Rightarrow> token_response response \<times> db" where
  "switch_organization E slug p s =
     (case require_user s p of
        Inl e \<Rightarrow> (Inl e, s)
      | Inr u \<Rightarrow>
          (case filter (\<lambda>(m, o'). o_id o' = m_org m \<and> m_user m = u_id u \<and> o_slug o' = slug)
                  (List.product (memberships s) (orgs s)) of
             [] \<Rightarrow> (http 404 ''Organization not found'', s)
           | (m, org) # _ \<Rightarrow> add_session E 0 0 u org (m_role m) s))"

definition list_api_keys :: "principal \<Rightarrow> db \<Rightarrow> api_key_row list response" where
  "list_api_keys p s =
     (case require_user s p of
        Inl e \<Rightarrow> Inl e
      | Inr u \<Rightarrow> Inr (sort_key (\<lambda>k. - ak_created k)
          (filter (\<lambda>k. ak_user k = u_id u \<and> ak_org k = p_org p) (api_keys s))))"

definition create_api_key ::
  "credential_env \<Rightarrow> string \<Rightarrow> int option \<Rightarrow> principal \<Rightarrow> db \<Rightarrow> (api_key_row \<times> string) response \<times> db" where
  "create_api_key E name expires_in_days p s =
     (case require_user s p of
        Inl e \<Rightarrow> (Inl e, s)
      | Inr u \<Rightarrow>
          if list_ex (\<lambda>k. ak_user k = u_id u \<and> ak_org k = p_org p \<and> ak_name k = name) (api_keys s) then
            (http 409 ''API key name already exists in this organization'', s)
          else
            (case new_api_key E 0 of
               (token, key_prefix, token_hash) \<Rightarrow>
                 if list_ex (\<lambda>k. ak_token_hash k = token_hash) (api_keys s) then
                   (Inl (Unhandled (Exn IntegrityErr ''duplicate key value violates unique constraint'')), s)
                 else
                   let row = \<lparr>ak_id = ce_uuid E 0, ak_user = u_id u, ak_org = p_org p, ak_name = name,
                         ak_prefix = key_prefix, ak_token_hash = token_hash,
                         ak_expires = map_option (\<lambda>n. ce_now E + days n) expires_in_days,
                         ak_last_used = None, ak_revoked = None, ak_created = ce_now E\<rparr>
                   in (Inr (row, token), s\<lparr>api_keys := api_keys s @ [row]\<rparr>)))"

definition revoke_api_key ::
  "credential_env \<Rightarrow> string \<Rightarrow> principal \<Rightarrow> db \<Rightarrow> unit response \<times> db" where
  "revoke_api_key E api_key_id p s =
     (case require_user s p of
        Inl e \<Rightarrow> (Inl e, s)
      | Inr u \<Rightarrow>
          (case find (\<lambda>k. ak_id k = api_key_id \<and> ak_user k = u_id u \<and> ak_org k = p_org p) (api_keys s) of
             None \<Rightarrow> (http 404 ''API key not found'', s)
           | Some k \<Rightarrow>
               (Inr (),
                if ak_revoked k = None then
                  s\<lparr>api_keys := update_where (\<lambda>x. ak_id x = ak_id k)
                      (\<lambda>x. x\<lparr>ak_revoked := Some (ce_now E)\<rparr>) (api_keys s)\<rparr>
                else s)))"

section \<open>Rows found again\<close>

lemma find_update_where:
  "(\<And>r. Q (f r) = Q r) \<Longrightarrow>
   find Q (update_where P f rows) = map_option (\<lambda>r. if P r then f r else r) (find Q rows)"
  by (induction rows) (auto simp: update_where_def)

lemma find_none_list_ex: "\<not> list_ex Q xs \<Longrightarrow> find Q xs = None"
  by (simp add: find_None_iff list_ex_iff)

lemma find_SomeD: "find Q xs = Some x \<Longrightarrow> x \<in> set xs \<and> Q x"
  by (auto simp: find_Some_iff)

lemma find_put:
  "find Q (users s) = Some u \<Longrightarrow> Q v \<Longrightarrow> u_id v = u_id u \<Longrightarrow> find Q (users (put_user v s)) = Some v"
proof -
  have "find Q us = Some u \<Longrightarrow> Q v \<Longrightarrow> u_id v = u_id u \<Longrightarrow>
      find Q (update_where (\<lambda>x. u_id x = u_id v) (\<lambda>_. v) us) = Some v" for us
    by (induction us) (auto simp: update_where_def split: if_splits)
  then show "find Q (users s) = Some u \<Longrightarrow> Q v \<Longrightarrow> u_id v = u_id u \<Longrightarrow> find Q (users (put_user v s)) = Some v"
    by (simp add: put_user_def)
qed

section \<open>Principals\<close>

lemma active_membership_SomeD:
  "active_membership s uid org = Some m \<Longrightarrow>
   m \<in> set (memberships s) \<and> m_user m = uid \<and> m_org m = org \<and> (\<exists>u \<in> set (users s). u_id u = uid \<and> u_active u)"
  unfolding active_membership_def by (drule find_SomeD) (auto simp: list_ex_iff)

definition session_backs :: "credential_env \<Rightarrow> string \<Rightarrow> db \<Rightarrow> principal \<Rightarrow> bool" where
  "session_backs E token s p \<longleftrightarrow>
     (\<exists>r \<in> set (auth_sessions s). as_token_hash r = hash_token E token \<and> as_revoked r = None \<and>
        ce_now E < as_expires r \<and> p_user p = Some (as_user r) \<and> p_org p = as_org r \<and>
        p_session p = Some (as_id r) \<and> p_api_key p = None)"

definition key_backs :: "credential_env \<Rightarrow> string \<Rightarrow> db \<Rightarrow> principal \<Rightarrow> bool" where
  "key_backs E token s p \<longleftrightarrow>
     (\<exists>k \<in> set (api_keys s). ak_token_hash k = hash_token E token \<and> ak_revoked k = None \<and>
        (\<forall>t. ak_expires k = Some t \<longrightarrow> ce_now E < t) \<and> p_user p = Some (ak_user k) \<and> p_org p = ak_org k \<and>
        p_session p = None \<and> p_api_key p = Some (ak_id k))"

definition member_as :: "db \<Rightarrow> principal \<Rightarrow> bool" where
  "member_as s p \<longleftrightarrow>
     (\<exists>m \<in> set (memberships s). p_user p = Some (m_user m) \<and> p_org p = m_org m \<and> p_role p = m_role m \<and>
        (\<exists>u \<in> set (users s). u_id u = m_user m \<and> u_active u))"

lemma member_asI:
  "active_membership s uid org = Some m \<Longrightarrow> p_user p = Some uid \<Longrightarrow> p_org p = org \<Longrightarrow>
   p_role p = m_role m \<Longrightarrow> member_as s p"
  unfolding member_as_def by (frule active_membership_SomeD) (intro bexI [of _ m]; auto)

lemma authenticate_opaque_token_Some:
  assumes "authenticate_opaque_token E token s = (Some p, s')"
  shows "member_as s p \<and> s'\<lparr>api_keys := api_keys s\<rparr> = s \<and>
    (p_auth p = SessionToken \<and> session_backs E token s p \<and> s' = s \<or>
     p_auth p = ApiKeyToken \<and> key_backs E token s p)"
proof (cases "find (\<lambda>r. as_token_hash r = hash_token E token) (auth_sessions s)")
  case (Some r)
  with assms obtain m where live: "as_revoked r = None" "\<not> is_expired (ce_now E) (Some (as_expires r))"
    and m: "active_membership s (as_user r) (as_org r) = Some m" and s': "s' = s"
    and p: "p = \<lparr>p_user = Some (as_user r), p_org = as_org r, p_role = m_role m,
      p_auth = SessionToken, p_session = Some (as_id r), p_api_key = None\<rparr>"
    by (auto simp: authenticate_opaque_token_def split: if_splits option.splits)
  from live find_SomeD [OF Some] have "session_backs E token s p"
    by (auto simp: session_backs_def p is_expired_def)
  with member_asI [OF m, of p] s' show ?thesis by (simp add: p)
next
  case None
  with assms obtain k m where k: "find (\<lambda>k. ak_token_hash k = hash_token E token) (api_keys s) = Some k"
    and live: "ak_revoked k = None" "\<not> is_expired (ce_now E) (ak_expires k)"
    and m: "active_membership s (ak_user k) (ak_org k) = Some m"
    and s': "s' = s\<lparr>api_keys := update_where (\<lambda>x. ak_id x = ak_id k)
                           (\<lambda>x. x\<lparr>ak_last_used := Some (ce_now E)\<rparr>) (api_keys s)\<rparr>"
    and p: "p = \<lparr>p_user = Some (ak_user k), p_org = ak_org k, p_role = m_role m,
      p_auth = ApiKeyToken, p_session = None, p_api_key = Some (ak_id k)\<rparr>"
    by (auto simp: authenticate_opaque_token_def split: if_splits option.splits)
  from live find_SomeD [OF k] have "key_backs E token s p"
    by (auto simp: key_backs_def p is_expired_def)
  with member_asI [OF m, of p] show ?thesis by (simp add: p s')
qed

lemma authenticate_opaque_token_None:
  "authenticate_opaque_token E token s = (None, s') \<Longrightarrow> s' = s"
  by (auto simp: authenticate_opaque_token_def Let_def split: if_splits option.splits)


section \<open>Login and its lock\<close>

lemma login_wrong_password:
  assumes "find (\<lambda>u. u_email u = email) (users s) = Some u" "u_active u" "u_password_hash u = Some h"
    and "u_locked_until u = None" "verify_password E pw (Some h) = Inr False"
  shows "login E email pw slug s = (invalid_login, put_user (failed_attempt (ce_now E) u) s)"
  using assms by (simp add: login_def)

lemma login_locked:
  assumes "find (\<lambda>u. u_email u = email) (users s) = Some u" "u_active u"
    and "u_locked_until u = Some t" "ce_now E < t"
  shows "(\<exists>e. fst (login E email pw slug s) = Inl e) \<and> snd (login E email pw slug s) = s"
proof -
  define h where "h = (if u_active u \<and> u_password_hash u \<noteq> None then u_password_hash u else Some (ce_dummy_hash E))"
  show ?thesis
  proof (cases "verify_password E pw h")
    case (Inl exc)
    with assms show ?thesis by (simp add: login_def h_def)
  next
    case (Inr b)
    with assms show ?thesis by (simp add: login_def h_def is_expired_def invalid_login_def http_def)
  qed
qed

text \<open>The failed attempts one after the other, each at its own time.\<close>

fun after_attempts :: "string \<Rightarrow> (credential_env \<times> string) list \<Rightarrow> db \<Rightarrow> db" where
  "after_attempts email [] s = s"
| "after_attempts email ((E, pw) # tries) s = after_attempts email tries (snd (login E email pw None s))"

definition attempt_pending :: "string \<Rightarrow> string \<Rightarrow> db \<Rightarrow> user_row \<Rightarrow> bool" where
  "attempt_pending email h s u \<longleftrightarrow>
     find (\<lambda>u. u_email u = email) (users s) = Some u \<and> u_active u \<and> u_password_hash u = Some h"

lemma after_attempts_pending:
  assumes "list_all (\<lambda>(E, pw). verify_password E pw (Some h) = Inr False) tries"
    and "attempt_pending email h s u" "u_locked_until u = None" "u_failed u + length tries < MAX_FAILED_LOGIN_ATTEMPTS"
  shows "\<exists>u'. attempt_pending email h (after_attempts email tries s) u' \<and> u_locked_until u' = None \<and>
    u_failed u' = u_failed u + length tries"
  using assms
proof (induction tries arbitrary: s u)
  case (Cons a tries)
  obtain E pw where a: "a = (E, pw)" by (cases a)
  from Cons.prems have step: "login E email pw None s = (invalid_login, put_user (failed_attempt (ce_now E) u) s)"
    by (intro login_wrong_password) (auto simp: attempt_pending_def a)
  have u': "u_locked_until (failed_attempt (ce_now E) u) = None" "u_failed (failed_attempt (ce_now E) u) = Suc (u_failed u)"
    "u_id (failed_attempt (ce_now E) u) = u_id u" "u_email (failed_attempt (ce_now E) u) = u_email u"
    "u_active (failed_attempt (ce_now E) u) = u_active u"
    "u_password_hash (failed_attempt (ce_now E) u) = u_password_hash u"
    using Cons.prems(3,4) by (simp_all add: failed_attempt_def Let_def)
  have "u_email u = email" using Cons.prems(2) by (auto simp: attempt_pending_def dest: find_SomeD)
  then have "attempt_pending email h (put_user (failed_attempt (ce_now E) u) s) (failed_attempt (ce_now E) u)"
    using Cons.prems(2) by (auto simp: attempt_pending_def u' intro: find_put)
  from Cons.IH [OF _ this] Cons.prems(1,4) show ?case by (simp add: a step u')
qed auto

lemma after_attempts_append:
  "after_attempts email (xs @ ys) s = after_attempts email ys (after_attempts email xs s)"
  by (induction email xs s rule: after_attempts.induct) auto

lemma attempts_lock:
  assumes "list_all (\<lambda>(E, pw). verify_password E pw (Some h) = Inr False) (tries @ [(E, pw)])"
    and "attempt_pending email h s u" "u_locked_until u = None"
    and "u_failed u + length (tries @ [(E, pw)]) = MAX_FAILED_LOGIN_ATTEMPTS"
  shows "\<exists>u'. attempt_pending email h (after_attempts email (tries @ [(E, pw)]) s) u' \<and>
    u_locked_until u' = Some (ce_now E + minutes LOGIN_LOCK_MINUTES)"
proof -
  from after_attempts_pending [OF _ assms(2,3), of tries] assms(1,4) obtain u1 where
    u1: "attempt_pending email h (after_attempts email tries s) u1" "u_locked_until u1 = None"
    "u_failed u1 = u_failed u + length tries" by auto
  let ?v = "failed_attempt (ce_now E) u1"
  from u1 assms(1) have step: "login E email pw None (after_attempts email tries s) =
      (invalid_login, put_user ?v (after_attempts email tries s))"
    by (intro login_wrong_password) (auto simp: attempt_pending_def)
  have v: "u_locked_until ?v = Some (ce_now E + minutes LOGIN_LOCK_MINUTES)"
    "u_id ?v = u_id u1" "u_email ?v = u_email u1" "u_active ?v = u_active u1" "u_password_hash ?v = u_password_hash u1"
    using assms(4) u1(3) by (simp_all add: failed_attempt_def Let_def)
  have "u_email u1 = email" using u1(1) by (auto simp: attempt_pending_def dest: find_SomeD)
  with u1(1) have "attempt_pending email h (put_user ?v (after_attempts email tries s)) ?v"
    by (auto simp: attempt_pending_def v intro: find_put)
  with v(1) show ?thesis by (auto simp: after_attempts_append step)
qed

section \<open>Sessions\<close>

lemma add_session_Inr:
  assumes "add_session E d k user org role s = (Inr r, s')"
  shows "tk_user r = user \<and> tk_org r = org \<and> tk_role r = role \<and>
    tk_expires_at r = ce_now E + hours (session_ttl_hours (ce_conf E)) \<and>
    find (\<lambda>x. as_token_hash x = hash_token E (tk_access_token r)) (auth_sessions s') =
      Some \<lparr>as_id = ce_uuid E d, as_user = u_id user, as_org = o_id org,
        as_token_hash = hash_token E (tk_access_token r), as_expires = tk_expires_at r,
        as_revoked = None, as_created = ce_now E\<rparr> \<and>
    s'\<lparr>auth_sessions := auth_sessions s\<rparr> = s \<and> take (length (auth_sessions s)) (auth_sessions s') = auth_sessions s"
  using assms
  by (auto simp: add_session_def new_session_token_def Let_def find_append find_none_list_ex
      split: if_splits)


section \<open>Revocation is permanent\<close>

text \<open>Session rows are only appended, and a row changes only by being revoked once.\<close>

definition session_kept :: "session_row \<Rightarrow> session_row \<Rightarrow> bool" where
  "session_kept r r' \<longleftrightarrow> r' = r \<or> as_revoked r = None \<and> (\<exists>t. r' = r\<lparr>as_revoked := Some t\<rparr>)"

definition sessions_evolve :: "session_row list \<Rightarrow> session_row list \<Rightarrow> bool" where
  "sessions_evolve rs rs' \<longleftrightarrow> (\<exists>kept added. rs' = kept @ added \<and> list_all2 session_kept rs kept)"

lemma session_kept_refl [simp]: "session_kept r r"
  by (simp add: session_kept_def)

lemma sessions_evolve_refl [simp]: "sessions_evolve rs rs"
  unfolding sessions_evolve_def by (intro exI [of _ rs] exI [of _ "[]"]) (simp add: list.rel_refl)

lemma sessions_evolve_append [simp]: "sessions_evolve rs (rs @ added)"
  unfolding sessions_evolve_def by (intro exI [of _ rs] exI [of _ added]) (simp add: list.rel_refl)

lemma sessions_evolve_revoke:
  "(\<And>r. P r \<Longrightarrow> as_revoked r = None) \<Longrightarrow>
   sessions_evolve rs (update_where P (\<lambda>r. r\<lparr>as_revoked := Some t\<rparr>) rs)"
  unfolding sessions_evolve_def
  by (intro exI [of _ "update_where P (\<lambda>r. r\<lparr>as_revoked := Some t\<rparr>) rs"] exI [of _ "[]"])
     (auto simp: update_where_def list.rel_map session_kept_def intro!: list.rel_refl)

lemma evolve_find_revoked:
  assumes "sessions_evolve rs rs'" "find (\<lambda>r. as_token_hash r = h) rs = Some r" "as_revoked r \<noteq> None"
  shows "find (\<lambda>r. as_token_hash r = h) rs' = Some r"
proof -
  from assms(1) obtain kept added where rs': "rs' = kept @ added" and k: "list_all2 session_kept rs kept"
    by (auto simp: sessions_evolve_def)
  from k assms(2,3) have "find (\<lambda>r. as_token_hash r = h) kept = Some r"
    by (induction rs kept rule: list_all2_induct) (auto simp: session_kept_def split: if_splits)
  then show ?thesis by (simp add: rs' find_append)
qed

lemma add_session_evolves: "sessions_evolve (auth_sessions s) (auth_sessions (snd (add_session E d k user org role s)))"
  by (simp add: add_session_def new_session_token_def Let_def)

text \<open>The requests of this router, and authentication itself, in any order and at any times.\<close>

inductive auth_step :: "db \<Rightarrow> db \<Rightarrow> bool" where
  step_authenticate: "auth_step s (snd (get_current_principal E xk auth s))"
| step_bootstrap: "auth_step s (snd (bootstrap E email pw dn on os tok s))"
| step_login: "auth_step s (snd (login E email pw slug s))"
| step_logout: "auth_step s (snd (logout E p s))"
| step_change_password: "auth_step s (snd (change_password E cur new p s))"
| step_switch: "auth_step s (snd (switch_organization E slug p s))"
| step_create_key: "auth_step s (snd (create_api_key E name exp_days p s))"
| step_revoke_key: "auth_step s (snd (revoke_api_key E kid p s))"

lemma opaque_sessions [simp]:
  "auth_sessions (snd (authenticate_opaque_token E token s)) = auth_sessions s"
  by (auto simp: authenticate_opaque_token_def Let_def split: option.splits)

lemma principal_sessions: "auth_sessions (snd (get_current_principal E xk auth s)) = auth_sessions s"
  using opaque_sessions [of E "the (supplied_key xk auth)" s]
  by (auto simp: get_current_principal_def Let_def split: sum.splits option.splits bool.splits prod.splits simp del: opaque_sessions)

lemma put_user_sessions [simp]: "auth_sessions (put_user u s) = auth_sessions s"
  by (simp add: put_user_def)

lemma bootstrap_evolves:
  "sessions_evolve (auth_sessions s) (auth_sessions (snd (bootstrap E email pw dn on os tok s)))"
  by (auto simp: bootstrap_def add_session_def new_session_token_def Let_def split: sum.splits bool.splits)

lemma login_evolves: "sessions_evolve (auth_sessions s) (auth_sessions (snd (login E email pw slug s)))"
  by (auto simp: login_def add_session_def new_session_token_def Let_def split: sum.splits option.splits list.splits)

lemma change_password_evolves:
  "sessions_evolve (auth_sessions s) (auth_sessions (snd (change_password E cur new p s)))"
  by (auto simp: change_password_def Let_def intro!: sessions_evolve_revoke split: sum.splits bool.splits)

lemma auth_step_evolves: "auth_step s s' \<Longrightarrow> sessions_evolve (auth_sessions s) (auth_sessions s')"
proof (induction rule: auth_step.induct)
  case (step_logout s E p)
  show ?case by (auto simp: logout_def intro!: sessions_evolve_revoke split: option.splits)
next
  case (step_switch s E slug p)
  show ?case using add_session_evolves by (auto simp: switch_organization_def split: sum.splits list.splits)
qed (auto simp: principal_sessions bootstrap_evolves login_evolves change_password_evolves
      create_api_key_def revoke_api_key_def new_api_key_def Let_def split: sum.splits option.splits)

lemma revoked_for_good:
  assumes "auth_step\<^sup>*\<^sup>* s s'" "find (\<lambda>r. as_token_hash r = h) (auth_sessions s) = Some r" "as_revoked r \<noteq> None"
  shows "find (\<lambda>r. as_token_hash r = h) (auth_sessions s') = Some r"
  using assms by (induction rule: rtranclp_induct) (blast intro: evolve_find_revoked auth_step_evolves)+

lemma revoked_refused:
  "find (\<lambda>r. as_token_hash r = hash_token E token) (auth_sessions s) = Some r \<Longrightarrow> as_revoked r \<noteq> None \<Longrightarrow>
   authenticate_opaque_token E token s = (None, s)"
  by (simp add: authenticate_opaque_token_def)

lemma get_current_principal_token:
  assumes "is_set (supplied_key xk auth)" "api_key (ce_conf E) \<noteq> supplied_key xk auth"
  shows "get_current_principal E xk auth s =
    (if is_set (api_key (ce_conf E)) \<and> \<not> (ascii (the (supplied_key xk auth)) \<and> ascii (the (api_key (ce_conf E))))
     then (Inl (Unhandled (Exn TypeErr ''comparing strings with non-ASCII characters is not supported'')), s)
     else (case authenticate_opaque_token E (the (supplied_key xk auth)) s of
             (Some p, s') \<Rightarrow> (Inr p, s') | (None, s') \<Rightarrow> (authentication_error, s')))"
proof -
  have "the (supplied_key xk auth) \<noteq> the (api_key (ce_conf E))" if "is_set (api_key (ce_conf E))"
    using assms that by (auto simp: is_set_def split: option.splits)
  with assms(1) show ?thesis by (auto simp: get_current_principal_def compare_digest_def Let_def)
qed


section \<open>What the handlers achieve\<close>

lemma put_user_present: "(\<exists>x \<in> set (users s). u_id x = u_id u) \<Longrightarrow> u \<in> set (users (put_user u s))"
  by (auto simp: put_user_def set_update_where image_iff)

lemma login_Inr:
  assumes "login E email pw slug s = (Inr r, s')"
  obtains u h m where "find (\<lambda>u. u_email u = email) (users s) = Some u" "u_active u" "u_password_hash u = Some h \<or> h = ce_dummy_hash E"
    "verify_password E pw (Some h) = Inr True" "(m, tk_org r) \<in> set (user_organizations (put_user (unlocked u) s) (u_id u) slug)"
    "add_session E 0 0 (unlocked u) (tk_org r) (m_role m) (put_user (unlocked u) s) = (Inr r, s')"
proof -
  from assms obtain u where u: "find (\<lambda>u. u_email u = email) (users s) = Some u"
    by (auto simp: login_def invalid_login_def http_def Let_def split: sum.splits option.splits)
  define h where "h = (if u_password_hash u \<noteq> None then the (u_password_hash u) else ce_dummy_hash E)"
  have hash: "(if u_active u \<and> u_password_hash u \<noteq> None then u_password_hash u else Some (ce_dummy_hash E)) = Some h" if "u_active u"
    using that by (auto simp: h_def)
  have same: "unlocked (if u_locked_until u \<noteq> None then unlocked u else u) = unlocked u" by (simp add: unlocked_def)
  have id: "u_id (unlocked u) = u_id u" and idem: "unlocked (unlocked u) = unlocked u" by (simp_all add: unlocked_def)
  have act: "u_active u" using assms u
    by (auto simp: login_def invalid_login_def http_def Let_def split: sum.splits if_splits)
  have good: "verify_password E pw (Some h) = Inr True" using assms u act hash [OF act]
    by (auto simp: login_def invalid_login_def http_def Let_def split: sum.splits if_splits bool.splits)
  define s2 where "s2 = put_user (unlocked u) s"
  note run = assms u act good hash [OF act]
  obtain m org rest where o: "user_organizations s2 (u_id u) slug = (m, org) # rest"
  proof (cases "user_organizations s2 (u_id u) slug")
    case Nil
    with run have False
      by (auto simp: login_def same id idem s2_def invalid_login_def http_def Let_def split: if_splits)
    then show thesis ..
  qed auto
  with run have a: "add_session E 0 0 (unlocked u) org (m_role m) s2 = (Inr r, s')"
    by (auto simp: login_def same id idem s2_def invalid_login_def http_def Let_def split: if_splits sum.splits prod.splits)
  from add_session_Inr [OF a] have org: "org = tk_org r" by simp
  show thesis
  proof (rule that [OF u act _ good])
    show "u_password_hash u = Some h \<or> h = ce_dummy_hash E" by (auto simp: h_def)
    show "(m, tk_org r) \<in> set (user_organizations (put_user (unlocked u) s) (u_id u) slug)"
      using o by (simp add: s2_def org)
    show "add_session E 0 0 (unlocked u) (tk_org r) (m_role m) (put_user (unlocked u) s) = (Inr r, s')"
      using a by (simp add: s2_def org)
  qed
qed

lemma user_organizations_member:
  "(m, org) \<in> set (user_organizations s uid slug) \<Longrightarrow>
   m \<in> set (memberships s) \<and> org \<in> set (orgs s) \<and> m_org m = o_id org \<and> m_user m = uid \<and>
   (is_set slug \<longrightarrow> slug = Some (o_slug org))"
  by (auto simp: user_organizations_def)

lemma put_user_tables [simp]:
  "memberships (put_user u s) = memberships s" "orgs (put_user u s) = orgs s" "api_keys (put_user u s) = api_keys s"
  by (simp_all add: put_user_def)

lemma active_membership_unique:
  assumes "distinct (map (\<lambda>m. (m_org m, m_user m)) (memberships s))" "m \<in> set (memberships s)"
    and "u \<in> set (users s)" "u_id u = m_user m" "u_active u"
  shows "active_membership s (m_user m) (m_org m) = Some m"
proof -
  have "find (\<lambda>x. m_user x = m_user m \<and> m_org x = m_org m) ms = Some m"
    if "distinct (map (\<lambda>m. (m_org m, m_user m)) ms)" "m \<in> set ms" for ms
    using that by (induction ms) auto
  moreover have "\<exists>u \<in> set (users s). u_id u = m_user m \<and> u_active u" using assms(3-5) by blast
  ultimately show ?thesis using assms(1,2)
    by (simp add: active_membership_def list_ex_iff cong: conj_cong)
qed

lemma session_token_authenticates:
  assumes "find (\<lambda>x. as_token_hash x = hash_token E tok) (auth_sessions s) = Some r" "as_revoked r = None"
    and "ce_now E < as_expires r" "active_membership s (as_user r) (as_org r) = Some m"
  shows "authenticate_opaque_token E tok s =
    (Some \<lparr>p_user = Some (as_user r), p_org = as_org r, p_role = m_role m, p_auth = SessionToken,
           p_session = Some (as_id r), p_api_key = None\<rparr>, s)"
  using assms by (simp add: authenticate_opaque_token_def is_expired_def)

lemma bootstrap_Inr:
  assumes "bootstrap E email pw dn on os tok s = (Inr r, s')"
  shows "users s = [] \<and> is_set (bootstrap_token (ce_conf E)) \<and> tok = bootstrap_token (ce_conf E) \<and>
    tk_role r = Owner \<and> length (users s') = 1"
  using assms
  by (auto simp: bootstrap_def http_def Let_def add_session_def new_session_token_def compare_digest_def is_set_def
      split: sum.splits bool.splits if_splits option.splits)

lemma bootstrap_refused: "users s \<noteq> [] \<Longrightarrow> \<exists>e. bootstrap E email pw dn on os tok s = (Inl e, s)"
  by (auto simp: bootstrap_def http_def Let_def split: sum.splits bool.splits)

lemma put_user_empty [simp]: "users (put_user u s) = [] \<longleftrightarrow> users s = []"
  by (simp add: put_user_def update_where_def)

lemma principal_users: "users (snd (get_current_principal E xk auth s)) = users s"
  by (auto simp: get_current_principal_def authenticate_opaque_token_def Let_def
      split: sum.splits option.splits bool.splits prod.splits if_splits)

lemma auth_step_users: "auth_step s s' \<Longrightarrow> users s \<noteq> [] \<Longrightarrow> users s' \<noteq> []"
proof (induction rule: auth_step.induct)
  case (step_bootstrap s E email pw dn on os tok)
  then show ?case using bootstrap_refused [of s E email pw dn on os tok] by force
next
  case (step_login s E email pw slug)
  then show ?case
    by (auto simp: login_def add_session_def new_session_token_def Let_def split: sum.splits option.splits list.splits)
next
  case (step_change_password s E cur new p)
  then show ?case by (auto simp: change_password_def Let_def split: sum.splits bool.splits)
qed (auto simp: principal_users logout_def switch_organization_def add_session_def new_session_token_def
      create_api_key_def revoke_api_key_def new_api_key_def Let_def split: sum.splits option.splits list.splits)


lemma get_current_principal_Inr:
  assumes "get_current_principal E xk auth s = (Inr p, s')"
  shows "p_auth p = SystemApiKey \<and> p = unowned_principal SystemApiKey \<and> s' = s \<and>
      is_set (supplied_key xk auth) \<and> supplied_key xk auth = api_key (ce_conf E) \<or>
    p_auth p = Development \<and> p = unowned_principal Development \<and> s' = s \<and>
      \<not> is_set (supplied_key xk auth) \<and> \<not> is_set (api_key (ce_conf E)) \<and> environment (ce_conf E) \<noteq> ''production'' \<or>
    is_set (supplied_key xk auth) \<and>
      authenticate_opaque_token E (the (supplied_key xk auth)) s = (Some p, s')"
  using assms
  by (auto simp: get_current_principal_def authentication_error_def http_def compare_digest_def Let_def
      unowned_principal_def is_set_def split: sum.splits option.splits bool.splits prod.splits if_splits)

lemma change_password_Inr:
  assumes "change_password E cur new p s = (Inr (), s')"
  obtains u hash where "require_user s p = Inr u" "verify_password E cur (u_password_hash u) = Inr True"
    "hash_password E 0 new = Inr hash" "users s' = users (put_user (u\<lparr>u_password_hash := Some hash\<rparr>) s)"
    "auth_sessions s' = update_where (\<lambda>r. as_user r = u_id u \<and> as_revoked r = None \<and>
       (is_set (p_session p) \<longrightarrow> Some (as_id r) \<noteq> p_session p))
       (\<lambda>r. r\<lparr>as_revoked := Some (ce_now E)\<rparr>) (auth_sessions s)"
  using assms
  by (auto simp: change_password_def http_def Let_def split: sum.splits bool.splits if_splits)

lemma require_user_Inr:
  "require_user s p = Inr u \<Longrightarrow> \<exists>uid. p_user p = Some uid \<and> user_by_id s uid = Some u \<and> u_active u \<and> u_id u = uid"
  by (auto simp: require_user_def http_def user_by_id_def dest: find_SomeD split: option.splits if_splits)

definition dummy_password :: string where
  "dummy_password = ''evalforge-invalid-user-timing-value''"

lemma login_good_password:
  assumes "find (\<lambda>u. u_email u = email) (users s) = Some u" "u_active u" "u_locked_until u = None"
    and "verify_password E pw (if u_password_hash u \<noteq> None then u_password_hash u else Some (ce_dummy_hash E)) = Inr True"
    and "user_organizations (put_user (unlocked u) s) (u_id u) slug = (m, org) # rest"
    and "add_session E 0 0 (unlocked u) org (m_role m) (put_user (unlocked u) s) = (Inr r, s')"
  shows "login E email pw slug s = (Inr r, s')"
proof -
  have "u_id (unlocked u) = u_id u" by (simp add: unlocked_def)
  with assms show ?thesis by (auto simp: login_def Let_def split: if_splits)
qed

lemma add_session_fresh:
  assumes "\<not> list_ex (\<lambda>r. as_token_hash r = hash_token E (''efs_'' @ token_urlsafe E k)) (auth_sessions s)"
  obtains r s' where "add_session E d k user org role s = (Inr r, s')" "tk_user r = user" "tk_org r = org"
  using assms by (auto simp: add_session_def new_session_token_def Let_def)

section \<open>Properties\<close>

text \<open>
  C7: a request is served as a principal only on the configured system key, on no key at all where no
  key is configured outside production, or on a token whose stored hash belongs to a session or API key
  that is neither revoked nor expired and whose user is active and still a member of the organisation,
  with exactly the role of that membership. Authenticating writes at most the keys' last use.
\<close>

theorem principal_is_authentic:
  assumes "get_current_principal E xk auth s = (Inr p, s')"
  shows "s'\<lparr>api_keys := api_keys s\<rparr> = s \<and>
    (case p_auth p of
       SystemApiKey \<Rightarrow> p = unowned_principal SystemApiKey \<and> is_set (supplied_key xk auth) \<and>
         supplied_key xk auth = api_key (ce_conf E)
     | Development \<Rightarrow> p = unowned_principal Development \<and> \<not> is_set (supplied_key xk auth) \<and>
         \<not> is_set (api_key (ce_conf E)) \<and> environment (ce_conf E) \<noteq> ''production''
     | SessionToken \<Rightarrow> session_backs E (the (supplied_key xk auth)) s p \<and> member_as s p \<and> s' = s
     | ApiKeyToken \<Rightarrow> key_backs E (the (supplied_key xk auth)) s p \<and> member_as s p)"
proof -
  consider "p_auth p = SystemApiKey" "p = unowned_principal SystemApiKey" "s' = s"
      "is_set (supplied_key xk auth)" "supplied_key xk auth = api_key (ce_conf E)"
    | "p_auth p = Development" "p = unowned_principal Development" "s' = s"
      "\<not> is_set (supplied_key xk auth)" "\<not> is_set (api_key (ce_conf E))" "environment (ce_conf E) \<noteq> ''production''"
    | "authenticate_opaque_token E (the (supplied_key xk auth)) s = (Some p, s')"
    using get_current_principal_Inr [OF assms] by blast
  then show ?thesis
  proof cases
    case 3
    from authenticate_opaque_token_Some [OF this] show ?thesis by auto
  qed simp_all
qed

text \<open>
  C15: once wrong passwords have brought an account's count to the limit, every login in the following
  fifteen minutes fails and changes nothing, the right password and every organisation included.
\<close>

theorem repeated_failures_lock_account:
  assumes "list_all (\<lambda>(E, pw). verify_password E pw (Some h) = Inr False) (tries @ [(E, pw)])"
    and "attempt_pending email h s u" and "u_locked_until u = None"
    and "u_failed u + length (tries @ [(E, pw)]) = MAX_FAILED_LOGIN_ATTEMPTS"
    and "ce_now E' < ce_now E + minutes LOGIN_LOCK_MINUTES"
  shows "\<exists>e. login E' email pw' slug (after_attempts email (tries @ [(E, pw)]) s) =
    (Inl e, after_attempts email (tries @ [(E, pw)]) s)"
proof -
  obtain u' where "attempt_pending email h (after_attempts email (tries @ [(E, pw)]) s) u'"
    "u_locked_until u' = Some (ce_now E + minutes LOGIN_LOCK_MINUTES)"
    using attempts_lock [OF assms(1-4)] by blast
  with login_locked [OF _ _ _ assms(5)] show ?thesis by (metis attempt_pending_def prod.collapse)
qed

text \<open>
  C16: the token of a session that has logged out is never accepted again, whatever requests of this
  router follow and whenever it is presented (the configured system key apart, which is not a token).
\<close>

theorem logout_is_final:
  assumes "get_current_principal E xk auth s = (Inr p, s1)" and "p_auth p = SessionToken"
    and "auth_step\<^sup>*\<^sup>* (snd (logout E1 p s1)) s2"
    and "hash_token E2 (the (supplied_key xk auth)) = hash_token E (the (supplied_key xk auth))"
    and "api_key (ce_conf E2) \<noteq> supplied_key xk auth"
  shows "\<exists>e. get_current_principal E2 xk auth s2 = (Inl e, s2)"
proof -
  let ?tok = "the (supplied_key xk auth)"
  from get_current_principal_Inr [OF assms(1)] assms(2)
  have set: "is_set (supplied_key xk auth)" and tok: "authenticate_opaque_token E ?tok s = (Some p, s1)"
    by (auto simp: unowned_principal_def)
  from tok assms(2) obtain r where s1: "s1 = s" and r: "find (\<lambda>r. as_token_hash r = hash_token E ?tok) (auth_sessions s) = Some r"
    and p: "p_session p = Some (as_id r)"
    by (auto simp: authenticate_opaque_token_def Let_def split: if_splits option.splits)
  have "\<exists>r'. find (\<lambda>r. as_token_hash r = hash_token E ?tok) (auth_sessions (snd (logout E1 p s1))) = Some r' \<and>
      as_revoked r' \<noteq> None"
    using r by (simp add: logout_def p s1 find_update_where)
  then obtain r' where "find (\<lambda>r. as_token_hash r = hash_token E ?tok) (auth_sessions s2) = Some r'" "as_revoked r' \<noteq> None"
    using revoked_for_good [OF assms(3)] by blast
  then have "authenticate_opaque_token E2 ?tok s2 = (None, s2)"
    using revoked_refused [of E2 ?tok s2 r'] assms(4) by simp
  with get_current_principal_token [OF set assms(5), of s2] show ?thesis
    by (simp add: authentication_error_def http_def)
qed

text \<open>
  a password change needs the current password, stores a hash of the new one for that user alone,
  and leaves the user with no live session but the one that made the request; other users' sessions
  are untouched.
\<close>

theorem change_password_ends_other_sessions:
  assumes "change_password E cur new p s = (Inr (), s')"
  shows "\<exists>u hash. p_user p = Some (u_id u) \<and> user_by_id s (u_id u) = Some u \<and> u_active u \<and>
    verify_password E cur (u_password_hash u) = Inr True \<and> hash_password E 0 new = Inr hash \<and>
    user_by_id s' (u_id u) = Some (u\<lparr>u_password_hash := Some hash\<rparr>) \<and>
    filter (\<lambda>x. u_id x \<noteq> u_id u) (users s') = filter (\<lambda>x. u_id x \<noteq> u_id u) (users s) \<and>
    list_all (\<lambda>r. as_user r = u_id u \<longrightarrow> as_revoked r \<noteq> None \<or> p_session p = Some (as_id r)) (auth_sessions s') \<and>
    filter (\<lambda>r. as_user r \<noteq> u_id u) (auth_sessions s') = filter (\<lambda>r. as_user r \<noteq> u_id u) (auth_sessions s)"
proof -
  from assms obtain u hash where req: "require_user s p = Inr u"
    and cur: "verify_password E cur (u_password_hash u) = Inr True" and hash: "hash_password E 0 new = Inr hash"
    and us: "users s' = users (put_user (u\<lparr>u_password_hash := Some hash\<rparr>) s)"
    and ss: "auth_sessions s' = update_where (\<lambda>r. as_user r = u_id u \<and> as_revoked r = None \<and>
       (is_set (p_session p) \<longrightarrow> Some (as_id r) \<noteq> p_session p))
       (\<lambda>r. r\<lparr>as_revoked := Some (ce_now E)\<rparr>) (auth_sessions s)"
    by (rule change_password_Inr)
  from require_user_Inr [OF req] have u: "p_user p = Some (u_id u)" "user_by_id s (u_id u) = Some u" "u_active u"
    by auto
  have "user_by_id s' (u_id u) = Some (u\<lparr>u_password_hash := Some hash\<rparr>)"
    using u(2) by (auto simp: user_by_id_def us intro: find_put)
  moreover have "filter (\<lambda>x. u_id x \<noteq> u_id u) (users s') = filter (\<lambda>x. u_id x \<noteq> u_id u) (users s)"
  proof -
    have "filter (\<lambda>x. u_id x \<noteq> u_id u) (update_where (\<lambda>x. u_id x = u_id u) (\<lambda>_. u\<lparr>u_password_hash := Some hash\<rparr>) us) =
        filter (\<lambda>x. u_id x \<noteq> u_id u) us" for us
      by (induction us) (auto simp: update_where_def)
    then show ?thesis by (simp add: us put_user_def)
  qed
  moreover have "list_all (\<lambda>r. as_user r = u_id u \<longrightarrow> as_revoked r \<noteq> None \<or> p_session p = Some (as_id r)) (auth_sessions s')"
    by (auto simp: ss list_all_iff set_update_where is_set_def split: option.splits)
  moreover have "filter (\<lambda>r. as_user r \<noteq> u_id u) (auth_sessions s') = filter (\<lambda>r. as_user r \<noteq> u_id u) (auth_sessions s)"
    unfolding ss by (subst update_where_filter) (auto intro!: update_where_untouched)
  ultimately show ?thesis using u cur hash by blast
qed

text \<open>
  C22: a successful login answers the account of that address, with the password verified, an
  organisation it belongs to (the one asked for, when one is) and the role it has there; and until it
  expires the token authenticates as exactly that user, organisation and role.
\<close>

theorem login_token_authenticates:
  assumes "login E email pw slug s = (Inr r, s')"
    and "distinct (map (\<lambda>m. (m_org m, m_user m)) (memberships s))"
    and "hash_token E' (tk_access_token r) = hash_token E (tk_access_token r)"
    and "ce_now E' < ce_now E + hours (session_ttl_hours (ce_conf E))"
  shows "u_email (tk_user r) = email \<and> (is_set slug \<longrightarrow> slug = Some (o_slug (tk_org r))) \<and>
    (\<exists>m \<in> set (memberships s). m_user m = u_id (tk_user r) \<and> m_org m = o_id (tk_org r) \<and> m_role m = tk_role r) \<and>
    (\<exists>h. verify_password E pw (Some h) = Inr True) \<and>
    (\<exists>p. authenticate_opaque_token E' (tk_access_token r) s' = (Some p, s') \<and> p_auth p = SessionToken \<and>
       p_user p = Some (u_id (tk_user r)) \<and> p_org p = o_id (tk_org r) \<and> p_role p = tk_role r)"
proof -
  from assms(1) obtain u h m where u: "find (\<lambda>u. u_email u = email) (users s) = Some u" "u_active u"
    and h: "verify_password E pw (Some h) = Inr True"
    and m: "(m, tk_org r) \<in> set (user_organizations (put_user (unlocked u) s) (u_id u) slug)"
    and add: "add_session E 0 0 (unlocked u) (tk_org r) (m_role m) (put_user (unlocked u) s) = (Inr r, s')"
    by (rule login_Inr)
  let ?s = "put_user (unlocked u) s"
  have u1: "u_id (unlocked u) = u_id u" "u_active (unlocked u)" "u_email (unlocked u) = email"
    using u find_SomeD [OF u(1)] by (simp_all add: unlocked_def)
  have user: "tk_user r = unlocked u" "tk_role r = m_role m" "tk_expires_at r = ce_now E + hours (session_ttl_hours (ce_conf E))"
    using add_session_Inr [OF add] by simp_all
  have s': "memberships s' = memberships s" "users s' = users ?s"
    using add_session_Inr [OF add] by (metis (no_types, lifting) db.select_convs db.surjective db.update_convs put_user_tables)+
  have member: "m \<in> set (memberships s)" "m_org m = o_id (tk_org r)" "m_user m = u_id u"
    "is_set slug \<longrightarrow> slug = Some (o_slug (tk_org r))"
    using user_organizations_member [OF m] by simp_all
  have "unlocked u \<in> set (users ?s)" using find_SomeD [OF u(1)] by (auto simp: u1 intro!: put_user_present)
  then have act: "active_membership s' (u_id u) (o_id (tk_org r)) = Some m"
    using active_membership_unique [of s' m "unlocked u"] assms(2) member u1 s' by simp
  from add_session_Inr [OF add] act assms(3,4) user u1
  have "authenticate_opaque_token E' (tk_access_token r) s' =
    (Some \<lparr>p_user = Some (u_id u), p_org = o_id (tk_org r), p_role = m_role m, p_auth = SessionToken,
           p_session = Some (ce_uuid E 0), p_api_key = None\<rparr>, s')"
    by (intro session_token_authenticates [THEN trans]) auto
  with member h user u1 show ?thesis by auto
qed

text \<open>
  bootstrap succeeds only with the configured token on a database without users, and creates the
  owner; from then on, whatever requests of this router come between, every bootstrap is refused and
  changes nothing.
\<close>

theorem bootstrap_only_once:
  assumes "bootstrap E email pw dn on os tok s = (Inr r, s1)" and "auth_step\<^sup>*\<^sup>* s1 s2"
  shows "users s = [] \<and> is_set tok \<and> tok = bootstrap_token (ce_conf E) \<and> tk_role r = Owner \<and>
    (\<exists>e. bootstrap E2 email2 pw2 dn2 on2 os2 tok2 s2 = (Inl e, s2))"
proof -
  have "users s1 \<noteq> []" using bootstrap_Inr [OF assms(1)] by auto
  with assms(2) have "users s2 \<noteq> []" by (induction rule: rtranclp_induct) (auto dest: auth_step_users)
  with bootstrap_refused [of s2 E2 email2 pw2 dn2 on2 os2 tok2] bootstrap_Inr [OF assms(1)] show ?thesis by auto
qed


text \<open>
  C18: an account without a password (one meant for an identity provider) opens with the constant whose
  hash the login compares unknown users against: the comparison succeeds, and nothing later asks whether
  the account had a hash of its own.
\<close>

theorem passwordless_account_opens_with_dummy_password:
  assumes "hash_password E d dummy_password = Inr (ce_dummy_hash E)"
    and "\<And>q salt h. ce_scrypt E q salt SCRYPT_N SCRYPT_R SCRYPT_P 32 = Inr h \<Longrightarrow> length h = 32"
    and "find (\<lambda>u. u_email u = email) (users s) = Some u" and "u_active u" and "u_password_hash u = None"
    and "u_locked_until u = None"
    and "m \<in> set (memberships s)" and "m_user m = u_id u" and "org \<in> set (orgs s)" and "o_id org = m_org m"
    and "\<not> list_ex (\<lambda>r. as_token_hash r = hash_token E (''efs_'' @ token_urlsafe E 0)) (auth_sessions s)"
  shows "\<exists>r s'. login E email dummy_password None s = (Inr r, s') \<and> tk_user r = unlocked u"
proof -
  from hash_password_Inr [OF assms(1)] obtain digest where
    "ce_scrypt E dummy_password (ce_random E d) SCRYPT_N SCRYPT_R SCRYPT_P 32 = Inr digest" by blast
  with verify_hashed [OF assms(1,2), where q = dummy_password and d = digest]
  have good: "verify_password E dummy_password (Some (ce_dummy_hash E)) = Inr True" by simp
  have "(m, org) \<in> set (user_organizations (put_user (unlocked u) s) (u_id u) None)"
    using assms(7-10) by (simp add: user_organizations_def is_set_def)
  then obtain m' org' rest where orgs: "user_organizations (put_user (unlocked u) s) (u_id u) None = (m', org') # rest"
    by (cases "user_organizations (put_user (unlocked u) s) (u_id u) None") auto
  have "\<not> list_ex (\<lambda>r. as_token_hash r = hash_token E (''efs_'' @ token_urlsafe E 0))
      (auth_sessions (put_user (unlocked u) s))" using assms(11) by simp
  from add_session_fresh [OF this, of 0 "unlocked u" org' "m_role m'"] obtain r s' where
    r: "add_session E 0 0 (unlocked u) org' (m_role m') (put_user (unlocked u) s) = (Inr r, s')" "tk_user r = unlocked u"
    by blast
  have "login E email dummy_password None s = (Inr r, s')"
    by (rule login_good_password [OF assms(3,4,6) _ orgs r(1)]) (simp add: assms(5) good)
  with r(2) show ?thesis by blast
qed

section \<open>Witnesses\<close>

definition plain_user :: "string \<Rightarrow> user_row" where
  "plain_user h = \<lparr>u_id = ''u1'', u_email = ''ada@example.com'', u_display_name = ''Ada'',
     u_password_hash = Some h, u_active = True, u_failed = 0, u_locked_until = None, u_created = 0\<rparr>"

definition plain_auth_db :: "string \<Rightarrow> db" where
  "plain_auth_db h = empty_db\<lparr>users := [plain_user h],
     orgs := [\<lparr>o_id = ''o1'', o_name = ''Acme'', o_slug = ''acme'', o_created = 0\<rparr>],
     memberships := [\<lparr>m_org = ''o1'', m_user = ''u1'', m_role = Admin, m_created = 0\<rparr>],
     auth_sessions := [\<lparr>as_id = ''s1'', as_user = ''u1'', as_org = ''o1'', as_token_hash = ''tok'',
       as_expires = 100, as_revoked = None, as_created = 0\<rparr>]\<rparr>"

definition plain_session_principal :: principal where
  "plain_session_principal = \<lparr>p_user = Some ''u1'', p_org = ''o1'', p_role = Admin, p_auth = SessionToken,
     p_session = Some ''s1'', p_api_key = None\<rparr>"

lemma plain_principal:
  "get_current_principal plain_credentials None (Some ''Bearer tok'') (plain_auth_db h) =
    (Inr plain_session_principal, plain_auth_db h)"
proof -
  have "supplied_key None (Some ''Bearer tok'') = Some ''tok''" by code_simp
  then show ?thesis
    by (simp add: get_current_principal_def is_set_def plain_credentials_def default_settings_def
        authenticate_opaque_token_def hash_token_def plain_auth_db_def active_membership_def plain_user_def
        is_expired_def plain_session_principal_def)
qed

theorem principal_is_authentic_witness:
  "session_backs plain_credentials (the (supplied_key None (Some ''Bearer tok''))) (plain_auth_db [])
     plain_session_principal \<and> member_as (plain_auth_db []) plain_session_principal"
  using principal_is_authentic [OF plain_principal [of "[]"]]
  by (simp add: plain_session_principal_def)

lemma plain_wrong: "verify_password plain_credentials pw (Some ''x'') = Inr False"
proof -
  have "py_split_max dollar 5 ''x'' = [''x'']" by code_simp
  then show ?thesis by (simp add: verify_password_def check_password_def caught_by_verify_def)
qed

theorem repeated_failures_lock_account_witness:
  "\<exists>e. login plain_credentials ''ada@example.com'' ''right'' (Some ''acme'')
     (after_attempts ''ada@example.com'' (replicate 4 (plain_credentials, ''guess'') @ [(plain_credentials, ''guess'')])
        (plain_auth_db ''x'')) =
     (Inl e, after_attempts ''ada@example.com'' (replicate 4 (plain_credentials, ''guess'') @ [(plain_credentials, ''guess'')])
        (plain_auth_db ''x''))"
  by (rule repeated_failures_lock_account [where h = "''x''" and u = "plain_user ''x''"])
     (simp_all add: eval_nat_numeral plain_wrong attempt_pending_def plain_auth_db_def plain_user_def MAX_FAILED_LOGIN_ATTEMPTS_def
        minutes_def LOGIN_LOCK_MINUTES_def)

theorem logout_is_final_witness:
  "\<exists>e. get_current_principal plain_credentials None (Some ''Bearer tok'')
     (snd (logout plain_credentials plain_session_principal (plain_auth_db []))) =
     (Inl e, snd (logout plain_credentials plain_session_principal (plain_auth_db [])))"
proof (rule logout_is_final [OF plain_principal [of "[]"] _ rtranclp.rtrancl_refl [where r = auth_step]])
  have "supplied_key None (Some ''Bearer tok'') = Some ''tok''" by code_simp
  then show "api_key (ce_conf plain_credentials) \<noteq> supplied_key None (Some ''Bearer tok'')"
    by (simp add: plain_credentials_def default_settings_def)
qed (simp_all add: plain_session_principal_def)

lemma plain_hash:
  obtains h where "hash_password plain_credentials 1 ''correct horse'' = Inr h"
    "verify_password plain_credentials ''correct horse'' (Some h) = Inr True"
proof -
  obtain h where h: "hash_password plain_credentials 1 ''correct horse'' = Inr h"
    by (simp add: hash_password_def plain_scrypt Let_def)
  have "length d = 32" if "ce_scrypt plain_credentials q salt SCRYPT_N SCRYPT_R SCRYPT_P 32 = Inr d"
    for q salt d using that by (auto simp: plain_scrypt)
  from verify_hashed [OF h this, where q = "''correct horse''" and d = "replicate 32 (word_of_nat (length ''correct horse''))"]
  have "verify_password plain_credentials ''correct horse'' (Some h) = Inr True"
    by (simp add: plain_scrypt)
  with h that show thesis by blast
qed

theorem change_password_ends_other_sessions_witness:
  "\<exists>h hash s'. change_password plain_credentials ''correct horse'' ''battery staple'' plain_session_principal
     (plain_auth_db h) = (Inr (), s') \<and> user_by_id s' ''u1'' = Some (plain_user hash)"
proof -
  obtain h where h: "verify_password plain_credentials ''correct horse'' (Some h) = Inr True" by (rule plain_hash)
  obtain s' where s': "change_password plain_credentials ''correct horse'' ''battery staple'' plain_session_principal
      (plain_auth_db h) = (Inr (), s')"
    using h by (simp add: change_password_def require_user_def plain_session_principal_def user_by_id_def
        plain_auth_db_def plain_user_def hash_password_def plain_scrypt Let_def)
  from change_password_ends_other_sessions [OF s'] obtain u hash where
    "p_user plain_session_principal = Some (u_id u)" "user_by_id (plain_auth_db h) (u_id u) = Some u"
    "user_by_id s' (u_id u) = Some (u\<lparr>u_password_hash := Some hash\<rparr>)" by blast
  moreover have "user_by_id (plain_auth_db h) ''u1'' = Some (plain_user h)"
    by (simp add: user_by_id_def plain_auth_db_def plain_user_def)
  ultimately have "user_by_id s' ''u1'' = Some (plain_user h\<lparr>u_password_hash := Some hash\<rparr>)"
    by (auto simp: plain_session_principal_def)
  then have "user_by_id s' ''u1'' = Some (plain_user hash)" by (simp add: plain_user_def)
  with s' show ?thesis by blast
qed

theorem login_token_authenticates_witness:
  "\<exists>h r s' p. login plain_credentials ''ada@example.com'' ''correct horse'' (Some ''acme'') (plain_auth_db h) = (Inr r, s') \<and>
     authenticate_opaque_token plain_credentials (tk_access_token r) s' = (Some p, s') \<and> p_role p = tk_role r"
proof -
  obtain h where h: "verify_password plain_credentials ''correct horse'' (Some h) = Inr True" by (rule plain_hash)
  have row: "user_organizations (put_user (unlocked (plain_user h)) (plain_auth_db h)) ''u1'' (Some ''acme'') =
      [(\<lparr>m_org = ''o1'', m_user = ''u1'', m_role = Admin, m_created = 0\<rparr>,
        \<lparr>o_id = ''o1'', o_name = ''Acme'', o_slug = ''acme'', o_created = 0\<rparr>)]"
    by (simp add: user_organizations_def plain_auth_db_def is_set_def)
  obtain r s' where r: "login plain_credentials ''ada@example.com'' ''correct horse'' (Some ''acme'') (plain_auth_db h) = (Inr r, s')"
    using h row by (simp add: login_def plain_auth_db_def plain_user_def unlocked_def add_session_def
        new_session_token_def Let_def put_user_def update_where_def hash_token_def plain_credentials_def)
  from login_token_authenticates [OF r, of plain_credentials] r show ?thesis
    by (fastforce simp: plain_auth_db_def plain_credentials_def default_settings_def hours_def)
qed

theorem bootstrap_only_once_witness:
  "\<exists>r s1 e. bootstrap plain_credentials ''ada@example.com'' ''correct horse'' ''Ada'' ''Acme'' ''acme'' (Some ''boot'') empty_db =
     (Inr r, s1) \<and> bootstrap plain_credentials ''eve@example.com'' ''x'' ''Eve'' ''Acme'' ''acme'' (Some ''boot'') s1 = (Inl e, s1)"
proof -
  have ok: "compare_digest ''boot'' ''boot'' = Inr True" by code_simp
  obtain r s1 where r: "bootstrap plain_credentials ''ada@example.com'' ''correct horse'' ''Ada'' ''Acme'' ''acme''
      (Some ''boot'') empty_db = (Inr r, s1)"
    using ok by (simp add: bootstrap_def empty_db_def add_session_def new_session_token_def Let_def is_set_def
        hash_password_def plain_scrypt plain_credentials_def [THEN arg_cong, of ce_conf] default_settings_def)
  from bootstrap_only_once [OF r rtranclp.rtrancl_refl [where r = auth_step]] r show ?thesis by blast
qed


theorem passwordless_account_opens_with_dummy_password_witness:
  "\<exists>h r s'. login (plain_credentials\<lparr>ce_dummy_hash := h\<rparr>) ''ada@example.com'' dummy_password None
     (plain_auth_db []\<lparr>users := [plain_user []\<lparr>u_password_hash := None\<rparr>]\<rparr>) = (Inr r, s')"
proof -
  obtain h where h: "hash_password plain_credentials 1 dummy_password = Inr h"
    by (simp add: hash_password_def plain_scrypt Let_def)
  let ?E = "plain_credentials\<lparr>ce_dummy_hash := h\<rparr>"
  have "hash_password ?E 1 dummy_password = Inr (ce_dummy_hash ?E)"
    using h by (simp add: hash_password_def)
  moreover have "length d = 32" if "ce_scrypt ?E q salt SCRYPT_N SCRYPT_R SCRYPT_P 32 = Inr d" for q salt d
    using that by (auto simp: plain_scrypt)
  ultimately show ?thesis
    using passwordless_account_opens_with_dummy_password [where E = ?E and email = "''ada@example.com''" and d = 1
        and s = "plain_auth_db []\<lparr>users := [plain_user []\<lparr>u_password_hash := None\<rparr>]\<rparr>"
        and u = "plain_user []\<lparr>u_password_hash := None\<rparr>" and m = "\<lparr>m_org = ''o1'', m_user = ''u1'', m_role = Admin, m_created = 0\<rparr>"
        and org = "\<lparr>o_id = ''o1'', o_name = ''Acme'', o_slug = ''acme'', o_created = 0\<rparr>"]
    by (auto simp: plain_auth_db_def plain_user_def hash_token_def plain_credentials_def)
qed

end
