(* ===== verification/Organizations.thy ===== *)
theory Organizations imports Auth_Api begin

text \<open>
  \<open>backend/app/api/organizations.py\<close>: organisations and their members. Roles arrive validated by the
  payload schemas. Memberships have the primary key (organisation, user) and foreign keys to both.
\<close>

section \<open>Handlers\<close>

definition require_user_id :: "principal \<Rightarrow> string response" where
  "require_user_id p =
     (case p_user p of
        None \<Rightarrow> http 403 ''This operation requires a user credential''
      | Some uid \<Rightarrow> Inr uid)"

definition membership_of :: "db \<Rightarrow> string \<Rightarrow> string \<Rightarrow> membership_row option" where
  "membership_of s org uid = find (\<lambda>m. m_org m = org \<and> m_user m = uid) (memberships s)"

definition membership_or_404 :: "db \<Rightarrow> string \<Rightarrow> string \<Rightarrow> membership_row response" where
  "membership_or_404 s org uid =
     (case membership_of s org uid of None \<Rightarrow> http 404 ''Member not found'' | Some m \<Rightarrow> Inr m)"

definition owner_count :: "db \<Rightarrow> string \<Rightarrow> nat" where
  "owner_count s org = length (filter (\<lambda>m. m_org m = org \<and> m_role m = Owner) (memberships s))"

definition ensure_not_last_owner :: "db \<Rightarrow> string \<Rightarrow> unit response" where
  "ensure_not_last_owner s org =
     (if owner_count s org \<le> 1 then http 409 ''An organization must retain at least one owner'' else Inr ())"

text \<open>Inserting a membership, under its keys.\<close>

definition insert_membership :: "membership_row \<Rightarrow> db \<Rightarrow> exn + db" where
  "insert_membership m s =
     (if membership_of s (m_org m) (m_user m) \<noteq> None \<or> \<not> list_ex (\<lambda>u. u_id u = m_user m) (users s) \<or>
         \<not> list_ex (\<lambda>o'. o_id o' = m_org m) (orgs s)
      then Inl (Exn IntegrityErr ''constraint violated on table memberships'')
      else Inr (s\<lparr>memberships := memberships s @ [m]\<rparr>))"

definition list_organizations :: "principal \<Rightarrow> db \<Rightarrow> (org_row \<times> role) list response" where
  "list_organizations p s =
     and_then (require_user_id p) (\<lambda>uid.
     Inr (map (\<lambda>(m, o'). (o', m_role m))
       (sort_key (\<lambda>(m, o'). (o_name o', o_slug o'))
         (filter (\<lambda>(m, o'). o_id o' = m_org m \<and> m_user m = uid) (List.product (memberships s) (orgs s))))))"

definition current_organization :: "principal \<Rightarrow> db \<Rightarrow> org_row response" where
  "current_organization p s =
     (case find (\<lambda>o'. o_id o' = p_org p) (orgs s) of
        None \<Rightarrow> http 404 ''Active organization not found''
      | Some o' \<Rightarrow> Inr o')"

definition create_organization ::
  "credential_env \<Rightarrow> string \<Rightarrow> string \<Rightarrow> principal \<Rightarrow> db \<Rightarrow> org_row response \<times> db" where
  "create_organization E name slug p s =
     (case require_user_id p of
        Inl e \<Rightarrow> (Inl e, s)
      | Inr uid \<Rightarrow>
          if list_ex (\<lambda>o'. o_slug o' = slug) (orgs s) then (http 409 ''Organization slug already exists'', s)
          else
            let org = \<lparr>o_id = ce_uuid E 0, o_name = name, o_slug = slug, o_created = ce_now E\<rparr>
            in (case insert_membership
                       \<lparr>m_org = o_id org, m_user = uid, m_role = Owner, m_created = ce_now E\<rparr>
                       (s\<lparr>orgs := orgs s @ [org]\<rparr>) of
                  Inl exc \<Rightarrow> (Inl (Unhandled exc), s)
                | Inr s' \<Rightarrow> (Inr org, s')))"

definition list_members :: "principal \<Rightarrow> db \<Rightarrow> (user_row \<times> role \<times> int) list" where
  "list_members p s =
     map (\<lambda>(m, u). (u, m_role m, m_created m))
       (sort_key (\<lambda>(m, u). u_email u)
         (filter (\<lambda>(m, u). u_id u = m_user m \<and> m_org m = p_org p) (List.product (memberships s) (users s))))"

text \<open>The account to add: the one with the address, or a new one, which needs a password.\<close>

definition member_account ::
  "credential_env \<Rightarrow> string \<Rightarrow> string \<Rightarrow> string option \<Rightarrow> db \<Rightarrow> (user_row \<times> db) response" where
  "member_account E email display_name password s =
     (case find (\<lambda>u. u_email u = email) (users s) of
        None \<Rightarrow>
          (case password of
             None \<Rightarrow> http 422 ''A temporary password is required when creating a new user''
           | Some pw \<Rightarrow>
               (case hash_password E 0 pw of
                  Inl exc \<Rightarrow> Inl (Unhandled exc)
                | Inr hash \<Rightarrow>
                    let u = \<lparr>u_id = ce_uuid E 0, u_email = email, u_display_name = display_name,
                             u_password_hash = Some hash, u_active = True, u_failed = 0,
                             u_locked_until = None, u_created = ce_now E\<rparr>
                    in Inr (u, s\<lparr>users := users s @ [u]\<rparr>)))
      | Some u \<Rightarrow> if \<not> u_active u then http 409 ''User is disabled'' else Inr (u, s))"

definition add_member ::
  "credential_env \<Rightarrow> string \<Rightarrow> string \<Rightarrow> string option \<Rightarrow> role \<Rightarrow> principal \<Rightarrow> db \<Rightarrow>
   (user_row \<times> role \<times> int) response \<times> db" where
  "add_member E email display_name password role p s =
     (case and_then (require_role p Admin) (\<lambda>_.
           and_then (if role = Owner then require_role p Owner else Inr ()) (\<lambda>_.
           and_then (member_account E email display_name password s) (\<lambda>(u, s1).
           if membership_of s1 (p_org p) (u_id u) \<noteq> None then
             http 409 ''User is already a member of this organization''
           else
             (case insert_membership
                     \<lparr>m_org = p_org p, m_user = u_id u, m_role = role, m_created = ce_now E\<rparr> s1 of
                Inl exc \<Rightarrow> Inl (Unhandled exc)
              | Inr s2 \<Rightarrow> Inr ((u, role, ce_now E), s2))))) of
        Inl e \<Rightarrow> (Inl e, s)
      | Inr (answer_row, s') \<Rightarrow> (Inr answer_row, s'))"

definition put_role :: "string \<Rightarrow> string \<Rightarrow> role \<Rightarrow> db \<Rightarrow> db" where
  "put_role org uid role s =
     s\<lparr>memberships := update_where (\<lambda>m. m_org m = org \<and> m_user m = uid) (\<lambda>m. m\<lparr>m_role := role\<rparr>)
        (memberships s)\<rparr>"

definition update_member ::
  "string \<Rightarrow> role \<Rightarrow> principal \<Rightarrow> db \<Rightarrow> (user_row \<times> role \<times> int) response \<times> db" where
  "update_member user_id role p s =
     (case and_then (require_role p Admin) (\<lambda>_.
           and_then (membership_or_404 s (p_org p) user_id) (\<lambda>m.
           and_then (if m_role m = Owner \<or> role = Owner then require_role p Owner else Inr ()) (\<lambda>_.
           and_then (if m_role m = Owner \<and> role \<noteq> Owner then ensure_not_last_owner s (p_org p) else Inr ())
             (\<lambda>_. Inr m)))) of
        Inl e \<Rightarrow> (Inl e, s)
      | Inr m \<Rightarrow>
          let s' = put_role (p_org p) user_id role s
          in (case user_by_id s' user_id of
                None \<Rightarrow> (Inl (Unhandled (Exn RuntimeErr ''AssertionError'')), s')
              | Some u \<Rightarrow> (Inr (u, role, m_created m), s')))"

text \<open>Removal reads and checks first, then deletes: two statements of one request.\<close>

definition removal_allowed :: "string \<Rightarrow> principal \<Rightarrow> db \<Rightarrow> unit response" where
  "removal_allowed user_id p s =
     and_then (require_role p Admin) (\<lambda>_.
     and_then (membership_or_404 s (p_org p) user_id) (\<lambda>m.
     if m_role m = Owner then
       and_then (require_role p Owner) (\<lambda>_. ensure_not_last_owner s (p_org p))
     else Inr ()))"

definition delete_membership :: "string \<Rightarrow> string \<Rightarrow> db \<Rightarrow> db" where
  "delete_membership org uid s =
     s\<lparr>memberships := filter (\<lambda>m. \<not> (m_org m = org \<and> m_user m = uid)) (memberships s)\<rparr>"

definition remove_member :: "string \<Rightarrow> principal \<Rightarrow> db \<Rightarrow> unit response \<times> db" where
  "remove_member user_id p s =
     (case removal_allowed user_id p s of
        Inl e \<Rightarrow> (Inl e, s)
      | Inr _ \<Rightarrow> (Inr (), delete_membership (p_org p) user_id s))"

section \<open>Memberships are well formed\<close>

definition owned :: "db \<Rightarrow> string \<Rightarrow> bool" where
  "owned s org \<longleftrightarrow> list_ex (\<lambda>m. m_org m = org \<and> m_role m = Owner) (memberships s)"

definition member_key :: "membership_row \<Rightarrow> string \<times> string" where
  "member_key m = (m_org m, m_user m)"

definition tenancy_ok :: "db \<Rightarrow> bool" where
  "tenancy_ok s \<longleftrightarrow> distinct (map member_key (memberships s)) \<and>
     list_all (\<lambda>m. m_user m \<in> u_id ` set (users s) \<and> m_org m \<in> o_id ` set (orgs s)) (memberships s)"

named_theorems member_simps

lemma put_role_tables [simp]: "users (put_role org uid r s) = users s" "orgs (put_role org uid r s) = orgs s"
  by (simp_all add: put_role_def)

lemma delete_membership_tables [simp]:
  "users (delete_membership org uid s) = users s" "orgs (delete_membership org uid s) = orgs s"
  by (simp_all add: delete_membership_def)

lemma membership_of_SomeD:
  "membership_of s org uid = Some m \<Longrightarrow> m \<in> set (memberships s) \<and> m_org m = org \<and> m_user m = uid"
  unfolding membership_of_def by (drule find_SomeD) simp

lemma membership_of_None:
  "membership_of s org uid = None \<longleftrightarrow> (org, uid) \<notin> member_key ` set (memberships s)"
  by (auto simp: membership_of_def find_None_iff member_key_def image_iff)

lemma insert_membership_Inr:
  "insert_membership m s = Inr s' \<longleftrightarrow>
   s' = s\<lparr>memberships := memberships s @ [m]\<rparr> \<and> member_key m \<notin> member_key ` set (memberships s) \<and>
   m_user m \<in> u_id ` set (users s) \<and> m_org m \<in> o_id ` set (orgs s)"
  by (auto simp: insert_membership_def membership_of_None list_ex_iff image_iff member_key_def [of m])
     (metis+)

lemma require_role_Inr [member_simps]: "require_role p r = Inr x \<longleftrightarrow> r \<le> p_role p"
  using require_role_ok [of p r] by simp

lemma membership_or_404_Inr [member_simps]:
  "membership_or_404 s org uid = Inr m \<longleftrightarrow> membership_of s org uid = Some m"
  by (auto simp: membership_or_404_def http_def split: option.splits)

lemma ensure_not_last_owner_Inr [member_simps]: "ensure_not_last_owner s org = Inr x \<longleftrightarrow> 1 < owner_count s org"
  by (auto simp: ensure_not_last_owner_def http_def)

lemma another_owner:
  assumes "distinct (map member_key (memberships s))" "1 < owner_count s org"
  obtains m where "m \<in> set (memberships s)" "m_org m = org" "m_role m = Owner" "m_user m \<noteq> uid"
proof -
  define xs where "xs = filter (\<lambda>m. m_org m = org \<and> m_role m = Owner) (memberships s)"
  have two: "1 < length xs" using assms(2) by (simp add: owner_count_def xs_def)
  have "distinct (map member_key xs)" using assms(1) by (simp add: xs_def distinct_map_filter)
  then have "member_key (xs ! 0) \<noteq> member_key (xs ! 1)"
    using two nth_eq_iff_index_eq [of "map member_key xs" 0 1] by (cases xs) auto
  moreover have mem: "xs ! 0 \<in> set xs" "xs ! 1 \<in> set xs" using two by (auto intro!: nth_mem)
  ultimately have "m_user (xs ! 0) \<noteq> m_user (xs ! 1)" by (auto simp: member_key_def xs_def)
  with mem show thesis by (cases "m_user (xs ! 0) = uid") (auto simp: xs_def intro: that)
qed

lemma owned_put_role:
  assumes "m \<in> set (memberships s)" "m_org m = org" "m_role m = Owner" "m_org m = org' \<longrightarrow> m_user m \<noteq> uid \<or> r = Owner"
  shows "owned (put_role org' uid r s) org"
proof -
  let ?f = "\<lambda>m. if m_org m = org' \<and> m_user m = uid then m\<lparr>m_role := r\<rparr> else m"
  have "?f m \<in> set (memberships (put_role org' uid r s))" using assms(1) by (auto simp: put_role_def set_update_where)
  moreover have "m_org (?f m) = org" "m_role (?f m) = Owner" using assms(2-4) by auto
  ultimately show ?thesis unfolding owned_def list_ex_iff by blast
qed

lemma owned_delete:
  assumes "m \<in> set (memberships s)" "m_org m = org" "m_role m = Owner" "m_org m = org' \<longrightarrow> m_user m \<noteq> uid"
  shows "owned (delete_membership org' uid s) org"
  using assms by (auto simp: owned_def list_ex_iff delete_membership_def)

lemma tenancy_put_role: "tenancy_ok s \<Longrightarrow> tenancy_ok (put_role org uid r s)"
  by (auto simp: tenancy_ok_def put_role_def map_id_update_where member_key_def list_all_iff set_update_where)

lemma tenancy_delete: "tenancy_ok s \<Longrightarrow> tenancy_ok (delete_membership org uid s)"
  by (auto simp: tenancy_ok_def delete_membership_def list_all_iff distinct_map_filter)

lemma tenancy_insert:
  assumes "insert_membership m s = Inr s'" "tenancy_ok s"
  shows "tenancy_ok s'"
  using assms by (auto simp: tenancy_ok_def insert_membership_Inr list_all_iff)

lemma tenancy_more_users: "tenancy_ok s \<Longrightarrow> tenancy_ok (s\<lparr>users := users s @ us\<rparr>)"
  by (auto simp: tenancy_ok_def list_all_iff)

lemma tenancy_more_orgs: "tenancy_ok s \<Longrightarrow> tenancy_ok (s\<lparr>orgs := orgs s @ os\<rparr>)"
  by (auto simp: tenancy_ok_def list_all_iff)

section \<open>What each handler does to memberships\<close>

lemma create_organization_Inr:
  assumes "create_organization E name slug p s = (Inr org, s')"
  shows "\<exists>uid. p_user p = Some uid \<and> org \<in> set (orgs s') \<and>
    insert_membership \<lparr>m_org = o_id org, m_user = uid, m_role = Owner, m_created = ce_now E\<rparr>
      (s\<lparr>orgs := orgs s @ [org]\<rparr>) = Inr s'"
  using assms
  by (auto simp: create_organization_def require_user_id_def http_def Let_def insert_membership_Inr
      split: option.splits if_splits sum.splits)

lemma create_organization_Inl: "create_organization E name slug p s = (Inl e, s') \<Longrightarrow> s' = s"
  by (auto simp: create_organization_def require_user_id_def http_def Let_def split: option.splits if_splits sum.splits)

lemma member_account_Inr:
  assumes "member_account E email dn pw s = Inr (u, s1)"
  shows "u \<in> set (users s1) \<and> (\<exists>us. s1 = s\<lparr>users := users s @ us\<rparr>)"
proof (cases "find (\<lambda>u. u_email u = email) (users s)")
  case None
  with assms show ?thesis by (auto simp: member_account_def http_def Let_def split: option.splits sum.splits)
next
  case (Some x)
  with assms have "u = x" "s1 = s" by (auto simp: member_account_def http_def split: if_splits)
  with find_SomeD [OF Some] show ?thesis by (auto intro: exI [of _ "[]"])
qed

lemma add_member_Inr:
  assumes "add_member E email dn pw r p s = (Inr x, s')"
  obtains u s1 where "Admin \<le> p_role p" "r = Owner \<longrightarrow> p_role p = Owner"
    "member_account E email dn pw s = Inr (u, s1)" "x = (u, r, ce_now E)"
    "insert_membership \<lparr>m_org = p_org p, m_user = u_id u, m_role = r, m_created = ce_now E\<rparr> s1 = Inr s'"
proof -
  have "Owner \<le> a \<longleftrightarrow> a = Owner" for a by (cases a) (simp_all add: less_eq_role_def)
  moreover have "and_then (require_role p Admin) (\<lambda>_.
           and_then (if r = Owner then require_role p Owner else Inr ()) (\<lambda>_.
           and_then (member_account E email dn pw s) (\<lambda>(u, s1).
           if membership_of s1 (p_org p) (u_id u) \<noteq> None then
             http 409 ''User is already a member of this organization''
           else
             (case insert_membership
                     \<lparr>m_org = p_org p, m_user = u_id u, m_role = r, m_created = ce_now E\<rparr> s1 of
                Inl exc \<Rightarrow> Inl (Unhandled exc)
              | Inr s2 \<Rightarrow> Inr ((u, r, ce_now E), s2))))) = Inr (x, s')" (is "?c = _")
    using assms unfolding add_member_def by (cases ?c) auto
  ultimately show thesis
    by (auto simp: http_def and_then_Inr_iff member_simps split: if_splits sum.splits intro: that)
qed

lemma add_member_Inl: "add_member E email dn pw r p s = (Inl e, s') \<Longrightarrow> s' = s"
  by (auto simp: add_member_def split: sum.splits)

lemma update_member_cases:
  "(\<exists>e. update_member uid r p s = (Inl e, s)) \<or>
   snd (update_member uid r p s) = put_role (p_org p) uid r s \<and> Admin \<le> p_role p \<and>
   (\<exists>m. membership_of s (p_org p) uid = Some m \<and> (m_role m = Owner \<or> r = Owner \<longrightarrow> Owner \<le> p_role p) \<and>
        (m_role m = Owner \<and> r \<noteq> Owner \<longrightarrow> 1 < owner_count s (p_org p)))"
proof -
  let ?c = "and_then (require_role p Admin) (\<lambda>_.
           and_then (membership_or_404 s (p_org p) uid) (\<lambda>m.
           and_then (if m_role m = Owner \<or> r = Owner then require_role p Owner else Inr ()) (\<lambda>_.
           and_then (if m_role m = Owner \<and> r \<noteq> Owner then ensure_not_last_owner s (p_org p) else Inr ())
             (\<lambda>_. Inr m))))"
  show ?thesis
  proof (cases ?c)
    case (Inl e)
    then show ?thesis by (simp add: update_member_def)
  next
    case (Inr m)
    then have "snd (update_member uid r p s) = put_role (p_org p) uid r s"
      by (simp add: update_member_def Let_def split: option.splits)
    with Inr show ?thesis by (auto simp: and_then_Inr_iff member_simps split: if_splits)
  qed
qed

lemma remove_member_cases:
  "(\<exists>e. remove_member uid p s = (Inl e, s)) \<or>
   remove_member uid p s = (Inr (), delete_membership (p_org p) uid s) \<and> Admin \<le> p_role p \<and>
   (\<exists>m. membership_of s (p_org p) uid = Some m \<and>
        (m_role m = Owner \<longrightarrow> Owner \<le> p_role p \<and> 1 < owner_count s (p_org p)))"
proof (cases "removal_allowed uid p s")
  case (Inl e)
  then show ?thesis by (simp add: remove_member_def)
next
  case (Inr u)
  then have "remove_member uid p s = (Inr (), delete_membership (p_org p) uid s)"
    by (simp add: remove_member_def)
  with Inr show ?thesis by (auto simp: removal_allowed_def and_then_Inr_iff member_simps split: if_splits)
qed


section \<open>Requests over time\<close>

inductive tenancy_step :: "db \<Rightarrow> db \<Rightarrow> bool" where
  ts_auth: "auth_step s s' \<Longrightarrow> tenancy_step s s'"
| ts_create: "tenancy_step s (snd (create_organization E name slug p s))"
| ts_add: "tenancy_step s (snd (add_member E email dn pw r p s))"
| ts_update: "tenancy_step s (snd (update_member uid r p s))"
| ts_remove: "tenancy_step s (snd (remove_member uid p s))"

definition same_tenancy :: "db \<Rightarrow> db \<Rightarrow> bool" where
  "same_tenancy s s' \<longleftrightarrow> memberships s' = memberships s \<and> orgs s' = orgs s \<and>
     map u_id (users s') = map u_id (users s)"

definition first_owner :: "db \<Rightarrow> db \<Rightarrow> bool" where
  "first_owner s s' \<longleftrightarrow> users s = [] \<and>
     (\<exists>org u t. memberships s' = memberships s @ [\<lparr>m_org = o_id org, m_user = u_id u, m_role = Owner, m_created = t\<rparr>] \<and>
        org \<in> set (orgs s') \<and> u \<in> set (users s') \<and> set (orgs s') = insert org (set (orgs s)))"

lemma same_tenancy_refl [simp]: "same_tenancy s s"
  by (simp add: same_tenancy_def)

lemma same_tenancy_put_user [simp]: "same_tenancy s (put_user u s)"
  by (auto simp: same_tenancy_def put_user_def update_where_def)

lemma put_user_ids [simp]: "map u_id (users (put_user u s)) = map u_id (users s)"
  by (auto simp: put_user_def update_where_def)

lemma same_tenancy_sessions [simp]:
  "same_tenancy s (s'\<lparr>auth_sessions := x\<rparr>) \<longleftrightarrow> same_tenancy s s'"
  "same_tenancy s (s'\<lparr>api_keys := y\<rparr>) \<longleftrightarrow> same_tenancy s s'"
  by (simp_all add: same_tenancy_def)

lemma principal_tenancy: "same_tenancy s (snd (get_current_principal E xk auth s))"
  by (auto simp: get_current_principal_def authenticate_opaque_token_def Let_def
      split: sum.splits option.splits bool.splits prod.splits if_splits)

lemma bootstrap_tenancy:
  "same_tenancy s (snd (bootstrap E email pw dn on os tok s)) \<or> first_owner s (snd (bootstrap E email pw dn on os tok s))"
proof (cases "bootstrap E email pw dn on os tok s")
  case (Pair r s')
  show ?thesis
  proof (cases r)
    case (Inl e)
    with Pair have "s' = s" by (auto simp: bootstrap_def Let_def http_def split: sum.splits bool.splits if_splits prod.splits)
    with Pair show ?thesis by simp
  next
    case (Inr x)
    define org where "org = (case find (\<lambda>o'. o_slug o' = os) (orgs s) of None \<Rightarrow>
        \<lparr>o_id = ce_uuid E 0, o_name = on, o_slug = os, o_created = ce_now E\<rparr> | Some o' \<Rightarrow> o')"
    from Pair Inr have "users s = []" using bootstrap_Inr [of E email pw dn on os tok s x s'] by simp
    moreover from Pair Inr have "memberships s' = memberships s @
        [\<lparr>m_org = o_id org, m_user = u_id (tk_user x), m_role = Owner, m_created = ce_now E\<rparr>] \<and>
      tk_user x \<in> set (users s') \<and>
      orgs s' = (if find (\<lambda>o'. o_slug o' = os) (orgs s) = None then orgs s @ [org] else orgs s)"
      by (auto simp: bootstrap_def Let_def http_def add_session_def new_session_token_def org_def
          split: sum.splits bool.splits if_splits)
    moreover have "find (\<lambda>o'. o_slug o' = os) (orgs s) = Some o' \<Longrightarrow> org \<in> set (orgs s)" for o'
      using find_SomeD [of "\<lambda>o'. o_slug o' = os" "orgs s" o'] by (simp add: org_def)
    ultimately show ?thesis unfolding first_owner_def using Pair by (auto split: if_splits)
  qed
qed

lemma auth_step_tenancy: "auth_step s s' \<Longrightarrow> same_tenancy s s' \<or> first_owner s s'"
proof (induction rule: auth_step.induct)
  case (step_bootstrap s E email pw dn on os tok)
  show ?case by (rule bootstrap_tenancy)
next
  case (step_login s E email pw slug)
  show ?case
    by (auto simp: login_def add_session_def new_session_token_def Let_def split: sum.splits option.splits list.splits)
next
  case (step_change_password s E cur new p)
  show ?case by (auto simp: change_password_def Let_def split: sum.splits bool.splits)
next
  case (step_authenticate s E xk auth)
  show ?case using principal_tenancy by blast
qed (auto simp: logout_def switch_organization_def add_session_def new_session_token_def
      create_api_key_def revoke_api_key_def new_api_key_def Let_def split: sum.splits option.splits list.splits)

text \<open>What one request may do: keep every owned organisation owned, and own every organisation it adds.\<close>

definition keeps_owners :: "db \<Rightarrow> db \<Rightarrow> bool" where
  "keeps_owners s s' \<longleftrightarrow> tenancy_ok s' \<and> (\<forall>org. owned s org \<longrightarrow> owned s' org) \<and>
     (\<forall>x \<in> set (orgs s'). owned s' (o_id x) \<or> x \<in> set (orgs s))"

lemma keeps_owners_trans: "keeps_owners s s' \<Longrightarrow> keeps_owners s' s'' \<Longrightarrow> keeps_owners s s''"
  unfolding keeps_owners_def by blast

lemma keeps_owners_refl: "tenancy_ok s \<Longrightarrow> keeps_owners s s"
  by (simp add: keeps_owners_def)

lemma keeps_same_tenancy: "same_tenancy s s' \<Longrightarrow> tenancy_ok s \<Longrightarrow> keeps_owners s s'"
proof -
  assume same: "same_tenancy s s'" and ok: "tenancy_ok s"
  have "u_id ` set (users s') = u_id ` set (users s)" using same by (metis same_tenancy_def set_map)
  with same ok show ?thesis by (simp add: keeps_owners_def same_tenancy_def tenancy_ok_def owned_def)
qed

lemma keeps_first_owner: "first_owner s s' \<Longrightarrow> tenancy_ok s \<Longrightarrow> keeps_owners s s'"
proof -
  assume first: "first_owner s s'" and ok: "tenancy_ok s"
  have "memberships s = []" using first ok by (cases "memberships s") (auto simp: first_owner_def tenancy_ok_def)
  with first show ?thesis by (auto simp: first_owner_def keeps_owners_def tenancy_ok_def owned_def)
qed

lemma keeps_insert:
  assumes "insert_membership m s1 = Inr s'" "tenancy_ok s1" "memberships s1 = memberships s"
    and "\<And>x. x \<in> set (orgs s1) \<Longrightarrow> x \<in> set (orgs s) \<or> (m_role m = Owner \<and> m_org m = o_id x)"
  shows "keeps_owners s s'"
  using tenancy_insert [OF assms(1,2)] assms(1,3,4)
  by (auto simp: keeps_owners_def insert_membership_Inr owned_def)

lemma owned_iff_membership: "owned s org \<longleftrightarrow> (\<exists>m \<in> set (memberships s). m_org m = org \<and> m_role m = Owner)"
  by (simp add: owned_def list_ex_iff)

lemma same_key_same_row:
  "tenancy_ok s \<Longrightarrow> m \<in> set (memberships s) \<Longrightarrow> m' \<in> set (memberships s) \<Longrightarrow> m_org m = m_org m' \<Longrightarrow>
   m_user m = m_user m' \<Longrightarrow> m = m'"
  by (auto simp: tenancy_ok_def distinct_map inj_on_def member_key_def)

lemma update_member_keeps: "tenancy_ok s \<Longrightarrow> keeps_owners s (snd (update_member uid r p s))"
proof -
  assume ok: "tenancy_ok s"
  consider e where "update_member uid r p s = (Inl e, s)"
    | m where "snd (update_member uid r p s) = put_role (p_org p) uid r s" "membership_of s (p_org p) uid = Some m"
      "m_role m = Owner \<and> r \<noteq> Owner \<longrightarrow> 1 < owner_count s (p_org p)"
    using update_member_cases [of uid r p s] by blast
  then show ?thesis
  proof cases
    case 1
    with ok show ?thesis by (simp add: keeps_owners_refl)
  next
    case (2 m)
    from membership_of_SomeD [OF 2(2)] have m: "m \<in> set (memberships s)" "m_org m = p_org p" "m_user m = uid" by auto
    have "owned (put_role (p_org p) uid r s) org" if "owned s org" for org
    proof -
      from that obtain w where w: "w \<in> set (memberships s)" "m_org w = org" "m_role w = Owner"
        by (auto simp: owned_iff_membership)
      show ?thesis
      proof (cases "m_org w = p_org p \<and> m_user w = uid \<and> r \<noteq> Owner")
        case True
        with same_key_same_row [OF ok w(1) m(1)] m w 2(3) have "1 < owner_count s (p_org p)" by auto
        with ok obtain v where "v \<in> set (memberships s)" "m_org v = p_org p" "m_role v = Owner" "m_user v \<noteq> uid"
          using another_owner [of s "p_org p" uid] by (auto simp: tenancy_ok_def)
        with True w owned_put_role [of v s org "p_org p" uid r] show ?thesis by auto
      qed (use w owned_put_role [of w s org "p_org p" uid r] in auto)
    qed
    with 2(1) tenancy_put_role [OF ok] show ?thesis by (simp add: keeps_owners_def)
  qed
qed

lemma remove_member_keeps: "tenancy_ok s \<Longrightarrow> keeps_owners s (snd (remove_member uid p s))"
proof -
  assume ok: "tenancy_ok s"
  consider e where "remove_member uid p s = (Inl e, s)"
    | m where "remove_member uid p s = (Inr (), delete_membership (p_org p) uid s)"
      "membership_of s (p_org p) uid = Some m" "m_role m = Owner \<longrightarrow> 1 < owner_count s (p_org p)"
    using remove_member_cases [of uid p s] by blast
  then show ?thesis
  proof cases
    case 1
    with ok show ?thesis by (simp add: keeps_owners_refl)
  next
    case (2 m)
    from membership_of_SomeD [OF 2(2)] have m: "m \<in> set (memberships s)" "m_org m = p_org p" "m_user m = uid" by auto
    have "owned (delete_membership (p_org p) uid s) org" if "owned s org" for org
    proof -
      from that obtain w where w: "w \<in> set (memberships s)" "m_org w = org" "m_role w = Owner"
        by (auto simp: owned_iff_membership)
      show ?thesis
      proof (cases "m_org w = p_org p \<and> m_user w = uid")
        case True
        with same_key_same_row [OF ok w(1) m(1)] m w 2(3) have "1 < owner_count s (p_org p)" by auto
        with ok obtain v where "v \<in> set (memberships s)" "m_org v = p_org p" "m_role v = Owner" "m_user v \<noteq> uid"
          using another_owner [of s "p_org p" uid] by (auto simp: tenancy_ok_def)
        with True w owned_delete [of v s org "p_org p" uid] show ?thesis by auto
      qed (use w owned_delete [of w s org "p_org p" uid] in auto)
    qed
    with 2(1) tenancy_delete [OF ok] show ?thesis by (simp add: keeps_owners_def)
  qed
qed

lemma create_organization_keeps: "tenancy_ok s \<Longrightarrow> keeps_owners s (snd (create_organization E name slug p s))"
proof (cases "create_organization E name slug p s")
  case (Pair r s')
  assume ok: "tenancy_ok s"
  show ?thesis
  proof (cases r)
    case (Inl e)
    with create_organization_Inl [of E name slug p s e s'] Pair ok show ?thesis by (simp add: keeps_owners_refl)
  next
    case (Inr org)
    then obtain uid where "insert_membership \<lparr>m_org = o_id org, m_user = uid, m_role = Owner, m_created = ce_now E\<rparr>
      (s\<lparr>orgs := orgs s @ [org]\<rparr>) = Inr s'"
      using create_organization_Inr [of E name slug p s org s'] Pair by auto
    from keeps_insert [OF this tenancy_more_orgs [OF ok]] Pair show ?thesis by auto
  qed
qed

lemma add_member_keeps: "tenancy_ok s \<Longrightarrow> keeps_owners s (snd (add_member E email dn pw r p s))"
proof (cases "add_member E email dn pw r p s")
  case (Pair res s')
  assume ok: "tenancy_ok s"
  show ?thesis
  proof (cases res)
    case (Inl e)
    with add_member_Inl [of E email dn pw r p s e s'] Pair ok show ?thesis by (simp add: keeps_owners_refl)
  next
    case (Inr x)
    with Pair have "add_member E email dn pw r p s = (Inr x, s')" by simp
    then obtain u s1 where u: "member_account E email dn pw s = Inr (u, s1)"
      and i: "insert_membership \<lparr>m_org = p_org p, m_user = u_id u, m_role = r, m_created = ce_now E\<rparr> s1 = Inr s'"
      by (rule add_member_Inr)
    from member_account_Inr [OF u] obtain us where s1: "s1 = s\<lparr>users := users s @ us\<rparr>" by blast
    from keeps_insert [OF i, of s] tenancy_more_users [OF ok] s1 Pair show ?thesis by auto
  qed
qed

lemma tenancy_step_keeps: "tenancy_step s s' \<Longrightarrow> tenancy_ok s \<Longrightarrow> keeps_owners s s'"
  by (induction rule: tenancy_step.induct)
     (auto intro: update_member_keeps remove_member_keeps create_organization_keeps add_member_keeps
       dest: auth_step_tenancy keeps_same_tenancy keeps_first_owner)

lemma tenancy_steps_keep: "tenancy_step\<^sup>*\<^sup>* s s' \<Longrightarrow> tenancy_ok s \<Longrightarrow> keeps_owners s s'"
proof (induction rule: rtranclp_induct)
  case (step y z)
  then have "keeps_owners s y" "tenancy_ok y" by (auto simp: keeps_owners_def)
  with step tenancy_step_keeps keeps_owners_trans show ?case by blast
qed (rule keeps_owners_refl)


section \<open>Who may change whom\<close>

definition owners :: "db \<Rightarrow> string \<Rightarrow> string set" where
  "owners s org = {u. \<exists>m \<in> set (memberships s). m_org m = org \<and> m_user m = u \<and> m_role m = Owner}"

definition elsewhere :: "db \<Rightarrow> string \<Rightarrow> membership_row list" where
  "elsewhere s org = filter (\<lambda>m. m_org m \<noteq> org) (memberships s)"

definition authorised_change :: "principal \<Rightarrow> db \<Rightarrow> db \<Rightarrow> bool" where
  "authorised_change p s s' \<longleftrightarrow> Admin \<le> p_role p \<and> elsewhere s' (p_org p) = elsewhere s (p_org p) \<and>
     (owners s' (p_org p) = owners s (p_org p) \<or> Owner \<le> p_role p)"

lemma elsewhere_put_role: "elsewhere (put_role org uid r s) org = elsewhere s org"
  unfolding elsewhere_def put_role_def by (simp add: update_where_filter) (auto intro: update_where_untouched)

lemma elsewhere_delete: "elsewhere (delete_membership org uid s) org = elsewhere s org"
  by (auto simp: elsewhere_def delete_membership_def intro: filter_cong)

lemma add_member_authorised:
  assumes "snd (add_member E email dn pw r p s) \<noteq> s"
  shows "authorised_change p s (snd (add_member E email dn pw r p s))"
proof (cases "add_member E email dn pw r p s")
  case (Pair res s')
  with assms add_member_Inl [of E email dn pw r p s _ s'] obtain x where "add_member E email dn pw r p s = (Inr x, s')"
    by (cases res) auto
  then obtain u s1 where roles: "Admin \<le> p_role p" "r = Owner \<longrightarrow> p_role p = Owner" and u: "member_account E email dn pw s = Inr (u, s1)"
    and i: "insert_membership \<lparr>m_org = p_org p, m_user = u_id u, m_role = r, m_created = ce_now E\<rparr> s1 = Inr s'"
    by (rule add_member_Inr)
  from member_account_Inr [OF u] have "memberships s1 = memberships s" by auto
  with i have "memberships s' = memberships s @ [\<lparr>m_org = p_org p, m_user = u_id u, m_role = r, m_created = ce_now E\<rparr>]"
    by (simp add: insert_membership_Inr)
  with roles Pair show ?thesis by (auto simp: authorised_change_def elsewhere_def owners_def)
qed

lemma update_member_authorised:
  assumes "snd (update_member uid r p s) \<noteq> s" "tenancy_ok s"
  shows "authorised_change p s (snd (update_member uid r p s))"
proof -
  from assms(1) update_member_cases [of uid r p s] obtain m where
    s': "snd (update_member uid r p s) = put_role (p_org p) uid r s" and adm: "Admin \<le> p_role p"
    and m: "membership_of s (p_org p) uid = Some m" and own: "m_role m = Owner \<or> r = Owner \<longrightarrow> Owner \<le> p_role p"
    by force
  have "owners (put_role (p_org p) uid r s) (p_org p) = owners s (p_org p)" if "m_role m \<noteq> Owner" "r \<noteq> Owner"
  proof -
    have "x = m" if "x \<in> set (memberships s)" "m_org x = p_org p" "m_user x = uid" for x
      using same_key_same_row [OF assms(2) that(1), of m] membership_of_SomeD [OF m] that by simp
    with \<open>m_role m \<noteq> Owner\<close> \<open>r \<noteq> Owner\<close> show ?thesis
      by (auto simp: owners_def put_role_def set_update_where)
  qed
  with adm own show ?thesis unfolding authorised_change_def s' elsewhere_put_role by blast
qed

lemma remove_member_authorised:
  assumes "snd (remove_member uid p s) \<noteq> s" "tenancy_ok s"
  shows "authorised_change p s (snd (remove_member uid p s))"
proof -
  from assms(1) remove_member_cases [of uid p s] obtain m where
    s': "snd (remove_member uid p s) = delete_membership (p_org p) uid s" and adm: "Admin \<le> p_role p"
    and m: "membership_of s (p_org p) uid = Some m" and own: "m_role m = Owner \<longrightarrow> Owner \<le> p_role p"
    by force
  have "owners (delete_membership (p_org p) uid s) (p_org p) = owners s (p_org p)" if "m_role m \<noteq> Owner"
  proof -
    have "x = m" if "x \<in> set (memberships s)" "m_org x = p_org p" "m_user x = uid" for x
      using same_key_same_row [OF assms(2) that(1), of m] membership_of_SomeD [OF m] that by simp
    with \<open>m_role m \<noteq> Owner\<close> show ?thesis by (auto simp: owners_def delete_membership_def)
  qed
  with adm own show ?thesis unfolding authorised_change_def s' elsewhere_delete by blast
qed

section \<open>Properties\<close>

text \<open>
  C6: however requests of the authentication and organisation routers follow one another, memberships
  keep their keys and foreign keys, an organisation that has an owner always has one, and only
  organisations that were there without an owner from the start can be without one.
\<close>

theorem last_owner_invariant:
  assumes "tenancy_step\<^sup>*\<^sup>* s s'" and "tenancy_ok s"
  shows "tenancy_ok s' \<and> (owned s org \<longrightarrow> owned s' org) \<and>
    list_all (\<lambda>x. owned s' (o_id x) \<or> x \<in> set (orgs s) \<and> \<not> owned s (o_id x)) (orgs s')"
  using tenancy_steps_keep [OF assms] by (auto simp: keeps_owners_def list_all_iff)

text \<open>
  C17: a member request that changes anything was made by an administrator or owner, leaves every other
  organisation's memberships as they were, and changes the set of owners only for an owner.
\<close>

theorem membership_changes_authorised:
  assumes "tenancy_ok s"
    and "s' \<in> {snd (add_member E email dn pw r p s), snd (update_member uid r p s), snd (remove_member uid p s)}"
    and "s' \<noteq> s"
  shows "Admin \<le> p_role p \<and> elsewhere s' (p_org p) = elsewhere s (p_org p) \<and>
    (owners s' (p_org p) = owners s (p_org p) \<or> p_role p = Owner)"
proof -
  have "authorised_change p s s'"
    using assms add_member_authorised update_member_authorised remove_member_authorised by blast
  moreover have "Owner \<le> a \<longleftrightarrow> a = Owner" for a by (cases a) (simp_all add: less_eq_role_def)
  ultimately show ?thesis by (simp add: authorised_change_def)
qed

text \<open>
  C33: after a removal no credential of the removed user, session or API key, live or not, is served in
  that organisation.
\<close>

theorem removed_member_is_locked_out:
  assumes "remove_member uid p s = (Inr (), s')"
    and "get_current_principal E xk auth s' = (Inr q, s'')"
  shows "\<not> (p_user q = Some uid \<and> p_org q = p_org p)"
proof
  assume q: "p_user q = Some uid \<and> p_org q = p_org p"
  have "s' = delete_membership (p_org p) uid s" using assms(1) remove_member_cases [of uid p s] by auto
  moreover have "authenticate_opaque_token E (the (supplied_key xk auth)) s' = (Some q, s'')"
    using get_current_principal_Inr [OF assms(2)] q by (auto simp: unowned_principal_def)
  from authenticate_opaque_token_Some [OF this] have "member_as s' q" by simp
  ultimately show False using q by (auto simp: member_as_def delete_membership_def)
qed

text \<open>
  the guard of the last owner holds per request, not per transaction: when an organisation has two
  owners and their removals are both checked before either is written, both are allowed, and the
  organisation is left without an owner.
\<close>

theorem interleaved_removals_orphan_organization:
  assumes "filter (\<lambda>m. m_org m = org \<and> m_role m = Owner) (memberships s) = [ma, mb]" and "tenancy_ok s"
    and "p_org p = org" and "p_role p = Owner" and "p_org q = org" and "p_role q = Owner"
  shows "removal_allowed (m_user mb) p s = Inr () \<and> removal_allowed (m_user ma) q s = Inr () \<and>
    \<not> owned (delete_membership org (m_user ma) (delete_membership org (m_user mb) s)) org"
proof -
  have two: "owner_count s org = 2" by (simp add: owner_count_def assms(1))
  have mem: "m \<in> set (memberships s) \<and> m_org m = org \<and> m_role m = Owner \<longleftrightarrow> m = ma \<or> m = mb" for m
    using arg_cong [OF assms(1), of set] by auto
  have allowed: "removal_allowed (m_user m) z s = Inr ()" if "m = ma \<or> m = mb" "p_org z = org" "p_role z = Owner" for m z
  proof -
    have m: "m \<in> set (memberships s)" "m_org m = org" using mem [of m] that(1) by auto
    then obtain m' where m': "membership_of s org (m_user m) = Some m'"
      using membership_of_None [of s org "m_user m"] by (cases "membership_of s org (m_user m)") (auto simp: member_key_def)
    have "Admin \<le> Owner" "Owner \<le> Owner" by (simp_all add: less_eq_role_def)
    with two that m' show ?thesis
      by (simp add: removal_allowed_def and_then_Inr_iff member_simps require_role_Inr)
  qed
  have "\<not> owned (delete_membership org (m_user ma) (delete_membership org (m_user mb) s)) org"
  proof
    assume "owned (delete_membership org (m_user ma) (delete_membership org (m_user mb) s)) org"
    then obtain m where "m \<in> set (memberships s)" "m_org m = org" "m_role m = Owner"
      "m_user m \<noteq> m_user ma" "m_user m \<noteq> m_user mb"
      by (auto simp: owned_iff_membership delete_membership_def)
    with mem [of m] show False by auto
  qed
  with allowed [of mb p] allowed [of ma q] assms(3-6) show ?thesis by simp
qed

section \<open>Witnesses\<close>

definition plain_member :: "string \<Rightarrow> role \<Rightarrow> membership_row" where
  "plain_member u r = \<lparr>m_org = ''o1'', m_user = u, m_role = r, m_created = 0\<rparr>"

definition plain_tenancy_db :: db where
  "plain_tenancy_db = plain_auth_db []\<lparr>
     users := [plain_user [], plain_user []\<lparr>u_id := ''u2'', u_email := ''bob@example.com''\<rparr>],
     memberships := [plain_member ''u1'' Owner, plain_member ''u2'' Owner]\<rparr>"

definition plain_owner :: "string \<Rightarrow> principal" where
  "plain_owner u = \<lparr>p_user = Some u, p_org = ''o1'', p_role = Owner, p_auth = SessionToken,
     p_session = Some ''s1'', p_api_key = None\<rparr>"

lemma plain_tenancy_ok: "tenancy_ok plain_tenancy_db"
  by (simp add: tenancy_ok_def plain_tenancy_db_def plain_member_def member_key_def plain_auth_db_def plain_user_def)

lemma plain_removal:
  "remove_member ''u2'' (plain_owner ''u1'') plain_tenancy_db =
    (Inr (), delete_membership ''o1'' ''u2'' plain_tenancy_db)"
  by code_simp

theorem last_owner_invariant_witness:
  "tenancy_ok (snd (remove_member ''u2'' (plain_owner ''u1'') plain_tenancy_db)) \<and>
   owned (snd (remove_member ''u2'' (plain_owner ''u1'') plain_tenancy_db)) ''o1''"
proof -
  have "owned plain_tenancy_db ''o1''" by code_simp
  with last_owner_invariant [OF r_into_rtranclp [where r = tenancy_step, OF ts_remove [where uid = "''u2''" and p = "plain_owner ''u1''"]] plain_tenancy_ok, of "''o1''"]
  show ?thesis by blast
qed


theorem membership_changes_authorised_witness:
  "snd (remove_member ''u2'' (plain_owner ''u1'') plain_tenancy_db) \<noteq> plain_tenancy_db \<and>
   elsewhere (snd (remove_member ''u2'' (plain_owner ''u1'') plain_tenancy_db)) ''o1'' = elsewhere plain_tenancy_db ''o1''"
proof -
  have "length (memberships (delete_membership ''o1'' ''u2'' plain_tenancy_db)) \<noteq> length (memberships plain_tenancy_db)"
    by code_simp
  then have changed: "snd (remove_member ''u2'' (plain_owner ''u1'') plain_tenancy_db) \<noteq> plain_tenancy_db"
    by (auto simp: plain_removal)
  from membership_changes_authorised [OF plain_tenancy_ok _ changed, where r = Viewer and E = plain_credentials and email = "[]"
      and dn = "[]" and pw = None and uid = "''u2''" and p = "plain_owner ''u1''"] changed
  show ?thesis by (simp add: plain_owner_def)
qed

theorem removed_member_is_locked_out_witness:
  "\<exists>q s''. get_current_principal plain_credentials None None (delete_membership ''o1'' ''u2'' plain_tenancy_db) = (Inr q, s'') \<and>
     \<not> (p_user q = Some ''u2'' \<and> p_org q = ''o1'')"
proof -
  obtain q s'' where q: "get_current_principal plain_credentials None None (delete_membership ''o1'' ''u2'' plain_tenancy_db) = (Inr q, s'')"
    by (simp add: get_current_principal_def supplied_key_def bearer_token_def is_set_def plain_credentials_def default_settings_def)
  from removed_member_is_locked_out [OF plain_removal q] q show ?thesis by (auto simp: plain_owner_def)
qed

theorem interleaved_removals_orphan_organization_witness:
  "removal_allowed ''u2'' (plain_owner ''u1'') plain_tenancy_db = Inr () \<and>
   removal_allowed ''u1'' (plain_owner ''u2'') plain_tenancy_db = Inr () \<and>
   \<not> owned (delete_membership ''o1'' ''u1'' (delete_membership ''o1'' ''u2'' plain_tenancy_db)) ''o1''"
  using interleaved_removals_orphan_organization [of "''o1''" plain_tenancy_db "plain_member ''u1'' Owner"
      "plain_member ''u2'' Owner" "plain_owner ''u1''" "plain_owner ''u2''"] plain_tenancy_ok
  by (simp add: plain_tenancy_db_def plain_member_def plain_owner_def)

end
