(* ===== verification/Registry.thy ===== *)
theory Registry imports Organizations Run_Executor Comparisons begin

text \<open>
  The registry routers: \<open>backend/app/api/apps.py\<close>, \<open>suites.py\<close>, \<open>evaluator_configs.py\<close> and
  \<open>gate_rules.py\<close>. A handler takes the validated payload of \<open>backend/app/schemas/registry.py\<close> and the
  principal, and maps the database to a response and the database it leaves.
\<close>

section \<open>Common to the routers\<close>

text \<open>\<open>except ValueError\<close>: the class and its subclasses, answered with one status.\<close>

definition is_value_error :: "exn \<Rightarrow> bool" where
  "is_value_error exc \<longleftrightarrow> exn_kind_of exc \<in> {ValueErr, NotFoundErr, InvalidRunErr, JsonDecodeErr}"

definition value_error_as :: "nat \<Rightarrow> 'a res \<Rightarrow> 'a response" where
  "value_error_as code r =
     (case r of
        Inl exc \<Rightarrow> if is_value_error exc then http code (exn_msg exc) else Inl (Unhandled exc)
      | Inr x \<Rightarrow> Inr x)"

text \<open>A handler that checks, then inserts: nothing is written unless every check passed.\<close>

definition commit_with :: "'a response \<Rightarrow> ('a \<Rightarrow> db \<Rightarrow> db) \<Rightarrow> db \<Rightarrow> 'a response \<times> db" where
  "commit_with r write s = (case r of Inl e \<Rightarrow> (Inl e, s) | Inr x \<Rightarrow> (Inr x, write x s))"

definition guard :: "bool \<Rightarrow> nat \<Rightarrow> string \<Rightarrow> unit response" where
  "guard ok code message = (if ok then Inr () else http code message)"

definition found_or_404 :: "string \<Rightarrow> 'a option \<Rightarrow> 'a response" where
  "found_or_404 message v = (case v of None \<Rightarrow> http 404 message | Some x \<Rightarrow> Inr x)"

section \<open>Apps, versions and suites\<close>

definition tenant_app :: "db \<Rightarrow> string \<Rightarrow> string \<Rightarrow> app_row option" where
  "tenant_app s org app_id = find (\<lambda>a. ap_id a = app_id \<and> ap_org a = org) (apps s)"

definition create_app ::
  "service_env \<Rightarrow> string \<Rightarrow> string \<Rightarrow> principal \<Rightarrow> db \<Rightarrow> app_row response \<times> db" where
  "create_app E name description p s =
     commit_with
       (and_then (require_role p Evaluator) (\<lambda>_.
        and_then (guard (\<not> list_ex (\<lambda>a. ap_org a = p_org p \<and> ap_name a = name) (apps s)) 409
          ''App name already exists'') (\<lambda>_.
        Inr \<lparr>ap_id = uuid E 0, ap_org = p_org p, ap_name = name, ap_description = description,
             ap_created = now E\<rparr>)))
       (\<lambda>a s. s\<lparr>apps := apps s @ [a]\<rparr>) s"

definition list_apps :: "nat \<Rightarrow> nat \<Rightarrow> principal \<Rightarrow> db \<Rightarrow> app_row list" where
  "list_apps limit offset p s = page_desc ap_created limit offset (filter (\<lambda>a. ap_org a = p_org p) (apps s))"

definition get_app :: "string \<Rightarrow> principal \<Rightarrow> db \<Rightarrow> app_row response" where
  "get_app app_id p s = found_or_404 ''App not found'' (tenant_app s (p_org p) app_id)"

text \<open>The paths under which a configuration holds a key that names a secret.\<close>

definition secret_names :: "string list" where
  "secret_names = [''api_key'', ''apikey'', ''authorization'', ''password'', ''secret'', ''client_secret'',
     ''token'', ''access_token'', ''bearer_token'', ''credential'', ''credentials'']"

definition normalized_key :: "string \<Rightarrow> string" where
  "normalized_key key = map (\<lambda>c. if c = CHR ''-'' then CHR ''_'' else c) (py_lower (py_strip key))"

lemma zip_size [termination_simp]: "(i, x) \<in> set (zip is xs) \<Longrightarrow> size x < Suc (size_list size xs)"
  by (drule set_zip_rightD, drule size_list_estimation' [where f = size and y = "size x"]) simp_all

fun find_inline_secret_keys :: "json \<Rightarrow> string \<Rightarrow> string list" where
  "find_inline_secret_keys (JObj d) path =
     concat (map (\<lambda>(key, nested).
       let nested_path = path @ ''.'' @ key in
       (if normalized_key key \<in> set secret_names then [nested_path] else []) @
       find_inline_secret_keys nested nested_path) d)"
| "find_inline_secret_keys (JList xs) path =
     concat (map (\<lambda>(index, nested). find_inline_secret_keys nested (path @ ''['' @ show_nat index @ '']''))
       (zip [0..<length xs] xs))"
| "find_inline_secret_keys _ path = []"

definition create_app_version ::
  "service_env \<Rightarrow> string \<Rightarrow> string \<Rightarrow> string \<Rightarrow> dict \<Rightarrow> principal \<Rightarrow> db \<Rightarrow> version_row response \<times> db" where
  "create_app_version E app_id name adapter_module config p s =
     commit_with
       (and_then (require_role p Evaluator) (\<lambda>_.
        and_then (found_or_404 ''App not found'' (tenant_app s (p_org p) app_id)) (\<lambda>_.
        and_then (value_error_as 422 (validate_adapter_module (conf (world E)) adapter_module)) (\<lambda>_.
        and_then (guard (find_inline_secret_keys (JObj config) ''config'' = []) 422
          (''Inline secrets are not accepted in version config; use an approved '' @
           ''environment variable instead'')) (\<lambda>_.
        and_then (guard (\<not> list_ex (\<lambda>v. av_app v = app_id \<and> av_name v = name) (versions s)) 409
          ''App version name already exists'') (\<lambda>_.
        Inr \<lparr>av_id = uuid E 0, av_app = app_id, av_name = name, av_config = config,
             av_adapter = adapter_module, av_created = now E\<rparr>))))))
       (\<lambda>v s. s\<lparr>versions := versions s @ [v]\<rparr>) s"

definition list_app_versions :: "string \<Rightarrow> nat \<Rightarrow> nat \<Rightarrow> principal \<Rightarrow> db \<Rightarrow> version_row list response" where
  "list_app_versions app_id limit offset p s =
     and_then (found_or_404 ''App not found'' (tenant_app s (p_org p) app_id)) (\<lambda>_.
     Inr (page_desc av_created limit offset (filter (\<lambda>v. av_app v = app_id) (versions s))))"

definition list_eval_suites :: "string \<Rightarrow> nat \<Rightarrow> nat \<Rightarrow> principal \<Rightarrow> db \<Rightarrow> suite_row list response" where
  "list_eval_suites app_id limit offset p s =
     and_then (found_or_404 ''App not found'' (tenant_app s (p_org p) app_id)) (\<lambda>_.
     Inr (page_desc es_created limit offset (filter (\<lambda>x. es_app x = app_id) (suites s))))"

definition create_eval_suite ::
  "service_env \<Rightarrow> string \<Rightarrow> string \<Rightarrow> principal \<Rightarrow> db \<Rightarrow> suite_row response \<times> db" where
  "create_eval_suite E app_id name p s =
     commit_with
       (and_then (require_role p Evaluator) (\<lambda>_.
        and_then (found_or_404 ''App not found'' (tenant_app s (p_org p) app_id)) (\<lambda>_.
        and_then (guard (\<not> list_ex (\<lambda>x. es_app x = app_id \<and> es_name x = name) (suites s)) 409
          ''Eval suite name already exists'') (\<lambda>_.
        Inr \<lparr>es_id = uuid E 0, es_app = app_id, es_name = name, es_created = now E\<rparr>))))
       (\<lambda>x s. s\<lparr>suites := suites s @ [x]\<rparr>) s"

section \<open>Cases\<close>

text \<open>
  Cases of an import: those with an input become rows, in order; the others are reported with their
  position. An external identifier longer than its column aborts the request.
\<close>

fun import_rows ::
  "service_env \<Rightarrow> nat \<Rightarrow> nat \<Rightarrow> (string option \<times> dict) list \<Rightarrow> (case_row list \<times> string list) res" where
  "import_rows E index imported [] = Inr ([], [])"
| "import_rows E index imported ((external_id, payload) # cases) =
     (if dict_get ''input'' payload = None then
        and_then (import_rows E (Suc index) imported cases) (\<lambda>(rows, errors).
        Inr (rows, (''case['' @ show_nat index @ ''] missing payload.input'') # errors))
      else if (case external_id of None \<Rightarrow> False | Some x \<Rightarrow> 255 < length x) then
        Inl (Exn IntegrityErr ''value too long for type character varying(255)'')
      else
        and_then (import_rows E (Suc index) (Suc imported) cases) (\<lambda>(rows, errors).
        Inr (\<lparr>ec_id = uuid E imported, ec_external = external_id, ec_payload = payload,
              ec_created = now E\<rparr> # rows, errors)))"

definition import_eval_cases ::
  "service_env \<Rightarrow> string \<Rightarrow> (string option \<times> dict) list \<Rightarrow> principal \<Rightarrow> db \<Rightarrow>
   (case_row list \<times> string list) response \<times> db" where
  "import_eval_cases E suite_id cases p s =
     commit_with
       (and_then (require_role p Evaluator) (\<lambda>_.
        and_then (found_or_404 ''Eval suite not found'' (tenant_suite s (p_org p) suite_id)) (\<lambda>_.
        case import_rows E 0 0 cases of
          Inl exc \<Rightarrow> Inl (Unhandled exc)
        | Inr x \<Rightarrow> Inr x)))
       (\<lambda>(rows, _) s. s\<lparr>eval_cases := eval_cases s @ rows,
          suite_cases := suite_cases s @ map (\<lambda>c. \<lparr>sc_suite = suite_id, sc_case = ec_id c\<rparr>) rows\<rparr>) s"

text \<open>The tags of a case, as Python iterates them: items of a list, characters of a string, keys.\<close>

definition tag_values :: "case_row \<Rightarrow> json list res" where
  "tag_values c = json_iter (dict_get_or ''tags'' (JList []) (ec_payload c))"

definition has_tag :: "string \<Rightarrow> case_row \<Rightarrow> bool res" where
  "has_tag tag c =
     (case dict_get_or ''tags'' (JList []) (ec_payload c) of
        JStr x \<Rightarrow> Inr (str_in tag x)
      | _ \<Rightarrow> and_then (tag_values c) (\<lambda>vs. Inr (py_in (JStr tag) vs)))"

fun filter_res :: "('a \<Rightarrow> bool res) \<Rightarrow> 'a list \<Rightarrow> 'a list res" where
  "filter_res P [] = Inr []"
| "filter_res P (x # xs) =
     and_then (P x) (\<lambda>b. and_then (filter_res P xs) (\<lambda>ys. Inr (if b then x # ys else ys)))"

definition unhandled :: "'a res \<Rightarrow> 'a response" where
  "unhandled r = (case r of Inl exc \<Rightarrow> Inl (Unhandled exc) | Inr x \<Rightarrow> Inr x)"

definition list_eval_cases ::
  "string \<Rightarrow> string option \<Rightarrow> nat \<Rightarrow> nat \<Rightarrow> principal \<Rightarrow> db \<Rightarrow> case_row list response" where
  "list_eval_cases suite_id tag limit offset p s =
     and_then (found_or_404 ''Eval suite not found'' (tenant_suite s (p_org p) suite_id)) (\<lambda>_.
     let cases = load_suite_cases s suite_id None in
     case tag of
       None \<Rightarrow> Inr (take limit (drop offset cases))
     | Some t \<Rightarrow> and_then (unhandled (filter_res (has_tag t) cases)) (\<lambda>matching.
         Inr (take limit (drop offset matching))))"

text \<open>
  The summary counts tags and sorts them by name. A tag that is no string ends in an error: it cannot
  be counted, compared, or returned under the response model.
\<close>

definition tag_text :: "json \<Rightarrow> string res" where
  "tag_text j = (case j of JStr x \<Rightarrow> Inr x | _ \<Rightarrow> Inl (Exn TypeErr ''a tag is not a string''))"

definition eval_suite_summary :: "string \<Rightarrow> principal \<Rightarrow> db \<Rightarrow> (nat \<times> (string \<times> nat) list) response" where
  "eval_suite_summary suite_id p s =
     and_then (found_or_404 ''Eval suite not found'' (tenant_suite s (p_org p) suite_id)) (\<lambda>_.
     let cases = filter (\<lambda>c. in_suite s suite_id (ec_id c)) (eval_cases s) in
     and_then (unhandled (and_then (map_res tag_values cases) (\<lambda>vs. map_res tag_text (concat vs)))) (\<lambda>tags.
     Inr (length cases, map (\<lambda>t. (t, count_list tags t)) (sort (remdups tags)))))"

section \<open>Evaluator configurations and gate rules\<close>

definition create_evaluator_config ::
  "service_env \<Rightarrow> (string \<Rightarrow> bool) \<Rightarrow> string \<Rightarrow> dict \<Rightarrow> principal \<Rightarrow> db \<Rightarrow>
   evaluator_config_row response \<times> db" where
  "create_evaluator_config E installed name config p s =
     commit_with
       (and_then (require_role p Evaluator) (\<lambda>_.
        and_then (guard (\<not> list_ex (\<lambda>c. vc_org c = p_org p \<and> vc_name c = name) (evaluator_configs s)) 409
          ''Evaluator config name already exists'') (\<lambda>_.
        and_then (value_error_as 422 (validate_evaluator_config (float_repr (ml E)) installed config)) (\<lambda>validated.
        Inr \<lparr>vc_id = uuid E 0, vc_org = p_org p, vc_name = name, vc_config = validated, vc_created = now E\<rparr>))))
       (\<lambda>c s. s\<lparr>evaluator_configs := evaluator_configs s @ [c]\<rparr>) s"

definition list_evaluator_configs :: "nat \<Rightarrow> nat \<Rightarrow> principal \<Rightarrow> db \<Rightarrow> evaluator_config_row list" where
  "list_evaluator_configs limit offset p s =
     page_desc vc_created limit offset (filter (\<lambda>c. vc_org c = p_org p) (evaluator_configs s))"

definition create_gate_rule ::
  "service_env \<Rightarrow> string \<Rightarrow> dict \<Rightarrow> principal \<Rightarrow> db \<Rightarrow> gate_rule_row response \<times> db" where
  "create_gate_rule E name rules p s =
     commit_with
       (and_then (require_role p Evaluator) (\<lambda>_.
        and_then (guard (\<not> list_ex (\<lambda>g. gr_org g = p_org p \<and> gr_name g = name) (gate_rules s)) 409
          ''Gate rule name already exists'') (\<lambda>_.
        and_then (value_error_as 422 (validate_gate_rules (float_repr (ml E)) (JObj rules))) (\<lambda>validated.
        Inr \<lparr>gr_id = uuid E 0, gr_org = p_org p, gr_name = name, gr_rules = validated, gr_created = now E\<rparr>))))
       (\<lambda>g s. s\<lparr>gate_rules := gate_rules s @ [g]\<rparr>) s"

definition list_gate_rules :: "nat \<Rightarrow> nat \<Rightarrow> principal \<Rightarrow> db \<Rightarrow> gate_rule_row list" where
  "list_gate_rules limit offset p s =
     page_desc gr_created limit offset (filter (\<lambda>g. gr_org g = p_org p) (gate_rules s))"

definition get_gate_rule :: "string \<Rightarrow> principal \<Rightarrow> db \<Rightarrow> gate_rule_row response" where
  "get_gate_rule gate_rule_id p s =
     found_or_404 ''Gate rules not found'' (find (\<lambda>g. gr_id g = gate_rule_id \<and> gr_org g = p_org p) (gate_rules s))"

section \<open>Lemmas\<close>

lemma commit_with_Inr: "commit_with r w s = (Inr x, s') \<longleftrightarrow> r = Inr x \<and> s' = w x s"
  by (auto simp: commit_with_def split: sum.splits)

lemma commit_with_Inl: "commit_with r w s = (Inl e, s') \<longleftrightarrow> r = Inl e \<and> s' = s"
  by (auto simp: commit_with_def split: sum.splits)

lemma guard_Inr [simp]: "guard ok code m = Inr x \<longleftrightarrow> ok"
  by (simp add: guard_def http_def)

lemma found_or_404_Inr [simp]: "found_or_404 m v = Inr x \<longleftrightarrow> v = Some x"
  by (auto simp: found_or_404_def http_def split: option.splits)

lemma value_error_as_Inr [simp]: "value_error_as code r = Inr x \<longleftrightarrow> r = Inr x"
  by (auto simp: value_error_as_def http_def split: sum.splits)

lemma unhandled_Inr [simp]: "unhandled r = Inr x \<longleftrightarrow> r = Inr x"
  by (auto simp: unhandled_def split: sum.splits)

text \<open>Some key of the document, at any depth, is in \<open>K\<close>.\<close>

fun key_anywhere :: "(string \<Rightarrow> bool) \<Rightarrow> json \<Rightarrow> bool" where
  "key_anywhere K (JObj d) \<longleftrightarrow> list_ex (\<lambda>(k, v). K k \<or> key_anywhere K v) d"
| "key_anywhere K (JList xs) \<longleftrightarrow> list_ex (key_anywhere K) xs"
| "key_anywhere K _ \<longleftrightarrow> False"

lemma no_inline_secrets:
  "find_inline_secret_keys j path = [] \<longleftrightarrow> \<not> key_anywhere (\<lambda>k. normalized_key k \<in> set secret_names) j"
proof (induction j path rule: find_inline_secret_keys.induct)
  case (1 d path)
  then show ?case by (auto simp: list_ex_iff Let_def split: if_splits)
next
  case (2 xs path)
  have "find_inline_secret_keys (JList xs) path = [] \<longleftrightarrow>
      (\<forall>(i, x) \<in> set (zip [0..<length xs] xs). \<not> key_anywhere (\<lambda>k. normalized_key k \<in> set secret_names) x)"
    using 2 by (fastforce split: prod.splits)
  also have "\<dots> \<longleftrightarrow> (\<forall>x \<in> set xs. \<not> key_anywhere (\<lambda>k. normalized_key k \<in> set secret_names) x)"
    by (auto simp: set_zip in_set_conv_nth Ball_def)
  finally show ?case by (simp add: list_ex_iff)
qed simp_all

lemma import_rows_Inr:
  "import_rows E index imported cases = Inr (rows, errors) \<Longrightarrow>
   map ec_payload rows = map snd (filter (\<lambda>(_, payload). dict_get ''input'' payload \<noteq> None) cases) \<and>
   map ec_external rows = map fst (filter (\<lambda>(_, payload). dict_get ''input'' payload \<noteq> None) cases) \<and>
   map ec_id rows = map (uuid E) [imported..<imported + length rows] \<and>
   errors = map (\<lambda>(i, _). ''case['' @ show_nat i @ ''] missing payload.input'')
     (filter (\<lambda>(_, _, payload). dict_get ''input'' payload = None) (zip [index..<index + length cases] cases))"
proof (induction E index imported cases arbitrary: rows errors rule: import_rows.induct)
  case (1 E index imported)
  then show ?case by simp
next
  case (2 E index imported external_id payload cases)
  have upt: "[index..<index + length ((external_id, payload) # cases)] = index # [Suc index..<Suc index + length cases]"
    using upt_conv_Cons [of index "index + length ((external_id, payload) # cases)"] by (simp del: upt_Suc)
  show ?case
  proof (cases "dict_get ''input'' payload = None")
    case True
    with 2(3) obtain es where rest: "import_rows E (Suc index) imported cases = Inr (rows, es)"
      and es: "errors = (''case['' @ show_nat index @ ''] missing payload.input'') # es"
      by (auto simp: and_then_Inr_iff)
    from 2(1) [OF True rest] True show ?thesis unfolding upt by (simp add: es del: upt_Suc)
  next
    case False
    with 2(3) have short: "\<not> (case external_id of None \<Rightarrow> False | Some x \<Rightarrow> 255 < length x)" by auto
    with False 2(3) obtain rs where rest: "import_rows E (Suc index) (Suc imported) cases = Inr (rs, errors)"
      and rows: "rows = \<lparr>ec_id = uuid E imported, ec_external = external_id, ec_payload = payload, ec_created = now E\<rparr> # rs"
      by (auto simp: and_then_Inr_iff)
    have "[imported..<imported + length rows] = imported # [Suc imported..<Suc imported + length rs]"
      using upt_conv_Cons [of imported "imported + length rows"] by (simp add: rows del: upt_Suc)
    with 2(2) [OF False short rest] False show ?thesis unfolding upt by (simp add: rows del: upt_Suc)
  qed
qed

lemma sort_key_desc_mono: "page_desc f n (n * k) xs = take n (drop (n * k) (sort_key (\<lambda>r. - f r) xs))"
  by (simp add: page_desc_def)

lemma concat_pages: "concat (map (\<lambda>k. take n (drop (n * k) xs)) [0..<m]) = take (n * m) xs"
proof (induction m)
  case (Suc m)
  have "n * Suc m = n * m + n" by simp
  with Suc show ?case by (simp only: take_add) simp
qed simp

section \<open>Properties\<close>

text \<open>
  C31: a version is registered only by an evaluator or better, for an app of its own organisation, with an
  adapter of the allow list, a name new to the app, and a configuration in which no key at any depth
  is, up to case, spacing and hyphens, one of the secret names; exactly that row is added.
\<close>

theorem registered_version_is_acceptable:
  assumes "create_app_version E app_id name adapter_module config p s = (Inr v, s')"
  shows "Evaluator \<le> p_role p \<and> app_in_org s (p_org p) app_id \<and>
    adapter_module \<in> set (comma_list (allowed_adapter_modules (conf (world E)))) \<and>
    \<not> key_anywhere (\<lambda>k. normalized_key k \<in> set secret_names) (JObj config) \<and>
    name \<notin> av_name ` set (filter (\<lambda>x. av_app x = app_id) (versions s)) \<and>
    s' = s\<lparr>versions := versions s @ [v]\<rparr> \<and> av_config v = config \<and> av_adapter v = adapter_module \<and> av_app v = app_id"
proof -
  have "app_in_org s (p_org p) app_id" if "tenant_app s (p_org p) app_id = Some a" for a
    using find_SomeD [OF that [unfolded tenant_app_def]] by (auto simp: app_in_org_def list_ex_iff)
  with assms show ?thesis
    by (auto simp: create_app_version_def commit_with_Inr and_then_Inr_iff require_role_Inr no_inline_secrets
        validate_adapter_module_def list_ex_iff split: if_splits
        simp del: find_inline_secret_keys.simps key_anywhere.simps)
qed

text \<open>
  neither filter knows hyphenated names with a prefix: a key such as \<open>x-api-key\<close> is accepted in a
  version's configuration, and its value is copied to every trace as it stands.
\<close>

theorem hyphenated_secret_reaches_traces:
  "find_inline_secret_keys (JObj [(''x-api-key'', JStr v)]) ''config'' = [] \<and>
   redact_sensitive_config (JObj [(''x-api-key'', JStr v)]) = JObj [(''x-api-key'', JStr v)]"
proof -
  have "normalized_key ''x-api-key'' \<notin> set secret_names" "\<not> sensitive_key ''x-api-key''" by code_simp+
  then show ?thesis by simp
qed

text \<open>
  an import accounts for every case: those with an input become rows in order, with their payloads and
  external identifiers, linked to the suite; every other one is reported with its position.
\<close>

theorem import_accounts_for_every_case:
  assumes "import_eval_cases E suite_id cases p s = (Inr (rows, errors), s')"
  shows "Evaluator \<le> p_role p \<and>
    map (\<lambda>c. (ec_external c, ec_payload c)) rows = filter (\<lambda>(_, payload). dict_get ''input'' payload \<noteq> None) cases \<and>
    errors = map (\<lambda>(i, _). ''case['' @ show_nat i @ ''] missing payload.input'')
      (filter (\<lambda>(_, _, payload). dict_get ''input'' payload = None) (zip [0..<length cases] cases)) \<and>
    length rows + length errors = length cases \<and>
    s' = s\<lparr>eval_cases := eval_cases s @ rows,
       suite_cases := suite_cases s @ map (\<lambda>c. \<lparr>sc_suite = suite_id, sc_case = ec_id c\<rparr>) rows\<rparr>"
proof -
  from assms have role: "Evaluator \<le> p_role p" and rows: "import_rows E 0 0 cases = Inr (rows, errors)"
    and s': "s' = s\<lparr>eval_cases := eval_cases s @ rows,
       suite_cases := suite_cases s @ map (\<lambda>c. \<lparr>sc_suite = suite_id, sc_case = ec_id c\<rparr>) rows\<rparr>"
    by (auto simp: import_eval_cases_def commit_with_Inr and_then_Inr_iff require_role_Inr split: sum.splits)
  note parts = import_rows_Inr [OF rows, unfolded add_0]
  have pairs: "map (\<lambda>c. (f c, g c)) xs = ys \<longleftrightarrow> map f xs = map fst ys \<and> map g xs = map snd ys"
    for f :: "case_row \<Rightarrow> string option" and g :: "case_row \<Rightarrow> dict" and xs ys
    by (induction xs arbitrary: ys) (auto simp: Cons_eq_map_conv prod_eq_iff eq_commute [of "[]"])
  have "length (filter (\<lambda>(_, _, payload). dict_get ''input'' payload = None) (zip [n..<n + length cs] cs)) =
      length (filter (\<lambda>(_, payload). dict_get ''input'' payload = None) cs)" for n and cs :: "(string option \<times> dict) list"
  proof (induction cs arbitrary: n)
    case (Cons c cs)
    have "[n..<n + length (c # cs)] = n # [Suc n..<Suc n + length cs]"
      using upt_conv_Cons [of n "n + length (c # cs)"] by (simp del: upt_Suc)
    with Cons [of "Suc n"] show ?case by (auto simp del: upt_Suc)
  qed simp
  from this [of 0 cases] have "length errors = length (filter (\<lambda>(_, payload). dict_get ''input'' payload = None) cases)"
    using parts by simp
  moreover have "length rows = length (filter (\<lambda>(_, payload). dict_get ''input'' payload \<noteq> None) cases)"
    using parts [THEN conjunct1, THEN arg_cong, of length] by simp
  moreover have "length (filter (\<lambda>(_, payload). dict_get ''input'' payload \<noteq> None) cases) +
      length (filter (\<lambda>(_, payload). dict_get ''input'' payload = None) cases) = length cases"
    by (induction cases) auto
  ultimately show ?thesis using role s' parts by (auto simp: pairs)
qed

text \<open>
  reading the apps page by page gives every app of the organisation, and no other, exactly once, newest
  first.
\<close>

theorem app_pages_partition:
  assumes "length (filter (\<lambda>a. ap_org a = p_org p) (apps s)) \<le> n * m"
  shows "mset (concat (map (\<lambda>k. list_apps n (n * k) p s) [0..<m])) = mset (filter (\<lambda>a. ap_org a = p_org p) (apps s)) \<and>
    sorted (map (\<lambda>a. - ap_created a) (concat (map (\<lambda>k. list_apps n (n * k) p s) [0..<m])))"
proof -
  have "concat (map (\<lambda>k. list_apps n (n * k) p s) [0..<m]) =
      sort_key (\<lambda>a. - ap_created a) (filter (\<lambda>a. ap_org a = p_org p) (apps s))"
    using assms by (simp add: list_apps_def sort_key_desc_mono concat_pages)
  then show ?thesis by simp
qed

section \<open>Witnesses\<close>

definition sample_principal :: principal where
  "sample_principal = \<lparr>p_user = Some ''u1'', p_org = ''org'', p_role = Evaluator, p_auth = SessionToken,
     p_session = Some ''s1'', p_api_key = None\<rparr>"

lemma sample_role: "require_role sample_principal Evaluator = Inr ()"
  by code_simp

theorem registered_version_is_acceptable_witness:
  "\<exists>v s'. create_app_version sample_env ''ap'' ''v2'' ''app.adapters.demo_rag'' [(''top_k'', JInt 3)] sample_principal sample_db =
     (Inr v, s') \<and> versions s' = versions sample_db @ [v] \<and> av_config v = [(''top_k'', JInt 3)]"
proof -
  have allowed: "validate_adapter_module (conf (world sample_env)) ''app.adapters.demo_rag'' = Inr ()"
    using sample_adapter by (simp add: load_adapter_def and_then_Inr_iff)
  have clean: "find_inline_secret_keys (JObj [(''top_k'', JInt 3)]) ''config'' = []" by code_simp
  have app: "\<exists>a. tenant_app sample_db (p_org sample_principal) ''ap'' = Some a"
    by (simp add: tenant_app_def sample_db_def sample_principal_def)
  have name: "\<not> list_ex (\<lambda>v. av_app v = ''ap'' \<and> av_name v = ''v2'') (versions sample_db)"
    by (simp add: sample_db_def)
  obtain v s' where v: "create_app_version sample_env ''ap'' ''v2'' ''app.adapters.demo_rag'' [(''top_k'', JInt 3)]
      sample_principal sample_db = (Inr v, s')"
    using app by (auto simp: create_app_version_def sample_role allowed clean name value_error_as_def guard_def
        found_or_404_def commit_with_def simp del: find_inline_secret_keys.simps)
  from registered_version_is_acceptable [OF v] v show ?thesis by auto
qed

theorem import_accounts_for_every_case_witness:
  "\<exists>rows errors s'. import_eval_cases sample_env ''su'' [(None, [(''input'', JStr ''a'')]), (Some ''x'', [])]
     sample_principal sample_db = (Inr (rows, errors), s') \<and> length rows + length errors = 2"
proof -
  obtain rows errors s' where r: "import_eval_cases sample_env ''su'' [(None, [(''input'', JStr ''a'')]), (Some ''x'', [])]
     sample_principal sample_db = (Inr (rows, errors), s')"
    using sample_role [unfolded sample_principal_def]
    by (simp add: import_eval_cases_def found_or_404_def tenant_suite_def sample_db_def sample_principal_def
        app_in_org_def commit_with_def)
  from import_accounts_for_every_case [OF r] r show ?thesis by auto
qed

theorem app_pages_partition_witness:
  "length (filter (\<lambda>a. ap_org a = p_org sample_principal) (apps sample_db)) \<le> 1 * 1 \<and>
   mset (concat (map (\<lambda>k. list_apps 1 (1 * k) sample_principal sample_db) [0..<1])) =
   mset (filter (\<lambda>a. ap_org a = p_org sample_principal) (apps sample_db))"
proof -
  have n: "length (filter (\<lambda>a. ap_org a = p_org sample_principal) (apps sample_db)) \<le> 1 * 1"
    by (simp add: sample_db_def sample_principal_def)
  from app_pages_partition [OF n] n show ?thesis by blast
qed

end
