(* ===== verification/Runs_Api.thy ===== *)
theory Runs_Api imports Registry Run_Dispatcher begin

text \<open>
  \<open>backend/app/api/runs.py\<close> and \<open>comparisons.py\<close>: starting runs, synchronously or on the queue, and
  reading runs, items, traces, comparisons and gate decisions of the caller's organisation.
\<close>

section \<open>Runs\<close>

definition org_run :: "db \<Rightarrow> principal \<Rightarrow> string \<Rightarrow> run_row response" where
  "org_run s p run_id = found_or_404 ''Run not found'' (tenant_run s (p_org p) run_id)"

text \<open>How the errors of the run services are answered: 404, 422, 503 with the run's id, or unhandled.\<close>

definition run_failure :: "service_env \<Rightarrow> exn \<Rightarrow> failure" where
  "run_failure E exc =
     (if exn_kind_of exc = NotFoundErr then Http 404 (JStr (exn_msg exc))
      else if exn_kind_of exc = InvalidRunErr then Http 422 (JStr (exn_msg exc))
      else if exn_kind_of exc = DispatchErr then
        Http 503 (JObj [(''message'', JStr (exn_msg exc)), (''run_id'', JStr (uuid E 0))])
      else Unhandled exc)"

definition create_run ::
  "service_env \<Rightarrow> (signature list \<Rightarrow> string \<Rightarrow> unit res) \<Rightarrow> string \<Rightarrow> string \<Rightarrow> string \<Rightarrow> string list option \<Rightarrow>
   principal \<Rightarrow> db \<Rightarrow> run_row response \<times> db" where
  "create_run E submit app_version_id suite_id evaluator_config_id case_ids p s =
     (case require_role p Evaluator of
        Inl e \<Rightarrow> (Inl e, s)
      | Inr _ \<Rightarrow>
          (case (if run_mode (conf (world E)) = ''celery''
                 then dispatch_run E submit app_version_id suite_id evaluator_config_id case_ids (p_org p) s
                 else execute_run E app_version_id suite_id evaluator_config_id case_ids (p_org p) s) of
             (Inl exc, s') \<Rightarrow> (Inl (run_failure E exc), s')
           | (Inr run, s') \<Rightarrow> (Inr run, s')))"

definition list_runs :: "nat \<Rightarrow> nat \<Rightarrow> principal \<Rightarrow> db \<Rightarrow> run_row list" where
  "list_runs limit offset p s = page_desc er_created limit offset (filter (\<lambda>r. er_org r = p_org p) (runs s))"

definition get_run :: "string \<Rightarrow> principal \<Rightarrow> db \<Rightarrow> run_row response" where
  "get_run run_id p s = org_run s p run_id"

text \<open>A page of items by case, each with its results in order of creation.\<close>

definition list_run_items ::
  "string \<Rightarrow> nat \<Rightarrow> nat \<Rightarrow> principal \<Rightarrow> db \<Rightarrow> (item_row \<times> result_row list) list response" where
  "list_run_items run_id limit offset p s =
     and_then (org_run s p run_id) (\<lambda>_.
     let item_rows = take limit (drop offset (run_items s run_id));
         item_ids = map ri_id item_rows;
         all_results = sort_key rs_created (filter (\<lambda>r. rs_item r \<in> set item_ids) (results s))
     in Inr (map (\<lambda>i. (i, filter (\<lambda>r. rs_item r = ri_id i) all_results)) item_rows))"

definition get_trace :: "string \<Rightarrow> string \<Rightarrow> principal \<Rightarrow> db \<Rightarrow> trace_row response" where
  "get_trace run_id case_id p s =
     and_then (org_run s p run_id) (\<lambda>_.
     and_then (found_or_404 ''Run item not found''
       (find (\<lambda>i. ri_run i = run_id \<and> ri_case i = case_id) (items s))) (\<lambda>i.
     found_or_404 ''Trace not found'' (find (\<lambda>t. tr_item t = ri_id i) (traces s))))"

section \<open>Comparisons\<close>

definition create_comparison ::
  "'g compare_env \<Rightarrow> string \<Rightarrow> string \<Rightarrow> string option \<Rightarrow> principal \<Rightarrow> db \<Rightarrow>
   (comparison_row \<times> report_row) response \<times> db" where
  "create_comparison E baseline_run_id candidate_run_id gate_rules_id p s =
     (case require_role p Evaluator of
        Inl e \<Rightarrow> (Inl e, s)
      | Inr _ \<Rightarrow>
          (case compute_comparison E baseline_run_id candidate_run_id gate_rules_id (p_org p) s of
             (r, s') \<Rightarrow> (value_error_as 409 r, s')))"

definition report_of :: "db \<Rightarrow> string \<Rightarrow> report_row option" where
  "report_of s comparison_id = find (\<lambda>r. rp_comparison r = comparison_id) (reports s)"

definition list_comparisons :: "nat \<Rightarrow> nat \<Rightarrow> principal \<Rightarrow> db \<Rightarrow> (comparison_row \<times> report_row) list" where
  "list_comparisons limit offset p s =
     (let rows = page_desc cm_created limit offset (filter (\<lambda>c. cm_org c = p_org p) (comparisons s));
          found = filter (\<lambda>r. rp_comparison r \<in> set (map cm_id rows)) (reports s);
          latest = (\<lambda>c. find (\<lambda>r. rp_comparison r = cm_id c) (rev found))
      in map (\<lambda>c. (c, the (latest c))) (filter (\<lambda>c. latest c \<noteq> None) rows))"

definition tenant_comparison :: "db \<Rightarrow> string \<Rightarrow> string \<Rightarrow> comparison_row option" where
  "tenant_comparison s org comparison_id = find (\<lambda>c. cm_id c = comparison_id \<and> cm_org c = org) (comparisons s)"

definition get_comparison :: "string \<Rightarrow> principal \<Rightarrow> db \<Rightarrow> (comparison_row \<times> report_row) response" where
  "get_comparison comparison_id p s =
     and_then (found_or_404 ''Comparison not found'' (tenant_comparison s (p_org p) comparison_id)) (\<lambda>c.
     and_then (found_or_404 ''Regression report not found'' (report_of s comparison_id)) (\<lambda>r.
     Inr (c, r)))"

definition get_gate_decision :: "string \<Rightarrow> principal \<Rightarrow> db \<Rightarrow> (string \<times> dict list) response" where
  "get_gate_decision comparison_id p s =
     and_then (found_or_404 ''Comparison not found'' (tenant_comparison s (p_org p) comparison_id)) (\<lambda>_.
     and_then (found_or_404 ''Regression report not found'' (report_of s comparison_id)) (\<lambda>r.
     Inr (rp_verdict r, rp_reasons r)))"

definition get_ci_gate_report ::
  "(real \<Rightarrow> string) \<Rightarrow> string \<Rightarrow> string \<Rightarrow> string option \<Rightarrow> bool \<Rightarrow> principal \<Rightarrow> db \<Rightarrow> ci_payload response" where
  "get_ci_gate_report repr_of generated_at comparison_id dashboard_url fail_on_warn p s =
     and_then (found_or_404 ''Comparison not found'' (tenant_comparison s (p_org p) comparison_id)) (\<lambda>c.
     and_then (found_or_404 ''Regression report not found'' (report_of s comparison_id)) (\<lambda>r.
     unhandled (build_ci_gate_report repr_of generated_at c r dashboard_url fail_on_warn)))"

end
