(* ===== verification/Tenant_View.thy ===== *)
theory Tenant_View imports Runs_Api begin

text \<open>
  What an organisation can see of the database, and what the handlers of the API do through that view:
  each answers from the view of the caller's organisation alone, and what it leaves there is what it
  would leave on the view.
\<close>

section \<open>What an organisation sees\<close>

definition suite_in_org :: "db \<Rightarrow> string \<Rightarrow> string \<Rightarrow> bool" where
  "suite_in_org s org sid = list_ex (\<lambda>x. es_id x = sid \<and> app_in_org s org (es_app x)) (suites s)"

definition case_in_org :: "db \<Rightarrow> string \<Rightarrow> string \<Rightarrow> bool" where
  "case_in_org s org k = list_ex (\<lambda>l. sc_case l = k \<and> suite_in_org s org (sc_suite l)) (suite_cases s)"

definition run_in_org :: "db \<Rightarrow> string \<Rightarrow> string \<Rightarrow> bool" where
  "run_in_org s org rid = list_ex (\<lambda>r. er_id r = rid \<and> er_org r = org) (runs s)"

definition item_in_org :: "db \<Rightarrow> string \<Rightarrow> string \<Rightarrow> bool" where
  "item_in_org s org iid = list_ex (\<lambda>i. ri_id i = iid \<and> run_in_org s org (ri_run i)) (items s)"

definition comparison_in_org :: "db \<Rightarrow> string \<Rightarrow> string \<Rightarrow> bool" where
  "comparison_in_org s org cid = list_ex (\<lambda>c. cm_id c = cid \<and> cm_org c = org) (comparisons s)"

definition tenant_view :: "string \<Rightarrow> db \<Rightarrow> db" where
  "tenant_view org s = empty_db\<lparr>
     apps := filter (\<lambda>a. ap_org a = org) (apps s),
     versions := filter (\<lambda>v. app_in_org s org (av_app v)) (versions s),
     suites := filter (\<lambda>x. app_in_org s org (es_app x)) (suites s),
     eval_cases := filter (\<lambda>c. case_in_org s org (ec_id c)) (eval_cases s),
     suite_cases := filter (\<lambda>l. suite_in_org s org (sc_suite l)) (suite_cases s),
     evaluator_configs := filter (\<lambda>c. vc_org c = org) (evaluator_configs s),
     runs := filter (\<lambda>r. er_org r = org) (runs s),
     items := filter (\<lambda>i. run_in_org s org (ri_run i)) (items s),
     traces := filter (\<lambda>t. item_in_org s org (tr_item t)) (traces s),
     results := filter (\<lambda>r. item_in_org s org (rs_item r)) (results s),
     gate_rules := filter (\<lambda>g. gr_org g = org) (gate_rules s),
     comparisons := filter (\<lambda>c. cm_org c = org) (comparisons s),
     reports := filter (\<lambda>r. comparison_in_org s org (rp_comparison r)) (reports s)\<rparr>"

text \<open>The identifiers a database uses, and the integrity its keys give.\<close>

definition mentioned :: "db \<Rightarrow> string set" where
  "mentioned s = ap_id ` set (apps s) \<union> av_id ` set (versions s) \<union> av_app ` set (versions s) \<union>
     es_id ` set (suites s) \<union> es_app ` set (suites s) \<union> ec_id ` set (eval_cases s) \<union>
     sc_suite ` set (suite_cases s) \<union> sc_case ` set (suite_cases s) \<union>
     er_id ` set (runs s) \<union> ri_id ` set (items s) \<union> ri_run ` set (items s) \<union>
     tr_item ` set (traces s) \<union> rs_item ` set (results s) \<union>
     cm_id ` set (comparisons s) \<union> rp_comparison ` set (reports s)"

definition ids_ok :: "db \<Rightarrow> bool" where
  "ids_ok s \<longleftrightarrow> distinct (map ap_id (apps s)) \<and> distinct (map av_id (versions s)) \<and>
     distinct (map es_id (suites s)) \<and> distinct (map er_id (runs s)) \<and> distinct (map ri_id (items s)) \<and>
     distinct (map cm_id (comparisons s)) \<and>
     list_all (\<lambda>r. list_ex (\<lambda>v. av_id v = er_version r \<and> app_in_org s (er_org r) (av_app v)) (versions s)) (runs s)"

definition state_ok :: "string set \<Rightarrow> db \<Rightarrow> bool" where
  "state_ok U s \<longleftrightarrow> ids_ok s \<and> mentioned s \<subseteq> U"

section \<open>Reading through the view\<close>

lemma find_filter_sub: "(\<And>x. P x \<Longrightarrow> Q x) \<Longrightarrow> find P (filter Q xs) = find P xs"
  by (induction xs) auto

lemma filter_filter_sub: "(\<And>x. P x \<Longrightarrow> Q x) \<Longrightarrow> filter P (filter Q xs) = filter P xs"
  by (induction xs) auto

lemma list_ex_filter_sub: "(\<And>x. P x \<Longrightarrow> Q x) \<Longrightarrow> list_ex P (filter Q xs) = list_ex P xs"
  by (induction xs) auto

lemma filtered_conj:
  "find (\<lambda>x. A x \<and> Q x) (filter Q xs) = find (\<lambda>x. A x \<and> Q x) xs"
  "list_ex (\<lambda>x. A x \<and> Q x) (filter Q xs) = list_ex (\<lambda>x. A x \<and> Q x) xs"
  by (rule find_filter_sub list_ex_filter_sub, blast)+

named_theorems view_simps

lemma view_tables [view_simps]:
  "apps (tenant_view org s) = filter (\<lambda>a. ap_org a = org) (apps s)"
  "versions (tenant_view org s) = filter (\<lambda>v. app_in_org s org (av_app v)) (versions s)"
  "suites (tenant_view org s) = filter (\<lambda>x. app_in_org s org (es_app x)) (suites s)"
  "eval_cases (tenant_view org s) = filter (\<lambda>c. case_in_org s org (ec_id c)) (eval_cases s)"
  "suite_cases (tenant_view org s) = filter (\<lambda>l. suite_in_org s org (sc_suite l)) (suite_cases s)"
  "evaluator_configs (tenant_view org s) = filter (\<lambda>c. vc_org c = org) (evaluator_configs s)"
  "runs (tenant_view org s) = filter (\<lambda>r. er_org r = org) (runs s)"
  "items (tenant_view org s) = filter (\<lambda>i. run_in_org s org (ri_run i)) (items s)"
  "traces (tenant_view org s) = filter (\<lambda>t. item_in_org s org (tr_item t)) (traces s)"
  "results (tenant_view org s) = filter (\<lambda>r. item_in_org s org (rs_item r)) (results s)"
  "gate_rules (tenant_view org s) = filter (\<lambda>g. gr_org g = org) (gate_rules s)"
  "comparisons (tenant_view org s) = filter (\<lambda>c. cm_org c = org) (comparisons s)"
  "reports (tenant_view org s) = filter (\<lambda>r. comparison_in_org s org (rp_comparison r)) (reports s)"
  by (simp_all add: tenant_view_def)

lemma view_belongs [view_simps]:
  "app_in_org (tenant_view org s) org a = app_in_org s org a"
  "run_in_org (tenant_view org s) org r = run_in_org s org r"
  "comparison_in_org (tenant_view org s) org c = comparison_in_org s org c"
  by (simp_all add: app_in_org_def run_in_org_def comparison_in_org_def view_tables filtered_conj)

lemma view_suite [view_simps]: "suite_in_org (tenant_view org s) org x = suite_in_org s org x"
  by (simp add: suite_in_org_def view_tables view_belongs filtered_conj)

lemma view_case [view_simps]: "case_in_org (tenant_view org s) org k = case_in_org s org k"
  by (simp add: case_in_org_def view_tables view_suite filtered_conj)

lemma view_item [view_simps]: "item_in_org (tenant_view org s) org i = item_in_org s org i"
  by (simp add: item_in_org_def view_tables view_belongs filtered_conj)

lemma view_tenant [view_simps]:
  "tenant_app (tenant_view org s) org a = tenant_app s org a"
  "tenant_version (tenant_view org s) org v = tenant_version s org v"
  "tenant_suite (tenant_view org s) org x = tenant_suite s org x"
  "tenant_config (tenant_view org s) org c = tenant_config s org c"
  "tenant_run (tenant_view org s) org r = tenant_run s org r"
  "tenant_comparison (tenant_view org s) org d = tenant_comparison s org d"
  by (simp_all add: tenant_app_def tenant_version_def tenant_suite_def tenant_config_def tenant_run_def
      tenant_comparison_def view_tables view_belongs filtered_conj)

lemma tenant_app_in_org: "tenant_app s org a = Some x \<Longrightarrow> app_in_org s org a"
  unfolding tenant_app_def by (drule find_SomeD) (auto simp: app_in_org_def list_ex_iff)

lemma tenant_suite_in_org: "tenant_suite s org i = Some x \<Longrightarrow> suite_in_org s org i"
  unfolding tenant_suite_def by (drule find_SomeD) (auto simp: suite_in_org_def list_ex_iff)

lemma tenant_run_in_org: "tenant_run s org i = Some x \<Longrightarrow> run_in_org s org i"
  unfolding tenant_run_def by (drule find_SomeD) (auto simp: run_in_org_def list_ex_iff)

lemma tenant_comparison_in_org: "tenant_comparison s org i = Some x \<Longrightarrow> comparison_in_org s org i"
  unfolding tenant_comparison_def by (drule find_SomeD) (auto simp: comparison_in_org_def list_ex_iff)

lemma view_of_app:
  "app_in_org s org a \<Longrightarrow> filter (\<lambda>v. av_app v = a) (versions (tenant_view org s)) = filter (\<lambda>v. av_app v = a) (versions s)"
  "app_in_org s org a \<Longrightarrow> filter (\<lambda>x. es_app x = a) (suites (tenant_view org s)) = filter (\<lambda>x. es_app x = a) (suites s)"
  "app_in_org s org a \<Longrightarrow> list_ex (\<lambda>v. av_app v = a \<and> av_name v = n) (versions (tenant_view org s)) =
     list_ex (\<lambda>v. av_app v = a \<and> av_name v = n) (versions s)"
  "app_in_org s org a \<Longrightarrow> list_ex (\<lambda>x. es_app x = a \<and> es_name x = n) (suites (tenant_view org s)) =
     list_ex (\<lambda>x. es_app x = a \<and> es_name x = n) (suites s)"
  by (auto simp: view_tables list_ex_iff intro!: filter_cong)

lemmas view_of_tenant_app = view_of_app [OF tenant_app_in_org]

lemma view_of_suite:
  assumes "suite_in_org s org sid"
  shows "in_suite (tenant_view org s) sid k = in_suite s sid k"
    and "filter (\<lambda>c. in_suite (tenant_view org s) sid (ec_id c)) (eval_cases (tenant_view org s)) =
      filter (\<lambda>c. in_suite s sid (ec_id c)) (eval_cases s)"
    and "load_suite_cases (tenant_view org s) sid ids = load_suite_cases s sid ids"
proof -
  show one: "in_suite (tenant_view org s) sid k = in_suite s sid k" for k
    using assms by (auto simp: in_suite_def view_tables list_ex_iff)
  have "in_suite s sid (ec_id c) \<Longrightarrow> case_in_org s org (ec_id c)" for c
    using assms by (auto simp: in_suite_def case_in_org_def list_ex_iff)
  then show two: "filter (\<lambda>c. in_suite (tenant_view org s) sid (ec_id c)) (eval_cases (tenant_view org s)) =
      filter (\<lambda>c. in_suite s sid (ec_id c)) (eval_cases s)"
    by (auto simp: one view_tables intro!: filter_cong)
  show "load_suite_cases (tenant_view org s) sid ids = load_suite_cases s sid ids"
    unfolding load_suite_cases_def two ..
qed

lemma view_of_run:
  assumes "run_in_org s org rid"
  shows "run_items (tenant_view org s) rid = run_items s rid"
    and "case_ids_of (tenant_view org s) rid = case_ids_of s rid"
    and "find (\<lambda>i. ri_run i = rid \<and> ri_case i = k) (items (tenant_view org s)) =
      find (\<lambda>i. ri_run i = rid \<and> ri_case i = k) (items s)"
proof -
  have "filter (\<lambda>i. ri_run i = rid) (items (tenant_view org s)) = filter (\<lambda>i. ri_run i = rid) (items s)"
    using assms by (auto simp: view_tables intro!: filter_cong)
  then show "run_items (tenant_view org s) rid = run_items s rid" "case_ids_of (tenant_view org s) rid = case_ids_of s rid"
    by (simp_all add: run_items_def case_ids_of_def)
  show "find (\<lambda>i. ri_run i = rid \<and> ri_case i = k) (items (tenant_view org s)) =
      find (\<lambda>i. ri_run i = rid \<and> ri_case i = k) (items s)"
    unfolding view_tables by (rule find_filter_sub) (use assms in auto)
qed

lemma item_of_run: "run_in_org s org rid \<Longrightarrow> i \<in> set (items s) \<Longrightarrow> ri_run i = rid \<Longrightarrow> item_in_org s org (ri_id i)"
  by (auto simp: item_in_org_def list_ex_iff)

lemma view_of_item:
  assumes "item_in_org s org iid"
  shows "filter (\<lambda>r. rs_item r = iid) (results (tenant_view org s)) = filter (\<lambda>r. rs_item r = iid) (results s)"
    and "find (\<lambda>t. tr_item t = iid) (traces (tenant_view org s)) = find (\<lambda>t. tr_item t = iid) (traces s)"
  using assms by (auto simp: view_tables intro!: filter_cong find_filter_sub)

lemma view_of_comparison:
  "comparison_in_org s org cid \<Longrightarrow> report_of (tenant_view org s) cid = report_of s cid"
  unfolding report_of_def view_tables by (rule find_filter_sub) simp

lemma view_samples:
  assumes "run_in_org s org rid"
  shows "collect_run_metric_samples (tenant_view org s) rid = collect_run_metric_samples s rid"
proof -
  have "add_item_samples (tenant_view org s) t i = add_item_samples s t i" if "i \<in> set (run_items s rid)" for t i
    using item_of_run [OF assms, of i] that
    by (simp add: add_item_samples_def results_of_def view_of_item run_items_def)
  then have "foldl (add_item_samples (tenant_view org s)) t is = foldl (add_item_samples s) t is"
    if "set is \<subseteq> set (run_items s rid)" for t "is"
    using that by (induction "is" arbitrary: t) auto
  then show ?thesis by (simp add: collect_run_metric_samples_def view_of_run [OF assms])
qed


section \<open>Writing through the view\<close>

lemmas belongs_defs = app_in_org_def suite_in_org_def case_in_org_def run_in_org_def item_in_org_def
  comparison_in_org_def

lemma view_add_version:
  "tenant_view o' (s\<lparr>versions := versions s @ vs\<rparr>) = (tenant_view o' s)\<lparr>versions :=
     versions (tenant_view o' s) @ filter (\<lambda>v. app_in_org s o' (av_app v)) vs\<rparr>"
  by (simp add: tenant_view_def belongs_defs)

lemma view_add_config:
  "tenant_view o' (s\<lparr>evaluator_configs := evaluator_configs s @ cs\<rparr>) = (tenant_view o' s)\<lparr>evaluator_configs :=
     evaluator_configs (tenant_view o' s) @ filter (\<lambda>c. vc_org c = o') cs\<rparr>"
  by (simp add: tenant_view_def belongs_defs)

lemma view_add_gate_rule:
  "tenant_view o' (s\<lparr>gate_rules := gate_rules s @ gs\<rparr>) = (tenant_view o' s)\<lparr>gate_rules :=
     gate_rules (tenant_view o' s) @ filter (\<lambda>g. gr_org g = o') gs\<rparr>"
  by (simp add: tenant_view_def belongs_defs)

lemma view_add_app:
  assumes "ap_id a \<notin> mentioned s"
  shows "tenant_view o' (s\<lparr>apps := apps s @ [a]\<rparr>) = (tenant_view o' s)\<lparr>apps :=
     apps (tenant_view o' s) @ filter (\<lambda>a. ap_org a = o') [a]\<rparr>"
proof -
  let ?s = "s\<lparr>apps := apps s @ [a]\<rparr>"
  have app: "app_in_org ?s o' x = app_in_org s o' x" if "x \<noteq> ap_id a" for x
    using that by (auto simp: app_in_org_def)
  have suite: "suite_in_org ?s o' x = suite_in_org s o' x" for x
    using assms by (auto simp: suite_in_org_def list_ex_iff app mentioned_def image_iff) (metis app)+
  have "filter (\<lambda>v. app_in_org ?s o' (av_app v)) (versions s) = filter (\<lambda>v. app_in_org s o' (av_app v)) (versions s)"
    "filter (\<lambda>x. app_in_org ?s o' (es_app x)) (suites s) = filter (\<lambda>x. app_in_org s o' (es_app x)) (suites s)"
    using assms by (auto simp: mentioned_def app image_iff intro!: filter_cong)
  then show ?thesis
    by (simp add: tenant_view_def suite case_in_org_def run_in_org_def item_in_org_def comparison_in_org_def)
qed

lemma view_add_suite:
  assumes "es_id x \<notin> mentioned s"
  shows "tenant_view o' (s\<lparr>suites := suites s @ [x]\<rparr>) = (tenant_view o' s)\<lparr>suites :=
     suites (tenant_view o' s) @ filter (\<lambda>x. app_in_org s o' (es_app x)) [x]\<rparr>"
proof -
  let ?s = "s\<lparr>suites := suites s @ [x]\<rparr>"
  have app: "app_in_org ?s o' z = app_in_org s o' z" for z by (simp add: app_in_org_def)
  have suite: "suite_in_org ?s o' z = suite_in_org s o' z" if "z \<noteq> es_id x" for z
    using that by (auto simp: suite_in_org_def app)
  have links: "filter (\<lambda>l. suite_in_org ?s o' (sc_suite l)) (suite_cases s) =
      filter (\<lambda>l. suite_in_org s o' (sc_suite l)) (suite_cases s)"
    using assms by (auto simp: mentioned_def suite image_iff intro!: filter_cong)
  have "case_in_org ?s o' k = case_in_org s o' k" for k
    using assms by (auto simp: case_in_org_def list_ex_iff mentioned_def image_iff) (metis suite)+
  with links show ?thesis
    by (simp add: tenant_view_def app run_in_org_def item_in_org_def comparison_in_org_def)
qed

lemma view_add_cases:
  assumes "set (map ec_id rows) \<inter> mentioned s = {}" "set (map sc_case links) = set (map ec_id rows)"
    and "\<And>l. l \<in> set links \<Longrightarrow> sc_suite l = sid"
  shows "tenant_view o' (s\<lparr>eval_cases := eval_cases s @ rows, suite_cases := suite_cases s @ links\<rparr>) =
    (if suite_in_org s o' sid
     then (tenant_view o' s)\<lparr>eval_cases := eval_cases (tenant_view o' s) @ rows,
        suite_cases := suite_cases (tenant_view o' s) @ links\<rparr>
     else tenant_view o' s)"
proof -
  let ?s = "s\<lparr>eval_cases := eval_cases s @ rows, suite_cases := suite_cases s @ links\<rparr>"
  have suite: "suite_in_org ?s o' z = suite_in_org s o' z" for z by (simp add: suite_in_org_def app_in_org_def)
  have old: "case_in_org ?s o' k = case_in_org s o' k" if "k \<in> mentioned s" for k
  proof -
    have "k \<notin> set (map sc_case links)" using that assms(1,2) by blast
    then show ?thesis by (auto simp: case_in_org_def suite list_ex_iff)
  qed
  have new: "case_in_org ?s o' k \<longleftrightarrow> suite_in_org s o' sid" if "k \<in> set (map ec_id rows)" for k
  proof -
    have "k \<notin> sc_case ` set (suite_cases s)" using that assms(1) by (auto simp: mentioned_def)
    moreover have "k \<in> set (map sc_case links)" using that assms(2) by simp
    ultimately show ?thesis using assms(3) by (auto simp: case_in_org_def suite list_ex_iff image_iff)
  qed
  have "filter (\<lambda>c. case_in_org ?s o' (ec_id c)) (eval_cases s) = filter (\<lambda>c. case_in_org s o' (ec_id c)) (eval_cases s)"
    by (rule filter_cong) (auto intro!: old simp: mentioned_def)
  moreover have "filter (\<lambda>c. case_in_org ?s o' (ec_id c)) rows = (if suite_in_org s o' sid then rows else [])"
    using new by (auto intro!: filter_True filter_False)
  moreover have "filter (\<lambda>l. suite_in_org s o' (sc_suite l)) links = (if suite_in_org s o' sid then links else [])"
    using assms(3) by (auto intro!: filter_True filter_False)
  ultimately show ?thesis
    by (simp add: tenant_view_def suite app_in_org_def run_in_org_def item_in_org_def comparison_in_org_def)
qed

lemma view_add_run:
  assumes "er_id r \<notin> mentioned s" "ri_id ` set is \<inter> mentioned s = {}"
    and "\<And>i. i \<in> set is \<Longrightarrow> ri_run i = er_id r" "tr_item ` set ts \<subseteq> ri_id ` set is" "rs_item ` set rs \<subseteq> ri_id ` set is"
  shows "tenant_view o' (s\<lparr>runs := runs s @ [r], items := items s @ is, traces := traces s @ ts, results := results s @ rs\<rparr>) =
    (if er_org r = o'
     then (tenant_view o' s)\<lparr>runs := runs (tenant_view o' s) @ [r], items := items (tenant_view o' s) @ is,
        traces := traces (tenant_view o' s) @ ts, results := results (tenant_view o' s) @ rs\<rparr>
     else tenant_view o' s)"
proof -
  let ?s = "s\<lparr>runs := runs s @ [r], items := items s @ is, traces := traces s @ ts, results := results s @ rs\<rparr>"
  have run_old: "run_in_org ?s o' z = run_in_org s o' z" if "z \<noteq> er_id r" for z
    using that by (auto simp: run_in_org_def)
  have run_new: "run_in_org ?s o' (er_id r) \<longleftrightarrow> er_org r = o'"
    using assms(1) by (auto simp: run_in_org_def mentioned_def list_ex_iff image_iff)
  have ne: "ri_run i \<noteq> er_id r" if "i \<in> set (items s)" for i using assms(1) that by (auto simp: mentioned_def image_iff)
  have item_old: "item_in_org ?s o' z = item_in_org s o' z" if "z \<in> mentioned s" for z
  proof -
    have "z \<notin> ri_id ` set is" using that assms(2) by blast
    then show ?thesis using ne by (auto simp: item_in_org_def list_ex_iff run_old image_iff)
  qed
  have item_new: "item_in_org ?s o' z \<longleftrightarrow> er_org r = o'" if "z \<in> ri_id ` set is" for z
  proof -
    have "z \<notin> ri_id ` set (items s)" using that assms(2) by (auto simp: mentioned_def)
    with that show ?thesis using assms(3) run_new by (auto simp: item_in_org_def list_ex_iff image_iff)
  qed
  have "filter (\<lambda>i. run_in_org ?s o' (ri_run i)) (items s) = filter (\<lambda>i. run_in_org s o' (ri_run i)) (items s)"
    by (rule filter_cong) (auto simp: run_old ne)
  moreover have "filter (\<lambda>i. run_in_org ?s o' (ri_run i)) is = (if er_org r = o' then is else [])"
    using assms(3) run_new by (auto intro!: filter_True filter_False)
  moreover have "filter (\<lambda>t. item_in_org ?s o' (tr_item t)) (traces s) = filter (\<lambda>t. item_in_org s o' (tr_item t)) (traces s)"
    "filter (\<lambda>x. item_in_org ?s o' (rs_item x)) (results s) = filter (\<lambda>x. item_in_org s o' (rs_item x)) (results s)"
    by (auto intro!: filter_cong item_old simp: mentioned_def)
  moreover have "filter (\<lambda>t. item_in_org ?s o' (tr_item t)) ts = (if er_org r = o' then ts else [])"
    "filter (\<lambda>x. item_in_org ?s o' (rs_item x)) rs = (if er_org r = o' then rs else [])"
    using item_new assms(4,5) by (auto intro!: filter_True filter_False)
  moreover have "filter (\<lambda>x. er_org x = o') (runs s @ [r]) = filter (\<lambda>x. er_org x = o') (runs s) @ (if er_org r = o' then [r] else [])"
    by simp
  ultimately show ?thesis
    by (simp add: tenant_view_def app_in_org_def suite_in_org_def case_in_org_def comparison_in_org_def)
qed

lemma view_add_comparison:
  assumes "cm_id c \<notin> mentioned s" "rp_comparison r = cm_id c"
    and "\<And>g. g \<in> set gs \<Longrightarrow> gr_org g = cm_org c"
  shows "tenant_view o' (s\<lparr>gate_rules := gate_rules s @ gs, comparisons := comparisons s @ [c], reports := reports s @ [r]\<rparr>) =
    (if cm_org c = o'
     then (tenant_view o' s)\<lparr>gate_rules := gate_rules (tenant_view o' s) @ gs,
        comparisons := comparisons (tenant_view o' s) @ [c], reports := reports (tenant_view o' s) @ [r]\<rparr>
     else tenant_view o' s)"
proof -
  let ?s = "s\<lparr>gate_rules := gate_rules s @ gs, comparisons := comparisons s @ [c], reports := reports s @ [r]\<rparr>"
  have old: "comparison_in_org ?s o' z = comparison_in_org s o' z" if "z \<noteq> cm_id c" for z
    using that by (auto simp: comparison_in_org_def)
  have new: "comparison_in_org ?s o' (cm_id c) \<longleftrightarrow> cm_org c = o'"
    using assms(1) by (auto simp: comparison_in_org_def mentioned_def list_ex_iff image_iff)
  have "filter (\<lambda>x. comparison_in_org ?s o' (rp_comparison x)) (reports s) =
      filter (\<lambda>x. comparison_in_org s o' (rp_comparison x)) (reports s)"
    by (rule filter_cong) (use assms(1) in \<open>auto simp: old mentioned_def image_iff\<close>)
  moreover have "filter (\<lambda>g. gr_org g = o') gs = (if cm_org c = o' then gs else [])"
    using assms(3) by (auto intro!: filter_True filter_False)
  ultimately show ?thesis
    using new assms(2)
    by (simp add: tenant_view_def app_in_org_def suite_in_org_def case_in_org_def run_in_org_def item_in_org_def)
qed


section \<open>An identifier belongs to one organisation\<close>

lemma distinct_map_same: "distinct (map f xs) \<Longrightarrow> x \<in> set xs \<Longrightarrow> y \<in> set xs \<Longrightarrow> f x = f y \<Longrightarrow> x = y"
  by (auto simp: distinct_map inj_on_def)

lemma app_owner: "ids_ok s \<Longrightarrow> app_in_org s o1 a \<Longrightarrow> app_in_org s o2 a \<Longrightarrow> o1 = o2"
  using distinct_map_same [of ap_id "apps s"] unfolding ids_ok_def app_in_org_def list_ex_iff by metis

lemma suite_owner: "ids_ok s \<Longrightarrow> suite_in_org s o1 x \<Longrightarrow> suite_in_org s o2 x \<Longrightarrow> o1 = o2"
  using distinct_map_same [of es_id "suites s"] app_owner unfolding ids_ok_def suite_in_org_def list_ex_iff
  by (metis (no_types, lifting) app_owner ids_ok_def list_ex_iff)

lemma ids_ok_more_apps:
  assumes "ids_ok s" "ap_id a \<notin> mentioned s"
  shows "ids_ok (s\<lparr>apps := apps s @ [a]\<rparr>)"
  using assms unfolding ids_ok_def
  by (fastforce simp: mentioned_def app_in_org_def list_all_iff list_ex_iff)

lemma ids_ok_more_versions:
  assumes "ids_ok s" "av_id v \<notin> mentioned s"
  shows "ids_ok (s\<lparr>versions := versions s @ [v]\<rparr>)"
  using assms unfolding ids_ok_def
  by (auto simp: mentioned_def app_in_org_def list_all_iff list_ex_iff)

lemma ids_ok_more_suites:
  assumes "ids_ok s" "es_id x \<notin> mentioned s"
  shows "ids_ok (s\<lparr>suites := suites s @ [x]\<rparr>)"
  using assms unfolding ids_ok_def by (auto simp: mentioned_def app_in_org_def)

lemma ids_ok_other_tables:
  "ids_ok (s\<lparr>eval_cases := cs, suite_cases := ls\<rparr>) = ids_ok s"
  "ids_ok (s\<lparr>evaluator_configs := vs\<rparr>) = ids_ok s"
  "ids_ok (s\<lparr>gate_rules := gs\<rparr>) = ids_ok s"
  by (simp_all add: ids_ok_def app_in_org_def)

lemma ids_ok_more_runs:
  assumes "ids_ok s" "er_id r \<notin> mentioned s" "distinct (map ri_id is)" "ri_id ` set is \<inter> mentioned s = {}"
    and "tenant_version s (er_org r) (er_version r) = Some v"
  shows "ids_ok (s\<lparr>runs := runs s @ [r], items := items s @ is, traces := ts, results := rs\<rparr>)"
proof -
  have "list_ex (\<lambda>v. av_id v = er_version r \<and> app_in_org s (er_org r) (av_app v)) (versions s)"
    using find_SomeD [OF assms(5) [unfolded tenant_version_def]] by (auto simp: list_ex_iff)
  with assms(1-4) show ?thesis unfolding ids_ok_def by (auto simp: mentioned_def app_in_org_def)
qed

lemma ids_ok_more_comparisons:
  assumes "ids_ok s" "cm_id c \<notin> mentioned s"
  shows "ids_ok (s\<lparr>gate_rules := gs, comparisons := comparisons s @ [c], reports := rs\<rparr>)"
  using assms unfolding ids_ok_def by (auto simp: mentioned_def app_in_org_def)

lemma version_of_own_run:
  assumes "ids_ok s" "tenant_run s org rid = Some r"
  shows "version_by_id (tenant_view org s) (er_version r) = version_by_id s (er_version r)"
proof -
  from find_SomeD [OF assms(2) [unfolded tenant_run_def]] have r: "r \<in> set (runs s)" "er_org r = org" by auto
  with assms(1) obtain v where v: "v \<in> set (versions s)" "av_id v = er_version r" "app_in_org s org (av_app v)"
    by (auto simp: ids_ok_def list_all_iff list_ex_iff)
  have d: "distinct (map av_id (versions s))" using assms(1) by (simp add: ids_ok_def)
  have "find (\<lambda>x. av_id x = er_version r) (filter (\<lambda>x. app_in_org s org (av_app x)) vs) =
      find (\<lambda>x. av_id x = er_version r) vs" if "\<And>x. x \<in> set vs \<Longrightarrow> av_id x = er_version r \<Longrightarrow> x = v" for vs
    using that v(3) by (induction vs) auto
  with distinct_map_same [OF d] v show ?thesis by (simp add: version_by_id_def view_tables)
qed

section \<open>Handlers and the view\<close>

lemma commit_view:
  assumes "r' = r" "\<And>x. r = Inr x \<Longrightarrow> tenant_view org (w x s) = w x (tenant_view org s)"
  shows "commit_with r' w (tenant_view org s) = map_prod id (tenant_view org) (commit_with r w s)"
  using assms by (auto simp: commit_with_def split: sum.splits)

lemma and_then_view:
  "(\<And>x. m = Inr x \<Longrightarrow> f x = g x) \<Longrightarrow> and_then m f = and_then m g"
  by (cases m) auto

lemma create_app_view:
  assumes "uuid E 0 \<notin> mentioned s"
  shows "create_app E n d p (tenant_view (p_org p) s) = map_prod id (tenant_view (p_org p)) (create_app E n d p s)"
  unfolding create_app_def
proof (rule commit_view)
  have "list_ex (\<lambda>a. ap_org a = p_org p \<and> ap_name a = n) (apps (tenant_view (p_org p) s)) =
      list_ex (\<lambda>a. ap_org a = p_org p \<and> ap_name a = n) (apps s)"
    by (auto simp: view_tables list_ex_iff)
  then show "and_then (require_role p Evaluator) (\<lambda>_. and_then (guard (\<not> list_ex (\<lambda>a. ap_org a = p_org p \<and> ap_name a = n)
          (apps (tenant_view (p_org p) s))) 409 ''App name already exists'') (\<lambda>_.
        Inr \<lparr>ap_id = uuid E 0, ap_org = p_org p, ap_name = n, ap_description = d, ap_created = now E\<rparr>)) =
      and_then (require_role p Evaluator) (\<lambda>_. and_then (guard (\<not> list_ex (\<lambda>a. ap_org a = p_org p \<and> ap_name a = n)
          (apps s)) 409 ''App name already exists'') (\<lambda>_.
        Inr \<lparr>ap_id = uuid E 0, ap_org = p_org p, ap_name = n, ap_description = d, ap_created = now E\<rparr>))" by simp
qed (use assms in \<open>auto simp: and_then_Inr_iff view_add_app\<close>)

lemma create_app_version_view:
  "create_app_version E a n m c p (tenant_view (p_org p) s) =
    map_prod id (tenant_view (p_org p)) (create_app_version E a n m c p s)"
  unfolding create_app_version_def view_tenant
  by (rule commit_view)
     (auto simp: view_of_tenant_app tenant_app_in_org and_then_Inr_iff view_add_version intro!: and_then_view)

lemma create_eval_suite_view:
  assumes "uuid E 0 \<notin> mentioned s"
  shows "create_eval_suite E a n p (tenant_view (p_org p) s) =
    map_prod id (tenant_view (p_org p)) (create_eval_suite E a n p s)"
  unfolding create_eval_suite_def view_tenant
  by (rule commit_view)
     (use assms in \<open>auto simp: view_of_tenant_app tenant_app_in_org and_then_Inr_iff view_add_suite intro!: and_then_view\<close>)


lemma import_row_ids: "import_rows E i n cases = Inr (rows, errors) \<Longrightarrow> ec_id ` set rows \<subseteq> range (uuid E)"
proof -
  assume "import_rows E i n cases = Inr (rows, errors)"
  then have "set (map ec_id rows) = set (map (uuid E) [n..<n + length rows])" using import_rows_Inr by metis
  then show ?thesis by auto
qed

lemma import_eval_cases_view:
  assumes "range (uuid E) \<inter> mentioned s = {}"
  shows "import_eval_cases E sid cases p (tenant_view (p_org p) s) =
    map_prod id (tenant_view (p_org p)) (import_eval_cases E sid cases p s)"
  unfolding import_eval_cases_def view_tenant
proof (rule commit_view [OF refl])
  fix x
  assume r: "and_then (require_role p Evaluator) (\<lambda>_. and_then (found_or_404 ''Eval suite not found''
      (tenant_suite s (p_org p) sid)) (\<lambda>_. case import_rows E 0 0 cases of Inl exc \<Rightarrow> Inl (Unhandled exc) | Inr x \<Rightarrow> Inr x)) = Inr x"
  obtain rows errors where x: "x = (rows, errors)" by (cases x)
  from r have "suite_in_org s (p_org p) sid" and rows: "import_rows E 0 0 cases = Inr (rows, errors)"
    by (auto simp: and_then_Inr_iff x dest: tenant_suite_in_org split: sum.splits)
  with assms import_row_ids [OF rows]
  show "tenant_view (p_org p) ((case x of (rows, _) \<Rightarrow> \<lambda>s. s\<lparr>eval_cases := eval_cases s @ rows,
      suite_cases := suite_cases s @ map (\<lambda>c. \<lparr>sc_suite = sid, sc_case = ec_id c\<rparr>) rows\<rparr>) s) =
    (case x of (rows, _) \<Rightarrow> \<lambda>s. s\<lparr>eval_cases := eval_cases s @ rows,
      suite_cases := suite_cases s @ map (\<lambda>c. \<lparr>sc_suite = sid, sc_case = ec_id c\<rparr>) rows\<rparr>) (tenant_view (p_org p) s)"
    unfolding x prod.case by (subst view_add_cases [where sid = sid]) (auto simp: comp_def)
qed

lemma org_names_view:
  "list_ex (\<lambda>c. vc_org c = org \<and> vc_name c = n) (evaluator_configs (tenant_view org s)) =
   list_ex (\<lambda>c. vc_org c = org \<and> vc_name c = n) (evaluator_configs s)"
  "list_ex (\<lambda>g. gr_org g = org \<and> gr_name g = n) (gate_rules (tenant_view org s)) =
   list_ex (\<lambda>g. gr_org g = org \<and> gr_name g = n) (gate_rules s)"
  by (auto simp: view_tables list_ex_iff)

lemma create_evaluator_config_view:
  "create_evaluator_config E inst n c p (tenant_view (p_org p) s) =
    map_prod id (tenant_view (p_org p)) (create_evaluator_config E inst n c p s)"
  unfolding create_evaluator_config_def org_names_view
  by (rule commit_view [OF refl]) (auto simp: and_then_Inr_iff view_add_config)

lemma create_gate_rule_view:
  "create_gate_rule E n r p (tenant_view (p_org p) s) =
    map_prod id (tenant_view (p_org p)) (create_gate_rule E n r p s)"
  unfolding create_gate_rule_def org_names_view
  by (rule commit_view [OF refl]) (auto simp: and_then_Inr_iff view_add_gate_rule)

lemma stored_rows:
  assumes "store_all E rid v (zip [n..<n + length cases] (zip cases outs)) = Inr stored" "length outs = length cases"
  shows "tr_item ` set (concat (map (fst \<circ> snd) stored)) \<subseteq> ri_id ` set (map fst stored) \<and>
    rs_item ` set (concat (map (snd \<circ> snd) stored)) \<subseteq> ri_id ` set (map fst stored)"
proof -
  have rows: "rs_item x = i" if "store_results t i rs = Inr xs" "x \<in> set xs" for t i rs xs x
  proof -
    have "map_res (result_row_of t i) rs = Inr xs \<Longrightarrow> x \<in> set xs \<Longrightarrow> rs_item x = i"
      by (induction rs arbitrary: xs) (auto simp: and_then_Inr_iff result_row_of_def)
    with that show ?thesis by (auto simp: store_results_def split: if_splits)
  qed
  have one: "(\<forall>t \<in> set ts. tr_item t = ri_id i) \<and> (\<forall>x \<in> set rs. rs_item x = ri_id i)"
    if "store_case E rid v k c co = Inr (i, ts, rs)" for k c co i ts rs
    using that rows by (auto simp: store_case_def and_then_Inr_iff split: option.splits)
  have "(\<forall>t \<in> set (fst (snd z)). tr_item t = ri_id (fst z)) \<and> (\<forall>x \<in> set (snd (snd z)). rs_item x = ri_id (fst z))"
    if "map_res (\<lambda>(k, c, co). store_case E rid v (uuid E (Suc k)) c co) ys = Inr zs" "z \<in> set zs" for ys zs z
    using that
  proof (induction ys arbitrary: zs)
    case (Cons y ys)
    obtain k c co where y: "y = (k, c, co)" by (cases y)
    from Cons.prems(1) obtain i ts rs zs' where z0: "store_case E rid v (uuid E (Suc k)) c co = Inr (i, ts, rs)"
      and zs: "map_res (\<lambda>(k, c, co). store_case E rid v (uuid E (Suc k)) c co) ys = Inr zs'" "zs = (i, ts, rs) # zs'"
      by (auto simp: y and_then_Inr_iff)
    from Cons.prems(2) zs(2) consider "z = (i, ts, rs)" | "z \<in> set zs'" by auto
    then show ?case using one [OF z0] Cons.IH [OF zs(1)] by cases simp_all
  qed simp
  from this [OF assms(1) [unfolded store_all_def]]
  have all: "\<And>z. z \<in> set stored \<Longrightarrow> (\<forall>t \<in> set (fst (snd z)). tr_item t = ri_id (fst z)) \<and>
      (\<forall>x \<in> set (snd (snd z)). rs_item x = ri_id (fst z))" .
  show ?thesis
  proof (intro conjI subsetI; clarsimp)
    fix i ts rs t
    assume "(i, ts, rs) \<in> set stored"
    with all [OF this] show "t \<in> set ts \<Longrightarrow> tr_item t \<in> ri_id ` fst ` set stored"
      and "x \<in> set rs \<Longrightarrow> rs_item x \<in> ri_id ` fst ` set stored" for x by (auto intro!: rev_image_eqI [of i] rev_image_eqI [of "(i, ts, rs)"])
  qed
qed


definition fresh_supply :: "(nat \<Rightarrow> string) \<Rightarrow> db \<Rightarrow> bool" where
  "fresh_supply f s \<longleftrightarrow> inj f \<and> range f \<inter> mentioned s = {}"

lemma fresh_supplyD: "fresh_supply f s \<Longrightarrow> f n \<notin> mentioned s"
  by (auto simp: fresh_supply_def)

lemma stored_items:
  assumes "store_all E rid v (zip [0..<length cases] (zip cases outs)) = Inr stored" "length outs = length cases"
  shows "map ri_id (map fst stored) = map (\<lambda>k. uuid E (Suc k)) [0..<length cases] \<and> (\<forall>i \<in> set (map fst stored). ri_run i = rid)"
  using store_all_items [of E rid v 0 cases outs stored] assms by (auto simp: comp_def)

lemma fresh_items:
  assumes "fresh_supply f s" "map ri_id is = map (\<lambda>k. f (Suc k)) [0..<n]"
  shows "ri_id ` set is \<inter> mentioned s = {}" "distinct (map ri_id is)"
proof -
  have "set (map ri_id is) \<subseteq> range f" unfolding assms(2) by auto
  then show "ri_id ` set is \<inter> mentioned s = {}" using assms(1) by (auto simp: fresh_supply_def)
  show "distinct (map ri_id is)"
    unfolding assms(2) using assms(1) by (auto simp: distinct_map inj_on_def fresh_supply_def inj_def)
qed

text \<open>What a run writes: one fresh run of the organisation, its items, and traces and results of those items.\<close>

definition run_rows :: "db \<Rightarrow> string \<Rightarrow> (nat \<Rightarrow> string) \<Rightarrow> run_row \<Rightarrow> item_row list \<Rightarrow> trace_row list \<Rightarrow> result_row list \<Rightarrow> bool"
where
  "run_rows s org f r is ts rs \<longleftrightarrow> er_id r = f 0 \<and> er_org r = org \<and> (\<exists>v. tenant_version s org (er_version r) = Some v) \<and>
     map ri_id is = map (\<lambda>k. f (Suc k)) [0..<length is] \<and> (\<forall>i \<in> set is. ri_run i = f 0) \<and>
     tr_item ` set ts \<subseteq> ri_id ` set is \<and> rs_item ` set rs \<subseteq> ri_id ` set is"

definition add_run :: "run_row \<Rightarrow> item_row list \<Rightarrow> trace_row list \<Rightarrow> result_row list \<Rightarrow> db \<Rightarrow> db" where
  "add_run r is ts rs s = s\<lparr>runs := runs s @ [r], items := items s @ is, traces := traces s @ ts, results := results s @ rs\<rparr>"

lemma view_add_run_rows:
  assumes "fresh_supply f s" "run_rows s org f r is ts rs"
  shows "tenant_view o' (add_run r is ts rs s) =
    (if org = o' then add_run r is ts rs (tenant_view o' s) else tenant_view o' s)"
proof -
  have items: "map ri_id is = map (\<lambda>k. f (Suc k)) [0..<length is]" using assms(2) by (simp add: run_rows_def)
  show ?thesis
    using view_add_run [of r s "is" ts rs o'] assms fresh_items(1) [OF assms(1) items]
    by (auto simp: run_rows_def add_run_def fresh_supplyD)
qed

text \<open>A run service as a function of what it looks up, and of nothing else in the database.\<close>

definition commit_run :: "exn + (run_row \<times> item_row list \<times> trace_row list \<times> result_row list) \<Rightarrow> db \<Rightarrow> run_row res \<times> db" where
  "commit_run c s = (case c of Inl exc \<Rightarrow> (Inl exc, s) | Inr (r, is, ts, rs) \<Rightarrow> (Inr r, add_run r is ts rs s))"

definition execute_core ::
  "service_env \<Rightarrow> string \<Rightarrow> string \<Rightarrow> string \<Rightarrow> string list option \<Rightarrow> string \<Rightarrow> version_row option \<Rightarrow> suite_row option \<Rightarrow>
   evaluator_config_row option \<Rightarrow> case_row list \<Rightarrow> exn + (run_row \<times> item_row list \<times> trace_row list \<times> result_row list)" where
  "execute_core E vid sid cid case_ids org v su co cases =
     (case (v, su, co) of
        (None, _, _) \<Rightarrow> Inl (Exn NotFoundErr ''App version not found'')
      | (_, None, _) \<Rightarrow> Inl (Exn NotFoundErr ''Eval suite not found'')
      | (_, _, None) \<Rightarrow> Inl (Exn NotFoundErr ''Evaluator config not found'')
      | (Some version, Some suite, Some config) \<Rightarrow>
          if av_app version \<noteq> es_app suite then
            Inl (Exn InvalidRunErr ''App version and eval suite must belong to the same app'')
          else
            (case and_then (validate_selected_cases cases case_ids)
                    (\<lambda>_. load_adapter (import_module E) (conf (world E)) (av_adapter version)) of
               Inl exc \<Rightarrow> Inl exc
             | Inr adapter \<Rightarrow>
                 let outs = map (run_case E adapter version config) cases;
                     errored_count = sum_list (map co_errored outs)
                 in (case store_all E (uuid E 0) version (zip [0..<length cases] (zip cases outs)) of
                       Inl exc \<Rightarrow> Inl exc
                     | Inr stored \<Rightarrow>
                         Inr (\<lparr>er_id = uuid E 0, er_org = org, er_version = vid, er_suite = sid, er_config = cid,
                               er_status = (if errored_count = 0 then RunCompleted else RunPartial),
                               er_started = Some (now E), er_completed_at = Some (now E),
                               er_case_count = length cases, er_case_completed = sum_list (map co_completed outs),
                               er_case_errored = errored_count, er_created = now E\<rparr>,
                              map fst stored, concat (map (fst \<circ> snd) stored), concat (map (snd \<circ> snd) stored)))))"

lemma execute_run_core:
  "execute_run E vid sid cid ids org s =
     commit_run (execute_core E vid sid cid ids org (tenant_version s org vid) (tenant_suite s org sid)
       (tenant_config s org cid) (load_suite_cases s sid ids)) s"
proof -
  consider "tenant_version s org vid = None" | v where "tenant_version s org vid = Some v" "tenant_suite s org sid = None"
    | v su where "tenant_version s org vid = Some v" "tenant_suite s org sid = Some su" "tenant_config s org cid = None"
    | v su co where "tenant_version s org vid = Some v" "tenant_suite s org sid = Some su" "tenant_config s org cid = Some co"
    by fastforce
  then show ?thesis
  proof cases
    case (4 v su co)
    show ?thesis
    proof (cases "and_then (validate_selected_cases (load_suite_cases s sid ids) ids)
        (\<lambda>_. load_adapter (import_module E) (conf (world E)) (av_adapter v))")
      case (Inr adapter)
      then show ?thesis
        by (cases "store_all E (uuid E 0) v (zip [0..<length (load_suite_cases s sid ids)]
              (zip (load_suite_cases s sid ids) (map (run_case E adapter v co) (load_suite_cases s sid ids))))")
           (simp_all add: execute_run_def execute_core_def commit_run_def add_run_def 4 Let_def)
    qed (simp add: execute_run_def execute_core_def commit_run_def 4 Let_def)
  qed (simp_all add: execute_run_def execute_core_def commit_run_def split: option.splits)
qed

lemma execute_core_cases:
  "execute_core E vid sid cid ids org v None co cases = execute_core E vid sid cid ids org v None co cases'"
  by (cases v) (simp_all add: execute_core_def)

lemma execute_core_rows:
  assumes "execute_core E vid sid cid ids org (tenant_version s org vid) su co cases = Inr (r, is, ts, rs)"
  shows "run_rows s org (uuid E) r is ts rs"
proof -
  from assms obtain v x c where ents: "tenant_version s org vid = Some v" "su = Some x" "co = Some c"
    by (auto simp: execute_core_def split: option.splits)
  from assms ents have app: "av_app v = es_app x" by (auto simp: execute_core_def split: if_splits)
  from assms ents app obtain adapter where
    ad: "and_then (validate_selected_cases cases ids) (\<lambda>_. load_adapter (import_module E) (conf (world E)) (av_adapter v)) = Inr adapter"
    by (cases "and_then (validate_selected_cases cases ids) (\<lambda>_. load_adapter (import_module E) (conf (world E)) (av_adapter v))")
       (simp_all add: execute_core_def)
  let ?outs = "map (run_case E adapter v c) cases"
  from assms ents app ad obtain stored where
    st: "store_all E (uuid E 0) v (zip [0..<length cases] (zip cases ?outs)) = Inr stored"
    and rows: "is = map fst stored" "ts = concat (map (fst \<circ> snd) stored)" "rs = concat (map (snd \<circ> snd) stored)"
    and r: "er_id r = uuid E 0" "er_org r = org" "er_version r = vid"
    by (cases "store_all E (uuid E 0) v (zip [0..<length cases] (zip cases ?outs))")
       (auto simp add: execute_core_def Let_def)
  from stored_items [OF st] have items: "map ri_id is = map (\<lambda>k. uuid E (Suc k)) [0..<length cases]" "\<forall>i \<in> set is. ri_run i = uuid E 0"
    by (auto simp: rows)
  have "length (map ri_id is) = length cases" unfolding items(1) by simp
  then have "length is = length cases" by simp
  with items r ents stored_rows [of E "uuid E 0" v 0 cases ?outs stored] st show ?thesis
    by (auto simp: run_rows_def rows)
qed


lemma execute_run_view:
  assumes "fresh_supply (uuid E) s"
  shows "execute_run E vid sid cid ids org (tenant_view org s) =
    map_prod id (tenant_view org) (execute_run E vid sid cid ids org s)"
proof -
  have core: "execute_core E vid sid cid ids org v (tenant_suite s org sid) co (load_suite_cases (tenant_view org s) sid ids) =
      execute_core E vid sid cid ids org v (tenant_suite s org sid) co (load_suite_cases s sid ids)" for v co
    by (cases "tenant_suite s org sid") (simp_all add: execute_core_cases [of E vid sid cid ids org v] view_of_suite(3) [OF tenant_suite_in_org])
  show ?thesis
    unfolding execute_run_core view_tenant core commit_run_def
    by (auto simp: view_add_run_rows [OF assms execute_core_rows] split: sum.splits)
qed

text \<open>The dispatcher stores the same kind of rows, whether the queue takes the tasks or not.\<close>

definition dispatch_core ::
  "service_env \<Rightarrow> (signature list \<Rightarrow> string \<Rightarrow> unit res) \<Rightarrow> string \<Rightarrow> string \<Rightarrow> string \<Rightarrow> string list option \<Rightarrow> string \<Rightarrow>
   version_row option \<Rightarrow> suite_row option \<Rightarrow> evaluator_config_row option \<Rightarrow> case_row list \<Rightarrow>
   exn + (run_row res \<times> run_row \<times> item_row list)" where
  "dispatch_core E submit vid sid cid case_ids org v su co cases =
     (case (v, su, co) of
        (None, _, _) \<Rightarrow> Inl (Exn NotFoundErr ''App version not found'')
      | (_, None, _) \<Rightarrow> Inl (Exn NotFoundErr ''Eval suite not found'')
      | (_, _, None) \<Rightarrow> Inl (Exn NotFoundErr ''Evaluator config not found'')
      | (Some version, Some suite, Some config) \<Rightarrow>
          if av_app version \<noteq> es_app suite then
            Inl (Exn InvalidRunErr ''App version and eval suite must belong to the same app'')
          else
            (case validate_selected_cases cases case_ids of
               Inl exc \<Rightarrow> Inl exc
             | Inr _ \<Rightarrow>
                 let run = \<lparr>er_id = uuid E 0, er_org = org, er_version = vid, er_suite = sid, er_config = cid,
                       er_status = RunRunning, er_started = Some (now E), er_completed_at = None,
                       er_case_count = length cases, er_case_completed = 0, er_case_errored = 0,
                       er_created = now E\<rparr>;
                     run_items = queued_items E cases;
                     signatures = map (task_signature vid cid) run_items
                 in if signatures \<noteq> [] \<and> \<not> is_ok (submit signatures (er_id run)) then
                      Inr (Inl (Exn DispatchErr (''Run '' @ er_id run @ '' could not be dispatched'')),
                           failed_run (now E) (length cases) run, map (undispatched_item (now E)) run_items)
                    else Inr (Inr run, run, run_items)))"

definition commit_dispatch :: "exn + (run_row res \<times> run_row \<times> item_row list) \<Rightarrow> db \<Rightarrow> run_row res \<times> db" where
  "commit_dispatch c s = (case c of Inl exc \<Rightarrow> (Inl exc, s) | Inr (res, r, is) \<Rightarrow> (res, add_run r is [] [] s))"

lemma dispatch_run_core:
  "dispatch_run E submit vid sid cid ids org s =
     commit_dispatch (dispatch_core E submit vid sid cid ids org (tenant_version s org vid) (tenant_suite s org sid)
       (tenant_config s org cid) (load_suite_cases s sid ids)) s"
proof -
  consider "tenant_version s org vid = None" | v where "tenant_version s org vid = Some v" "tenant_suite s org sid = None"
    | v su where "tenant_version s org vid = Some v" "tenant_suite s org sid = Some su" "tenant_config s org cid = None"
    | v su co where "tenant_version s org vid = Some v" "tenant_suite s org sid = Some su" "tenant_config s org cid = Some co"
    by fastforce
  then show ?thesis
  proof cases
    case (4 v su co)
    show ?thesis
      by (cases "validate_selected_cases (load_suite_cases s sid ids) ids")
         (simp_all add: dispatch_run_def dispatch_core_def commit_dispatch_def add_run_def 4 Let_def)
  qed (simp_all add: dispatch_run_def dispatch_core_def commit_dispatch_def split: option.splits)
qed

lemma dispatch_core_cases:
  "dispatch_core E submit vid sid cid ids org v None co cases = dispatch_core E submit vid sid cid ids org v None co cases'"
  by (cases v) (simp_all add: dispatch_core_def)

lemma dispatch_core_rows:
  assumes "dispatch_core E submit vid sid cid ids org (tenant_version s org vid) su co cases = Inr (res, r, is)"
  shows "run_rows s org (uuid E) r is [] []"
proof -
  from assms obtain v x c where ents: "tenant_version s org vid = Some v" "su = Some x" "co = Some c"
    by (auto simp: dispatch_core_def split: option.splits)
  from assms ents have app: "av_app v = es_app x" by (auto simp: dispatch_core_def split: if_splits)
  from assms ents app have "validate_selected_cases cases ids = Inr ()"
    by (cases "validate_selected_cases cases ids") (simp_all add: dispatch_core_def)
  with assms ents app have r: "er_id r = uuid E 0" "er_org r = org" "er_version r = vid"
    and "is": "is = queued_items E cases \<or> is = map (undispatched_item (now E)) (queued_items E cases)"
    by (auto simp: dispatch_core_def Let_def failed_run_def split: if_splits)
  have "map ri_id is = map (\<lambda>k. uuid E (Suc k)) [0..<length is]" "\<forall>i \<in> set is. ri_run i = uuid E 0"
    using "is" queued_items_facts [where E = E and cases = cases] by (auto simp: undispatched_item_def comp_def)
  with r ents show ?thesis by (simp add: run_rows_def)
qed

lemma dispatch_run_view:
  assumes "fresh_supply (uuid E) s"
  shows "dispatch_run E submit vid sid cid ids org (tenant_view org s) =
    map_prod id (tenant_view org) (dispatch_run E submit vid sid cid ids org s)"
proof -
  have core: "dispatch_core E submit vid sid cid ids org v (tenant_suite s org sid) co (load_suite_cases (tenant_view org s) sid ids) =
      dispatch_core E submit vid sid cid ids org v (tenant_suite s org sid) co (load_suite_cases s sid ids)" for v co
    by (cases "tenant_suite s org sid")
       (simp_all add: dispatch_core_cases [of E submit vid sid cid ids org v] view_of_suite(3) [OF tenant_suite_in_org])
  show ?thesis
    unfolding dispatch_run_core view_tenant core commit_dispatch_def
    by (auto simp: view_add_run_rows [OF assms dispatch_core_rows] split: sum.splits)
qed

lemma create_run_view:
  assumes "fresh_supply (uuid E) s"
  shows "create_run E submit vid sid cid ids p (tenant_view (p_org p) s) =
    map_prod id (tenant_view (p_org p)) (create_run E submit vid sid cid ids p s)"
  unfolding create_run_def execute_run_view [OF assms] dispatch_run_view [OF assms]
  by (auto split: sum.splits prod.splits)


lemma check_runs_view:
  assumes "ids_ok s"
  shows "check_runs (tenant_view org s) org b c = check_runs s org b c"
proof (cases "tenant_run s org b")
  case None
  then show ?thesis by (simp add: check_runs_def view_tenant)
next
  case b: (Some rb)
  show ?thesis
  proof (cases "tenant_run s org c")
    case None
    with b show ?thesis by (simp add: check_runs_def view_tenant)
  next
    case c: (Some rc)
    show ?thesis
      unfolding check_runs_def view_tenant b c prod.case option.case version_of_own_run [OF assms b]
        version_of_own_run [OF assms c] view_of_run(2) [OF tenant_run_in_org [OF b]]
        view_of_run(2) [OF tenant_run_in_org [OF c]] ..
  qed
qed

lemma check_runs_Inr:
  "check_runs s org b c = Inr u \<Longrightarrow> run_in_org s org b \<and> run_in_org s org c"
  by (auto simp: check_runs_def dest: tenant_run_in_org split: option.splits)

lemma choose_gate_rules_view: "choose_gate_rules E (tenant_view org s) org gid = choose_gate_rules E s org gid"
proof -
  have "find (\<lambda>g. gr_id g = k \<and> gr_org g = org) (gate_rules (tenant_view org s)) =
      find (\<lambda>g. gr_id g = k \<and> gr_org g = org) (gate_rules s)" for k
    by (simp add: view_tables filtered_conj)
  then show ?thesis unfolding choose_gate_rules_def by (simp only:)
qed

lemma chosen_rules_of_org: "choose_gate_rules E s org gid = Inr (k, rules, new) \<Longrightarrow> g \<in> set new \<Longrightarrow> gr_org g = org"
  by (auto simp: choose_gate_rules_def Let_def and_then_Inr_iff split: option.splits)

definition judge_runs ::
  "'g compare_env \<Rightarrow> string \<Rightarrow> string \<Rightarrow> string option \<Rightarrow> string \<Rightarrow> db \<Rightarrow>
   (string \<times> gate_rule_row list \<times> dict \<times> string \<times> dict list) res" where
  "judge_runs E b c gid org s =
     and_then (check_runs s org b c) (\<lambda>_.
     and_then (choose_gate_rules E s org gid) (\<lambda>(gate_id, rules, new_rules).
     and_then (build_metric_report (ce_rng E) (as_samples (collect_run_metric_samples s b))
         (as_samples (collect_run_metric_samples s c))) (\<lambda>metrics.
     and_then (apply_gates (ce_repr E) metrics (JObj rules)) (\<lambda>(v, reasons).
     Inr (gate_id, new_rules, metrics, v, reasons)))))"

definition add_comparison :: "gate_rule_row list \<Rightarrow> comparison_row \<Rightarrow> report_row \<Rightarrow> db \<Rightarrow> db" where
  "add_comparison gs c r s = s\<lparr>gate_rules := gate_rules s @ gs, comparisons := comparisons s @ [c], reports := reports s @ [r]\<rparr>"

lemma compute_comparison_judged:
  "compute_comparison E b c gid org s =
     (case judge_runs E b c gid org s of
        Inl exc \<Rightarrow> (Inl exc, s)
      | Inr (gate_id, new_rules, metrics, v, reasons) \<Rightarrow>
          let comparison = \<lparr>cm_id = compare_env.ce_uuid E 1, cm_org = org, cm_baseline = b,
                cm_candidate = c, cm_gate = gate_id, cm_status = ''computed'', cm_created = compare_env.ce_now E\<rparr>;
              report = \<lparr>rp_id = compare_env.ce_uuid E 2, rp_comparison = cm_id comparison, rp_metrics = metrics,
                rp_verdict = v, rp_reasons = reasons, rp_created = compare_env.ce_now E\<rparr>
          in (Inr (comparison, report), add_comparison new_rules comparison report s))"
  unfolding compute_comparison_def judge_runs_def add_comparison_def by simp

lemma judge_runs_view:
  assumes "ids_ok s"
  shows "judge_runs E b c gid org (tenant_view org s) = judge_runs E b c gid org s"
  unfolding judge_runs_def check_runs_view [OF assms] choose_gate_rules_view
  by (rule and_then_view) (auto simp: view_samples dest!: check_runs_Inr)

lemma judge_runs_rules:
  "judge_runs E b c gid org s = Inr (k, new, m, v, rs) \<Longrightarrow> g \<in> set new \<Longrightarrow> gr_org g = org"
  by (auto simp: judge_runs_def and_then_Inr_iff dest: chosen_rules_of_org)

lemma view_add_judged:
  assumes "cm_id c \<notin> mentioned s" "rp_comparison r = cm_id c" "\<And>g. g \<in> set gs \<Longrightarrow> gr_org g = cm_org c"
  shows "tenant_view o' (add_comparison gs c r s) =
    (if cm_org c = o' then add_comparison gs c r (tenant_view o' s) else tenant_view o' s)"
  using view_add_comparison [OF assms] by (simp add: add_comparison_def)

lemma compute_comparison_view:
  assumes "ids_ok s" "compare_env.ce_uuid E 1 \<notin> mentioned s"
  shows "compute_comparison E b c gid org (tenant_view org s) =
    map_prod id (tenant_view org) (compute_comparison E b c gid org s)"
  unfolding compute_comparison_judged judge_runs_view [OF assms(1)]
proof (cases "judge_runs E b c gid org s")
  case (Inr x)
  obtain k new m v rs where x: "x = (k, new, m, v, rs)" by (cases x)
  let ?c = "\<lparr>cm_id = compare_env.ce_uuid E 1, cm_org = org, cm_baseline = b, cm_candidate = c, cm_gate = k,
    cm_status = ''computed'', cm_created = compare_env.ce_now E\<rparr>"
  let ?r = "\<lparr>rp_id = compare_env.ce_uuid E 2, rp_comparison = compare_env.ce_uuid E 1, rp_metrics = m, rp_verdict = v,
    rp_reasons = rs, rp_created = compare_env.ce_now E\<rparr>"
  have "tenant_view org (add_comparison new ?c ?r s) = add_comparison new ?c ?r (tenant_view org s)"
    using view_add_judged [of ?c s ?r new org] assms(2) judge_runs_rules [OF Inr [unfolded x]] by simp
  then show "(case judge_runs E b c gid org s of
        Inl exc \<Rightarrow> (Inl exc, tenant_view org s)
      | Inr (gate_id, new_rules, metrics, v, reasons) \<Rightarrow>
          let comparison = \<lparr>cm_id = compare_env.ce_uuid E 1, cm_org = org, cm_baseline = b,
                cm_candidate = c, cm_gate = gate_id, cm_status = ''computed'', cm_created = compare_env.ce_now E\<rparr>;
              report = \<lparr>rp_id = compare_env.ce_uuid E 2, rp_comparison = cm_id comparison, rp_metrics = metrics,
                rp_verdict = v, rp_reasons = reasons, rp_created = compare_env.ce_now E\<rparr>
          in (Inr (comparison, report), add_comparison new_rules comparison report (tenant_view org s))) =
    map_prod id (tenant_view org) (case judge_runs E b c gid org s of
        Inl exc \<Rightarrow> (Inl exc, s)
      | Inr (gate_id, new_rules, metrics, v, reasons) \<Rightarrow>
          let comparison = \<lparr>cm_id = compare_env.ce_uuid E 1, cm_org = org, cm_baseline = b,
                cm_candidate = c, cm_gate = gate_id, cm_status = ''computed'', cm_created = compare_env.ce_now E\<rparr>;
              report = \<lparr>rp_id = compare_env.ce_uuid E 2, rp_comparison = cm_id comparison, rp_metrics = metrics,
                rp_verdict = v, rp_reasons = reasons, rp_created = compare_env.ce_now E\<rparr>
          in (Inr (comparison, report), add_comparison new_rules comparison report s))"
    by (simp add: Inr x Let_def)
qed (simp add: Let_def)

lemma create_comparison_view:
  assumes "ids_ok s" "compare_env.ce_uuid E 1 \<notin> mentioned s"
  shows "create_comparison E b c gid p (tenant_view (p_org p) s) =
    map_prod id (tenant_view (p_org p)) (create_comparison E b c gid p s)"
  unfolding create_comparison_def compute_comparison_view [OF assms]
  by (auto split: sum.splits prod.splits)

section \<open>Reads see the view only\<close>

lemma page_view:
  "page_desc f l d (filter P (filter P xs)) = page_desc f l d (filter P xs)"
  by simp

lemma list_run_items_view: "list_run_items rid l d p (tenant_view (p_org p) s) = list_run_items rid l d p s"
proof -
  have "sort_key rs_created (filter (\<lambda>r. rs_item r \<in> set (map ri_id is)) (results (tenant_view (p_org p) s))) =
      sort_key rs_created (filter (\<lambda>r. rs_item r \<in> set (map ri_id is)) (results s))"
    if "run_in_org s (p_org p) rid" "set is \<subseteq> set (run_items s rid)" for "is"
  proof -
    have "item_in_org s (p_org p) (ri_id i)" if "i \<in> set is" for i
      using item_of_run [OF \<open>run_in_org s (p_org p) rid\<close>, of i] that \<open>set is \<subseteq> set (run_items s rid)\<close>
      by (auto simp: run_items_def)
    then have "filter (\<lambda>r. rs_item r \<in> set (map ri_id is)) (results (tenant_view (p_org p) s)) =
        filter (\<lambda>r. rs_item r \<in> set (map ri_id is)) (results s)"
      unfolding view_tables by (intro filter_filter_sub) auto
    then show ?thesis by simp
  qed
  note rows = this [of "take l (drop d (run_items s rid))"]
  have "set (take l (drop d (run_items s rid))) \<subseteq> set (run_items s rid)"
    by (auto dest: in_set_takeD in_set_dropD)
  with rows have "run_in_org s (p_org p) rid \<Longrightarrow>
      sort_key rs_created (filter (\<lambda>r. rs_item r \<in> set (map ri_id (take l (drop d (run_items s rid))))) (results (tenant_view (p_org p) s))) =
      sort_key rs_created (filter (\<lambda>r. rs_item r \<in> set (map ri_id (take l (drop d (run_items s rid))))) (results s))"
    by blast
  then show ?thesis
    unfolding list_run_items_def org_run_def view_tenant Let_def
    by (intro and_then_view) (simp only: found_or_404_Inr view_of_run(1) [OF tenant_run_in_org] tenant_run_in_org)
qed

lemma get_trace_view: "get_trace rid k p (tenant_view (p_org p) s) = get_trace rid k p s"
  unfolding get_trace_def org_run_def view_tenant
  by (intro and_then_view)
     (auto simp: view_of_run(3) tenant_run_in_org intro!: and_then_view
       dest!: find_SomeD simp: view_of_item(2) item_of_run [OF tenant_run_in_org])

lemma list_comparisons_view: "list_comparisons l d p (tenant_view (p_org p) s) = list_comparisons l d p s"
proof -
  let ?rows = "page_desc cm_created l d (filter (\<lambda>c. cm_org c = p_org p) (comparisons s))"
  have rows: "page_desc cm_created l d (filter (\<lambda>c. cm_org c = p_org p) (comparisons (tenant_view (p_org p) s))) = ?rows"
    by (simp add: view_tables)
  have "comparison_in_org s (p_org p) (cm_id c)" if "c \<in> set ?rows" for c
    using that set_page_desc [of cm_created l d "filter (\<lambda>c. cm_org c = p_org p) (comparisons s)"]
    by (auto simp: comparison_in_org_def list_ex_iff)
  then have "filter (\<lambda>r. rp_comparison r \<in> set (map cm_id ?rows)) (reports (tenant_view (p_org p) s)) =
      filter (\<lambda>r. rp_comparison r \<in> set (map cm_id ?rows)) (reports s)"
    unfolding view_tables by (intro filter_filter_sub) auto
  then show ?thesis unfolding list_comparisons_def rows by simp
qed

lemma comparison_reads_view:
  "get_comparison k p (tenant_view (p_org p) s) = get_comparison k p s"
  "get_gate_decision k p (tenant_view (p_org p) s) = get_gate_decision k p s"
  "get_ci_gate_report f g k u w p (tenant_view (p_org p) s) = get_ci_gate_report f g k u w p s"
  unfolding get_comparison_def get_gate_decision_def get_ci_gate_report_def view_tenant
  by (intro and_then_view; simp add: view_of_comparison tenant_comparison_in_org)+

lemma registry_reads_view:
  "list_apps l d p (tenant_view (p_org p) s) = list_apps l d p s"
  "get_app a p (tenant_view (p_org p) s) = get_app a p s"
  "list_app_versions a l d p (tenant_view (p_org p) s) = list_app_versions a l d p s"
  "list_eval_suites a l d p (tenant_view (p_org p) s) = list_eval_suites a l d p s"
  "list_evaluator_configs l d p (tenant_view (p_org p) s) = list_evaluator_configs l d p s"
  "list_gate_rules l d p (tenant_view (p_org p) s) = list_gate_rules l d p s"
  "get_gate_rule g p (tenant_view (p_org p) s) = get_gate_rule g p s"
  "list_runs l d p (tenant_view (p_org p) s) = list_runs l d p s"
  "get_run r p (tenant_view (p_org p) s) = get_run r p s"
  by (simp_all add: list_apps_def get_app_def list_evaluator_configs_def list_gate_rules_def get_gate_rule_def
      list_runs_def get_run_def org_run_def view_tables(1,6,7,11) view_tenant filtered_conj)
     (unfold list_app_versions_def list_eval_suites_def view_tenant, (intro and_then_view; simp add: view_of_tenant_app)+)

lemma case_reads_view:
  "list_eval_cases x tag l d p (tenant_view (p_org p) s) = list_eval_cases x tag l d p s"
  "eval_suite_summary x p (tenant_view (p_org p) s) = eval_suite_summary x p s"
  unfolding list_eval_cases_def eval_suite_summary_def view_tenant
  by (intro and_then_view; simp only: found_or_404_Inr view_of_suite(2,3) [OF tenant_suite_in_org])+

end
