(* ===== verification/Tenancy.thy ===== *)
theory Tenancy imports Tenant_View begin

text \<open>
  Tenant isolation of the API: the requests of the registry, run and comparison routers, the unwinding
  conditions they satisfy, and the noninterference these add up to.
\<close>

section \<open>Unwinding\<close>

text \<open>
  Requests of several domains work on one state. If a request's answer and its effect on what its domain
  observes depend on that observation only, and no other domain observes the effect, then a domain gets
  the answers it would get alone. \<open>ok U\<close> bounds by \<open>U\<close> the identifiers a state has used; \<open>ids\<close> are those
  a request may draw.
\<close>

fun separate :: "('q \<Rightarrow> bool) \<Rightarrow> ('q \<Rightarrow> 'k set) \<Rightarrow> 'k set \<Rightarrow> 'q list \<Rightarrow> bool" where
  "separate proper ids U [] \<longleftrightarrow> True"
| "separate proper ids U (q # qs) \<longleftrightarrow>
     proper q \<and> ids q \<inter> U = {} \<and> separate proper ids (U \<union> ids q) qs"

text \<open>The answers one domain sees, and the state at the end.\<close>

fun serve :: "('q \<Rightarrow> 's \<Rightarrow> 'r \<times> 's) \<Rightarrow> ('q \<Rightarrow> 'd) \<Rightarrow> 'd \<Rightarrow> 'q list \<Rightarrow> 's \<Rightarrow> 'r list \<times> 's" where
  "serve step owner d [] s = ([], s)"
| "serve step owner d (q # qs) s =
     (case step q s of
        (r, s') \<Rightarrow>
          (case serve step owner d qs s' of (rs, s'') \<Rightarrow> ((if owner q = d then r # rs else rs), s'')))"

locale unwinding =
  fixes step :: "'q \<Rightarrow> 's \<Rightarrow> 'r \<times> 's"
    and owner :: "'q \<Rightarrow> 'd"
    and obs :: "'d \<Rightarrow> 's \<Rightarrow> 'v"
    and ids :: "'q \<Rightarrow> 'k set"
    and proper :: "'q \<Rightarrow> bool"
    and ok :: "'k set \<Rightarrow> 's \<Rightarrow> bool"
  assumes own: "ok U s \<Longrightarrow> ok U t \<Longrightarrow> proper q \<Longrightarrow> ids q \<inter> U = {} \<Longrightarrow> obs (owner q) s = obs (owner q) t \<Longrightarrow>
      fst (step q s) = fst (step q t) \<and> obs (owner q) (snd (step q s)) = obs (owner q) (snd (step q t))"
    and other: "ok U s \<Longrightarrow> proper q \<Longrightarrow> ids q \<inter> U = {} \<Longrightarrow> owner q \<noteq> d \<Longrightarrow>
      obs d (snd (step q s)) = obs d s"
    and ok_step: "ok U s \<Longrightarrow> proper q \<Longrightarrow> ids q \<inter> U = {} \<Longrightarrow> ok (U \<union> ids q) (snd (step q s))"
    and ok_mono: "ok U s \<Longrightarrow> U \<subseteq> V \<Longrightarrow> ok V s"
begin

lemma noninterference:
  assumes "ok U s" "ok U t" "obs d s = obs d t" "separate proper ids U qs"
  shows "fst (serve step owner d qs s) = fst (serve step owner d (filter (\<lambda>q. owner q = d) qs) t) \<and>
    obs d (snd (serve step owner d qs s)) = obs d (snd (serve step owner d (filter (\<lambda>q. owner q = d) qs) t))"
  using assms
proof (induction qs arbitrary: U s t)
  case (Cons q qs)
  from Cons.prems(4) have q: "proper q" "ids q \<inter> U = {}" "separate proper ids (U \<union> ids q) qs" by auto
  have s': "ok (U \<union> ids q) (snd (step q s))" using ok_step [OF Cons.prems(1) q(1,2)] .
  show ?case
  proof (cases "owner q = d")
    case True
    have "fst (step q s) = fst (step q t) \<and> obs d (snd (step q s)) = obs d (snd (step q t))"
      using own [OF Cons.prems(1,2) q(1,2)] Cons.prems(3) True by simp
    moreover have "ok (U \<union> ids q) (snd (step q t))" using ok_step [OF Cons.prems(2) q(1,2)] .
    ultimately show ?thesis
      using Cons.IH [OF s' _ _ q(3), of "snd (step q t)"] True
      by (cases "step q s"; cases "step q t") (auto split: prod.splits)
  next
    case False
    have "obs d (snd (step q s)) = obs d t"
      using other [OF Cons.prems(1) q(1,2) False] Cons.prems(3) by simp
    with Cons.IH [OF s' _ _ q(3), of t] ok_mono [OF Cons.prems(2), of "U \<union> ids q"] False show ?thesis
      by (cases "step q s") (auto split: prod.splits)
  qed
qed simp

end

section \<open>Effects elsewhere\<close>

lemma commit_other:
  "(\<And>x. r = Inr x \<Longrightarrow> tenant_view o' (w x s) = tenant_view o' s) \<Longrightarrow>
   tenant_view o' (snd (commit_with r w s)) = tenant_view o' s"
  by (simp add: commit_with_def split: sum.splits)

lemma not_mine: "ids_ok s \<Longrightarrow> app_in_org s org a \<Longrightarrow> o' \<noteq> org \<Longrightarrow> \<not> app_in_org s o' a"
  using app_owner by blast

lemma not_my_suite: "ids_ok s \<Longrightarrow> suite_in_org s org x \<Longrightarrow> o' \<noteq> org \<Longrightarrow> \<not> suite_in_org s o' x"
  using suite_owner by blast

lemma registry_other:
  assumes "ids_ok s" "fresh_supply (uuid E) s" "o' \<noteq> p_org p"
  shows "tenant_view o' (snd (create_app E n d p s)) = tenant_view o' s"
    and "tenant_view o' (snd (create_app_version E a n m c p s)) = tenant_view o' s"
    and "tenant_view o' (snd (create_eval_suite E a n p s)) = tenant_view o' s"
    and "tenant_view o' (snd (create_evaluator_config E inst n c p s)) = tenant_view o' s"
    and "tenant_view o' (snd (create_gate_rule E n c p s)) = tenant_view o' s"
proof -
  note other = assms(3) not_mine [OF assms(1) tenant_app_in_org assms(3)]
  note new = fresh_supplyD [OF assms(2)]
  show "tenant_view o' (snd (create_app E n d p s)) = tenant_view o' s"
    unfolding create_app_def by (rule commit_other) (auto simp: and_then_Inr_iff view_add_app new assms(3))
  show "tenant_view o' (snd (create_app_version E a n m c p s)) = tenant_view o' s"
    unfolding create_app_version_def
    by (rule commit_other) (auto simp: and_then_Inr_iff view_add_version other simp del: find_inline_secret_keys.simps)
  show "tenant_view o' (snd (create_eval_suite E a n p s)) = tenant_view o' s"
    unfolding create_eval_suite_def by (rule commit_other) (auto simp: and_then_Inr_iff view_add_suite new other)
  show "tenant_view o' (snd (create_evaluator_config E inst n c p s)) = tenant_view o' s"
    unfolding create_evaluator_config_def by (rule commit_other) (auto simp: and_then_Inr_iff view_add_config assms(3))
  show "tenant_view o' (snd (create_gate_rule E n c p s)) = tenant_view o' s"
    unfolding create_gate_rule_def by (rule commit_other) (auto simp: and_then_Inr_iff view_add_gate_rule assms(3))
qed

lemma import_other:
  assumes "ids_ok s" "fresh_supply (uuid E) s" "o' \<noteq> p_org p"
  shows "tenant_view o' (snd (import_eval_cases E sid cases p s)) = tenant_view o' s"
  unfolding import_eval_cases_def
proof (rule commit_other)
  fix x
  assume r: "and_then (require_role p Evaluator) (\<lambda>_. and_then (found_or_404 ''Eval suite not found''
      (tenant_suite s (p_org p) sid)) (\<lambda>_. case import_rows E 0 0 cases of Inl exc \<Rightarrow> Inl (Unhandled exc) | Inr x \<Rightarrow> Inr x)) = Inr x"
  obtain rows errors where x: "x = (rows, errors)" by (cases x)
  from r have "suite_in_org s (p_org p) sid" and rows: "import_rows E 0 0 cases = Inr (rows, errors)"
    by (auto simp: and_then_Inr_iff x dest: tenant_suite_in_org split: sum.splits)
  with not_my_suite [OF assms(1) _ assms(3)] have "\<not> suite_in_org s o' sid" by blast
  with assms(2) import_row_ids [OF rows]
  show "tenant_view o' ((case x of (rows, _) \<Rightarrow> \<lambda>s. s\<lparr>eval_cases := eval_cases s @ rows,
      suite_cases := suite_cases s @ map (\<lambda>c. \<lparr>sc_suite = sid, sc_case = ec_id c\<rparr>) rows\<rparr>) s) = tenant_view o' s"
    unfolding x prod.case by (subst view_add_cases [where sid = sid]) (auto simp: comp_def fresh_supply_def)
qed

lemma run_other:
  assumes "fresh_supply (uuid E) s" "o' \<noteq> p_org p"
  shows "tenant_view o' (snd (create_run E submit vid sid cid ids p s)) = tenant_view o' s"
proof -
  have "tenant_view o' (snd (execute_run E vid sid cid ids (p_org p) s)) = tenant_view o' s"
    using view_add_run_rows [OF assms(1) execute_core_rows] assms(2)
    by (auto simp: execute_run_core commit_run_def split: sum.splits)
  moreover have "tenant_view o' (snd (dispatch_run E submit vid sid cid ids (p_org p) s)) = tenant_view o' s"
    using view_add_run_rows [OF assms(1) dispatch_core_rows] assms(2)
    by (auto simp: dispatch_run_core commit_dispatch_def split: sum.splits)
  ultimately show ?thesis by (auto simp: create_run_def split: sum.splits prod.splits)
qed

lemma comparison_other:
  assumes "compare_env.ce_uuid E 1 \<notin> mentioned s" "o' \<noteq> p_org p"
  shows "tenant_view o' (snd (create_comparison E b c gid p s)) = tenant_view o' s"
proof -
  have "tenant_view o' (snd (compute_comparison E b c gid (p_org p) s)) = tenant_view o' s"
    using assms view_add_judged judge_runs_rules [of E b c gid "p_org p" s]
    by (auto simp: compute_comparison_judged Let_def split: sum.splits prod.splits)
  then show ?thesis by (auto simp: create_comparison_def split: sum.splits prod.splits)
qed

section \<open>Integrity and used identifiers\<close>

lemma state_okD: "state_ok U s \<Longrightarrow> range f \<inter> U = {} \<Longrightarrow> inj f \<Longrightarrow> ids_ok s \<and> fresh_supply f s"
  by (auto simp: state_ok_def fresh_supply_def)

lemma state_ok_weaken: "state_ok U s \<Longrightarrow> U \<subseteq> V \<Longrightarrow> state_ok V s"
  by (auto simp: state_ok_def)

lemma state_ok_step: "state_ok U s \<Longrightarrow> ids_ok s' \<Longrightarrow> mentioned s' \<subseteq> mentioned s \<union> range f \<Longrightarrow> state_ok (U \<union> range f) s'"
  by (auto simp: state_ok_def)

lemma commit_ok:
  assumes "state_ok U s" "\<And>x. r = Inr x \<Longrightarrow> ids_ok (w x s) \<and> mentioned (w x s) \<subseteq> mentioned s \<union> range f"
  shows "state_ok (U \<union> range f) (snd (commit_with r w s))"
  using assms state_ok_step [OF assms(1)] state_ok_weaken [OF assms(1), of "U \<union> range f"]
  by (auto simp: commit_with_def split: sum.splits)

lemma mentioned_add:
  "mentioned (s\<lparr>apps := apps s @ [a]\<rparr>) = insert (ap_id a) (mentioned s)"
  "mentioned (s\<lparr>versions := versions s @ [v]\<rparr>) = insert (av_id v) (insert (av_app v) (mentioned s))"
  "mentioned (s\<lparr>suites := suites s @ [x]\<rparr>) = insert (es_id x) (insert (es_app x) (mentioned s))"
  "mentioned (s\<lparr>evaluator_configs := cs\<rparr>) = mentioned s"
  "mentioned (s\<lparr>gate_rules := gs\<rparr>) = mentioned s"
  "mentioned (s\<lparr>eval_cases := eval_cases s @ rows, suite_cases := suite_cases s @ links\<rparr>) =
     mentioned s \<union> ec_id ` set rows \<union> sc_suite ` set links \<union> sc_case ` set links"
  "mentioned (add_run r is ts rs s) = insert (er_id r) (mentioned s \<union> ri_id ` set is \<union> ri_run ` set is \<union>
     tr_item ` set ts \<union> rs_item ` set rs)"
  "mentioned (add_comparison gs c rp s) = insert (cm_id c) (insert (rp_comparison rp) (mentioned s))"
  by (simp_all add: mentioned_def add_run_def add_comparison_def image_Un ac_simps insert_commute Un_insert_right)

lemma app_mentioned: "app_in_org s org a \<Longrightarrow> a \<in> mentioned s"
  by (auto simp: app_in_org_def list_ex_iff mentioned_def)

lemma suite_mentioned: "suite_in_org s org x \<Longrightarrow> x \<in> mentioned s"
  by (auto simp: suite_in_org_def list_ex_iff mentioned_def)

lemma registry_ok:
  assumes "state_ok U s" "inj (uuid E)" "range (uuid E) \<inter> U = {}"
  shows "state_ok (U \<union> range (uuid E)) (snd (create_app E n d p s))"
    and "state_ok (U \<union> range (uuid E)) (snd (create_app_version E a n m c p s))"
    and "state_ok (U \<union> range (uuid E)) (snd (create_eval_suite E a n p s))"
    and "state_ok (U \<union> range (uuid E)) (snd (create_evaluator_config E inst n c p s))"
    and "state_ok (U \<union> range (uuid E)) (snd (create_gate_rule E n c p s))"
proof -
  have ids: "ids_ok s" and new: "uuid E k \<notin> mentioned s" for k
    using state_okD [OF assms(1,3,2)] fresh_supplyD [of "uuid E" s] by auto
  note commit = commit_ok [OF assms(1), where f = "uuid E"]
  note app = app_mentioned [OF tenant_app_in_org]
  show "state_ok (U \<union> range (uuid E)) (snd (create_app E n d p s))"
    unfolding create_app_def
    by (rule commit) (auto simp: and_then_Inr_iff mentioned_add simp: ids_ok_more_apps [OF ids] new)
  show "state_ok (U \<union> range (uuid E)) (snd (create_app_version E a n m c p s))"
    unfolding create_app_version_def
    by (rule commit) (auto simp: and_then_Inr_iff mentioned_add app simp: ids_ok_more_versions [OF ids] new
        simp del: find_inline_secret_keys.simps)
  show "state_ok (U \<union> range (uuid E)) (snd (create_eval_suite E a n p s))"
    unfolding create_eval_suite_def
    by (rule commit) (auto simp: and_then_Inr_iff mentioned_add app simp: ids_ok_more_suites [OF ids] new)
  show "state_ok (U \<union> range (uuid E)) (snd (create_evaluator_config E inst n c p s))"
    unfolding create_evaluator_config_def
    by (rule commit) (auto simp: and_then_Inr_iff mentioned_add ids_ok_other_tables ids)
  show "state_ok (U \<union> range (uuid E)) (snd (create_gate_rule E n c p s))"
    unfolding create_gate_rule_def
    by (rule commit) (auto simp: and_then_Inr_iff mentioned_add ids_ok_other_tables ids)
qed


lemma import_ok:
  assumes "state_ok U s" "inj (uuid E)" "range (uuid E) \<inter> U = {}"
  shows "state_ok (U \<union> range (uuid E)) (snd (import_eval_cases E sid cases p s))"
  unfolding import_eval_cases_def
proof (rule commit_ok [OF assms(1)])
  fix x
  assume r: "and_then (require_role p Evaluator) (\<lambda>_. and_then (found_or_404 ''Eval suite not found''
      (tenant_suite s (p_org p) sid)) (\<lambda>_. case import_rows E 0 0 cases of Inl exc \<Rightarrow> Inl (Unhandled exc) | Inr x \<Rightarrow> Inr x)) = Inr x"
  obtain rows errors where x: "x = (rows, errors)" by (cases x)
  from r have "suite_in_org s (p_org p) sid" and rows: "import_rows E 0 0 cases = Inr (rows, errors)"
    by (auto simp: and_then_Inr_iff x dest: tenant_suite_in_org split: sum.splits)
  with import_row_ids [OF rows] suite_mentioned state_okD [OF assms(1,3,2)]
  show "ids_ok ((case x of (rows, _) \<Rightarrow> \<lambda>s. s\<lparr>eval_cases := eval_cases s @ rows,
      suite_cases := suite_cases s @ map (\<lambda>c. \<lparr>sc_suite = sid, sc_case = ec_id c\<rparr>) rows\<rparr>) s) \<and>
    mentioned ((case x of (rows, _) \<Rightarrow> \<lambda>s. s\<lparr>eval_cases := eval_cases s @ rows,
      suite_cases := suite_cases s @ map (\<lambda>c. \<lparr>sc_suite = sid, sc_case = ec_id c\<rparr>) rows\<rparr>) s) \<subseteq> mentioned s \<union> range (uuid E)"
    by (auto simp: x ids_ok_other_tables mentioned_add)
qed

lemma add_run_ok:
  assumes "state_ok U s" "inj f" "range f \<inter> U = {}" "run_rows s org f r is ts rs"
  shows "state_ok (U \<union> range f) (add_run r is ts rs s)"
proof (rule state_ok_step [OF assms(1)])
  have ids: "ids_ok s" and fresh: "fresh_supply f s" using state_okD [OF assms(1,3,2)] by auto
  from assms(4) obtain v where rows: "er_id r = f 0" "er_org r = org" "tenant_version s org (er_version r) = Some v"
    "map ri_id is = map (\<lambda>k. f (Suc k)) [0..<length is]" "\<forall>i \<in> set is. ri_run i = f 0"
    "tr_item ` set ts \<subseteq> ri_id ` set is" "rs_item ` set rs \<subseteq> ri_id ` set is" by (auto simp: run_rows_def)
  note items = fresh_items [OF fresh rows(4)]
  show "ids_ok (add_run r is ts rs s)"
    unfolding add_run_def
    by (rule ids_ok_more_runs [OF ids]) (use rows items fresh_supplyD [OF fresh] in auto)
  have "set (map ri_id is) \<subseteq> range f" unfolding rows(4) by auto
  then have "ri_id ` set is \<subseteq> range f" by (simp only: set_map)
  with rows(1,5-7) show "mentioned (add_run r is ts rs s) \<subseteq> mentioned s \<union> range f" unfolding mentioned_add by blast
qed

lemma run_ok:
  assumes "state_ok U s" "inj (uuid E)" "range (uuid E) \<inter> U = {}"
  shows "state_ok (U \<union> range (uuid E)) (snd (create_run E submit vid sid cid ids p s))"
proof -
  have same: "state_ok (U \<union> range (uuid E)) s" using state_ok_weaken [OF assms(1)] by blast
  have "state_ok (U \<union> range (uuid E)) (snd (execute_run E vid sid cid ids (p_org p) s))"
    using add_run_ok [OF assms execute_core_rows] same by (auto simp: execute_run_core commit_run_def split: sum.splits)
  moreover have "state_ok (U \<union> range (uuid E)) (snd (dispatch_run E submit vid sid cid ids (p_org p) s))"
    using add_run_ok [OF assms dispatch_core_rows] same by (auto simp: dispatch_run_core commit_dispatch_def split: sum.splits)
  ultimately show ?thesis using same by (auto simp: create_run_def split: sum.splits prod.splits)
qed

lemma comparison_ok:
  assumes "state_ok U s" "range (compare_env.ce_uuid E) \<inter> U = {}"
  shows "state_ok (U \<union> range (compare_env.ce_uuid E)) (snd (create_comparison E b c gid p s))"
proof -
  have same: "state_ok (U \<union> range (compare_env.ce_uuid E)) s" using state_ok_weaken [OF assms(1)] by blast
  have new: "compare_env.ce_uuid E 1 \<notin> mentioned s" and ids: "ids_ok s" using assms by (auto simp: state_ok_def)
  have add: "state_ok (U \<union> range (compare_env.ce_uuid E)) (add_comparison gs d rp s)"
    if "cm_id d = compare_env.ce_uuid E 1" "rp_comparison rp = cm_id d" for gs d rp
  proof (rule state_ok_step [OF assms(1)])
    show "ids_ok (add_comparison gs d rp s)"
      unfolding add_comparison_def by (rule ids_ok_more_comparisons [OF ids]) (use that new in simp)
    show "mentioned (add_comparison gs d rp s) \<subseteq> mentioned s \<union> range (compare_env.ce_uuid E)"
      by (auto simp: mentioned_add that)
  qed
  have "state_ok (U \<union> range (compare_env.ce_uuid E)) (snd (compute_comparison E b c gid (p_org p) s))"
    using same add by (auto simp: compute_comparison_judged Let_def split: sum.splits prod.splits)
  then show ?thesis using same by (auto simp: create_comparison_def split: sum.splits prod.splits)
qed

section \<open>The requests\<close>

datatype 'g api_request =
    CreateApp service_env string string
  | ListApps nat nat
  | GetApp string
  | CreateVersion service_env string string string dict
  | ListVersions string nat nat
  | ListSuites string nat nat
  | CreateSuite service_env string string
  | ImportCases service_env string "(string option \<times> dict) list"
  | ListCases string "string option" nat nat
  | SuiteSummary string
  | CreateConfig service_env "string \<Rightarrow> bool" string dict
  | ListConfigs nat nat
  | CreateGateRule service_env string dict
  | ListGateRules nat nat
  | GetGateRule string
  | CreateRun service_env "signature list \<Rightarrow> string \<Rightarrow> unit res" string string string "string list option"
  | ListRuns nat nat
  | GetRun string
  | ListRunItems string nat nat
  | GetTrace string string
  | CreateComparison "'g compare_env" string string "string option"
  | ListComparisons nat nat
  | GetComparison string
  | GetGateDecision string
  | GetCiReport "real \<Rightarrow> string" string string "string option" bool

datatype api_answer =
    AnApp "app_row response"
  | SomeApps "app_row list"
  | AVersion "version_row response"
  | SomeVersions "version_row list response"
  | ASuite "suite_row response"
  | SomeSuites "suite_row list response"
  | AnImport "(case_row list \<times> string list) response"
  | SomeCases "case_row list response"
  | ASummary "(nat \<times> (string \<times> nat) list) response"
  | AConfig "evaluator_config_row response"
  | SomeConfigs "evaluator_config_row list"
  | AGateRule "gate_rule_row response"
  | SomeGateRules "gate_rule_row list"
  | ARun "run_row response"
  | SomeRuns "run_row list"
  | SomeItems "(item_row \<times> result_row list) list response"
  | ATrace "trace_row response"
  | AComparison "(comparison_row \<times> report_row) response"
  | SomeComparisons "(comparison_row \<times> report_row) list"
  | ADecision "(string \<times> dict list) response"
  | AReport "ci_payload response"

fun handle :: "principal \<times> 'g api_request \<Rightarrow> db \<Rightarrow> api_answer \<times> db" where
  "handle (p, CreateApp E n d) s = map_prod AnApp id (create_app E n d p s)"
| "handle (p, ListApps l d) s = (SomeApps (list_apps l d p s), s)"
| "handle (p, GetApp a) s = (AnApp (get_app a p s), s)"
| "handle (p, CreateVersion E a n m c) s = map_prod AVersion id (create_app_version E a n m c p s)"
| "handle (p, ListVersions a l d) s = (SomeVersions (list_app_versions a l d p s), s)"
| "handle (p, ListSuites a l d) s = (SomeSuites (list_eval_suites a l d p s), s)"
| "handle (p, CreateSuite E a n) s = map_prod ASuite id (create_eval_suite E a n p s)"
| "handle (p, ImportCases E x cs) s = map_prod AnImport id (import_eval_cases E x cs p s)"
| "handle (p, ListCases x tag l d) s = (SomeCases (list_eval_cases x tag l d p s), s)"
| "handle (p, SuiteSummary x) s = (ASummary (eval_suite_summary x p s), s)"
| "handle (p, CreateConfig E inst n c) s = map_prod AConfig id (create_evaluator_config E inst n c p s)"
| "handle (p, ListConfigs l d) s = (SomeConfigs (list_evaluator_configs l d p s), s)"
| "handle (p, CreateGateRule E n r) s = map_prod AGateRule id (create_gate_rule E n r p s)"
| "handle (p, ListGateRules l d) s = (SomeGateRules (list_gate_rules l d p s), s)"
| "handle (p, GetGateRule g) s = (AGateRule (get_gate_rule g p s), s)"
| "handle (p, CreateRun E q v x c ids) s = map_prod ARun id (create_run E q v x c ids p s)"
| "handle (p, ListRuns l d) s = (SomeRuns (list_runs l d p s), s)"
| "handle (p, GetRun r) s = (ARun (get_run r p s), s)"
| "handle (p, ListRunItems r l d) s = (SomeItems (list_run_items r l d p s), s)"
| "handle (p, GetTrace r k) s = (ATrace (get_trace r k p s), s)"
| "handle (p, CreateComparison E b c g) s = map_prod AComparison id (create_comparison E b c g p s)"
| "handle (p, ListComparisons l d) s = (SomeComparisons (list_comparisons l d p s), s)"
| "handle (p, GetComparison k) s = (AComparison (get_comparison k p s), s)"
| "handle (p, GetGateDecision k) s = (ADecision (get_gate_decision k p s), s)"
| "handle (p, GetCiReport f t k u w) s = (AReport (get_ci_gate_report f t k u w p s), s)"

text \<open>The identifiers a request may draw, from a supply that repeats none.\<close>

fun supply_of :: "'g api_request \<Rightarrow> (nat \<Rightarrow> string) option" where
  "supply_of (CreateApp E _ _) = Some (uuid E)"
| "supply_of (CreateVersion E _ _ _ _) = Some (uuid E)"
| "supply_of (CreateSuite E _ _) = Some (uuid E)"
| "supply_of (ImportCases E _ _) = Some (uuid E)"
| "supply_of (CreateConfig E _ _ _) = Some (uuid E)"
| "supply_of (CreateGateRule E _ _) = Some (uuid E)"
| "supply_of (CreateRun E _ _ _ _ _) = Some (uuid E)"
| "supply_of (CreateComparison E _ _ _) = Some (compare_env.ce_uuid E)"
| "supply_of _ = None"

definition request_ids :: "principal \<times> 'g api_request \<Rightarrow> string set" where
  "request_ids q = (case supply_of (snd q) of None \<Rightarrow> {} | Some f \<Rightarrow> range f)"

definition proper_request :: "principal \<times> 'g api_request \<Rightarrow> bool" where
  "proper_request q \<longleftrightarrow> (case supply_of (snd q) of None \<Rightarrow> True | Some f \<Rightarrow> inj f)"

definition request_org :: "principal \<times> 'g api_request \<Rightarrow> string" where
  "request_org q = p_org (fst q)"

lemma proper_fresh:
  assumes "state_ok U s" "proper_request (p, r)" "request_ids (p, r) \<inter> U = {}" "supply_of r = Some f"
  shows "fresh_supply f s"
  using assms by (auto simp: state_ok_def proper_request_def request_ids_def fresh_supply_def)

lemma handle_view:
  assumes "state_ok U s" "proper_request (p, r)" "request_ids (p, r) \<inter> U = {}"
  shows "handle (p, r) (tenant_view (p_org p) s) = map_prod id (tenant_view (p_org p)) (handle (p, r) s)"
proof -
  have ids: "ids_ok s" using assms(1) by (simp add: state_ok_def)
  note fresh = proper_fresh [OF assms]
  have n: "fresh_supply f s \<Longrightarrow> f k \<notin> mentioned s" "fresh_supply f s \<Longrightarrow> range f \<inter> mentioned s = {}" for f k
    by (auto simp: fresh_supply_def)
  show ?thesis
    using fresh
    by (cases r)
       (simp_all add: registry_reads_view case_reads_view comparison_reads_view list_comparisons_view get_trace_view
         list_run_items_view create_app_version_view create_evaluator_config_view create_gate_rule_view
         create_app_view create_eval_suite_view import_eval_cases_view create_run_view create_comparison_view [OF ids] n
         prod.map_comp comp_def)
qed

lemma handle_own:
  assumes "state_ok U s" "state_ok U t" "proper_request q" "request_ids q \<inter> U = {}"
    and "tenant_view (request_org q) s = tenant_view (request_org q) t"
  shows "fst (handle q s) = fst (handle q t) \<and>
    tenant_view (request_org q) (snd (handle q s)) = tenant_view (request_org q) (snd (handle q t))"
proof -
  obtain p r where q: "q = (p, r)" by (cases q)
  have "map_prod id (tenant_view (p_org p)) (handle (p, r) s) = map_prod id (tenant_view (p_org p)) (handle (p, r) t)"
    using handle_view [of U s p r] handle_view [of U t p r] assms by (simp add: q request_org_def)
  then show ?thesis unfolding q request_org_def
    by (cases "handle (p, r) s"; cases "handle (p, r) t") simp
qed

lemma handle_other:
  assumes "state_ok U s" "proper_request q" "request_ids q \<inter> U = {}" "request_org q \<noteq> org"
  shows "tenant_view org (snd (handle q s)) = tenant_view org s"
proof -
  obtain p r where q: "q = (p, r)" by (cases q)
  have ids: "ids_ok s" and o: "org \<noteq> p_org p" using assms(1,4) by (auto simp: state_ok_def request_org_def q)
  note fresh = proper_fresh [OF assms(1-3) [unfolded q]]
  show ?thesis
    using fresh unfolding q
    by (cases r) (simp_all add: registry_other [OF ids _ o] import_other [OF ids _ o] run_other [OF _ o]
      comparison_other [OF _ o] fresh_supplyD)
qed

lemma handle_ok:
  assumes "state_ok U s" "proper_request q" "request_ids q \<inter> U = {}"
  shows "state_ok (U \<union> request_ids q) (snd (handle q s))"
proof -
  obtain p r where q: "q = (p, r)" by (cases q)
  show ?thesis
    using assms unfolding q
    by (cases r) (simp_all add: proper_request_def request_ids_def registry_ok import_ok run_ok comparison_ok)
qed

interpretation api: unwinding handle request_org tenant_view request_ids proper_request state_ok
  by unfold_locales (rule handle_own handle_other handle_ok state_ok_weaken; assumption)+

section \<open>Properties\<close>

text \<open>
  C1: an organisation cannot tell what others hold or do. On two databases that agree on its view, it
  gets the same answers to its requests, and keeps the same view, whether or not requests of other
  organisations, in any number and order, come between its own. (Requests draw identifiers that nobody
  has used before.)
\<close>

theorem tenant_noninterference:
  assumes "state_ok U s" and "state_ok U t" and "tenant_view org s = tenant_view org t"
    and "separate proper_request request_ids U qs"
  shows "fst (serve handle request_org org qs s) =
      fst (serve handle request_org org (filter (\<lambda>q. request_org q = org) qs) t) \<and>
    tenant_view org (snd (serve handle request_org org qs s)) =
      tenant_view org (snd (serve handle request_org org (filter (\<lambda>q. request_org q = org) qs) t))"
  by (rule api.noninterference [OF assms])

section \<open>Witness\<close>

definition other_principal :: principal where
  "other_principal = sample_principal\<lparr>p_org := ''rival''\<rparr>"

definition long_ids :: service_env where
  "long_ids = sample_env\<lparr>uuid := (\<lambda>n. replicate (n + 10) (CHR ''z''))\<rparr>"

definition mixed_requests :: "(principal \<times> nat api_request) list" where
  "mixed_requests = [(other_principal, CreateApp long_ids ''a'' []), (sample_principal, ListApps 10 0),
     (other_principal, ListApps 10 0)]"

lemma sample_state_ok: "state_ok (mentioned sample_db) sample_db"
  by (simp add: state_ok_def ids_ok_def sample_db_def empty_db_def)

lemma mixed_requests_separate: "separate proper_request request_ids (mentioned sample_db) mixed_requests"
proof -
  have "inj (uuid long_ids)" by (auto simp: long_ids_def inj_def dest: arg_cong [where f = length])
  moreover have "length x < 10" if "x \<in> mentioned sample_db" for x
    using that by (auto simp: mentioned_def sample_db_def empty_db_def)
  then have "range (uuid long_ids) \<inter> mentioned sample_db = {}" by (force simp: long_ids_def)
  ultimately show ?thesis
    by (simp add: mixed_requests_def proper_request_def request_ids_def)
qed

theorem tenant_noninterference_witness:
  "fst (serve handle request_org ''org'' mixed_requests sample_db) =
   fst (serve handle request_org ''org'' [(sample_principal, ListApps 10 0) :: principal \<times> nat api_request] sample_db)"
proof -
  have "filter (\<lambda>q. request_org q = ''org'') mixed_requests = [(sample_principal, ListApps 10 0)]"
    by (simp add: mixed_requests_def request_org_def sample_principal_def other_principal_def)
  with tenant_noninterference [OF sample_state_ok sample_state_ok refl mixed_requests_separate, of "''org''"]
  show ?thesis by simp
qed

end
