(* ===== verification/Dashboard.thy ===== *)
theory Dashboard imports Runs_Api begin

text \<open>
  \<open>backend/app/services/dashboard_aggregation.py\<close>: what the dashboard shows of a stored comparison, its
  two runs, their failing cases and tags; and the route \<open>/latest\<close> of \<open>backend/app/api/dashboard.py\<close>.
  \<open>show_float\<close> is the rendering of floats and \<open>iso_of\<close> that of times. A list of items without an
  \<open>ORDER BY\<close> comes in the order of its table.
\<close>

record shown_metric =
  dm_key :: string
  dm_label :: string
  dm_short :: string
  dm_unit :: string
  dm_baseline :: flt
  dm_candidate :: flt
  dm_baseline_ci :: "flt list"
  dm_candidate_ci :: "flt list"
  dm_delta :: flt
  dm_delta_ci :: "flt list"
  dm_direction :: string
  dm_tolerance :: flt
  dm_status :: string

definition METRIC_SPECS :: "(string \<times> string \<times> string \<times> string \<times> string) list" where
  "METRIC_SPECS =
     [(''pass_rate'', ''Pass rate'', ''Pass'', ''%'', ''higher''),
      (''semantic_similarity'', ''Token overlap'', ''Overlap'', ''score'', ''higher''),
      (''p95_latency_ms'', ''p95 latency'', ''p95'', ''ms'', ''lower''),
      (''cost_mean_usd'', ''Mean cost'', ''Cost'', ''usd'', ''lower'')]"

section \<open>Loading\<close>

definition load_comparison :: "db \<Rightarrow> string option \<Rightarrow> string \<Rightarrow> comparison_row option" where
  "load_comparison s comparison_id org =
     (case comparison_id of
        Some cid \<Rightarrow> tenant_comparison s org cid
      | None \<Rightarrow>
          (case sort_key (\<lambda>c. - cm_created c)
                  (filter (\<lambda>c. cm_status c = ''computed'' \<and> cm_org c = org) (comparisons s)) of
             [] \<Rightarrow> None
           | c # _ \<Rightarrow> Some c))"

definition run_by_id :: "db \<Rightarrow> string \<Rightarrow> run_row option" where
  "run_by_id s rid = find (\<lambda>r. er_id r = rid) (runs s)"

definition suite_by_id :: "db \<Rightarrow> string \<Rightarrow> suite_row option" where
  "suite_by_id s sid = find (\<lambda>x. es_id x = sid) (suites s)"

definition app_by_id :: "db \<Rightarrow> string \<Rightarrow> app_row option" where
  "app_by_id s aid = find (\<lambda>a. ap_id a = aid) (apps s)"

definition gate_rule_by_id :: "db \<Rightarrow> string \<Rightarrow> gate_rule_row option" where
  "gate_rule_by_id s gid = find (\<lambda>g. gr_id g = gid) (gate_rules s)"

definition case_by_id :: "db \<Rightarrow> string \<Rightarrow> case_row option" where
  "case_by_id s cid = find (\<lambda>c. ec_id c = cid) (eval_cases s)"

definition items_of_run :: "db \<Rightarrow> string \<Rightarrow> item_row list" where
  "items_of_run s rid = filter (\<lambda>i. ri_run i = rid) (items s)"

text \<open>\<open>{item.case_id: item for item in items}\<close>: the last item of a case.\<close>

definition item_for_case :: "db \<Rightarrow> string \<Rightarrow> string \<Rightarrow> item_row option" where
  "item_for_case s rid case_id = find (\<lambda>i. ri_case i = case_id) (rev (items_of_run s rid))"

definition trace_of :: "db \<Rightarrow> item_row \<Rightarrow> trace_row option" where
  "trace_of s item = find (\<lambda>t. tr_item t = ri_id item) (rev (traces s))"

section \<open>Summary\<close>

definition seconds :: "int \<Rightarrow> real" where "seconds t = of_int t / 1000000"

definition elapsed_seconds :: "run_row \<Rightarrow> run_row \<Rightarrow> real" where
  "elapsed_seconds baseline candidate =
     (let start_times = List.map_filter er_started [baseline, candidate];
          end_times = List.map_filter er_completed_at [baseline, candidate]
      in if start_times = [] \<or> end_times = [] then 0
         else py_round 3 (seconds (Max (set end_times) - Min (set start_times))))"

definition cases_per_minute :: "nat \<Rightarrow> real \<Rightarrow> real" where
  "cases_per_minute total_executions elapsed =
     (if elapsed \<le> 0 then 0 else py_round 2 (real total_executions / elapsed * 60))"

record summary =
  sm_generated_at :: string
  sm_project :: string
  sm_suite :: string
  sm_baseline_version :: string
  sm_candidate_version :: string
  sm_case_count :: nat
  sm_total_executions :: nat
  sm_elapsed_seconds :: real
  sm_cases_per_minute :: real
  sm_gate_verdict :: string

definition build_summary :: "(int \<Rightarrow> string) \<Rightarrow> db \<Rightarrow> run_row \<Rightarrow> run_row \<Rightarrow> report_row \<Rightarrow> summary" where
  "build_summary iso_of s baseline candidate report =
     (let baseline_version = version_by_id s (er_version baseline);
          candidate_version = version_by_id s (er_version candidate);
          suite = suite_by_id s (er_suite candidate);
          app = (case candidate_version of None \<Rightarrow> None | Some v \<Rightarrow> app_by_id s (av_app v));
          elapsed = elapsed_seconds baseline candidate;
          total = er_case_completed baseline + er_case_completed candidate
      in \<lparr>sm_generated_at = iso_of (rp_created report),
          sm_project = (case app of None \<Rightarrow> ''Unknown app'' | Some a \<Rightarrow> ap_name a),
          sm_suite = (case suite of None \<Rightarrow> er_suite candidate | Some x \<Rightarrow> es_name x),
          sm_baseline_version = (case baseline_version of None \<Rightarrow> er_version baseline | Some v \<Rightarrow> av_name v),
          sm_candidate_version = (case candidate_version of None \<Rightarrow> er_version candidate | Some v \<Rightarrow> av_name v),
          sm_case_count = er_case_count candidate, sm_total_executions = total, sm_elapsed_seconds = elapsed,
          sm_cases_per_minute = cases_per_minute total elapsed, sm_gate_verdict = rp_verdict report\<rparr>)"

section \<open>Metrics\<close>

definition text_at :: "(real \<Rightarrow> string) \<Rightarrow> string \<Rightarrow> dict \<Rightarrow> string res" where
  "text_at show_float k d = and_then (key_of k d) (\<lambda>j. Inr (py_str show_float j))"

definition rule_tolerance :: "dict \<Rightarrow> string \<Rightarrow> flt res" where
  "rule_tolerance rules key =
     and_then (as_dict ''get'' (dict_get_or key (JObj []) rules)) (\<lambda>rule.
     to_float (dict_get_or ''tolerance'' (JFloat (Fin 0)) rule))"

definition shown_metric_of ::
  "dict \<Rightarrow> (string \<times> string) list \<Rightarrow> dict \<Rightarrow> string \<times> string \<times> string \<times> string \<times> string \<Rightarrow> shown_metric res" where
  "shown_metric_of metrics verdicts rules spec =
     (case spec of (key, label, short_label, unit, direction) \<Rightarrow>
       and_then (key_of key metrics) (\<lambda>m.
       and_then (float_at m ''baseline_point'') (\<lambda>b.
       and_then (float_at m ''candidate_point'') (\<lambda>c.
       and_then (float_at m ''baseline_ci_lower'') (\<lambda>bl.
       and_then (float_at m ''baseline_ci_upper'') (\<lambda>bu.
       and_then (float_at m ''candidate_ci_lower'') (\<lambda>cl.
       and_then (float_at m ''candidate_ci_upper'') (\<lambda>cu.
       and_then (float_at m ''delta_point'') (\<lambda>d.
       and_then (float_at m ''delta_ci_lower'') (\<lambda>dl.
       and_then (float_at m ''delta_ci_upper'') (\<lambda>du.
       and_then (rule_tolerance rules key) (\<lambda>tolerance.
       Inr \<lparr>dm_key = key, dm_label = label, dm_short = short_label, dm_unit = unit, dm_baseline = b,
            dm_candidate = c, dm_baseline_ci = [bl, bu], dm_candidate_ci = [cl, cu], dm_delta = d,
            dm_delta_ci = [dl, du], dm_direction = direction, dm_tolerance = tolerance,
            dm_status = (if dict_get key rules \<noteq> None
                         then (case map_of (rev verdicts) key of None \<Rightarrow> ''pass'' | Some v \<Rightarrow> v)
                         else ''not_evaluated'')\<rparr>))))))))))))"

definition build_metrics :: "(real \<Rightarrow> string) \<Rightarrow> dict \<Rightarrow> dict list \<Rightarrow> dict \<Rightarrow> shown_metric list res" where
  "build_metrics show_float metrics gate_reasons rules =
     and_then (map_res (\<lambda>reason.
         and_then (text_at show_float ''metric'' reason) (\<lambda>k.
         and_then (text_at show_float ''verdict'' reason) (\<lambda>v. Inr (k, v)))) gate_reasons) (\<lambda>verdicts.
     map_res (shown_metric_of metrics verdicts rules)
       (filter (\<lambda>spec. dict_get (fst spec) metrics \<noteq> None) METRIC_SPECS))"

definition metric_label :: "string \<Rightarrow> string" where
  "metric_label metric =
     (case find (\<lambda>spec. fst spec = metric) METRIC_SPECS of None \<Rightarrow> metric | Some spec \<Rightarrow> fst (snd spec))"

record shown_rule =
  dr_metric :: string
  dr_direction :: string
  dr_tolerance :: string
  dr_verdict :: json

definition build_gate_rules ::
  "(real \<Rightarrow> string) \<Rightarrow> db \<Rightarrow> string \<Rightarrow> dict list \<Rightarrow> shown_rule list res" where
  "build_gate_rules show_float s gate_rules_id gate_reasons =
     and_then (map_res (\<lambda>reason.
         and_then (key_of ''metric'' reason) (\<lambda>k.
         and_then (key_of ''verdict'' reason) (\<lambda>v.
         if unhashable reason then Inl (Exn TypeErr ''unhashable type'') else Inr (k, v)))) gate_reasons) (\<lambda>verdicts.
     case gate_rule_by_id s gate_rules_id of
       None \<Rightarrow> Inr []
     | Some g \<Rightarrow>
         map_res (\<lambda>(metric, rule).
             and_then (as_dict ''get'' rule) (\<lambda>d.
             Inr \<lparr>dr_metric = metric_label metric,
                  dr_direction = (if dict_get ''direction'' d = Some (JStr ''higher_better'') then ''higher'' else ''lower''),
                  dr_tolerance = py_str show_float (dict_get_or ''tolerance'' (JStr []) d),
                  dr_verdict = (case map_of (rev verdicts) (JStr metric) of None \<Rightarrow> JStr ''pass'' | Some v \<Rightarrow> v)\<rparr>))
           (gr_rules g))"

section \<open>Runs\<close>

definition find_result :: "result_row list \<Rightarrow> string \<Rightarrow> result_row option" where
  "find_result rows name = find (\<lambda>r. rs_name r = name) rows"

fun find_first_result :: "result_row list \<Rightarrow> string list \<Rightarrow> result_row option" where
  "find_first_result rows [] = None"
| "find_first_result rows (name # names) =
     (case find_result rows name of None \<Rightarrow> find_first_result rows names | Some r \<Rightarrow> Some r)"

definition semantic_result :: "result_row list \<Rightarrow> result_row option" where
  "semantic_result rows = find_first_result rows [''token_f1_overlap'', ''semantic_similarity'']"

definition result_score :: "result_row option \<Rightarrow> real" where
  "result_score r = (case r of None \<Rightarrow> 0 | Some x \<Rightarrow> (case rs_score x of None \<Rightarrow> 0 | Some v \<Rightarrow> v))"

definition shown_average :: "real list \<Rightarrow> real" where
  "shown_average values = (if values = [] then 0 else py_round 6 (sum_list values / real (length values)))"

record display_samples =
  ds_case_passes :: "real list"
  ds_semantic_scores :: "real list"
  ds_latencies :: "real list"
  ds_costs :: "real list"

definition collect_display_samples :: "db \<Rightarrow> string \<Rightarrow> display_samples" where
  "collect_display_samples s rid =
     (let is = items_of_run s rid in
      \<lparr>ds_case_passes = map (\<lambda>i. if case_passes (results_of s i) then 1 else 0) is,
       ds_semantic_scores = List.map_filter (\<lambda>i.
         case semantic_result (results_of s i) of None \<Rightarrow> None | Some r \<Rightarrow> rs_score r) is,
       ds_latencies = List.map_filter (\<lambda>i. map_option of_int (ri_latency i)) is,
       ds_costs = List.map_filter ri_cost is\<rparr>)"

record shown_run =
  dn_id :: string
  dn_version :: string
  dn_suite :: string
  dn_cases :: nat
  dn_completed :: nat
  dn_errored :: nat
  dn_pass_rate :: real
  dn_similarity :: real
  dn_p95_latency :: real
  dn_cost_mean :: real
  dn_created_at :: string
  dn_status :: run_status

definition run_to_dashboard_row :: "(int \<Rightarrow> string) \<Rightarrow> db \<Rightarrow> run_row \<Rightarrow> shown_run res" where
  "run_to_dashboard_row iso_of s run =
     (let version = version_by_id s (er_version run);
          suite = suite_by_id s (er_suite run);
          samples = collect_display_samples s (er_id run)
      in and_then (percentile (ds_latencies samples) (95 / 100)) (\<lambda>p95.
         Inr \<lparr>dn_id = er_id run,
              dn_version = (case version of None \<Rightarrow> er_version run | Some v \<Rightarrow> av_name v),
              dn_suite = (case suite of None \<Rightarrow> er_suite run | Some x \<Rightarrow> es_name x),
              dn_cases = er_case_count run, dn_completed = er_case_completed run, dn_errored = er_case_errored run,
              dn_pass_rate = shown_average (ds_case_passes samples),
              dn_similarity = shown_average (ds_semantic_scores samples),
              dn_p95_latency = p95, dn_cost_mean = shown_average (ds_costs samples),
              dn_created_at = iso_of (er_created run), dn_status = er_status run\<rparr>))"

definition build_runs :: "(int \<Rightarrow> string) \<Rightarrow> db \<Rightarrow> run_row \<Rightarrow> run_row \<Rightarrow> shown_run list res" where
  "build_runs iso_of s baseline candidate =
     and_then (run_to_dashboard_row iso_of s candidate) (\<lambda>c.
     and_then (run_to_dashboard_row iso_of s baseline) (\<lambda>b. Inr [c, b]))"

section \<open>Failing cases\<close>

definition failing_result :: "result_row \<Rightarrow> bool" where
  "failing_result r \<longleftrightarrow> (rs_passed r = Some False \<or> rs_errored r) \<and> \<not> rs_skipped r"

definition not_executed :: "item_row \<Rightarrow> bool" where
  "not_executed i \<longleftrightarrow> ri_status i \<in> {ItemErrored, ItemTimedOut, ItemCancelled}"

text \<open>\<open>failed_by_item\<close>: absent, or present with the failed result or with none.\<close>

definition failure_of :: "db \<Rightarrow> item_row \<Rightarrow> result_row option option" where
  "failure_of s i =
     (case filter failing_result (results_of s i) of
        r # _ \<Rightarrow> Some (Some r)
      | [] \<Rightarrow> if not_executed i then Some None else None)"

definition first_tag :: "(real \<Rightarrow> string) \<Rightarrow> dict \<Rightarrow> string" where
  "first_tag show_float payload =
     (case dict_get_or ''tags'' (JList []) payload of
        JList (t # _) \<Rightarrow> py_str show_float t
      | _ \<Rightarrow> ''untagged'')"

definition status_text :: "item_status \<Rightarrow> string" where
  "status_text st = (case st of Queued \<Rightarrow> ''queued'' | ItemRunning \<Rightarrow> ''running'' | ItemCompleted \<Rightarrow> ''completed''
     | ItemErrored \<Rightarrow> ''errored'' | ItemTimedOut \<Rightarrow> ''timed_out'' | ItemCancelled \<Rightarrow> ''cancelled'')"

definition failure_reason :: "result_row option \<Rightarrow> item_row \<Rightarrow> string" where
  "failure_reason r i =
     (case r of
        Some x \<Rightarrow> if is_set (rs_error x) then the (rs_error x) else rs_name x @ '' failed''
      | None \<Rightarrow> if is_set (ri_error i) then the (ri_error i) else ''Execution '' @ status_text (ri_status i))"

definition trace_answer :: "(real \<Rightarrow> string) \<Rightarrow> trace_row option \<Rightarrow> string" where
  "trace_answer show_float t =
     (case t of
        None \<Rightarrow> []
      | Some x \<Rightarrow>
          (case dict_get_or ''output'' (JObj []) (tr_payload x) of
             JObj d \<Rightarrow> py_str show_float (dict_get_or ''answer'' (JStr []) d)
           | _ \<Rightarrow> []))"

record shown_chunk =
  dk_rank :: nat
  dk_doc_id :: string
  dk_text :: string
  dk_score :: flt

fun shown_chunks :: "(real \<Rightarrow> string) \<Rightarrow> nat \<Rightarrow> json list \<Rightarrow> shown_chunk list res" where
  "shown_chunks show_float index [] = Inr []"
| "shown_chunks show_float index (JObj chunk # chunks) =
     and_then (to_float (dict_get_or ''score'' (JFloat (Fin 0)) chunk)) (\<lambda>score.
     and_then (shown_chunks show_float (Suc index) chunks) (\<lambda>rest.
     Inr (\<lparr>dk_rank = index, dk_doc_id = py_str show_float (dict_get_or ''doc_id'' (JStr []) chunk),
           dk_text = py_str show_float (the (json_or (dict_get ''text'' chunk)
             (json_or (dict_get ''chunk_text'' chunk) (Some (JStr []))))),
           dk_score = score\<rparr> # rest)))"
| "shown_chunks show_float index (_ # chunks) = shown_chunks show_float (Suc index) chunks"

definition trace_chunks :: "(real \<Rightarrow> string) \<Rightarrow> trace_row option \<Rightarrow> shown_chunk list res" where
  "trace_chunks show_float t =
     (case t of
        None \<Rightarrow> Inr []
      | Some x \<Rightarrow>
          (case dict_get_or ''output'' (JObj []) (tr_payload x) of
             JObj d \<Rightarrow>
               (case dict_get_or ''retrieved_chunks'' (JList []) d of
                  JList chunks \<Rightarrow> shown_chunks show_float 1 chunks
                | _ \<Rightarrow> Inr [])
           | _ \<Rightarrow> Inr []))"

definition trace_adapter :: "(real \<Rightarrow> string) \<Rightarrow> trace_row option \<Rightarrow> string \<Rightarrow> string res" where
  "trace_adapter show_float t adapter_module =
     (case t of
        None \<Rightarrow> Inr adapter_module
      | Some x \<Rightarrow>
          and_then (as_dict ''get'' (dict_get_or ''metadata'' (JObj []) (tr_payload x))) (\<lambda>d.
          Inr (py_str show_float (dict_get_or ''adapter_module'' (JStr adapter_module) d))))"

record trace_case =
  tc_id :: string
  tc_tag :: string
  tc_evaluator :: string
  tc_reason :: string
  tc_question :: string
  tc_expected :: string
  tc_baseline_answer :: string
  tc_candidate_answer :: string
  tc_semantic :: real
  tc_keyword :: real
  tc_retrieval_hit :: bool
  tc_latency :: int
  tc_cost :: real
  tc_chunks :: "shown_chunk list"
  tc_adapter :: string

definition trace_case_row ::
  "(real \<Rightarrow> string) \<Rightarrow> case_row \<Rightarrow> item_row \<Rightarrow> trace_row option \<Rightarrow> trace_row option \<Rightarrow> result_row list \<Rightarrow>
   result_row option \<Rightarrow> string \<Rightarrow> trace_case res" where
  "trace_case_row show_float c i trace baseline_trace rows failed adapter_module =
     (let payload = ec_payload c;
          retrieval = find_result rows ''retrieval_hit_rate''
      in and_then (trace_chunks show_float trace) (\<lambda>chunks.
         and_then (trace_adapter show_float trace adapter_module) (\<lambda>adapter.
         Inr \<lparr>tc_id = (if is_set (ec_external c) then the (ec_external c) else ec_id c),
              tc_tag = first_tag show_float payload,
              tc_evaluator = (case failed of None \<Rightarrow> ''execution'' | Some r \<Rightarrow> rs_name r),
              tc_reason = failure_reason failed i,
              tc_question = extract_question show_float payload,
              tc_expected = py_str show_float (dict_get_or ''expected_output'' (JStr []) payload),
              tc_baseline_answer = trace_answer show_float baseline_trace,
              tc_candidate_answer = trace_answer show_float trace,
              tc_semantic = result_score (semantic_result rows),
              tc_keyword = result_score (find_result rows ''contains_keywords''),
              tc_retrieval_hit = (case retrieval of None \<Rightarrow> False | Some r \<Rightarrow> rs_passed r = Some True),
              tc_latency = (case ri_latency i of None \<Rightarrow> 0 | Some v \<Rightarrow> v),
              tc_cost = (case ri_cost i of None \<Rightarrow> 0 | Some v \<Rightarrow> v),
              tc_chunks = chunks, tc_adapter = adapter\<rparr>)))"

definition failed_items :: "db \<Rightarrow> run_row \<Rightarrow> item_row list" where
  "failed_items s candidate = filter (\<lambda>i. failure_of s i \<noteq> None) (run_items s (er_id candidate))"

definition build_trace_cases :: "(real \<Rightarrow> string) \<Rightarrow> db \<Rightarrow> run_row \<Rightarrow> run_row \<Rightarrow> trace_case list res" where
  "build_trace_cases show_float s baseline candidate =
     (let adapter_module = (case version_by_id s (er_version candidate) of
              None \<Rightarrow> ''unknown'' | Some v \<Rightarrow> av_adapter v);
          row = (\<lambda>i.
            let baseline_trace = (case item_for_case s (er_id baseline) (ri_case i) of
                    None \<Rightarrow> None | Some b \<Rightarrow> trace_of s b)
            in trace_case_row show_float (the (case_by_id s (ri_case i))) i (trace_of s i) baseline_trace
                 (results_of s i) (the (failure_of s i)) adapter_module)
      in and_then (map_res row (filter (\<lambda>i. case_by_id s (ri_case i) \<noteq> None) (failed_items s candidate)))
           (\<lambda>rows. Inr (sort_key tc_id rows)))"

section \<open>Tags\<close>

definition tag_of :: "(real \<Rightarrow> string) \<Rightarrow> db \<Rightarrow> item_row \<Rightarrow> string option" where
  "tag_of show_float s i = map_option (\<lambda>c. first_tag show_float (ec_payload c)) (case_by_id s (ri_case i))"

text \<open>\<open>counts[tag] = counts.get(tag, 0) + 1\<close>.\<close>

definition bump :: "string \<Rightarrow> (string \<times> nat) list \<Rightarrow> (string \<times> nat) list" where
  "bump tag d = dict_put tag (dict_get_or tag 0 d + 1) d"

definition add_tag ::
  "(real \<Rightarrow> string) \<Rightarrow> db \<Rightarrow> (string \<times> nat) list \<times> (string \<times> nat) list \<Rightarrow> item_row \<Rightarrow>
   (string \<times> nat) list \<times> (string \<times> nat) list" where
  "add_tag show_float s acc i =
     (case tag_of show_float s i of
        None \<Rightarrow> acc
      | Some tag \<Rightarrow>
          (bump tag (fst acc),
           if list_ex failing_result (results_of s i) \<or> not_executed i then bump tag (snd acc) else snd acc))"

definition run_tag_stats :: "(real \<Rightarrow> string) \<Rightarrow> db \<Rightarrow> string \<Rightarrow> (string \<times> nat) list \<times> (string \<times> nat) list" where
  "run_tag_stats show_float s rid = foldl (add_tag show_float s) ([], []) (items_of_run s rid)"

definition candidate_pass_rate :: "nat \<Rightarrow> nat \<Rightarrow> real" where
  "candidate_pass_rate candidate_count failure_count =
     (if candidate_count = 0 then 0 else py_round 6 (1 - real failure_count / real candidate_count))"

record tag_row =
  tg_tag :: string
  tg_baseline_cases :: nat
  tg_candidate_cases :: nat
  tg_candidate_failures :: nat
  tg_pass_rate :: real

definition build_tag_breakdown :: "(real \<Rightarrow> string) \<Rightarrow> db \<Rightarrow> run_row \<Rightarrow> run_row \<Rightarrow> tag_row list" where
  "build_tag_breakdown show_float s baseline candidate =
     (let baseline_counts = fst (run_tag_stats show_float s (er_id baseline));
          candidate_counts = fst (run_tag_stats show_float s (er_id candidate));
          candidate_failures = snd (run_tag_stats show_float s (er_id candidate));
          tags = sort (remdups (map fst baseline_counts @ map fst candidate_counts @ map fst candidate_failures))
      in map (\<lambda>tag.
           let n = dict_get_or tag 0 candidate_counts; k = dict_get_or tag 0 candidate_failures
           in \<lparr>tg_tag = tag, tg_baseline_cases = dict_get_or tag 0 baseline_counts, tg_candidate_cases = n,
               tg_candidate_failures = k, tg_pass_rate = candidate_pass_rate n k\<rparr>) tags)"

section \<open>The snapshot\<close>

record snapshot =
  sp_comparison :: string
  sp_summary :: summary
  sp_metrics :: "shown_metric list"
  sp_runs :: "shown_run list"
  sp_trace_cases :: "trace_case list"
  sp_total :: nat
  sp_limit :: nat
  sp_offset :: nat
  sp_returned :: nat
  sp_tags :: "tag_row list"
  sp_gate_rules :: "shown_rule list"

definition build_latest_dashboard_snapshot ::
  "(real \<Rightarrow> string) \<Rightarrow> (int \<Rightarrow> string) \<Rightarrow> string option \<Rightarrow> nat \<Rightarrow> nat \<Rightarrow> string \<Rightarrow> db \<Rightarrow> snapshot option res" where
  "build_latest_dashboard_snapshot show_float iso_of comparison_id failure_limit failure_offset org s =
     (case load_comparison s comparison_id org of
        None \<Rightarrow> Inr None
      | Some comparison \<Rightarrow>
          (case report_of s (cm_id comparison) of
             None \<Rightarrow> Inr None
           | Some report \<Rightarrow>
               (case (run_by_id s (cm_baseline comparison), run_by_id s (cm_candidate comparison)) of
                  (Some baseline, Some candidate) \<Rightarrow>
                    let rules = (case gate_rule_by_id s (cm_gate comparison) of None \<Rightarrow> [] | Some g \<Rightarrow> gr_rules g) in
                    and_then (build_trace_cases show_float s baseline candidate) (\<lambda>trace_cases.
                    and_then (build_metrics show_float (rp_metrics report) (rp_reasons report) rules) (\<lambda>metrics.
                    and_then (build_runs iso_of s baseline candidate) (\<lambda>shown_runs.
                    and_then (build_gate_rules show_float s (cm_gate comparison) (rp_reasons report)) (\<lambda>shown_rules.
                    let page = take failure_limit (drop failure_offset trace_cases) in
                    Inr (Some \<lparr>sp_comparison = cm_id comparison,
                         sp_summary = build_summary iso_of s baseline candidate report, sp_metrics = metrics,
                         sp_runs = shown_runs, sp_trace_cases = page, sp_total = length trace_cases,
                         sp_limit = failure_limit, sp_offset = failure_offset, sp_returned = length page,
                         sp_tags = build_tag_breakdown show_float s baseline candidate,
                         sp_gate_rules = shown_rules\<rparr>)))))
                | _ \<Rightarrow> Inr None)))"

definition get_latest_dashboard_snapshot ::
  "(real \<Rightarrow> string) \<Rightarrow> (int \<Rightarrow> string) \<Rightarrow> string option \<Rightarrow> nat \<Rightarrow> nat \<Rightarrow> principal \<Rightarrow> db \<Rightarrow> snapshot response" where
  "get_latest_dashboard_snapshot show_float iso_of comparison_id failure_limit failure_offset p s =
     (case build_latest_dashboard_snapshot show_float iso_of comparison_id failure_limit failure_offset (p_org p) s of
        Inl exc \<Rightarrow> Inl (Unhandled exc)
      | Inr None \<Rightarrow> http 404 ''No computed comparisons found''
      | Inr (Some snap) \<Rightarrow> Inr snap)"

section \<open>The samples of a run, again\<close>

text \<open>
  \<open>compute_comparison\<close> keys a run's observations by case, the run table lists them by item. A metric
  that every item sets at most once gives the same observations in both, when a run has one item per case.
\<close>

lemma values_of_run:
  assumes "sets_metric s m f" and "distinct (map ri_case (items_of_run s rid))"
  shows "sample_values (dict_get_or m (Listed []) (as_samples (collect_run_metric_samples s rid))) =
    List.map_filter f (run_items s rid)"
proof -
  have d: "distinct (map ri_case (run_items s rid))"
    using distinct_run_items assms(2) by (simp add: items_of_run_def)
  have "sorted (map ri_case (run_items s rid))" by (simp add: run_items_def)
  with d have "sample_values (ByCase (List.map_filter (by_case f) (run_items s rid))) =
      List.map_filter f (run_items s rid)"
    unfolding by_case_props(1) [symmetric]
    by (intro by_case_values) (simp_all only: by_case_props(2) distinct_map_filter sorted_filter)
  then show ?thesis
    unfolding as_samples_values collect_run_metric_samples_def
    using samples_fold [OF assms(1) d, of "[]"] by (simp add: dict_get_or_def)
qed

lemma values_permuted:
  assumes "sets_metric s m f" and "distinct (map ri_case (items_of_run s rid))"
  shows "mset (sample_values (dict_get_or m (Listed []) (as_samples (collect_run_metric_samples s rid)))) =
    mset (List.map_filter f (items_of_run s rid))"
  unfolding values_of_run [OF assms]
  by (simp add: run_items_def items_of_run_def List.map_filter_def filter_filter_mset)

lemma average_permuted: "mset xs = mset ys \<Longrightarrow> py_round 6 (average xs) = shown_average ys"
  using mset_eq_length [of xs ys] sum_mset_sum_list [of xs] sum_mset_sum_list [of ys]
  by (cases "ys = []") (auto simp: average_def shown_average_def)

lemma percentile_permuted: "mset xs = mset ys \<Longrightarrow> percentile xs q = percentile ys q"
  using mset_eq_length [of xs ys] properties_for_sort [of "sort xs" ys] mset_zero_iff [of xs] mset_zero_iff [of ys]
  by (simp add: percentile_def Let_def)

text \<open>What the report says of one metric of the two runs.\<close>

lemma report_points:
  assumes "build_metric_report R B C = Inr metrics" and "(m, stat) \<in> set statistic_by_metric"
  obtains e v w where "dict_get m metrics = Some (JObj e)"
    "metric_entry R stat (dict_get_or m (Listed []) B) (dict_get_or m (Listed []) C) = Inr e"
proof -
  have "\<exists>e. dict_get m metrics = Some (JObj e) \<and>
      metric_entry R stat (dict_get_or m (Listed []) B) (dict_get_or m (Listed []) C) = Inr e"
    using assms by (auto simp: build_metric_report_def statistic_by_metric_def and_then_Inr_iff)
  then show ?thesis using that by blast
qed

lemma entry_points:
  assumes "metric_entry R stat B C = Inr e"
  obtains v w x1 x2 x3 x4 x5 x6 x7 where "stat (sample_values B) = Inr v" "stat (sample_values C) = Inr w"
    "float_at (JObj e) ''baseline_point'' = Inr (Fin (py_round 6 v))"
    "float_at (JObj e) ''candidate_point'' = Inr (Fin (py_round 6 w))"
    "float_at (JObj e) ''baseline_ci_lower'' = Inr (Fin x1)" "float_at (JObj e) ''baseline_ci_upper'' = Inr (Fin x2)"
    "float_at (JObj e) ''candidate_ci_lower'' = Inr (Fin x3)" "float_at (JObj e) ''candidate_ci_upper'' = Inr (Fin x4)"
    "float_at (JObj e) ''delta_point'' = Inr (Fin x5)" "float_at (JObj e) ''delta_ci_lower'' = Inr (Fin x6)"
    "float_at (JObj e) ''delta_ci_upper'' = Inr (Fin x7)"
  using assms
  by (auto simp: metric_entry_def Let_def and_then_Inr_iff rounded_def float_at_def subscript_def key_of_def
      split: prod.splits)

lemma stored_tolerance:
  assumes "list_all rule_ok rs"
  shows "\<exists>t. rule_tolerance (map rule_json rs) m = Inr (Fin t)"
proof (cases "dict_get m (map rule_json rs)")
  case (Some j)
  then have "(m, j) \<in> set (map rule_json rs)" by (rule map_of_SomeD)
  with Some show ?thesis
    by (auto simp: rule_tolerance_def dict_get_or_def rule_json_def gate_rule_def split: prod.splits)
qed (simp add: rule_tolerance_def dict_get_or_def)

lemma verdicts_read:
  assumes "\<forall>r \<in> set rs. deltas_ok metrics (fst r)"
  shows "\<exists>vs. map_res (\<lambda>reason.
     and_then (text_at show_float ''metric'' reason) (\<lambda>k.
     and_then (text_at show_float ''verdict'' reason) (\<lambda>v. Inr (k, v)))) (map (reason_of metrics) rs) = Inr vs"
  using assms
proof (induction rs)
  case (Cons r rs)
  from reason_of_gate_reason [of metrics r] Cons.prems obtain t d where
    "reason_of metrics r = gate_reason (fst r) (verdict_name (spec_of metrics r)) (Fin t) (Fin d)" by auto
  with Cons show ?case by (auto simp: gate_reason_def text_at_def key_of_def)
qed simp

lemma card_of_metric:
  assumes "build_metric_report R B C = Inr metrics" and "(m, stat) \<in> set statistic_by_metric"
    and "list_all rule_ok rs"
  shows "\<exists>shown v w. shown_metric_of metrics verdicts (map rule_json rs) (m, l, sh, u, d) = Inr shown \<and>
     dm_key shown = m \<and> stat (sample_values (dict_get_or m (Listed []) B)) = Inr v \<and>
     stat (sample_values (dict_get_or m (Listed []) C)) = Inr w \<and>
     dm_baseline shown = Fin (py_round 6 v) \<and> dm_candidate shown = Fin (py_round 6 w)"
proof -
  obtain t where t: "rule_tolerance (map rule_json rs) m = Inr (Fin t)" using stored_tolerance [OF assms(3)] by blast
  obtain e where e: "dict_get m metrics = Some (JObj e)"
    "metric_entry R stat (dict_get_or m (Listed []) B) (dict_get_or m (Listed []) C) = Inr e"
    using report_points [OF assms(1,2)] by blast
  show ?thesis
    by (rule entry_points [OF e(2)]) (simp add: shown_metric_of_def key_of_def e(1) t)
qed

text \<open>The figure of a run that a metric card repeats; the run table does not round latencies.\<close>

definition run_figure :: "string \<Rightarrow> shown_run \<Rightarrow> real option" where
  "run_figure key row =
     (if key = ''pass_rate'' then Some (dn_pass_rate row)
      else if key = ''p95_latency_ms'' then Some (py_round 6 (dn_p95_latency row))
      else if key = ''cost_mean_usd'' then Some (dn_cost_mean row)
      else None)"

lemma run_figures:
  assumes "distinct (map ri_case (items_of_run s (er_id run)))"
    and "run_to_dashboard_row iso_of s run = Inr row"
    and "(key, stat) \<in> set statistic_by_metric"
    and "stat (sample_values (dict_get_or key (Listed [])
           (as_samples (collect_run_metric_samples s (er_id run))))) = Inr v"
    and "run_figure key row = Some x"
  shows "x = py_round 6 v"
proof -
  note permuted = values_permuted [OF _ assms(1)]
  note figures = average_permuted [OF permuted [OF metrics_set(1)]] percentile_permuted [OF permuted [OF metrics_set(2)]]
    average_permuted [OF permuted [OF metrics_set(3)]]
  show ?thesis
    using assms(2-) figures
    by (auto simp: run_figure_def run_to_dashboard_row_def collect_display_samples_def Let_def statistic_by_metric_def
      average_stat_def p95_stat_def and_then_Inr_iff map_filter_Some split: if_splits)
qed

lemma map_res_exists:
  assumes "\<forall>x \<in> set xs. \<exists>y. f x = Inr y \<and> P x y"
  shows "\<exists>ys. map_res f xs = Inr ys \<and> list_all2 P xs ys"
  using assms
proof (induction xs)
  case (Cons x xs)
  then obtain y ys where "f x = Inr y" "P x y" "map_res f xs = Inr ys" "list_all2 P xs ys" by auto
  then show ?case by simp
qed simp

lemma list_all2_keys:
  "list_all2 (\<lambda>x y. f y = g x \<and> P y) xs ys \<Longrightarrow> map f ys = map g xs \<and> (\<forall>y \<in> set ys. P y)"
  by (induction rule: list_all2_induct) simp_all

lemma run_row_shown: "\<exists>row. run_to_dashboard_row iso_of s run = Inr row"
proof -
  have "\<exists>v. percentile xs (95 / 100) = Inr v" for xs
    using percentile_between [of xs "95 / 100" "Min (set xs)" "Max (set xs)"]
    by (cases "xs = []") (auto simp: percentile_def)
  then obtain v where "percentile (ds_latencies (collect_display_samples s (er_id run))) (95 / 100) = Inr v" by blast
  then show ?thesis by (simp add: run_to_dashboard_row_def Let_def)
qed

lemma run_row_of_stored:
  "run_to_dashboard_row iso_of (s\<lparr>gate_rules := g, comparisons := c, reports := r\<rparr>) run =
     run_to_dashboard_row iso_of s run"
  by (simp add: run_to_dashboard_row_def collect_display_samples_def version_by_id_def suite_by_id_def
      items_of_run_def results_of_def)

definition card_agrees :: "shown_run \<Rightarrow> shown_run \<Rightarrow> shown_metric \<Rightarrow> bool" where
  "card_agrees baseline candidate shown \<longleftrightarrow>
     (case run_figure (dm_key shown) baseline of None \<Rightarrow> True | Some x \<Rightarrow> dm_baseline shown = Fin x) \<and>
     (case run_figure (dm_key shown) candidate of None \<Rightarrow> True | Some x \<Rightarrow> dm_candidate shown = Fin x)"

lemma cards_agree:
  assumes "build_metric_report R (as_samples (collect_run_metric_samples s (er_id rb)))
      (as_samples (collect_run_metric_samples s (er_id rc))) = Inr metrics"
    and "list_all rule_ok rs"
    and "distinct (map ri_case (items_of_run s (er_id rb)))" and "distinct (map ri_case (items_of_run s (er_id rc)))"
    and "run_to_dashboard_row iso_of s rb = Inr shown_b" and "run_to_dashboard_row iso_of s rc = Inr shown_c"
  shows "\<exists>cards. map_res (shown_metric_of metrics verdicts (map rule_json rs)) METRIC_SPECS = Inr cards \<and>
    map dm_key cards = map fst METRIC_SPECS \<and> (\<forall>shown \<in> set cards. card_agrees shown_b shown_c shown)"
proof -
  have one: "\<exists>shown. shown_metric_of metrics verdicts (map rule_json rs) spec = Inr shown \<and>
      (dm_key shown = fst spec \<and> card_agrees shown_b shown_c shown)" if "spec \<in> set METRIC_SPECS" for spec
  proof -
    obtain m l sh u d where spec: "spec = (m, l, sh, u, d)" by (metis prod_cases5)
    have "list_all (\<lambda>x. fst x \<in> set (map fst statistic_by_metric)) METRIC_SPECS"
      by (simp add: METRIC_SPECS_def statistic_by_metric_def)
    with that have "m \<in> set (map fst statistic_by_metric)" unfolding spec list_all_iff by force
    then obtain stat where stat: "(m, stat) \<in> set statistic_by_metric" by auto
    from card_of_metric [OF assms(1) stat assms(2), of verdicts l sh u d] obtain shown v w where
      m: "shown_metric_of metrics verdicts (map rule_json rs) (m, l, sh, u, d) = Inr shown" "dm_key shown = m"
        "dm_baseline shown = Fin (py_round 6 v)" "dm_candidate shown = Fin (py_round 6 w)"
      and v: "stat (sample_values (dict_get_or m (Listed [])
          (as_samples (collect_run_metric_samples s (er_id rb))))) = Inr v"
      and w: "stat (sample_values (dict_get_or m (Listed [])
          (as_samples (collect_run_metric_samples s (er_id rc))))) = Inr w" by blast
    have "card_agrees shown_b shown_c shown"
      using run_figures [OF assms(3,5) stat v] run_figures [OF assms(4,6) stat w]
      by (auto simp: card_agrees_def m split: option.split)
    with m show ?thesis by (simp add: spec)
  qed
  then have "\<forall>spec \<in> set METRIC_SPECS. \<exists>shown. shown_metric_of metrics verdicts (map rule_json rs) spec = Inr shown \<and>
      (dm_key shown = fst spec \<and> card_agrees shown_b shown_c shown)" by blast
  from map_res_exists [OF this] obtain cards where
    "map_res (shown_metric_of metrics verdicts (map rule_json rs)) METRIC_SPECS = Inr cards"
    "list_all2 (\<lambda>spec shown. dm_key shown = fst spec \<and> card_agrees shown_b shown_c shown) METRIC_SPECS cards"
    by blast
  then show ?thesis using list_all2_keys by blast
qed

section \<open>Counts per tag\<close>

lemma failure_listed:
  "failure_of s i = None \<longleftrightarrow> \<not> (list_ex failing_result (results_of s i) \<or> not_executed i)"
  by (auto simp: failure_of_def list_ex_iff filter_empty_conv split: list.splits dest: filter_eq_ConsD)

lemma failed_case_does_not_pass:
  "list_ex failing_result rows \<Longrightarrow> \<not> case_passes rows"
  by (auto simp: case_passes_def failing_result_def list_ex_iff list_all_iff applicable_def)

lemma get_bump: "dict_get_or t 0 (bump tag d) = dict_get_or t 0 d + (if t = tag then 1 else 0)"
  by (simp add: bump_def dict_get_or_def map_of_dict_put)

lemma tag_fold:
  "dict_get_or t 0 (fst (foldl (add_tag show_float s) acc is)) =
     dict_get_or t 0 (fst acc) + length (filter (\<lambda>i. tag_of show_float s i = Some t) is)"
  "dict_get_or t 0 (snd (foldl (add_tag show_float s) acc is)) =
     dict_get_or t 0 (snd acc) +
     length (filter (\<lambda>i. failure_of s i \<noteq> None \<and> tag_of show_float s i = Some t) is)"
  by (induction "is" arbitrary: acc)
    (auto simp: add_tag_def get_bump failure_listed simp del: not_None_eq split: option.splits)

lemma tag_keys:
  "fst ` set (fst (foldl (add_tag show_float s) acc is)) =
     fst ` set (fst acc) \<union> {t. \<exists>i \<in> set is. tag_of show_float s i = Some t}"
  by (induction "is" arbitrary: acc) (auto simp: add_tag_def bump_def keys_dict_put split: option.splits)

lemma counts_add_up:
  assumes "distinct tags" and "\<forall>i \<in> set is. \<forall>t. f i = Some t \<longrightarrow> t \<in> set tags"
  shows "sum_list (map (\<lambda>t. length (filter (\<lambda>i. P i \<and> f i = Some t) is)) tags) =
    length (filter (\<lambda>i. P i \<and> f i \<noteq> None) is)"
  using assms(2)
proof (induction "is")
  case (Cons i "is")
  have "sum_list (map (\<lambda>t. if P i \<and> f i = Some t then 1 else 0) tags) = (if P i \<and> f i \<noteq> None then 1 else (0 :: nat))"
    using Cons.prems assms(1)
    by (cases "f i") (auto simp: sum_list_distinct_conv_sum_set sum.delta)
  moreover have "length (filter (\<lambda>i. P i \<and> f i = Some t) (i # is)) =
      (if P i \<and> f i = Some t then 1 else 0) + length (filter (\<lambda>i. P i \<and> f i = Some t) is)" for t by simp
  ultimately show ?case using Cons by (simp only: sum_list_addf) simp
qed simp

lemma filter_conj_length: "length (filter (\<lambda>i. P i \<and> Q i) xs) \<le> length (filter Q xs)"
  by (induction xs) auto

lemma run_items_length: "length (filter P (run_items s rid)) = length (filter P (items_of_run s rid))"
  by (rule mset_eq_length) (simp add: run_items_def items_of_run_def filter_filter_mset)

lemma trace_case_count:
  assumes "build_trace_cases show_float s baseline candidate = Inr rows"
  shows "length rows = length (filter (\<lambda>i. failure_of s i \<noteq> None \<and> tag_of show_float s i \<noteq> None)
    (items_of_run s (er_id candidate)))"
proof -
  have "length rows = length (filter (\<lambda>i. case_by_id s (ri_case i) \<noteq> None) (failed_items s candidate))"
    using assms by (auto simp: build_trace_cases_def Let_def and_then_Inr_iff dest: map_res_length)
  then show ?thesis
    by (simp add: failed_items_def tag_of_def conj_commute flip: run_items_length)
qed

lemma pass_rate_unit:
  assumes "k \<le> n" shows "0 \<le> candidate_pass_rate n k \<and> candidate_pass_rate n k \<le> 1"
proof (cases "n = 0")
  case False
  with assms have "0 \<le> 1 - real k / real n" "1 - real k / real n \<le> 1" by (simp_all add: field_simps)
  with False show ?thesis unfolding candidate_pass_rate_def by (simp add: py_round_unit)
qed (simp add: candidate_pass_rate_def)

section \<open>Properties\<close>


text \<open>C40: The tag table accounts for every case of a run exactly once. Whenever the list of failing cases
  can be built, the failures of the tags add up to its length, the candidate's cases to the number of its
  items whose case still exists, and the baseline's likewise; the tags are listed once, in order, no tag has
  more failures than cases and its pass rate lies between 0 and 1. A case that was executed and is listed as
  a failure never counts as passed in the pass rate of the run.\<close>

theorem tag_table_accounts_for_cases:
  assumes "build_trace_cases show_float s baseline candidate = Inr rows"
  shows "sorted_wrt (<) (map tg_tag (build_tag_breakdown show_float s baseline candidate)) \<and>
    sum_list (map tg_candidate_failures (build_tag_breakdown show_float s baseline candidate)) = length rows \<and>
    sum_list (map tg_candidate_cases (build_tag_breakdown show_float s baseline candidate)) =
      length (filter (\<lambda>i. case_by_id s (ri_case i) \<noteq> None) (items_of_run s (er_id candidate))) \<and>
    sum_list (map tg_baseline_cases (build_tag_breakdown show_float s baseline candidate)) =
      length (filter (\<lambda>i. case_by_id s (ri_case i) \<noteq> None) (items_of_run s (er_id baseline))) \<and>
    (\<forall>t \<in> set (build_tag_breakdown show_float s baseline candidate).
       tg_candidate_failures t \<le> tg_candidate_cases t \<and> 0 \<le> tg_pass_rate t \<and> tg_pass_rate t \<le> 1) \<and>
    (\<forall>i. failure_of s i \<noteq> None \<and> \<not> not_executed i \<longrightarrow> \<not> case_passes (results_of s i))"
proof -
  let ?b = "items_of_run s (er_id baseline)" and ?c = "items_of_run s (er_id candidate)"
  let ?tag = "tag_of show_float s"
  define tags where "tags = sort (remdups (map fst (fst (run_tag_stats show_float s (er_id baseline))) @
    map fst (fst (run_tag_stats show_float s (er_id candidate))) @
    map fst (snd (run_tag_stats show_float s (er_id candidate)))))"
  have d: "distinct tags" and keys: "set tags \<supseteq> {t. \<exists>i \<in> set ?b \<union> set ?c. ?tag i = Some t}"
    by (auto simp: tags_def run_tag_stats_def tag_keys)
  then have all: "\<forall>i \<in> set ?b. \<forall>t. ?tag i = Some t \<longrightarrow> t \<in> set tags" "\<forall>i \<in> set ?c. \<forall>t. ?tag i = Some t \<longrightarrow> t \<in> set tags"
    by auto
  have zero: "dict_get_or t (0 :: nat) [] = 0" for t by (simp add: dict_get_or_def)
  have rows: "build_tag_breakdown show_float s baseline candidate = map (\<lambda>tag.
      let n = length (filter (\<lambda>i. ?tag i = Some tag) ?c);
          k = length (filter (\<lambda>i. failure_of s i \<noteq> None \<and> ?tag i = Some tag) ?c)
      in \<lparr>tg_tag = tag, tg_baseline_cases = length (filter (\<lambda>i. ?tag i = Some tag) ?b), tg_candidate_cases = n,
          tg_candidate_failures = k, tg_pass_rate = candidate_pass_rate n k\<rparr>) tags"
    unfolding build_tag_breakdown_def Let_def tags_def [symmetric]
    by (simp add: run_tag_stats_def tag_fold zero)
  have le: "length (filter (\<lambda>i. failure_of s i \<noteq> None \<and> ?tag i = Some t) ?c) \<le> length (filter (\<lambda>i. ?tag i = Some t) ?c)" for t
    by (rule filter_conj_length)
  have "sorted_wrt (<) tags" using d by (simp add: tags_def strict_sorted_iff)
  moreover have "\<forall>i. failure_of s i \<noteq> None \<and> \<not> not_executed i \<longrightarrow> \<not> case_passes (results_of s i)"
    using failed_case_does_not_pass by (auto simp: failure_listed simp del: not_None_eq)
  moreover note counts_add_up [OF d all(2), of "\<lambda>_. True"] counts_add_up [OF d all(1), of "\<lambda>_. True"]
    counts_add_up [OF d all(2), of "\<lambda>i. failure_of s i \<noteq> None"]
  moreover note pass_rate_unit [OF le]
  ultimately show ?thesis
    unfolding rows trace_case_count [OF assms] Let_def using le
    by (simp add: comp_def tag_of_def)
qed

section \<open>Witnesses\<close>


definition one_failure :: db where
  "one_failure = two_runs\<lparr>eval_cases := [\<lparr>ec_id = ''k'', ec_external = None,
       ec_payload = [(''tags'', JList [JStr ''billing''])], ec_created = 0\<rparr>],
     results := [\<lparr>rs_item = ''j'', rs_name = ''exact_match'', rs_score = Some 0, rs_passed = Some False,
       rs_errored = False, rs_skipped = False, rs_error = None, rs_details = [], rs_created = 0\<rparr>]\<rparr>"

lemma tag_table_accounts_for_cases_witness:
  "sum_list (map tg_candidate_failures
     (build_tag_breakdown (\<lambda>_. []) one_failure (finished_run ''a'') (finished_run ''b''))) = 1"
proof -
  have "\<exists>row. build_trace_cases (\<lambda>_. []) one_failure (finished_run ''a'') (finished_run ''b'') = Inr [row]"
    by (simp add: build_trace_cases_def failed_items_def run_items_def failure_of_def results_of_def one_failure_def
      two_runs_def finished_run_def finished_item_def empty_db_def failing_result_def case_by_id_def Let_def
      trace_case_row_def trace_of_def trace_chunks_def trace_adapter_def)
  then obtain row where "build_trace_cases (\<lambda>_. []) one_failure (finished_run ''a'') (finished_run ''b'') = Inr [row]"
    by blast
  from tag_table_accounts_for_cases [OF this] show ?thesis by simp
qed

end
