(* ===== verification/Cli_Run.thy ===== *)
theory Cli_Run imports Run_Dispatcher Comparisons begin

text \<open>
  \<open>backend/app/cli/run.py\<close>: a whole evaluation cycle from the command line. The baseline and the candidate
  run one after the other, in process or on the worker queue; in the second case the command polls the
  database until the run is over. What the workers do meanwhile is a parameter: \<open>cli_observed\<close> is the database
  the \<open>k\<close>-th poll of a run sees, given the one its dispatch committed, and \<open>cli_clock\<close> the readings of
  \<open>time.monotonic\<close>. A poll loop that never ends is the value \<open>None\<close>.
\<close>

definition POLL_INTERVAL_SECONDS :: real where "POLL_INTERVAL_SECONDS = 1"
definition POLL_TIMEOUT_SECONDS :: nat where "POLL_TIMEOUT_SECONDS = 300"

record 'g cli_env =
  cli_baseline :: service_env
  cli_candidate :: service_env
  cli_compare :: "'g compare_env"
  cli_submit :: "signature list \<Rightarrow> string \<Rightarrow> unit res"
  cli_gate_id :: string
  cli_clock :: "string \<Rightarrow> nat \<Rightarrow> real"
  cli_observed :: "string \<Rightarrow> nat \<Rightarrow> db \<Rightarrow> db"
  cli_lost_row :: exn

record run_result =
  rr_baseline :: string
  rr_candidate :: string
  rr_comparison :: string
  rr_verdict :: string
  rr_reasons :: "dict list"

datatype cli_result = Exited nat | Raised exn | Returned run_result

section \<open>Polling\<close>

definition run_over :: "run_status \<Rightarrow> bool" where
  "run_over st \<longleftrightarrow> st \<in> {RunCompleted, RunPartial, RunFailed}"

definition status_of_run :: "db \<Rightarrow> string \<Rightarrow> run_status option" where
  "status_of_run s run_id = map_option er_status (find (\<lambda>r. er_id r = run_id) (runs s))"

definition poll_timeout :: "nat \<Rightarrow> string \<Rightarrow> string \<Rightarrow> exn" where
  "poll_timeout timeout label run_id =
     Exn TimeoutErr (label @ '' run '' @ run_id @ '' did not complete within '' @ show_nat timeout @ ''s'')"

text \<open>
  The loop at its \<open>k\<close>-th iteration. A row that is gone makes \<open>session.refresh\<close> raise, so the loop's own test for
  it is not reached.
\<close>

partial_function (option) poll_loop ::
  "'g cli_env \<Rightarrow> nat \<Rightarrow> string \<Rightarrow> string \<Rightarrow> db \<Rightarrow> nat \<Rightarrow> (run_status res \<times> db) option" where
  "poll_loop E timeout label run_id s k =
     (if \<not> cli_clock E label (Suc k) < cli_clock E label 0 + real timeout then
        Some (Inl (poll_timeout timeout label run_id), cli_observed E label k s)
      else
        case status_of_run (cli_observed E label k s) run_id of
          None \<Rightarrow> Some (Inl (cli_lost_row E), cli_observed E label k s)
        | Some st \<Rightarrow>
            if run_over st then Some (Inr st, cli_observed E label k s)
            else poll_loop E timeout label run_id s (Suc k))"

definition poll_run_status :: "'g cli_env \<Rightarrow> nat \<Rightarrow> string \<Rightarrow> string \<Rightarrow> db \<Rightarrow> (run_status res \<times> db) option" where
  "poll_run_status E timeout label run_id s = poll_loop E timeout label run_id s 0"

section \<open>The cycle\<close>

text \<open>
  One run, in the default organisation. \<open>s0\<close> is the database without the session's pending rows, which an
  error before the first commit rolls back; a failed submission has committed.
\<close>

definition cli_execute ::
  "'g cli_env \<Rightarrow> nat \<Rightarrow> bool \<Rightarrow> string \<Rightarrow> service_env \<Rightarrow> string \<Rightarrow> string \<Rightarrow> string \<Rightarrow> db \<Rightarrow> db \<Rightarrow> (string res \<times> db) option"
where
  "cli_execute E timeout sync_mode label SE version_id suite_id config_id s0 s =
     (if sync_mode then
        (case execute_run SE version_id suite_id config_id None DEFAULT_ORGANIZATION_ID s of
           (Inl exc, _) \<Rightarrow> Some (Inl exc, s0)
         | (Inr run, s') \<Rightarrow> Some (Inr (er_id run), s'))
      else
        (case dispatch_run SE (cli_submit E) version_id suite_id config_id None DEFAULT_ORGANIZATION_ID s of
           (Inl exc, s') \<Rightarrow> Some (Inl exc, if exn_kind_of exc = DispatchErr then s' else s0)
         | (Inr run, s') \<Rightarrow>
             (case poll_run_status E timeout label (er_id run) s' of
                None \<Rightarrow> None
              | Some (Inl exc, s2) \<Rightarrow> Some (Inl exc, s2)
              | Some (Inr _, s2) \<Rightarrow> Some (Inr (er_id run), s2))))"

definition pending_gate_rule :: "'g cli_env \<Rightarrow> string \<Rightarrow> db \<Rightarrow> gate_rule_row list" where
  "pending_gate_rule E gate_rule_name s =
     (if list_ex (\<lambda>g. gr_name g = gate_rule_name) (gate_rules s) then []
      else [\<lparr>gr_id = cli_gate_id E, gr_org = DEFAULT_ORGANIZATION_ID, gr_name = gate_rule_name,
             gr_rules = DEFAULT_GATE_RULES, gr_created = now (cli_baseline E)\<rparr>])"

definition cli_compare_runs :: "'g cli_env \<Rightarrow> string \<Rightarrow> string \<Rightarrow> db \<Rightarrow> cli_result \<times> db" where
  "cli_compare_runs E baseline_run candidate_run s =
     (case compute_comparison (cli_compare E) baseline_run candidate_run None DEFAULT_ORGANIZATION_ID s of
        (Inl exc, s') \<Rightarrow> (Raised exc, s')
      | (Inr (comparison, report), s') \<Rightarrow>
          (Returned \<lparr>rr_baseline = baseline_run, rr_candidate = candidate_run, rr_comparison = cm_id comparison,
             rr_verdict = rp_verdict report, rr_reasons = rp_reasons report\<rparr>, s'))"

definition run_evals ::
  "'g cli_env \<Rightarrow> string \<Rightarrow> string \<Rightarrow> string \<Rightarrow> string \<Rightarrow> string \<Rightarrow> bool \<Rightarrow> db \<Rightarrow> (cli_result \<times> db) option" where
  "run_evals E suite_name baseline_name candidate_name config_name gate_rule_name sync_mode s =
     (case (find (\<lambda>x. es_name x = suite_name) (suites s), find (\<lambda>v. av_name v = baseline_name) (versions s),
            find (\<lambda>v. av_name v = candidate_name) (versions s),
            find (\<lambda>c. vc_name c = config_name) (evaluator_configs s)) of
        (Some suite, Some baseline, Some candidate, Some config) \<Rightarrow>
          let s1 = s\<lparr>gate_rules := gate_rules s @ pending_gate_rule E gate_rule_name s\<rparr> in
          (case cli_execute E POLL_TIMEOUT_SECONDS sync_mode ''Baseline'' (cli_baseline E) (av_id baseline) (es_id suite) (vc_id config) s s1 of
             None \<Rightarrow> None
           | Some (Inl exc, s2) \<Rightarrow> Some (Raised exc, s2)
           | Some (Inr baseline_run, s2) \<Rightarrow>
               (case cli_execute E POLL_TIMEOUT_SECONDS sync_mode ''Candidate'' (cli_candidate E) (av_id candidate) (es_id suite)
                       (vc_id config) s2 s2 of
                  None \<Rightarrow> None
                | Some (Inl exc, s3) \<Rightarrow> Some (Raised exc, s3)
                | Some (Inr candidate_run, s3) \<Rightarrow> Some (cli_compare_runs E baseline_run candidate_run s3)))
      | _ \<Rightarrow> Some (Exited 1, s))"

text \<open>The command: its exit code, 1 for an exception that escapes, and what it prints.\<close>

definition printed_result :: "run_result \<Rightarrow> json" where
  "printed_result r =
     JObj [(''baseline_run_id'', JStr (rr_baseline r)), (''candidate_run_id'', JStr (rr_candidate r)),
       (''comparison_id'', JStr (rr_comparison r)), (''gate_verdict'', JStr (rr_verdict r)),
       (''gate_reasons'', JList (map JObj (rr_reasons r)))]"

definition run_main :: "'g cli_env \<Rightarrow> string \<Rightarrow> string \<Rightarrow> string \<Rightarrow> bool \<Rightarrow> db \<Rightarrow> ((nat \<times> json option) \<times> db) option" where
  "run_main E suite baseline candidate sync_mode s =
     map_option (\<lambda>(r, s'). (case r of
         Exited n \<Rightarrow> (n, None)
       | Raised _ \<Rightarrow> (1, None)
       | Returned x \<Rightarrow> (0, Some (printed_result x)), s'))
       (run_evals E suite baseline candidate ''default-rag'' ''default-gates'' sync_mode s)"

section \<open>Lemmas\<close>

text \<open>The exit code tells that the cycle was compared, not how: a blocked candidate exits with 0, too.\<close>

lemma run_main_code:
  assumes "run_evals E suite baseline candidate ''default-rag'' ''default-gates'' sync_mode s = Some (Returned r, s')"
  shows "run_main E suite baseline candidate sync_mode s = Some ((0, Some (printed_result r)), s')"
  using assms by (simp add: run_main_def)

text \<open>What one iteration answers, if it ends the loop.\<close>

definition poll_answer :: "'g cli_env \<Rightarrow> nat \<Rightarrow> string \<Rightarrow> string \<Rightarrow> db \<Rightarrow> nat \<Rightarrow> run_status res option" where
  "poll_answer E timeout label run_id s k =
     (if \<not> cli_clock E label (Suc k) < cli_clock E label 0 + real timeout then
        Some (Inl (poll_timeout timeout label run_id))
      else
        case status_of_run (cli_observed E label k s) run_id of
          None \<Rightarrow> Some (Inl (cli_lost_row E))
        | Some st \<Rightarrow> if run_over st then Some (Inr st) else None)"

lemma poll_loop_answer:
  "poll_loop E timeout label run_id s k =
     (case poll_answer E timeout label run_id s k of
        Some a \<Rightarrow> Some (a, cli_observed E label k s)
      | None \<Rightarrow> poll_loop E timeout label run_id s (Suc k))"
  by (subst poll_loop.simps) (simp add: poll_answer_def split: option.split)

lemma poll_loop_first:
  assumes "poll_answer E timeout label run_id s (k + n) = Some a" and "\<forall>j. k \<le> j \<and> j < k + n \<longrightarrow> poll_answer E timeout label run_id s j = None"
  shows "poll_loop E timeout label run_id s k =
    Some (a, cli_observed E label (k + n) s)"
  using assms
proof (induction n arbitrary: k)
  case 0
  then show ?case by (subst poll_loop_answer) simp
next
  case (Suc n)
  then have "poll_answer E timeout label run_id s k = None" by simp
  with Suc.IH [of "Suc k"] Suc.prems show ?case by (subst poll_loop_answer) simp
qed

lemma clock_advances:
  assumes "cli_clock E label 0 \<le> cli_clock E label 1"
    and "\<And>k. cli_clock E label (Suc k) + POLL_INTERVAL_SECONDS \<le> cli_clock E label (Suc (Suc k))"
  shows "cli_clock E label 0 + real k \<le> cli_clock E label (Suc k)"
proof (induction k)
  case (Suc k)
  with assms(2) [of k] show ?case by (simp add: POLL_INTERVAL_SECONDS_def)
qed (use assms(1) in simp)

lemma run_evals_Returned:
  assumes "run_evals E suite_name b c cf g sync_mode s = Some (Returned res, s')"
  obtains s3 where "cli_compare_runs E (rr_baseline res) (rr_candidate res) s3 = (Returned res, s')"
proof -
  from assms obtain s3 b_id c_id where run: "cli_compare_runs E b_id c_id s3 = (Returned res, s')"
    by (auto simp: run_evals_def Let_def split: option.splits prod.splits sum.splits)
  then have "rr_baseline res = b_id" "rr_candidate res = c_id"
    by (auto simp: cli_compare_runs_def split: prod.splits sum.splits)
  with run that show ?thesis by simp
qed

lemma default_rules_chosen:
  "choose_gate_rules E s org None = Inr (gid, rules, new_rules) \<Longrightarrow>
     \<exists>g. new_rules = [g] \<and> rules = DEFAULT_GATE_RULES \<and> gr_rules g = DEFAULT_GATE_RULES \<and> gid = gr_id g"
  by (auto simp: choose_gate_rules_def Let_def)

lemma rule_json_inj: "inj rule_json"
  by (auto intro!: injI simp: rule_json_def gate_rule_def split: prod.splits)

section \<open>Properties\<close>

text \<open>C37: Waiting for a run always ends. If the clock does not run backwards and every sleep lasts its interval,
  the loop returns after at most as many polls as the time limit has seconds: with the status of the
  run the first time a poll in time sees it over, and otherwise with the timeout, or with the error of the
  first poll that finds no such run.\<close>

theorem polling_terminates:
  assumes "cli_clock E label 0 \<le> cli_clock E label 1"
    and "\<And>k. cli_clock E label (Suc k) + POLL_INTERVAL_SECONDS \<le> cli_clock E label (Suc (Suc k))"
  shows "\<exists>k a. k \<le> timeout \<and> poll_run_status E timeout label run_id s = Some (a, cli_observed E label k s) \<and>
    (\<forall>j < k. \<exists>st. status_of_run (cli_observed E label j s) run_id = Some st \<and> \<not> run_over st) \<and>
    (case a of
       Inr st \<Rightarrow> status_of_run (cli_observed E label k s) run_id = Some st \<and> run_over st
     | Inl exc \<Rightarrow>
         (if cli_clock E label 0 + real timeout \<le> cli_clock E label (Suc k) then exc = poll_timeout timeout label run_id
          else exc = cli_lost_row E \<and> status_of_run (cli_observed E label k s) run_id = None))"
proof -
  let ?done = "\<lambda>k. poll_answer E timeout label run_id s k \<noteq> None"
  have last: "?done timeout"
    using clock_advances [OF assms, of timeout] by (simp add: poll_answer_def)
  define k where "k = (LEAST k. ?done k)"
  have le: "k \<le> timeout" unfolding k_def by (rule Least_le [of ?done, OF last])
  obtain a where a: "poll_answer E timeout label run_id s k = Some a"
    using LeastI [of ?done, OF last] unfolding k_def by blast
  have before: "poll_answer E timeout label run_id s j = None" if "j < k" for j
    using not_less_Least [of j ?done] that unfolding k_def by blast
  have "poll_run_status E timeout label run_id s = Some (a, cli_observed E label k s)"
    using poll_loop_first [of E timeout label run_id s 0 k a] a before by (simp add: poll_run_status_def)
  moreover have "\<exists>st. status_of_run (cli_observed E label j s) run_id = Some st \<and> \<not> run_over st" if "j < k" for j
    using before [OF that] by (auto simp: poll_answer_def split: if_splits option.splits)
  ultimately show ?thesis
    using le a by (intro exI [of _ k] exI [of _ a]) (auto simp: poll_answer_def split: if_splits option.splits)
qed

text \<open>A cycle that returns has compared its two runs, which were comparable, and stored that comparison with
  its report. It is judged by the default gate rules, stored in a row of their own: the gate rules looked up
  by name, or created under it, have no effect.\<close>

theorem cycle_judged_by_default_rules:
  assumes "rng_ok (ce_rng (cli_compare E))"
    and "run_evals E suite_name b c cf gate_rule_name sync_mode s = Some (Returned res, s')"
  shows "\<exists>s3 g cmp rep. s' = s3\<lparr>gate_rules := gate_rules s3 @ [g], comparisons := comparisons s3 @ [cmp],
       reports := reports s3 @ [rep]\<rparr> \<and>
     check_runs s3 DEFAULT_ORGANIZATION_ID (rr_baseline res) (rr_candidate res) = Inr () \<and>
     cm_id cmp = rr_comparison res \<and> cm_baseline cmp = rr_baseline res \<and> cm_candidate cmp = rr_candidate res \<and>
     rp_comparison rep = cm_id cmp \<and> rp_verdict rep = rr_verdict res \<and> rp_reasons rep = rr_reasons res \<and>
     cm_gate cmp = gr_id g \<and> gr_rules g = DEFAULT_GATE_RULES \<and>
     rr_verdict res = verdict_name (worst (map (spec_of (rp_metrics rep)) default_rules))"
proof -
  from assms(2) obtain s3 where "cli_compare_runs E (rr_baseline res) (rr_candidate res) s3 = (Returned res, s')"
    by (rule run_evals_Returned)
  then obtain cmp rep where run: "compute_comparison (cli_compare E) (rr_baseline res) (rr_candidate res) None
      DEFAULT_ORGANIZATION_ID s3 = (Inr (cmp, rep), s')"
    and eq: "\<lparr>rr_baseline = rr_baseline res, rr_candidate = rr_candidate res, rr_comparison = cm_id cmp,
      rr_verdict = rp_verdict rep, rr_reasons = rp_reasons rep\<rparr> = res"
    by (auto simp: cli_compare_runs_def split: prod.splits sum.splits)
  note res = arg_cong [OF eq, of rr_comparison, symmetric] arg_cong [OF eq, of rr_verdict, symmetric]
    arg_cong [OF eq, of rr_reasons, symmetric]
  from run show ?thesis
  proof (cases rule: compute_comparison_Inr)
    case (1 gate_id rules new_rules metrics v reasons)
    from 1(2) obtain g where g: "new_rules = [g]" "rules = DEFAULT_GATE_RULES" "gr_rules g = DEFAULT_GATE_RULES" "gate_id = gr_id g"
      using default_rules_chosen by blast
    from gate_verdict [OF assms(1) default_gates_valid [of "ce_repr (cli_compare E)"]] 1(3) 1(4) [unfolded g]
    obtain rs where rs: "DEFAULT_GATE_RULES = map rule_json rs" "v = verdict_name (worst (map (spec_of metrics) rs))"
      by (metis prod.inject sum.inject(2))
    have "rs = default_rules" using rs(1) unfolding default_rules_normal(1)
      by (rule map_injective [OF _ rule_json_inj, symmetric])
    with 1 g rs res show ?thesis
      by (intro exI [of _ s3] exI [of _ g] exI [of _ cmp] exI [of _ rep]) simp
  qed
qed

section \<open>Witnesses\<close>

definition cycle_db :: db where
  "cycle_db = empty_db\<lparr>
     apps := [\<lparr>ap_id = ''ap'', ap_org = DEFAULT_ORGANIZATION_ID, ap_name = ''a'', ap_description = [], ap_created = 0\<rparr>],
     versions := [\<lparr>av_id = ''v'', av_app = ''ap'', av_name = ''v1'', av_config = [], av_adapter = [], av_created = 0\<rparr>],
     suites := [\<lparr>es_id = ''su'', es_app = ''ap'', es_name = ''s'', es_created = 0\<rparr>],
     eval_cases := [\<lparr>ec_id = ''k'', ec_external = None, ec_payload = [], ec_created = 0\<rparr>],
     suite_cases := [\<lparr>sc_suite = ''su'', sc_case = ''k''\<rparr>],
     evaluator_configs := [\<lparr>vc_id = ''cf'', vc_org = DEFAULT_ORGANIZATION_ID, vc_name = ''c'', vc_config = [],
       vc_created = 0\<rparr>]\<rparr>"

definition cycle_run :: "string \<Rightarrow> run_row" where
  "cycle_run i = (finished_run i)\<lparr>er_org := DEFAULT_ORGANIZATION_ID\<rparr>"

definition cycle_done :: db where
  "cycle_done = cycle_db\<lparr>runs := [cycle_run ''a'', cycle_run ''b'']\<rparr>"

text \<open>The workers finish a run before its first poll.\<close>

definition cycle_env :: "nat cli_env" where
  "cycle_env = \<lparr>cli_baseline = sample_env\<lparr>uuid := (\<lambda>_. ''a'')\<rparr>, cli_candidate = sample_env\<lparr>uuid := (\<lambda>_. ''b'')\<rparr>,
     cli_compare = sample_compare_env, cli_submit = (\<lambda>_ _. Inr ()), cli_gate_id = ''g'', cli_clock = (\<lambda>_ k. real k),
     cli_observed = (\<lambda>_ _ _. cycle_done), cli_lost_row = Exn RuntimeErr []\<rparr>"

lemma polling_terminates_witness:
  "\<exists>k a. k \<le> POLL_TIMEOUT_SECONDS \<and> poll_run_status cycle_env POLL_TIMEOUT_SECONDS ''Baseline'' ''a'' cycle_db = Some (a, cli_observed cycle_env ''Baseline'' k cycle_db)"
proof -
  have "cli_clock cycle_env ''Baseline'' 0 \<le> cli_clock cycle_env ''Baseline'' 1"
    and "cli_clock cycle_env ''Baseline'' (Suc k) + POLL_INTERVAL_SECONDS \<le> cli_clock cycle_env ''Baseline'' (Suc (Suc k))" for k
    by (simp_all add: cycle_env_def POLL_INTERVAL_SECONDS_def)
  from polling_terminates [OF this, of POLL_TIMEOUT_SECONDS "''a''" cycle_db] show ?thesis by blast
qed

lemma cycle_dispatched:
  assumes "suites db = suites cycle_db" and "versions db = versions cycle_db" and "apps db = apps cycle_db"
    and "evaluator_configs db = evaluator_configs cycle_db" and "eval_cases db = eval_cases cycle_db"
    and "suite_cases db = suite_cases cycle_db" and "uuid SE 0 = ''a'' \<or> uuid SE 0 = ''b''"
  shows "cli_execute cycle_env POLL_TIMEOUT_SECONDS False label SE ''v'' ''su'' ''cf'' s0 db = Some (Inr (uuid SE 0), cycle_done)"
proof -
  have ents: "tenant_version db DEFAULT_ORGANIZATION_ID ''v'' = Some (hd (versions cycle_db))"
    "tenant_suite db DEFAULT_ORGANIZATION_ID ''su'' = Some (hd (suites cycle_db))"
    "tenant_config db DEFAULT_ORGANIZATION_ID ''cf'' = Some (hd (evaluator_configs cycle_db))"
    "load_suite_cases db ''su'' None = eval_cases cycle_db"
    unfolding tenant_version_def tenant_suite_def tenant_config_def app_in_org_def load_suite_cases_def in_suite_def assms
    by (simp_all add: cycle_db_def)
  have row: "av_app (hd (versions cycle_db)) = es_app (hd (suites cycle_db))"
    "validate_selected_cases (eval_cases cycle_db) None = Inr ()"
    by (simp_all add: cycle_db_def validate_selected_cases_def)
  have poll: "poll_run_status cycle_env POLL_TIMEOUT_SECONDS label (uuid SE 0) s = Some (Inr RunCompleted, cycle_done)" for s
    unfolding poll_run_status_def using assms(7)
    by (subst poll_loop.simps) (auto simp: cycle_env_def POLL_TIMEOUT_SECONDS_def status_of_run_def cycle_done_def
      cycle_run_def finished_run_def run_over_def)
  have "cli_submit cycle_env sgs r = Inr ()" for sgs r by (simp add: cycle_env_def)
  then show ?thesis
    unfolding cli_execute_def dispatch_run_def ents prod.case option.case row(2)
    by (simp add: row Let_def poll)
qed

lemma cycle_judged_by_default_rules_witness:
  "\<exists>res s'. run_evals cycle_env ''s'' ''v1'' ''v1'' ''c'' ''strict'' False cycle_db = Some (Returned res, s') \<and>
     (\<exists>metrics. rr_verdict res = verdict_name (worst (map (spec_of metrics) default_rules)))"
proof -
  have rng: "rng_ok (ce_rng (cli_compare cycle_env))"
    by (simp add: cycle_env_def sample_compare_env_def cycle_rng_ok)
  have found: "find (\<lambda>x. es_name x = ''s'') (suites cycle_db) = Some (hd (suites cycle_db))"
    "find (\<lambda>v. av_name v = ''v1'') (versions cycle_db) = Some (hd (versions cycle_db))"
    "find (\<lambda>c. vc_name c = ''c'') (evaluator_configs cycle_db) = Some (hd (evaluator_configs cycle_db))"
    "es_id (hd (suites cycle_db)) = ''su''" "av_id (hd (versions cycle_db)) = ''v''"
    "vc_id (hd (evaluator_configs cycle_db)) = ''cf''"
    by (simp_all add: cycle_db_def)
  have ids: "uuid (cli_baseline cycle_env) 0 = ''a''" "uuid (cli_candidate cycle_env) 0 = ''b''"
    by (simp_all add: cycle_env_def)
  have runs: "cli_execute cycle_env POLL_TIMEOUT_SECONDS False ''Baseline'' (cli_baseline cycle_env) ''v'' ''su'' ''cf'' cycle_db
      (cycle_db\<lparr>gate_rules := g\<rparr>) = Some (Inr ''a'', cycle_done)"
    "cli_execute cycle_env POLL_TIMEOUT_SECONDS False ''Candidate'' (cli_candidate cycle_env) ''v'' ''su'' ''cf'' cycle_done cycle_done =
      Some (Inr ''b'', cycle_done)" for g
    using cycle_dispatched [of _ "cli_baseline cycle_env"] cycle_dispatched [of _ "cli_candidate cycle_env"] ids
    by (simp_all add: cycle_done_def)
  have checked: "check_runs cycle_done DEFAULT_ORGANIZATION_ID ''a'' ''b'' = Inr ()"
    by (simp add: check_runs_def tenant_run_def version_by_id_def cycle_done_def cycle_run_def finished_run_def
      finished_def case_ids_of_def cycle_db_def empty_db_def)
  obtain g new where "choose_gate_rules (cli_compare cycle_env) cycle_done DEFAULT_ORGANIZATION_ID None =
      Inr (g, DEFAULT_GATE_RULES, new)" using default_chosen by blast
  from compute_comparison_total [OF rng checked this] obtain cmp rep s' where
    "compute_comparison (cli_compare cycle_env) ''a'' ''b'' None DEFAULT_ORGANIZATION_ID cycle_done = (Inr (cmp, rep), s')"
    by blast
  then have "\<exists>res s'. run_evals cycle_env ''s'' ''v1'' ''v1'' ''c'' ''strict'' False cycle_db = Some (Returned res, s')"
    unfolding run_evals_def found Let_def prod.case option.case runs sum.case cli_compare_runs_def by simp
  then show ?thesis using cycle_judged_by_default_rules [OF rng] by blast
qed

end
