(* ===== verification/Demo.thy ===== *)
theory Demo imports Cli_Run begin

text \<open>
  \<open>backend/app/demo\<close>: the demo corpus and cases of \<open>dataset.py\<close>, the configurations that \<open>scenario.py\<close> gives the two
  versions of the demo adapter, and what these versions answer to each case.
\<close>

section \<open>\<open>dataset.py\<close>\<close>

type_synonym base_doc = "string \<times> string \<times> string \<times> string list"

definition BASE_DOCS :: "base_doc list" where
  "BASE_DOCS =
     [(''python-venv'', ''The venv module creates lightweight Python virtual environments.'',
       ''Python uses the venv module for virtual environments.'', [''venv'', ''virtual environments'']),
      (''python-json'', ''The json module encodes and decodes JSON documents.'',
       ''Python uses the json module for JSON documents.'', [''json'', ''JSON documents'']),
      (''python-asyncio'', ''The asyncio module supports concurrent code with async and await syntax.'',
       ''Python uses asyncio for async concurrency.'', [''asyncio'', ''async concurrency'']),
      (''python-pathlib'', ''The pathlib module represents filesystem paths as objects.'',
       ''Python uses pathlib for object-oriented filesystem paths.'', [''pathlib'', ''filesystem paths'']),
      (''python-datetime'', ''The datetime module supplies classes for manipulating dates and times.'',
       ''Python uses datetime for dates and times.'', [''datetime'', ''dates and times'']),
      (''python-logging'', ''The logging module provides flexible event logging for applications.'',
       ''Python uses logging for application event logs.'', [''logging'', ''event logs'']),
      (''python-sqlite3'', ''The sqlite3 module provides a DB-API interface for SQLite databases.'',
       ''Python uses sqlite3 for SQLite database access.'', [''sqlite3'', ''SQLite database'']),
      (''python-unittest'', ''The unittest module supports test automation and shared setup code.'',
       ''Python uses unittest for test automation.'', [''unittest'', ''test automation'']),
      (''python-dataclasses'', ''The dataclasses module generates special methods for data containers.'',
       ''Python uses dataclasses for structured data containers.'', [''dataclasses'', ''data containers'']),
      (''python-argparse'', ''The argparse module parses command line options and arguments.'',
       ''Python uses argparse for command line argument parsing.'', [''argparse'', ''command line''])]"

definition corpus_item :: "base_doc \<Rightarrow> json" where
  "corpus_item d =
     (case d of (doc, text, reply, facts) \<Rightarrow>
        JObj [(''doc_id'', JStr doc), (''text'', JStr text), (''answer'', JStr reply)])"

definition build_demo_corpus :: json where
  "build_demo_corpus = JList (map corpus_item BASE_DOCS)"

definition tag_for_index :: "nat \<Rightarrow> string" where
  "tag_for_index index =
     (if index mod 10 = 0 then ''hallucination_risk''
      else if index mod 7 = 0 then ''reasoning_required''
      else if index mod 5 = 0 then ''edge_case''
      else ''easy'')"

definition difficulty_for_tag :: "string \<Rightarrow> string" where
  "difficulty_for_tag tag = (if tag = ''easy'' then ''easy'' else ''medium'')"

definition question_for_doc :: "string \<Rightarrow> string" where
  "question_for_doc doc =
     (let subject = py_removeprefix ''python-'' doc
      in ''Which Python module is used for '' @ map (\<lambda>c. if c = CHR ''-'' then CHR '' '' else c) subject @ ''?'')"

text \<open>\<open>f"demo-{index + 1:04d}"\<close>.\<close>

definition demo_external_id :: "nat \<Rightarrow> string" where
  "demo_external_id index = ''demo-'' @ pad_left 4 (show_nat (index + 1))"

definition demo_payload :: "base_doc \<Rightarrow> string \<Rightarrow> dict" where
  "demo_payload d tag =
     (case d of (doc, text, reply, facts) \<Rightarrow>
       [(''input'', JObj [(''question'', JStr (question_for_doc doc))]),
        (''expected_output'', JStr reply),
        (''expected_facts'', JList (map JStr facts)),
        (''expected_doc_id'', JStr doc),
        (''forbidden_claims'', JList [JStr ''quantum database'', JStr ''telepathic compiler'']),
        (''tags'', JList (map JStr (sort (remdups [''retrieval_required'', tag])))),
        (''difficulty'', JStr (difficulty_for_tag tag))])"

definition build_eval_cases :: "nat \<Rightarrow> (string \<times> dict) list" where
  "build_eval_cases case_count =
     map (\<lambda>index. (demo_external_id index,
        demo_payload (BASE_DOCS ! (index mod length BASE_DOCS)) (tag_for_index index))) [0..<case_count]"

definition demo_evaluators :: dict where
  "demo_evaluators =
     [(''evaluators'', JList
        [JObj [(''name'', JStr ''contains_keywords''), (''threshold'', JFloat (Fin (8 / 10)))],
         JObj [(''name'', JStr ''token_f1_overlap''), (''threshold'', JFloat (Fin (5 / 10)))],
         JObj [(''name'', JStr ''retrieval_hit_rate'')],
         JObj [(''name'', JStr ''forbidden_claim'')],
         JObj [(''name'', JStr ''latency_threshold''), (''threshold_ms'', JInt 200)],
         JObj [(''name'', JStr ''cost_threshold''), (''threshold_usd'', JFloat (Fin (1 / 100)))]])]"

text \<open>\<open>failure\<close> holds the entry \<open>failure_mode\<close>, if the version has one.\<close>

definition demo_config :: "nat \<Rightarrow> (string \<times> json) list \<Rightarrow> int \<Rightarrow> dict" where
  "demo_config top_k failure latency =
     [(''top_k'', JInt (int top_k)), (''corpus'', build_demo_corpus)] @ failure @ [(''latency_ms'', JInt latency)]"

section \<open>Retrieval of the demo documents\<close>

definition doc_subject :: "base_doc \<Rightarrow> string" where
  "doc_subject d = py_removeprefix ''python-'' (fst d)"

definition question_words :: "string list" where
  "question_words = [''which'', ''python'', ''module'', ''is'', ''used'', ''for'']"

lemma demo_questions:
  "list_all (\<lambda>d. tokenize (question_for_doc (fst d)) = question_words @ [doc_subject d] \<and>
     tokenize (doc_subject d) = [doc_subject d] \<and> doc_subject d \<notin> set question_words \<and>
     take (12 + length (doc_subject d)) (fst (snd d)) = ''The '' @ doc_subject d @ '' module '') BASE_DOCS"
  by code_simp

text \<open>The chunk of a document, as \<open>retrieve\<close> scores it for the words \<open>q\<close>.\<close>

definition demo_chunk :: "string set \<Rightarrow> base_doc \<Rightarrow> chunk" where
  "demo_chunk q d =
     \<lparr>doc_id = fst d, chunk_text = fst (snd d),
      chunk_score = py_round 6 (real (card (q \<inter> set (tokenize (fst (snd d))))) / real (max (card q) 1) +
        (if set (tokenize (doc_subject d)) \<inter> q \<noteq> {} then 1 else 0)),
      chunk_answer = fst (snd (snd d))\<rparr>"

lemma corpus_item_scored: "score_item f q (corpus_item d) = Inr (demo_chunk q d)"
  by (cases d) (simp add: corpus_item_def score_item_def dict_get_or_def Let_def demo_chunk_def doc_subject_def)

lemma demo_corpus_scored: "map_res (score_item f q) (map corpus_item docs) = Inr (map (demo_chunk q) docs)"
  by (induction docs) (simp_all add: corpus_item_scored)

lemma module_mentioned:
  assumes "d \<in> set BASE_DOCS" shows "''module'' \<in> set (tokenize (fst (snd d)))"
proof -
  let ?pre = "''The '' @ doc_subject d"
  let ?rest = "drop (12 + length (doc_subject d)) (fst (snd d))"
  from assms demo_questions have "take (12 + length (doc_subject d)) (fst (snd d)) = ''The '' @ doc_subject d @ '' module ''"
    by (simp add: list_all_iff)
  then have body: "fst (snd d) = ?pre @ '' module '' @ ?rest" by (metis append_assoc append_take_drop_id)
  have "tokenize (fst (snd d)) = find_tokens (py_lower ?pre @ CHR '' '' # ''module'' @ CHR '' '' # py_lower ?rest)"
    unfolding tokenize_def by (subst body) (simp add: py_lower_def py_lower_char_def)
  also have "\<dots> = find_tokens (py_lower ?pre) @ find_tokens ''module'' @ find_tokens (py_lower ?rest)"
    by (simp only: find_tokens_append [OF not_token_space])
  also have "find_tokens ''module'' = [''module'']" by code_simp
  finally show ?thesis by simp
qed

lemma sort_key_min:
  assumes "x \<in> set xs" and "\<And>y. y \<in> set xs \<Longrightarrow> y \<noteq> x \<Longrightarrow> k x < k y"
  shows "\<exists>rest. sort_key k xs = x # rest"
proof -
  have "length (sort_key k xs) = length xs" by simp
  with assms(1) obtain y rest where y: "sort_key k xs = y # rest" by (cases "sort_key k xs"; cases xs) auto
  have set: "set (sort_key k xs) = set xs" by simp
  have "k y \<le> k x"
    using sorted_sort_key [of k xs] assms(1) set unfolding y by auto
  moreover have "y \<in> set xs" using set unfolding y by auto
  ultimately show ?thesis using assms(2) [of y] y by (cases "y = x") auto
qed

definition question_set :: "base_doc \<Rightarrow> string set" where
  "question_set d = set (tokenize (question_for_doc (fst d)))"

lemma question_set_words:
  assumes "d \<in> set BASE_DOCS"
  shows "question_set d = insert (doc_subject d) (set question_words)" and "card (question_set d) = 7"
proof -
  from assms demo_questions have t: "tokenize (question_for_doc (fst d)) = question_words @ [doc_subject d]"
    "doc_subject d \<notin> set question_words" by (simp_all add: list_all_iff)
  then show "question_set d = insert (doc_subject d) (set question_words)" by (simp add: question_set_def)
  moreover have "card (set question_words) = 6" by code_simp
  ultimately show "card (question_set d) = 7" using t(2) by simp
qed

lemma demo_scores:
  assumes "d \<in> set BASE_DOCS" and "d' \<in> set BASE_DOCS"
  shows "if doc_subject d' = doc_subject d then 1 < chunk_score (demo_chunk (question_set d) d')
         else chunk_score (demo_chunk (question_set d) d') \<le> 1"
proof -
  let ?q = "question_set d" and ?t = "set (tokenize (fst (snd d')))"
  have fin: "finite ?q" by (simp add: question_set_def)
  from assms(2) demo_questions have s: "tokenize (doc_subject d') = [doc_subject d']" "doc_subject d' \<notin> set question_words"
    by (simp_all add: list_all_iff)
  have score: "chunk_score (demo_chunk ?q d') =
      py_round 6 (real (card (?q \<inter> ?t)) / 7 + (if doc_subject d' = doc_subject d then 1 else 0))"
    using s question_set_words [OF assms(1)] by (simp add: demo_chunk_def)
  have up: "card (?q \<inter> ?t) \<le> 7" using card_mono [OF fin, of "?q \<inter> ?t"] question_set_words(2) [OF assms(1)] by simp
  have "''module'' \<in> ?q \<inter> ?t"
    using module_mentioned [OF assms(2)] question_set_words(1) [OF assms(1)] by (simp add: question_words_def)
  then have low: "1 \<le> card (?q \<inter> ?t)" using fin by (metis One_nat_def Suc_leI card_gt_0_iff empty_iff finite_Int)
  show ?thesis
  proof (cases "doc_subject d' = doc_subject d")
    case True
    have "py_round 6 (8 / 7) \<le> py_round 6 (real (card (?q \<inter> ?t)) / 7 + 1)" using low by (intro py_round_mono) simp
    moreover have "\<bar>py_round 6 (8 / 7) - 8 / 7\<bar> \<le> 1 / 2000000" using py_round_error [of 6 "8 / 7"] by simp
    ultimately have "1 < py_round 6 (real (card (?q \<inter> ?t)) / 7 + 1)" by linarith
    with True show ?thesis unfolding score by simp
  next
    case False
    have "py_round 6 (real (card (?q \<inter> ?t)) / 7) \<le> py_round 6 1" using up by (intro py_round_mono) simp
    with False show ?thesis unfolding score by simp
  qed
qed

lemma subjects_distinct: "distinct (map doc_subject BASE_DOCS)"
  by code_simp

text \<open>Whatever the limit, the document a question is about comes first.\<close>

lemma demo_retrieved:
  assumes "d \<in> set BASE_DOCS" and "0 < k"
  shows "\<exists>rest. retrieve f (question_for_doc (fst d)) build_demo_corpus (int k) = Inr (demo_chunk (question_set d) d # rest) \<and>
    set rest \<subseteq> demo_chunk (question_set d) ` set BASE_DOCS \<and> length rest < length BASE_DOCS \<and>
    1 < chunk_score (demo_chunk (question_set d) d)"
proof -
  let ?c = "demo_chunk (question_set d)"
  have best: "1 < chunk_score (?c d)" using demo_scores [OF assms(1) assms(1)] by simp
  have "chunk_key (?c d) < chunk_key y" if y: "y \<in> set (map ?c BASE_DOCS)" "y \<noteq> ?c d" for y
  proof -
    from y obtain d' where d': "d' \<in> set BASE_DOCS" "y = ?c d'" by auto
    with y(2) subjects_distinct assms(1) have "doc_subject d' \<noteq> doc_subject d"
      by (metis distinct_map inj_on_def)
    with demo_scores [OF assms(1) d'(1)] have "chunk_score y \<le> 1" by (simp add: d'(2))
    with best show ?thesis by (simp add: chunk_key_def less_prod_def)
  qed
  then obtain rest where rest: "sort_key chunk_key (map ?c BASE_DOCS) = ?c d # rest"
    using sort_key_min [of "?c d" "map ?c BASE_DOCS" chunk_key] assms(1) by auto
  have "set (?c d # rest) = ?c ` set BASE_DOCS" unfolding rest [symmetric] by simp
  then have sub: "set rest \<subseteq> ?c ` set BASE_DOCS" by auto
  have "length (?c d # rest) = length BASE_DOCS" unfolding rest [symmetric] by simp
  then have len: "length rest < length BASE_DOCS" by simp
  obtain m where k: "k = Suc m" using assms(2) by (cases k) auto
  have "retrieve f (question_for_doc (fst d)) build_demo_corpus (int k) = Inr (take k (?c d # rest))"
    unfolding rest [symmetric] using assms(2)
    by (simp add: retrieve_def build_demo_corpus_def demo_corpus_scored question_set_def py_take_def)
  moreover have "set (take m rest) \<subseteq> ?c ` set BASE_DOCS" using sub set_take_subset by fast
  ultimately show ?thesis using best len by (intro exI [of _ "take m rest"]) (simp add: k)
qed

section \<open>The demo adapter on a demo case\<close>

definition doc_reply :: "base_doc \<Rightarrow> string" where
  "doc_reply d = fst (snd (snd d))"

lemma demo_lengths:
  "list_all (\<lambda>d. length (question_for_doc (fst d)) \<le> 100 \<and> length (fst d) + length (fst (snd d)) \<le> 140 \<and>
     length (doc_reply d) \<le> 100 \<and> doc_reply d \<noteq> []) BASE_DOCS"
  by code_simp

lemma join_length: "length (py_join sep xs) \<le> sum_list (map (\<lambda>x. length x + length sep) xs)"
  by (induction xs) auto

lemma prompt_length:
  assumes "\<forall>c \<in> set cs. length (fst c) + length (snd c) \<le> 140"
  shows "length (format_prompt q cs) \<le> 80 + length q + 150 * length cs"
proof -
  let ?line = "\<lambda>(did, text). ''['' @ did @ ''] '' @ text"
  have "length (py_join newline (map ?line cs)) \<le> sum_list (map (\<lambda>x. length x + length newline) (map ?line cs))"
    by (rule join_length)
  also have "\<dots> \<le> 150 * length cs" using assms by (induction cs) (auto simp: newline_def)
  finally show ?thesis by (simp add: format_prompt_def Let_def newline_def)
qed

lemma find_tokens_length: "length (find_tokens s) \<le> length s"
  by (induction s rule: find_tokens.induct) (auto simp: less_Suc_eq_le intro: le_trans [OF _ length_dropWhile_le])

lemma tokenize_length: "length (tokenize s) \<le> length s"
  using find_tokens_length [of "py_lower s"] by (simp add: tokenize_def py_lower_def)

lemma small_cost:
  assumes "length prompt \<le> 2000" and "length reply \<le> 100"
    and "dict_get ''input_cost_per_1k'' cfg = None" and "dict_get ''output_cost_per_1k'' cfg = None"
  shows "\<exists>c. estimate_cost (1 / 10000) (2 / 10000) prompt reply cfg = Inr (Fin c) \<and> 0 \<le> c \<and> c \<le> 1 / 100"
proof -
  define n m where "n = real (length (tokenize prompt))" and "m = real (length (tokenize reply))"
  have "n \<le> 2000" "m \<le> 100" using tokenize_length [of prompt] tokenize_length [of reply] assms(1,2) by (simp_all add: n_def m_def)
  then have b: "0 \<le> n / 10000 + m * 2 / 10000" "n / 10000 + m * 2 / 10000 \<le> 1" "0 \<le> n" "0 \<le> m" by (auto simp: n_def m_def)
  have "flt_mul (Fin n) (Fin (1 / 10000)) = Fin (n / 10000)" "flt_mul (Fin m) (Fin (2 / 10000)) = Fin (m * 2 / 10000)"
    using b \<open>n \<le> 2000\<close> \<open>m \<le> 100\<close> by (simp_all add: flt_mul_def flt_of_real_small)
  moreover have "flt_add (Fin (n / 10000)) (Fin (m * 2 / 10000)) = Fin (n / 10000 + m * 2 / 10000)"
    using b by (simp add: flt_of_real_small)
  moreover have "flt_div (Fin (n / 10000 + m * 2 / 10000)) (Fin 1000) = Inr (Fin ((n / 10000 + m * 2 / 10000) / 1000))"
    using b by (simp add: flt_div_def flt_of_real_small)
  ultimately have cost: "estimate_cost (1 / 10000) (2 / 10000) prompt reply cfg =
      Inr (Fin (py_round 6 ((n / 10000 + m * 2 / 10000) / 1000)))"
    by (simp add: estimate_cost_def float_config_def dict_get_or_def assms(3,4) token_cost_def flip: n_def m_def)
  define x where "x = (n / 10000 + m * 2 / 10000) / 1000"
  have "estimate_cost (1 / 10000) (2 / 10000) prompt reply cfg = Inr (Fin (py_round 6 x))"
    unfolding x_def by (rule cost)
  moreover have x: "0 \<le> x" "x \<le> 1 / 1000" using b by (simp_all add: x_def)
  moreover have "0 \<le> py_round 6 x" using py_round_mono [OF x(1), of 6] by simp
  moreover have "\<bar>py_round 6 x - x\<bar> \<le> 1 / 2000000" using py_round_error [of 6 x] by simp
  then have "py_round 6 x \<le> 1 / 100" using x(2) by linarith
  ultimately show ?thesis by blast
qed

definition invented_reply :: string where
  "invented_reply = ''Python uses a quantum database to create virtual environments.''"

definition demo_reply :: "bool \<Rightarrow> base_doc \<Rightarrow> string" where
  "demo_reply faithful d = (if faithful then doc_reply d else invented_reply)"

text \<open>The configuration of a demo version, as far as the adapter reads it.\<close>

definition demo_like :: "nat \<Rightarrow> bool \<Rightarrow> int \<Rightarrow> dict \<Rightarrow> bool" where
  "demo_like k faithful latency cf \<longleftrightarrow>
     dict_get ''top_k'' cf = Some (JInt (int k)) \<and> dict_get ''corpus'' cf = Some build_demo_corpus \<and>
     dict_get ''failure_mode'' cf = (if faithful then None else Some (JStr ''hallucinate'')) \<and>
     dict_get ''latency_ms'' cf = Some (JInt latency) \<and>
     dict_get ''input_cost_per_1k'' cf = None \<and> dict_get ''output_cost_per_1k'' cf = None"

lemma demo_output:
  assumes "d \<in> set BASE_DOCS" and "0 < k" and like: "demo_like k faithful latency cf"
  shows "\<exists>out c rest. demo_rag_run A (question_for_doc (fst d)) cf = Inr out \<and>
     answer out = demo_reply faithful d \<and> retrieved_chunks out = chunk_dict (demo_chunk (question_set d) d) # rest \<and>
     latency_ms out = latency \<and> estimated_cost_usd out = Fin c \<and> 0 \<le> c \<and> c \<le> 1 / 100"
proof -
  let ?dc = "demo_chunk (question_set d)"
  obtain rest where rest: "retrieve (fr A) (question_for_doc (fst d)) build_demo_corpus (int k) = Inr (?dc d # rest)"
    "set rest \<subseteq> ?dc ` set BASE_DOCS" "length rest < length BASE_DOCS" "1 < chunk_score (?dc d)"
    using demo_retrieved [OF assms(1,2)] by blast
  let ?prompt = "format_prompt (question_for_doc (fst d)) (map (\<lambda>c. (doc_id c, chunk_text c)) (?dc d # rest))"
  have cfg: "dict_get_or ''top_k'' (JInt 3) cf = JInt (int k)" "dict_get_or ''corpus'' DEFAULT_CORPUS cf = build_demo_corpus"
    "dict_get_or ''failure_mode'' JNull cf = (if faithful then JNull else JStr ''hallucinate'')"
    "dict_get_or ''latency_ms'' (JInt (100 + 15 * max (int k) 1)) cf = JInt latency"
    "dict_get ''input_cost_per_1k'' cf = None" "dict_get ''output_cost_per_1k'' cf = None"
    using like by (simp_all add: demo_like_def dict_get_or_def)
  from assms(1) demo_lengths have len: "length (question_for_doc (fst d)) \<le> 100" "length (doc_reply d) \<le> 100" "doc_reply d \<noteq> []"
    by (simp_all add: list_all_iff)
  have "length (doc_id c) + length (chunk_text c) \<le> 140" if "c \<in> set (?dc d # rest)" for c
  proof -
    from that rest(2) assms(1) have "c \<in> ?dc ` set BASE_DOCS" by fastforce
    then obtain d' where "d' \<in> set BASE_DOCS" "c = ?dc d'" by blast
    with demo_lengths show ?thesis by (simp add: list_all_iff demo_chunk_def)
  qed
  then have "length ?prompt \<le> 80 + length (question_for_doc (fst d)) + 150 * length (?dc d # rest)"
    by (intro order_trans [OF prompt_length]) auto
  also have "length (?dc d # rest) \<le> 10" using rest(3) by (simp add: BASE_DOCS_def)
  finally have "length ?prompt \<le> 2000" using len(1) by simp
  moreover have "length (demo_reply faithful d) \<le> 100" using len(2) by (simp add: demo_reply_def invented_reply_def)
  ultimately obtain c where
    cost: "estimate_cost (1 / 10000) (2 / 10000) ?prompt (demo_reply faithful d) cf = Inr (Fin c)" "0 \<le> c" "c \<le> 1 / 100"
    using small_cost [OF _ _ cfg(5,6)] by blast
  have "chunk_answer (?dc d) = doc_reply d" by (simp add: demo_chunk_def doc_reply_def)
  with rest(4) len(3) have "generate_answer cf (?dc d # rest) = demo_reply faithful d"
    by (simp add: generate_answer_def cfg(3) demo_reply_def invented_reply_def Let_def)
  then show ?thesis using rest(1) cost cfg(1,2,4)
    by (simp add: demo_rag_run_def Let_def)
qed

section \<open>The evaluators on a demo case\<close>

lemma demo_keywords:
  "list_all (\<lambda>d. snd (snd (snd d)) \<noteq> [] \<and>
     list_all (\<lambda>fact. str_in (py_lower fact) (py_lower (doc_reply d))) (snd (snd (snd d)))) BASE_DOCS"
  by code_simp

lemma demo_replies_clean:
  "list_all (\<lambda>d. \<not> str_in (py_lower ''quantum database'') (py_lower (doc_reply d))) BASE_DOCS"
  "list_all (\<lambda>d. \<not> str_in (py_lower ''telepathic compiler'') (py_lower (doc_reply d))) BASE_DOCS"
  by code_simp+

lemma demo_reply_words: "list_all (\<lambda>d. take 7 (doc_reply d) = ''Python '') BASE_DOCS"
  by code_simp

lemma invented_claim: "str_in (py_lower ''quantum database'') (py_lower invented_reply)"
  by code_simp

text \<open>A result as the demo's evaluators give it: scored in [0, 1], with a verdict.\<close>

definition judged :: "evaluation_result \<Rightarrow> bool" where
  "judged r \<longleftrightarrow> (\<exists>n x ok dd. r = scored n (Fin x) ok dd \<and> 0 \<le> x \<and> x \<le> 1)"

lemma judged_scored [simp]: "judged (scored n (Fin x) ok dd) \<longleftrightarrow> 0 \<le> x \<and> x \<le> 1"
  by (auto simp: judged_def scored_def)

lemma demo_contains_keywords:
  assumes "d \<in> set BASE_DOCS"
  shows "\<exists>r. contains_keywords E (demo_payload d tag) out [(''name'', j), (''threshold'', JFloat (Fin (8 / 10)))] = Inr r \<and>
    evaluator_name r = ''contains_keywords'' \<and> judged r \<and> (answer out = doc_reply d \<longrightarrow> passed r = Some True)"
proof -
  obtain doc body reply facts where d: "d = (doc, body, reply, facts)" by (cases d) auto
  let ?hits = "filter (\<lambda>fact. str_in (py_lower fact) (py_lower (answer out))) facts"
  from assms demo_keywords have f: "facts \<noteq> []" "\<forall>fact \<in> set facts. str_in (py_lower fact) (py_lower reply)"
    by (auto simp: d list_all_iff doc_reply_def)
  have "length ?hits \<le> length facts" by (rule length_filter_le)
  then have u: "0 \<le> real (length ?hits) / real (length facts)" "real (length ?hits) / real (length facts) \<le> 1"
    using f(1) by (simp_all add: divide_le_eq_1)
  have "filter (\<lambda>fact. str_in (py_lower fact) (py_lower reply)) facts = facts" using f(2) by (simp add: filter_id_conv)
  with f(1) u show ?thesis
    by (simp add: contains_keywords_def demo_payload_def d Let_def float_config_def dict_get_or_def doc_reply_def
      filter_map comp_def)
qed

lemma reply_tokens:
  assumes "d \<in> set BASE_DOCS" shows "tokenize (doc_reply d) \<noteq> []"
proof -
  let ?rest = "drop 7 (doc_reply d)"
  from assms demo_reply_words have "take 7 (doc_reply d) = ''Python '' " by (simp add: list_all_iff)
  then have reply: "doc_reply d = ''Python '' @ ?rest" by (metis append_take_drop_id)
  have "py_lower (doc_reply d) = py_lower ''Python '' @ py_lower ?rest" by (subst reply) (rule py_lower_append)
  also have "py_lower ''Python '' = ''python'' @ [CHR '' '']" by code_simp
  finally have "tokenize (doc_reply d) = find_tokens (''python'' @ CHR '' '' # py_lower ?rest)"
    by (simp add: tokenize_def)
  also have "\<dots> = find_tokens ''python'' @ find_tokens (py_lower ?rest)"
    by (rule find_tokens_append [OF not_token_space])
  also have "find_tokens ''python'' = [''python'']" by code_simp
  finally show ?thesis by simp
qed

lemma demo_token_f1:
  assumes "d \<in> set BASE_DOCS"
  shows "\<exists>r. token_f1_overlap E (demo_payload d tag) out [(''name'', j), (''threshold'', JFloat (Fin (5 / 10)))] = Inr r \<and>
    evaluator_name r = ''token_f1_overlap'' \<and> judged r \<and> (answer out = doc_reply d \<longrightarrow> passed r = Some True)"
proof -
  obtain doc body reply facts where d: "d = (doc, body, reply, facts)" by (cases d) auto
  have "token_f1 reply reply = 1" using reply_tokens [OF assms] by (simp add: token_f1_full d doc_reply_def)
  then show ?thesis using token_f1_unit [of "answer out" reply]
    by (simp add: token_f1_overlap_def token_f1_result_def demo_payload_def d Let_def float_config_def present_def
      dict_get_or_def doc_reply_def)
qed

lemma demo_other_evaluators:
  assumes "d \<in> set BASE_DOCS" and "answer out = demo_reply faithful d"
    and "retrieved_chunks out = chunk_dict (demo_chunk q d) # rest" and "latency_ms out = (if faithful then 120 else 260)"
    and "estimated_cost_usd out = Fin c" and "0 \<le> c" and "c \<le> 1 / 100"
  shows "\<exists>dd. retrieval_hit_rate E (demo_payload d tag) out cfg1 = Inr (scored ''retrieval_hit_rate'' (Fin 1) True dd)"
    and "\<exists>dd. forbidden_claim E (demo_payload d tag) out cfg2 =
      Inr (scored ''forbidden_claim'' (Fin (if faithful then 1 else 0)) faithful dd)"
    and "\<exists>dd. latency_threshold E (demo_payload d tag) out [(''name'', j), (''threshold_ms'', JInt 200)] =
      Inr (scored ''latency_threshold'' (Fin (if faithful then 1 else 7 / 10)) faithful dd)"
    and "\<exists>dd. cost_threshold E (demo_payload d tag) out [(''name'', j), (''threshold_usd'', JFloat (Fin (1 / 100)))] =
      Inr (scored ''cost_threshold'' (Fin 1) True dd)"
proof -
  obtain doc body reply facts where d: "d = (doc, body, reply, facts)" by (cases d) auto
  have "doc \<noteq> []"
    using assms(1) demo_questions unfolding d BASE_DOCS_def by auto
  then show "\<exists>dd. retrieval_hit_rate E (demo_payload d tag) out cfg1 = Inr (scored ''retrieval_hit_rate'' (Fin 1) True dd)"
    by (auto simp: retrieval_hit_rate_def demo_payload_def d json_or_def dict_get_or_def assms(3) chunk_dict_def demo_chunk_def
      Let_def py_in_def)
  have "\<not> str_in (py_lower ''quantum database'') (py_lower reply)" "\<not> str_in (py_lower ''telepathic compiler'') (py_lower reply)"
    using assms(1) demo_replies_clean by (simp_all add: list_all_iff d doc_reply_def del: bex_simps ball_simps) (force+)?
  then show "\<exists>dd. forbidden_claim E (demo_payload d tag) out cfg2 =
      Inr (scored ''forbidden_claim'' (Fin (if faithful then 1 else 0)) faithful dd)"
    using invented_claim
    by (cases faithful) (auto simp: forbidden_claim_def demo_payload_def d assms(2) demo_reply_def doc_reply_def Let_def)
  show "\<exists>dd. latency_threshold E (demo_payload d tag) out [(''name'', j), (''threshold_ms'', JInt 200)] =
      Inr (scored ''latency_threshold'' (Fin (if faithful then 1 else 7 / 10)) faithful dd)"
    by (auto simp: latency_threshold_def dict_get_or_def assms(4))
  show "\<exists>dd. cost_threshold E (demo_payload d tag) out [(''name'', j), (''threshold_usd'', JFloat (Fin (1 / 100)))] =
      Inr (scored ''cost_threshold'' (Fin 1) True dd)"
    using assms(7) by (auto simp: cost_threshold_def float_config_def dict_get_or_def assms(5))
qed

lemma demo_registry:
  "dict_get ''contains_keywords'' EVALUATOR_REGISTRY = Some contains_keywords"
  "dict_get ''token_f1_overlap'' EVALUATOR_REGISTRY = Some token_f1_overlap"
  "dict_get ''retrieval_hit_rate'' EVALUATOR_REGISTRY = Some retrieval_hit_rate"
  "dict_get ''forbidden_claim'' EVALUATOR_REGISTRY = Some forbidden_claim"
  "dict_get ''latency_threshold'' EVALUATOR_REGISTRY = Some latency_threshold"
  "dict_get ''cost_threshold'' EVALUATOR_REGISTRY = Some cost_threshold"
  by (simp_all add: EVALUATOR_REGISTRY_def)

lemma demo_spec_runs:
  assumes "dict_get n EVALUATOR_REGISTRY = Some fn" and "fn E payload out ((''name'', JStr n) # cfg) = Inr r"
  shows "evaluate_spec E payload out (JObj ((''name'', JStr n) # cfg)) = Inr r"
  using assms by (simp add: evaluate_spec_def dict_get_or_def run_guarded_def)

definition demo_names :: "string list" where
  "demo_names = [''contains_keywords'', ''token_f1_overlap'', ''retrieval_hit_rate'', ''forbidden_claim'',
     ''latency_threshold'', ''cost_threshold'']"

lemma demo_results:
  assumes "d \<in> set BASE_DOCS" and "answer out = demo_reply faithful d"
    and "retrieved_chunks out = chunk_dict (demo_chunk q d) # rest" and "latency_ms out = (if faithful then 120 else 260)"
    and "estimated_cost_usd out = Fin c" and "0 \<le> c" and "c \<le> 1 / 100"
  shows "\<exists>rs. evaluate_case E (demo_payload d tag) out demo_evaluators = Inr rs \<and>
    map evaluator_name rs = demo_names \<and> list_all judged rs \<and> (list_all (\<lambda>r. passed r = Some True) rs \<longleftrightarrow> faithful)"
proof -
  let ?p = "demo_payload d tag"
  obtain r1 where r1: "contains_keywords E ?p out [(''name'', JStr ''contains_keywords''), (''threshold'', JFloat (Fin (8 / 10)))] = Inr r1"
    "evaluator_name r1 = ''contains_keywords''" "judged r1" "answer out = doc_reply d \<Longrightarrow> passed r1 = Some True"
    using demo_contains_keywords [OF assms(1)] by blast
  obtain r2 where r2: "token_f1_overlap E ?p out [(''name'', JStr ''token_f1_overlap''), (''threshold'', JFloat (Fin (5 / 10)))] = Inr r2"
    "evaluator_name r2 = ''token_f1_overlap''" "judged r2" "answer out = doc_reply d \<Longrightarrow> passed r2 = Some True"
    using demo_token_f1 [OF assms(1)] by blast
  note others = demo_other_evaluators [OF assms]
  obtain d3 where r3: "retrieval_hit_rate E ?p out [(''name'', JStr ''retrieval_hit_rate'')] =
      Inr (scored ''retrieval_hit_rate'' (Fin 1) True d3)" using others(1) by blast
  obtain d4 where r4: "forbidden_claim E ?p out [(''name'', JStr ''forbidden_claim'')] =
      Inr (scored ''forbidden_claim'' (Fin (if faithful then 1 else 0)) faithful d4)" using others(2) by blast
  obtain d5 where r5: "latency_threshold E ?p out [(''name'', JStr ''latency_threshold''), (''threshold_ms'', JInt 200)] =
      Inr (scored ''latency_threshold'' (Fin (if faithful then 1 else 7 / 10)) faithful d5)" using others(3) by blast
  obtain d6 where r6: "cost_threshold E ?p out [(''name'', JStr ''cost_threshold''), (''threshold_usd'', JFloat (Fin (1 / 100)))] =
      Inr (scored ''cost_threshold'' (Fin 1) True d6)" using others(4) by blast
  note runs = demo_spec_runs [OF demo_registry(1) r1(1)] demo_spec_runs [OF demo_registry(2) r2(1)]
    demo_spec_runs [OF demo_registry(3) r3] demo_spec_runs [OF demo_registry(4) r4]
    demo_spec_runs [OF demo_registry(5) r5] demo_spec_runs [OF demo_registry(6) r6]
  have "dict_get_or ''evaluators'' (JList []) demo_evaluators = snd (hd demo_evaluators)"
    by (simp add: demo_evaluators_def dict_get_or_def)
  then have "evaluate_case E ?p out demo_evaluators = Inr [r1, r2, scored ''retrieval_hit_rate'' (Fin 1) True d3,
      scored ''forbidden_claim'' (Fin (if faithful then 1 else 0)) faithful d4,
      scored ''latency_threshold'' (Fin (if faithful then 1 else 7 / 10)) faithful d5, scored ''cost_threshold'' (Fin 1) True d6]"
    unfolding evaluate_case_def by (simp only: demo_evaluators_def list.sel snd_conv json_iter.simps and_then.simps map_res.simps runs)
  moreover have "faithful \<Longrightarrow> answer out = doc_reply d" using assms(2) by (simp add: demo_reply_def)
  ultimately show ?thesis using r1(2-4) r2(2-4) by (cases faithful) (auto simp: demo_names_def)
qed

end
