(* ===== verification/Demo_Scenario.thy ===== *)
theory Demo_Scenario imports Demo begin

text \<open>
  \<open>backend/app/demo/scenario.py\<close> and \<open>backend/app/cli/seed.py\<close>: a faithful and a hallucinating version of the demo
  adapter are stored with a suite of demo cases, run and compared.
\<close>

section \<open>The demo project\<close>

text \<open>The identifiers and creation times of the rows.\<close>

record demo_ids =
  di_app :: string
  di_config :: string
  di_gate :: string
  di_baseline :: string
  di_candidate :: string
  di_suite :: string
  di_case :: "nat \<Rightarrow> string"
  di_now :: int
  di_created :: "nat \<Rightarrow> int"

definition demo_case_rows :: "demo_ids \<Rightarrow> nat \<Rightarrow> case_row list" where
  "demo_case_rows I case_count =
     map (\<lambda>(k, external_id, payload). \<lparr>ec_id = di_case I k, ec_external = Some external_id, ec_payload = payload,
         ec_created = di_created I k\<rparr>)
       (enumerate 0 (build_eval_cases case_count))"

definition demo_links :: "demo_ids \<Rightarrow> nat \<Rightarrow> suite_case_row list" where
  "demo_links I case_count = map (\<lambda>k. \<lparr>sc_suite = di_suite I, sc_case = di_case I k\<rparr>) [0..<case_count]"

definition demo_version :: "demo_ids \<Rightarrow> string \<Rightarrow> string \<Rightarrow> dict \<Rightarrow> version_row" where
  "demo_version I vid name config =
     \<lparr>av_id = vid, av_app = di_app I, av_name = name, av_config = config, av_adapter = ''app.adapters.demo_rag'',
      av_created = di_now I\<rparr>"

definition HALLUCINATE :: "(string \<times> json) list" where
  "HALLUCINATE = [(''failure_mode'', JStr ''hallucinate'')]"

definition config_row :: "demo_ids \<Rightarrow> evaluator_config_row" where
  "config_row I = \<lparr>vc_id = di_config I, vc_org = DEFAULT_ORGANIZATION_ID, vc_name = ''default-rag'',
     vc_config = demo_evaluators, vc_created = di_now I\<rparr>"

definition has_app :: "db \<Rightarrow> string \<Rightarrow> bool" where
  "has_app s name \<longleftrightarrow> list_ex (\<lambda>a. ap_org a = DEFAULT_ORGANIZATION_ID \<and> ap_name a = name) (apps s)"

definition has_config :: "db \<Rightarrow> string \<Rightarrow> bool" where
  "has_config s name \<longleftrightarrow> list_ex (\<lambda>c. vc_org c = DEFAULT_ORGANIZATION_ID \<and> vc_name c = name) (evaluator_configs s)"

definition has_gate_rule :: "db \<Rightarrow> string \<Rightarrow> bool" where
  "has_gate_rule s name \<longleftrightarrow> list_ex (\<lambda>g. gr_org g = DEFAULT_ORGANIZATION_ID \<and> gr_name g = name) (gate_rules s)"

section \<open>\<open>scenario.py\<close>\<close>

text \<open>The rows of the scenario; a name taken in the default organisation violates a unique constraint.\<close>

definition scenario_db :: "demo_ids \<Rightarrow> nat \<Rightarrow> db \<Rightarrow> db res" where
  "scenario_db I case_count s =
     (if has_app s ''demo-rag'' then Inl (Exn IntegrityErr ''uq_apps_organization_id_name'')
      else if has_config s ''default-rag'' then Inl (Exn IntegrityErr ''uq_evaluator_configs_organization_id_name'')
      else Inr (s\<lparr>
        apps := apps s @ [\<lparr>ap_id = di_app I, ap_org = DEFAULT_ORGANIZATION_ID, ap_name = ''demo-rag'',
          ap_description = ''Deterministic RAG demo application'', ap_created = di_now I\<rparr>],
        versions := versions s @
          [demo_version I (di_baseline I) ''v1_baseline'' (demo_config 1 [] 120),
           demo_version I (di_candidate I) ''v2_hallucination_regression'' (demo_config 1 HALLUCINATE 260)],
        suites := suites s @
          [\<lparr>es_id = di_suite I, es_app = di_app I, es_name = ''demo-rag-500'', es_created = di_now I\<rparr>],
        evaluator_configs := evaluator_configs s @ [config_row I],
        eval_cases := eval_cases s @ demo_case_rows I case_count,
        suite_cases := suite_cases s @ demo_links I case_count\<rparr>))"

record scenario_summary =
  ss_case_count :: nat
  ss_total_case_executions :: nat
  ss_elapsed_seconds :: real
  ss_cases_per_minute :: real
  ss_baseline_status :: run_status
  ss_candidate_status :: run_status
  ss_gate_verdict :: string
  ss_metrics :: dict
  ss_gate_reasons :: "dict list"

text \<open>\<open>elapsed\<close> is the difference of two readings of \<open>time.perf_counter\<close>.\<close>

definition run_demo_scenario ::
  "demo_ids \<Rightarrow> service_env \<Rightarrow> service_env \<Rightarrow> 'g compare_env \<Rightarrow> real \<Rightarrow> nat \<Rightarrow> db \<Rightarrow> scenario_summary res \<times> db" where
  "run_demo_scenario I EB EC E elapsed case_count s =
     (case scenario_db I case_count s of
        Inl exc \<Rightarrow> (Inl exc, s)
      | Inr s1 \<Rightarrow>
          (case execute_run EB (di_baseline I) (di_suite I) (di_config I) None DEFAULT_ORGANIZATION_ID s1 of
             (Inl exc, s2) \<Rightarrow> (Inl exc, s2)
           | (Inr baseline_run, s2) \<Rightarrow>
               (case execute_run EC (di_candidate I) (di_suite I) (di_config I) None DEFAULT_ORGANIZATION_ID s2 of
                  (Inl exc, s3) \<Rightarrow> (Inl exc, s3)
                | (Inr candidate_run, s3) \<Rightarrow>
                    (case compute_comparison E (er_id baseline_run) (er_id candidate_run) None
                            DEFAULT_ORGANIZATION_ID s3 of
                       (Inl exc, s4) \<Rightarrow> (Inl exc, s4)
                     | (Inr (_, report), s4) \<Rightarrow>
                         let total = case_count * 2 in
                         (if elapsed = 0 then Inl (Exn ZeroDivErr ''float division by zero'')
                          else Inr \<lparr>ss_case_count = case_count, ss_total_case_executions = total,
                            ss_elapsed_seconds = py_round 3 elapsed,
                            ss_cases_per_minute = py_round 2 (real total / elapsed * 60),
                            ss_baseline_status = er_status baseline_run,
                            ss_candidate_status = er_status candidate_run,
                            ss_gate_verdict = rp_verdict report, ss_metrics = rp_metrics report,
                            ss_gate_reasons = rp_reasons report\<rparr>, s4)))))"

section \<open>\<open>seed.py\<close>\<close>

definition SEED_POLL_TIMEOUT_SECONDS :: nat where
  "SEED_POLL_TIMEOUT_SECONDS = 600"

text \<open>
  The seed's rows. The rows of all tables are flushed together, so when several names are taken, which of the
  constraints the error names is the library's choice.
\<close>

definition seed_db :: "demo_ids \<Rightarrow> nat \<Rightarrow> db \<Rightarrow> db res" where
  "seed_db I case_count s =
     (if has_app s ''demo-rag'' then Inl (Exn IntegrityErr ''uq_apps_organization_id_name'')
      else if has_config s ''default-rag'' then Inl (Exn IntegrityErr ''uq_evaluator_configs_organization_id_name'')
      else if has_gate_rule s ''default-gates'' then Inl (Exn IntegrityErr ''uq_gate_rules_organization_id_name'')
      else Inr (s\<lparr>
        apps := apps s @ [\<lparr>ap_id = di_app I, ap_org = DEFAULT_ORGANIZATION_ID, ap_name = ''demo-rag'',
          ap_description = ''Demo RAG evaluation app'', ap_created = di_now I\<rparr>],
        evaluator_configs := evaluator_configs s @ [config_row I],
        gate_rules := gate_rules s @ [\<lparr>gr_id = di_gate I, gr_org = DEFAULT_ORGANIZATION_ID,
          gr_name = ''default-gates'', gr_rules = DEFAULT_GATE_RULES, gr_created = di_now I\<rparr>],
        versions := versions s @
          [demo_version I (di_baseline I) ''v1_baseline'' (demo_config 3 [] 120),
           demo_version I (di_candidate I) ''v2_candidate_hallucination''
             ([(''top_k'', JInt 3), (''corpus'', build_demo_corpus), (''latency_ms'', JInt 260)] @ HALLUCINATE)],
        suites := suites s @
          [\<lparr>es_id = di_suite I, es_app = di_app I, es_name = ''demo-suite'', es_created = di_now I\<rparr>],
        eval_cases := eval_cases s @ demo_case_rows I case_count,
        suite_cases := suite_cases s @ demo_links I case_count\<rparr>))"

definition seed_poll_run_status :: "'g cli_env \<Rightarrow> string \<Rightarrow> string \<Rightarrow> db \<Rightarrow> (run_status res \<times> db) option" where
  "seed_poll_run_status E run_id label s = poll_run_status E SEED_POLL_TIMEOUT_SECONDS label run_id s"

text \<open>
  One run, in process or on the workers; the status is the run's, or the last one polled. Everything before it is
  committed.
\<close>

definition seed_run ::
  "'g cli_env \<Rightarrow> bool \<Rightarrow> string \<Rightarrow> service_env \<Rightarrow> demo_ids \<Rightarrow> string \<Rightarrow> db \<Rightarrow> ((string \<times> run_status) res \<times> db) option"
where
  "seed_run E sync_mode label SE I version_id s =
     (if sync_mode then
        (case execute_run SE version_id (di_suite I) (di_config I) None DEFAULT_ORGANIZATION_ID s of
           (Inl exc, s') \<Rightarrow> Some (Inl exc, s')
         | (Inr run, s') \<Rightarrow> Some (Inr (er_id run, er_status run), s'))
      else
        (case dispatch_run SE (cli_submit E) version_id (di_suite I) (di_config I) None DEFAULT_ORGANIZATION_ID s of
           (Inl exc, s') \<Rightarrow> Some (Inl exc, s')
         | (Inr run, s') \<Rightarrow>
             map_option (\<lambda>(r, s2). (map_sum id (Pair (er_id run)) r, s2))
               (seed_poll_run_status E (er_id run) label s')))"

record seed_summary =
  sd_case_count :: nat
  sd_run_mode :: string
  sd_baseline_status :: run_status
  sd_candidate_status :: run_status
  sd_gate_verdict :: string
  sd_metrics :: dict

definition point_of :: "dict \<Rightarrow> string \<Rightarrow> string \<Rightarrow> json res" where
  "point_of metrics metric point = and_then (key_of metric metrics) (\<lambda>j. subscript j point)"

definition two_points :: "dict \<Rightarrow> string \<Rightarrow> (string \<times> json) res" where
  "two_points metrics metric =
     and_then (point_of metrics metric ''baseline_point'') (\<lambda>b.
     and_then (point_of metrics metric ''candidate_point'') (\<lambda>c.
     Inr (metric, JObj [(''baseline_point'', b), (''candidate_point'', c)])))"

definition seed_everything ::
  "'g cli_env \<Rightarrow> demo_ids \<Rightarrow> nat \<Rightarrow> string \<Rightarrow> db \<Rightarrow> (seed_summary res \<times> db) option" where
  "seed_everything E I case_count mode s =
     (if mode \<notin> {''sync'', ''celery''} then
        Some (Inl (Exn ValueErr (''Invalid run_mode: '' @ mode @ ''. Must be '' @ py_repr_str ''sync'' @ '' or '' @
          py_repr_str ''celery'' @ ''.'')), s)
      else
        case seed_db I case_count s of
          Inl exc \<Rightarrow> Some (Inl exc, s)
        | Inr s1 \<Rightarrow>
            (case seed_run E (mode = ''sync'') ''Baseline'' (cli_baseline E) I (di_baseline I) s1 of
               None \<Rightarrow> None
             | Some (Inl exc, s2) \<Rightarrow> Some (Inl exc, s2)
             | Some (Inr (baseline_run, baseline_status), s2) \<Rightarrow>
                 (case seed_run E (mode = ''sync'') ''Candidate'' (cli_candidate E) I (di_candidate I) s2 of
                    None \<Rightarrow> None
                  | Some (Inl exc, s3) \<Rightarrow> Some (Inl exc, s3)
                  | Some (Inr (candidate_run, candidate_status), s3) \<Rightarrow>
                      (case compute_comparison (cli_compare E) baseline_run candidate_run None
                              DEFAULT_ORGANIZATION_ID s3 of
                         (Inl exc, s4) \<Rightarrow> Some (Inl exc, s4)
                       | (Inr (_, report), s4) \<Rightarrow>
                           Some (and_then (two_points (rp_metrics report) ''pass_rate'') (\<lambda>p.
                             and_then (two_points (rp_metrics report) ''semantic_similarity'') (\<lambda>q.
                             Inr \<lparr>sd_case_count = case_count, sd_run_mode = mode,
                               sd_baseline_status = baseline_status, sd_candidate_status = candidate_status,
                               sd_gate_verdict = rp_verdict report, sd_metrics = [p, q]\<rparr>)), s4)))))"

section \<open>Lemmas on opposite runs\<close>

lemma constant_values:
  assumes "distinct (map fst d)" and "\<forall>p \<in> set d. snd p = x" and "d \<noteq> []"
  shows "set (sample_values (ByCase d)) = {x}"
proof -
  have "at_key d k = x" if "k \<in> fst ` set d" for k
  proof -
    from that obtain v where "(k, v) \<in> set d" by auto
    with assms(1,2) show ?thesis by (auto simp: at_key_def dict_get_or_def)
  qed
  then have "at_key d ` fst ` set d = {x}" using assms(3) by (cases d) force+
  then show ?thesis by (simp add: image_image)
qed

lemma constant_pairs:
  assumes "distinct (map fst b)" and "distinct (map fst c)" and "\<forall>p \<in> set b. snd p = x" and "\<forall>p \<in> set c. snd p = y"
    and "fst ` set b = fst ` set c" and "b \<noteq> []"
  shows "\<exists>bs cs. paired_values (ByCase b) (ByCase c) = (bs, cs) \<and> bs \<noteq> [] \<and> cs \<noteq> [] \<and> set bs = {x} \<and> set cs = {y}"
proof -
  have "filter (\<lambda>k. k \<in> fst ` set c) (map fst b) = map fst b" using assms(5) by (auto simp: filter_id_conv)
  moreover have "at_key b k = x" "at_key c k = y" if "k \<in> fst ` set b" for k
  proof -
    from that obtain v where "(k, v) \<in> set b" by auto
    with assms(1,3) show "at_key b k = x" by (auto simp: at_key_def dict_get_or_def)
    from that assms(5) obtain v where "(k, v) \<in> set c" by auto
    with assms(2,4) show "at_key c k = y" by (auto simp: at_key_def dict_get_or_def)
  qed
  moreover from assms(6) obtain k where "k \<in> fst ` set b" by (cases b) auto
  ultimately have "at_key b ` fst ` set b = {x}" "at_key c ` fst ` set b = {y}"
    "filter (\<lambda>k. k \<in> fst ` set c) (map fst b) = map fst b" by blast+
  with assms(6) show ?thesis by (simp add: Let_def image_image flip: set_empty)
qed

lemma average_constant: "set xs = {x} \<Longrightarrow> average_stat xs = Inr x"
  using average_between [of xs x x] by (cases "xs = []") (auto simp: average_stat_def)

text \<open>The entry of a metric that is \<open>x\<close> on every case of the baseline and \<open>y\<close> on every case of the candidate.\<close>

lemma constant_entry:
  assumes "rng_ok R" and "distinct (map fst b)" and "distinct (map fst c)" and "\<forall>p \<in> set b. snd p = x"
    and "\<forall>p \<in> set c. snd p = y" and "fst ` set b = fst ` set c" and "b \<noteq> []"
  shows "\<exists>e. metric_entry R average_stat (ByCase b) (ByCase c) = Inr e \<and>
    dict_get ''baseline_point'' e = Some (rounded x) \<and> dict_get ''candidate_point'' e = Some (rounded y) \<and>
    dict_get ''delta_point'' e = Some (rounded (y - x)) \<and> dict_get ''delta_ci_lower'' e = Some (rounded (y - x)) \<and>
    dict_get ''delta_ci_upper'' e = Some (rounded (y - x))"
proof -
  have "c \<noteq> []" using assms(6,7) by auto
  with assms constant_values have pts: "average_stat (sample_values (ByCase b)) = Inr x"
    "average_stat (sample_values (ByCase c)) = Inr y" by (metis average_constant)+
  from constant_pairs [OF assms(2-7)] obtain bs cs where
    pair: "paired_values (ByCase b) (ByCase c) = (bs, cs)" "bs \<noteq> []" "cs \<noteq> []" "set bs = {x}" "set cs = {y}" by blast
  have "\<exists>lo hi. bootstrap_delta_ci R bs cs average_stat 1000 42 = Inr (lo, hi) \<and> y - x \<le> lo \<and> lo \<le> hi \<and> hi \<le> y - x"
    using pair by (intro avg.bootstrap_delta_ok [OF assms(1)]) auto
  then have "bootstrap_delta_ci R bs cs average_stat 1000 42 = Inr (y - x, y - x)" by fastforce
  moreover obtain bl bh cl ch where "bootstrap_ci R (sample_values (ByCase b)) average_stat 1000 42 = Inr (bl, bh)"
    "bootstrap_ci R (sample_values (ByCase c)) average_stat 1000 42 = Inr (cl, ch)"
    by (meson avg.bootstrap_ci_total [OF assms(1), of 1000] zero_less_numeral)
  ultimately show ?thesis
    by (simp add: metric_entry_def pair(1) pts Let_def del: sample_values.simps paired_values.simps)
qed

lemma pass_rate_metric:
  assumes "build_metric_report R b c = Inr metrics"
  shows "\<exists>e. dict_get ''pass_rate'' metrics = Some (JObj e) \<and>
    metric_entry R average_stat (dict_get_or ''pass_rate'' (Listed []) b) (dict_get_or ''pass_rate'' (Listed []) c) = Inr e"
  using assms by (auto simp: build_metric_report_def statistic_by_metric_def and_then_Inr_iff)

text \<open>The pass-rate samples of a run.\<close>

lemma pass_table:
  assumes "distinct (map ri_case (filter (\<lambda>i. ri_run i = r) (items s)))"
    and "\<forall>i \<in> set (items s). ri_run i = r \<longrightarrow> case_passes (results_of s i) = faithful"
  defines "d \<equiv> dict_get_or ''pass_rate'' [] (collect_run_metric_samples s r)"
  shows "distinct (map fst d)" and "\<forall>p \<in> set d. snd p = (if faithful then 1 else 0)" and "fst ` set d = case_ids_of s r"
proof -
  have d: "d = map (\<lambda>i. (ri_case i, if case_passes (results_of s i) then 1 else 0)) (run_items s r)"
    using samples_fold [OF metrics_set(1) [of s] distinct_run_items [OF assms(1)], of "[]"]
    by (simp add: d_def collect_run_metric_samples_def dict_get_or_def by_case_def [abs_def] map_filter_Some)
  show "distinct (map fst d)" using distinct_run_items [OF assms(1)] by (simp add: d comp_def)
  have "set (run_items s r) = {i \<in> set (items s). ri_run i = r}" by (auto simp: run_items_def)
  then show "\<forall>p \<in> set d. snd p = (if faithful then 1 else 0)" and "fst ` set d = case_ids_of s r"
    using assms(2) by (auto simp: d case_ids_of_def image_image)
qed

lemma as_samples_get:
  "dict_get_or m [] t \<noteq> [] \<Longrightarrow> dict_get_or m (Listed []) (as_samples t) = ByCase (dict_get_or m [] t)"
proof -
  have "map_of (as_samples t) m = map_option ByCase (map_of t m)"
    unfolding as_samples_def by (induction t) auto
  then show "dict_get_or m [] t \<noteq> [] \<Longrightarrow> ?thesis" by (simp add: dict_get_or_def split: option.splits)
qed

text \<open>A run whose every case passes against one whose every case fails.\<close>

lemma opposite_report:
  assumes "rng_ok R" and "\<forall>r \<in> {b, c}. distinct (map ri_case (filter (\<lambda>i. ri_run i = r) (items s)))"
    and "\<forall>i \<in> set (items s). ri_run i = b \<longrightarrow> case_passes (results_of s i)"
    and "\<forall>i \<in> set (items s). ri_run i = c \<longrightarrow> \<not> case_passes (results_of s i)"
    and "case_ids_of s b = case_ids_of s c" and "case_ids_of s b \<noteq> {}"
    and "build_metric_report R (as_samples (collect_run_metric_samples s b)) (as_samples (collect_run_metric_samples s c)) =
      Inr metrics"
  shows "report_deltas metrics ''pass_rate'' = Some (- 1, - 1, - 1) \<and>
    (\<exists>e. dict_get ''pass_rate'' metrics = Some (JObj e) \<and> dict_get ''baseline_point'' e = Some (JFloat (Fin 1)) \<and>
       dict_get ''candidate_point'' e = Some (JFloat (Fin 0)))"
proof -
  let ?d = "\<lambda>r. dict_get_or ''pass_rate'' [] (collect_run_metric_samples s r)"
  have b: "distinct (map fst (?d b))" "\<forall>p \<in> set (?d b). snd p = 1" "fst ` set (?d b) = case_ids_of s b"
    using pass_table [of b s True] assms(2,3) by simp_all
  have c: "distinct (map fst (?d c))" "\<forall>p \<in> set (?d c). snd p = 0" "fst ` set (?d c) = case_ids_of s c"
    using pass_table [of c s False] assms(2,4) by simp_all
  have ne: "?d b \<noteq> []" "?d c \<noteq> []" using b(3) c(3) assms(5,6) by force+
  have ids: "fst ` set (?d b) = fst ` set (?d c)" using b(3) c(3) assms(5) by simp
  from constant_entry [OF assms(1) b(1) c(1) b(2) c(2) ids ne(1)] obtain e where
    e: "metric_entry R average_stat (ByCase (?d b)) (ByCase (?d c)) = Inr e"
    "dict_get ''baseline_point'' e = Some (rounded 1)" "dict_get ''candidate_point'' e = Some (rounded 0)"
    "dict_get ''delta_point'' e = Some (rounded (0 - 1))" "dict_get ''delta_ci_lower'' e = Some (rounded (0 - 1))"
    "dict_get ''delta_ci_upper'' e = Some (rounded (0 - 1))" by blast
  from pass_rate_metric [OF assms(7)] e(1) have m: "dict_get ''pass_rate'' metrics = Some (JObj e)"
    by (simp add: as_samples_get ne)
  have "py_round 6 (- 1) = - 1" using py_round_of_nat_power [of 6 "- 1"] by simp
  then show ?thesis using e(2-) m by (simp add: report_deltas_def rounded_def)
qed

lemma opposite_verdict:
  "report_deltas metrics ''pass_rate'' = Some (- 1, - 1, - 1) \<Longrightarrow> worst (map (spec_of metrics) default_rules) = Fail"
proof -
  assume "report_deltas metrics ''pass_rate'' = Some (- 1, - 1, - 1)"
  then have "spec_of metrics (hd default_rules) = Fail"
    by (simp add: default_rules_def spec_of_def spec_verdict_def worse_def)
  then have "Fail \<in> set (map (spec_of metrics) default_rules)" by (auto simp: default_rules_def)
  from worst_ge [OF this] show ?thesis by (cases "worst (map (spec_of metrics) default_rules)") (simp_all add: less_eq_verdict_def)
qed

section \<open>Lemmas on a demo run\<close>

lemma judged_row:
  assumes "judged r"
  shows "\<exists>row. result_row_of t iid r = Inr row \<and> rs_item row = iid \<and> rs_passed row = passed r \<and> applicable row \<and>
    \<not> rs_errored row"
proof -
  from assms obtain n x ok dd where r: "r = scored n (Fin x) ok dd" "0 \<le> x" "x \<le> 1" by (auto simp: judged_def)
  with py_round_unit [of x 6] have "\<bar>py_round 6 x\<bar> < 10000" by auto
  then show ?thesis by (simp add: r(1) result_row_of_def numeric_opt_def scored_def applicable_def)
qed

lemma judged_rows:
  assumes "list_all judged rs"
  shows "\<exists>rows. map_res (result_row_of t iid) rs = Inr rows \<and> map rs_passed rows = map passed rs \<and>
    (\<forall>row \<in> set rows. rs_item row = iid \<and> applicable row \<and> \<not> rs_errored row)"
  using assms
proof (induction rs)
  case (Cons r rs)
  then obtain rows where "map_res (result_row_of t iid) rs = Inr rows" "map rs_passed rows = map passed rs"
    "\<forall>row \<in> set rows. rs_item row = iid \<and> applicable row \<and> \<not> rs_errored row" by auto
  moreover from Cons.prems obtain row where "result_row_of t iid r = Inr row" "rs_item row = iid"
    "rs_passed row = passed r" "applicable row" "\<not> rs_errored row" using judged_row [of r t iid] by auto
  ultimately show ?case by simp
qed simp

lemma demo_rows_stored:
  assumes "list_all judged rs" and "map evaluator_name rs = demo_names"
  shows "\<exists>rows. store_results t iid rs = Inr rows \<and> (\<forall>row \<in> set rows. rs_item row = iid) \<and>
    (case_passes rows \<longleftrightarrow> list_all (\<lambda>r. passed r = Some True) rs)"
proof -
  from judged_rows [OF assms(1)] obtain rows where rows: "map_res (result_row_of t iid) rs = Inr rows"
    "map rs_passed rows = map passed rs" "\<forall>row \<in> set rows. rs_item row = iid \<and> applicable row \<and> \<not> rs_errored row" by blast
  have "rs \<noteq> []" using assms(2) by (auto simp: demo_names_def)
  with rows(2) have "rows \<noteq> []" by auto
  moreover have "filter applicable rows = rows" "\<not> list_ex rs_errored rows"
    using rows(3) by (auto simp: filter_id_conv list_ex_iff)
  moreover have "list_all (\<lambda>r. rs_passed r = Some True) rows \<longleftrightarrow> list_all (\<lambda>v. v = Some True) (map rs_passed rows)"
    by (simp add: list.pred_map comp_def)
  moreover have "\<dots> \<longleftrightarrow> list_all (\<lambda>r. passed r = Some True) rs" unfolding rows(2) by (simp add: list.pred_map comp_def)
  ultimately have "case_passes rows \<longleftrightarrow> list_all (\<lambda>r. passed r = Some True) rs" by (simp add: case_passes_def)
  moreover have "distinct (map evaluator_name rs)" unfolding assms(2) by (simp add: demo_names_def)
  ultimately show ?thesis using rows by (simp add: store_results_def)
qed

definition demo_latency :: "bool \<Rightarrow> int" where
  "demo_latency faithful = (if faithful then 120 else 260)"

definition demo_row :: "case_row \<Rightarrow> bool" where
  "demo_row c \<longleftrightarrow> (\<exists>d tag. d \<in> set BASE_DOCS \<and> ec_payload c = demo_payload d tag)"

text \<open>One demo case, run and stored.\<close>

lemma demo_case:
  assumes "demo_row c" and "0 < k" and "demo_like k faithful (demo_latency faithful) (av_config v)"
    and "vc_config ec = demo_evaluators"
  shows "\<exists>item ts rows. store_case E run_id v iid c (run_case E demo_rag_run v ec c) = Inr (item, ts, rows) \<and>
    co_errored (run_case E demo_rag_run v ec c) = 0 \<and> ri_id item = iid \<and> (\<forall>row \<in> set rows. rs_item row = iid) \<and>
    (case_passes rows \<longleftrightarrow> faithful)"
proof -
  from assms(1) obtain d tag where d: "d \<in> set BASE_DOCS" "ec_payload c = demo_payload d tag" by (auto simp: demo_row_def)
  have "extract_question f (ec_payload c) = question_for_doc (fst d)" for f
    by (cases d) (simp add: d(2) demo_payload_def extract_question_def dict_get_or_def)
  with demo_output [OF d(1) assms(2,3)] obtain out x more_chunks where
    out: "demo_rag_run (world E) (extract_question (float_repr (ml E)) (ec_payload c)) (av_config v) = Inr out"
    "answer out = demo_reply faithful d" "retrieved_chunks out = chunk_dict (demo_chunk (question_set d) d) # more_chunks"
    "latency_ms out = demo_latency faithful" "estimated_cost_usd out = Fin x" "0 \<le> x" "x \<le> 1 / 100" by metis
  from demo_results [OF d(1) out(2,3) out(4) [unfolded demo_latency_def] out(5-7), of "ml E" tag] obtain rs where
    rs: "evaluate_case (ml E) (ec_payload c) out (vc_config ec) = Inr rs" "map evaluator_name rs = demo_names"
    "list_all judged rs" "list_all (\<lambda>r. passed r = Some True) rs \<longleftrightarrow> faithful" by (auto simp: assms(4) d(2))
  from demo_rows_stored [OF rs(3,2)] obtain rows where rows: "store_results (now E) iid rs = Inr rows"
    "\<forall>row \<in> set rows. rs_item row = iid" "case_passes rows \<longleftrightarrow> faithful" unfolding rs(4) by blast
  have "\<bar>py_round 6 x\<bar> < 10000" using py_round_unit [of x 6] out(6,7) by auto
  then have stored: "int4 (latency_ms out) = Inr (demo_latency faithful)" "\<exists>y. numeric_opt (Some (Fin x)) = Inr y"
    by (simp_all add: out(4) demo_latency_def int4_def numeric_opt_def)
  have run: "run_case E demo_rag_run v ec c = \<lparr>co_status = ItemCompleted, co_error = None, co_output = Some out,
      co_results = rs, co_completed = 1, co_errored = 0\<rparr>"
    by (simp add: run_case_def out(1) rs(1))
  show ?thesis unfolding run using stored rows by (auto simp: store_case_def out(5))
qed

lemma demo_cases_stored:
  fixes E :: service_env
  assumes "\<forall>c \<in> set cases. demo_row c" and "0 < k" and "demo_like k faithful (demo_latency faithful) (av_config v)"
    and "vc_config ec = demo_evaluators"
  defines "run \<equiv> run_case E demo_rag_run v ec"
  shows "\<exists>stored. store_all E run_id v (zip [n..<n + length cases] (zip cases (map run cases))) = Inr stored \<and>
    (\<forall>x \<in> set stored. (\<forall>row \<in> set (snd (snd x)). rs_item row = ri_id (fst x)) \<and> (case_passes (snd (snd x)) \<longleftrightarrow> faithful)) \<and>
    sum_list (map (co_errored \<circ> run) cases) = 0"
  using assms(1)
proof (induction cases arbitrary: n)
  case (Cons c cases)
  from Cons.IH [of "Suc n"] Cons.prems obtain stored where
    s: "store_all E run_id v (zip [Suc n..<Suc n + length cases] (zip cases (map run cases))) = Inr stored"
    "\<forall>x \<in> set stored. (\<forall>row \<in> set (snd (snd x)). rs_item row = ri_id (fst x)) \<and> (case_passes (snd (snd x)) \<longleftrightarrow> faithful)"
    "sum_list (map (co_errored \<circ> run) cases) = 0" by auto
  from demo_case [OF _ assms(2-4), of c E run_id "uuid E (Suc n)"] Cons.prems obtain item ts rows where
    h: "store_case E run_id v (uuid E (Suc n)) c (run c) = Inr (item, ts, rows)" "co_errored (run c) = 0"
    "ri_id item = uuid E (Suc n)" "\<forall>row \<in> set rows. rs_item row = uuid E (Suc n)" "case_passes rows \<longleftrightarrow> faithful"
    unfolding run_def by auto
  have r: "[n..<n + length (c # cases)] = n # [Suc n..<Suc n + length cases]"
    using upt_conv_Cons [of n "n + length (c # cases)"] by (simp del: upt_Suc)
  show ?case unfolding r using s h by (simp add: store_all_def del: upt_Suc)
qed (simp add: store_all_def)

text \<open>The result rows of one item among those of a whole run.\<close>

lemma own_rows:
  assumes "distinct (map (ri_id \<circ> fst) stored)"
    and "\<forall>x \<in> set stored. \<forall>row \<in> set (snd (snd x)). rs_item row = ri_id (fst x)" and "x \<in> set stored"
  shows "filter (\<lambda>row. rs_item row = ri_id (fst x)) (concat (map (snd \<circ> snd) stored)) = snd (snd x)"
  using assms
proof (induction stored)
  case (Cons y stored)
  show ?case
  proof (cases "x = y")
    case True
    have "filter (\<lambda>row. rs_item row = ri_id (fst y)) (concat (map (snd \<circ> snd) stored)) = []"
      using Cons.prems(1,2) by (auto simp: filter_empty_conv image_iff)
    moreover have "filter (\<lambda>row. rs_item row = ri_id (fst y)) (snd (snd y)) = snd (snd y)"
      using Cons.prems(2) by (simp add: filter_id_conv)
    ultimately show ?thesis by (simp add: True comp_def)
  next
    case False
    then have x: "x \<in> set stored" using Cons.prems(3) by simp
    then have "ri_id (fst x) \<noteq> ri_id (fst y)" using Cons.prems(1) by (auto simp: image_iff)
    then have "filter (\<lambda>row. rs_item row = ri_id (fst x)) (snd (snd y)) = []"
      using Cons.prems(2) by (auto simp: filter_empty_conv)
    then show ?thesis using Cons.IH x Cons.prems(1,2) by simp
  qed
qed simp

text \<open>
  A run of a demo version over demo cases, with identifiers that no stored item or result has: it completes, and
  every case passes, or every case fails.
\<close>

definition ids_fresh :: "service_env \<Rightarrow> db \<Rightarrow> bool" where
  "ids_fresh E s \<longleftrightarrow> inj (uuid E) \<and> (\<forall>r \<in> set (runs s). er_id r \<noteq> uuid E 0) \<and>
     (\<forall>i \<in> set (items s). ri_run i \<noteq> uuid E 0) \<and> (\<forall>row \<in> set (results s). \<forall>k. rs_item row \<noteq> uuid E (Suc k))"

definition demo_adapter_loads :: "service_env \<Rightarrow> bool" where
  "demo_adapter_loads E \<longleftrightarrow>
     load_adapter (import_module E) (conf (world E)) ''app.adapters.demo_rag'' = Inr demo_rag_run"

text \<open>What a run appends, as far as the comparison reads it.\<close>

definition run_added :: "service_env \<Rightarrow> bool \<Rightarrow> string list \<Rightarrow> run_row \<Rightarrow> item_row list \<Rightarrow> result_row list \<Rightarrow> bool" where
  "run_added E faithful case_ids run new rows \<longleftrightarrow>
     er_id run = uuid E 0 \<and> er_status run = RunCompleted \<and> map ri_case new = case_ids \<and>
     (\<forall>i \<in> set new. ri_run i = uuid E 0 \<and> (\<exists>k. ri_id i = uuid E (Suc k)) \<and>
        (case_passes (filter (\<lambda>row. rs_item row = ri_id i) rows) \<longleftrightarrow> faithful)) \<and>
     rs_item ` set rows \<subseteq> ri_id ` set new"

lemma demo_run:
  assumes ents: "tenant_version s org vid = Some v" "tenant_suite s org sid = Some suite" "tenant_config s org cid = Some ec"
      "av_app v = es_app suite" "vc_config ec = demo_evaluators" "av_adapter v = ''app.adapters.demo_rag''"
    and v: "0 < k" "demo_like k faithful (demo_latency faithful) (av_config v)"
    and cases: "load_suite_cases s sid None \<noteq> []" "\<forall>c \<in> set (load_suite_cases s sid None). demo_row c"
    and E: "ids_fresh E s" "demo_adapter_loads E"
  shows "\<exists>run new ts rows. execute_run E vid sid cid None org s = (Inr run, s\<lparr>runs := runs s @ [run],
      items := items s @ new, traces := traces s @ ts, results := results s @ rows\<rparr>) \<and>
    er_org run = org \<and> er_version run = vid \<and> er_suite run = sid \<and> er_config run = cid \<and>
    run_added E faithful (map ec_id (load_suite_cases s sid None)) run new rows"
proof -
  let ?cases = "load_suite_cases s sid None" and ?run = "run_case E demo_rag_run v ec"
  obtain stored where st: "store_all E (uuid E 0) v (zip [0..<length ?cases] (zip ?cases (map ?run ?cases))) = Inr stored"
    "\<forall>x \<in> set stored. \<forall>row \<in> set (snd (snd x)). rs_item row = ri_id (fst x)"
    "\<forall>x \<in> set stored. case_passes (snd (snd x)) \<longleftrightarrow> faithful" "sum_list (map (co_errored \<circ> ?run) ?cases) = 0"
    using demo_cases_stored [OF cases(2) v ents(5), of E "uuid E 0" 0] by auto
  from store_all_items [of E "uuid E 0" v 0 ?cases "map ?run ?cases" stored] st(1) have
    it: "map (ri_case \<circ> fst) stored = map ec_id ?cases" "\<forall>x \<in> set stored. ri_run (fst x) = uuid E 0"
    "map (ri_id \<circ> fst) stored = map (\<lambda>k. uuid E (Suc k)) [0..<length ?cases]" by simp_all
  have "inj (\<lambda>k. uuid E (Suc k))" using E(1) by (auto simp: ids_fresh_def inj_def)
  then have dist: "distinct (map (ri_id \<circ> fst) stored)" unfolding it(3) by (simp add: distinct_map inj_on_def inj_def)
  have own: "filter (\<lambda>row. rs_item row = ri_id (fst x)) (concat (map (snd \<circ> snd) stored)) = snd (snd x)"
    if "x \<in> set stored" for x using own_rows [OF dist st(2) that] .
  have ids: "\<exists>k. ri_id (fst x) = uuid E (Suc k)" if "x \<in> set stored" for x
  proof -
    from that have "ri_id (fst x) \<in> set (map (ri_id \<circ> fst) stored)" by auto
    then show ?thesis unfolding it(3) by auto
  qed
  have sel: "and_then (validate_selected_cases ?cases None) (\<lambda>_. load_adapter (import_module E) (conf (world E)) (av_adapter v)) =
      Inr demo_rag_run" using cases(1) E(2) by (simp add: validate_selected_cases_def demo_adapter_loads_def ents(6))
  have case_ids: "map ri_case (map fst stored) = map ec_id ?cases" using it(1) by simp
  have sub: "rs_item ` set (concat (map (snd \<circ> snd) stored)) \<subseteq> ri_id ` set (map fst stored)"
  proof
    fix i assume "i \<in> rs_item ` set (concat (map (snd \<circ> snd) stored))"
    then obtain x row where "x \<in> set stored" "row \<in> set (snd (snd x))" "i = rs_item row" by auto
    with st(2) show "i \<in> ri_id ` set (map fst stored)" by auto
  qed
  show ?thesis
    unfolding execute_run_def ents(1-3) prod.case option.case Let_def sel sum.case st(1)
    using ents(4) case_ids it(2) ids own st(3,4) sub
    by (intro exI [of _ "map fst stored"] exI [of _ "concat (map (fst \<circ> snd) stored)"]
        exI [of _ "concat (map (snd \<circ> snd) stored)"] exI conjI) (auto simp: comp_def run_added_def)
qed

section \<open>Two runs compared\<close>

definition envs_apart :: "service_env \<Rightarrow> service_env \<Rightarrow> bool" where
  "envs_apart EB EC \<longleftrightarrow> range (uuid EB) \<inter> range (uuid EC) = {}"

lemma envs_apart_uuid: "envs_apart EB EC \<Longrightarrow> uuid EB j \<noteq> uuid EC k" "envs_apart EB EC \<Longrightarrow> uuid EC j \<noteq> uuid EB k"
  by (metis IntI empty_iff envs_apart_def rangeI)+

lemma run_added_row:
  assumes "run_added E f cs run new rows" and "row \<in> set rows" shows "\<exists>k. rs_item row = uuid E (Suc k)"
proof -
  from assms have "rs_item row \<in> ri_id ` set new" by (auto simp: run_added_def)
  with assms(1) show ?thesis by (auto simp: run_added_def)
qed

lemma ids_fresh_after:
  assumes "ids_fresh EC s" and "run_added EB f cs run new rows" and "envs_apart EB EC"
  shows "ids_fresh EC (s\<lparr>runs := runs s @ [run], items := items s @ new, traces := ts, results := results s @ rows\<rparr>)"
proof -
  have "rs_item row \<noteq> uuid EC (Suc k)" if "row \<in> set rows" for k row
    using run_added_row [OF assms(2) that] envs_apart_uuid [OF assms(3)] by metis
  moreover have "er_id run \<noteq> uuid EC 0" "\<forall>i \<in> set new. ri_run i \<noteq> uuid EC 0"
    using assms(2) envs_apart_uuid(1) [OF assms(3)] by (auto simp: run_added_def)
  ultimately show ?thesis using assms(1) by (auto simp: ids_fresh_def)
qed

text \<open>The state after the two runs.\<close>

definition after_runs ::
  "db \<Rightarrow> run_row \<Rightarrow> item_row list \<Rightarrow> trace_row list \<Rightarrow> result_row list \<Rightarrow>
   run_row \<Rightarrow> item_row list \<Rightarrow> trace_row list \<Rightarrow> result_row list \<Rightarrow> db" where
  "after_runs s rb ib tb xb rc ic tc xc =
     s\<lparr>runs := (runs s @ [rb]) @ [rc], items := (items s @ ib) @ ic, traces := (traces s @ tb) @ tc,
       results := (results s @ xb) @ xc\<rparr>"

text \<open>A faithful run, then a failing one, over the same cases.\<close>

definition opposite_runs ::
  "service_env \<Rightarrow> service_env \<Rightarrow> db \<Rightarrow> string list \<Rightarrow> run_row \<Rightarrow> item_row list \<Rightarrow> result_row list \<Rightarrow>
   run_row \<Rightarrow> item_row list \<Rightarrow> result_row list \<Rightarrow> bool" where
  "opposite_runs EB EC s cs rb ib xb rc ic xc \<longleftrightarrow>
     ids_fresh EB s \<and> ids_fresh EC s \<and> envs_apart EB EC \<and> distinct cs \<and> cs \<noteq> [] \<and>
     run_added EB True cs rb ib xb \<and> run_added EC False cs rc ic xc"

lemma opposite_items:
  fixes tb tc :: "trace_row list"
  assumes "opposite_runs EB EC s cs rb ib xb rc ic xc"
  defines "s3 \<equiv> after_runs s rb ib tb xb rc ic tc xc"
  shows "filter (\<lambda>i. ri_run i = uuid EB 0) (items s3) = ib" and "filter (\<lambda>i. ri_run i = uuid EC 0) (items s3) = ic"
proof -
  note h = assms(1) [unfolded opposite_runs_def]
  have apart: "uuid EB 0 \<noteq> uuid EC 0" using h envs_apart_uuid(1) by blast
  have b: "\<forall>i \<in> set ib. ri_run i = uuid EB 0" and c: "\<forall>i \<in> set ic. ri_run i = uuid EC 0"
    using h by (simp_all add: run_added_def)
  have old: "filter (\<lambda>i. ri_run i = uuid EB 0) (items s) = []" "filter (\<lambda>i. ri_run i = uuid EC 0) (items s) = []"
    using h by (auto simp: ids_fresh_def intro!: filter_none)
  moreover have "filter (\<lambda>i. ri_run i = uuid EB 0) ib = ib" "filter (\<lambda>i. ri_run i = uuid EC 0) ic = ic"
    using b c by (simp_all add: filter_id_conv)
  moreover have "filter (\<lambda>i. ri_run i = uuid EC 0) ib = []" "filter (\<lambda>i. ri_run i = uuid EB 0) ic = []"
    using b c apart by (auto intro!: filter_none)
  ultimately show "filter (\<lambda>i. ri_run i = uuid EB 0) (items s3) = ib" and "filter (\<lambda>i. ri_run i = uuid EC 0) (items s3) = ic"
    by (simp_all add: s3_def after_runs_def)
qed

lemma opposite_results:
  fixes tb tc :: "trace_row list"
  assumes "opposite_runs EB EC s cs rb ib xb rc ic xc"
  defines "s3 \<equiv> after_runs s rb ib tb xb rc ic tc xc"
  shows "i \<in> set ib \<Longrightarrow> case_passes (results_of s3 i)" and "i \<in> set ic \<Longrightarrow> \<not> case_passes (results_of s3 i)"
proof -
  note h = assms(1) [unfolded opposite_runs_def]
  have b: "run_added EB True cs rb ib xb" and c: "run_added EC False cs rc ic xc" using h by simp_all
  show "case_passes (results_of s3 i)" if i: "i \<in> set ib"
  proof -
    from b i obtain k where k: "ri_id i = uuid EB (Suc k)" by (auto simp: run_added_def)
    have "filter (\<lambda>row. rs_item row = ri_id i) (results s) = []"
      using h k by (auto simp: ids_fresh_def intro!: filter_none)
    moreover have "filter (\<lambda>row. rs_item row = ri_id i) xc = []"
      using run_added_row [OF c] envs_apart_uuid(2) h k by (fastforce intro!: filter_none)
    ultimately show ?thesis using b i by (simp add: s3_def after_runs_def results_of_def run_added_def)
  qed
  show "\<not> case_passes (results_of s3 i)" if i: "i \<in> set ic"
  proof -
    from c i obtain k where k: "ri_id i = uuid EC (Suc k)" by (auto simp: run_added_def)
    have "filter (\<lambda>row. rs_item row = ri_id i) (results s) = []"
      using h k by (auto simp: ids_fresh_def intro!: filter_none)
    moreover have "filter (\<lambda>row. rs_item row = ri_id i) xb = []"
      using run_added_row [OF b] envs_apart_uuid(1) h k by (fastforce intro!: filter_none)
    ultimately show ?thesis using c i by (simp add: s3_def after_runs_def results_of_def run_added_def)
  qed
qed

lemma opposite_found:
  fixes tb tc :: "trace_row list"
  assumes "opposite_runs EB EC s cs rb ib xb rc ic xc" and "er_org rb = org" and "er_org rc = org"
  defines "s3 \<equiv> after_runs s rb ib tb xb rc ic tc xc"
  shows "tenant_run s3 org (uuid EB 0) = Some rb" and "tenant_run s3 org (uuid EC 0) = Some rc"
proof -
  note h = assms(1) [unfolded opposite_runs_def]
  have ids: "er_id rb = uuid EB 0" "er_id rc = uuid EC 0" using h by (simp_all add: run_added_def)
  have apart: "uuid EB 0 \<noteq> uuid EC 0" using h envs_apart_uuid(1) by blast
  have "find (\<lambda>r. er_id r = uuid EB 0 \<and> er_org r = org) (runs s) = None"
    "find (\<lambda>r. er_id r = uuid EC 0 \<and> er_org r = org) (runs s) = None"
    using h by (auto simp: ids_fresh_def intro!: find_none)
  then show "tenant_run s3 org (uuid EB 0) = Some rb" and "tenant_run s3 org (uuid EC 0) = Some rc"
    using apart ids assms(2,3) by (simp_all add: tenant_run_def s3_def after_runs_def find_append)
qed

text \<open>Compared under the default gates, the second is blocked.\<close>

lemma opposite_blocked:
  fixes tb tc :: "trace_row list"
  assumes runs: "opposite_runs EB EC s cs rb ib xb rc ic xc" "er_org rb = org" "er_org rc = org"
    and same: "er_suite rb = er_suite rc" "er_config rb = er_config rc"
    and app: "version_by_id s (er_version rb) = Some vb" "version_by_id s (er_version rc) = Some vc" "av_app vb = av_app vc"
    and "rng_ok (ce_rng E)"
  defines "s3 \<equiv> after_runs s rb ib tb xb rc ic tc xc"
  shows "\<exists>cmp rep s4 e. compute_comparison E (uuid EB 0) (uuid EC 0) None org s3 = (Inr (cmp, rep), s4) \<and>
    rp_verdict rep = ''fail'' \<and> dict_get ''pass_rate'' (rp_metrics rep) = Some (JObj e) \<and>
    dict_get ''baseline_point'' e = Some (JFloat (Fin 1)) \<and> dict_get ''candidate_point'' e = Some (JFloat (Fin 0))"
proof -
  note h = runs(1) [unfolded opposite_runs_def]
  note it = opposite_items [OF runs(1), of tb tc, folded s3_def]
  have ids: "map ri_case ib = cs" "map ri_case ic = cs" using h by (simp_all add: run_added_def)
  have cases: "case_ids_of s3 (uuid EB 0) = set cs" "case_ids_of s3 (uuid EC 0) = set cs"
    unfolding case_ids_of_def it ids by simp_all
  have "version_by_id s3 = version_by_id s" by (simp add: fun_eq_iff version_by_id_def s3_def after_runs_def)
  moreover have "finished rb" "finished rc" using h by (simp_all add: run_added_def finished_def)
  ultimately have checked: "check_runs s3 org (uuid EB 0) (uuid EC 0) = Inr ()"
    using opposite_found [OF runs, of tb tc, folded s3_def] same app cases by (simp add: check_runs_def)
  obtain g new where chosen: "choose_gate_rules E s3 org None = Inr (g, DEFAULT_GATE_RULES, new)"
    using default_chosen by blast
  from compute_comparison_total [OF assms(9) checked chosen] obtain cmp rep s4 where
    run: "compute_comparison E (uuid EB 0) (uuid EC 0) None org s3 = (Inr (cmp, rep), s4)" by blast
  then show ?thesis
  proof (cases rule: compute_comparison_Inr)
    case (1 gate_id rules new_rules metrics v reasons)
    have rules: "rules = DEFAULT_GATE_RULES" using 1(2) chosen by simp
    have dist: "\<forall>r \<in> {uuid EB 0, uuid EC 0}. distinct (map ri_case (filter (\<lambda>i. ri_run i = r) (items s3)))"
      using it ids h by simp
    have mem: "i \<in> set ib" if "i \<in> set (items s3)" "ri_run i = uuid EB 0" for i
      unfolding it(1) [symmetric] using that by simp
    have mem': "i \<in> set ic" if "i \<in> set (items s3)" "ri_run i = uuid EC 0" for i
      unfolding it(2) [symmetric] using that by simp
    have ne: "case_ids_of s3 (uuid EB 0) \<noteq> {}" "case_ids_of s3 (uuid EB 0) = case_ids_of s3 (uuid EC 0)"
      using h cases by simp_all
    have pass: "\<forall>i \<in> set (items s3). ri_run i = uuid EB 0 \<longrightarrow> case_passes (results_of s3 i)"
      and fail: "\<forall>i \<in> set (items s3). ri_run i = uuid EC 0 \<longrightarrow> \<not> case_passes (results_of s3 i)"
      using opposite_results [OF runs(1), of _ tb tc, folded s3_def] mem mem' by blast+
    note rep = opposite_report [OF assms(9) dist pass fail ne(2,1) 1(3)]
    from gate_verdict [OF assms(9) default_gates_valid [of "ce_repr E"]] 1(3) 1(4) [unfolded rules] obtain rs where
      rs: "DEFAULT_GATE_RULES = map rule_json rs" "v = verdict_name (worst (map (spec_of metrics) rs))"
      by (metis prod.inject sum.inject(2))
    have "rs = default_rules" using rs(1) unfolding default_rules_normal(1)
      by (rule map_injective [OF _ rule_json_inj, symmetric])
    with rs(2) opposite_verdict rep have "v = ''fail''" by simp
    with rep run 1(5,6) show ?thesis by auto
  qed
qed

section \<open>The demo project, run and compared\<close>

definition demo_ready :: "demo_ids \<Rightarrow> nat \<Rightarrow> db \<Rightarrow> bool" where
  "demo_ready I k s \<longleftrightarrow>
     (\<exists>b c suite ec. let D = DEFAULT_ORGANIZATION_ID; cases = load_suite_cases s (di_suite I) None in
        tenant_version s D (di_baseline I) = Some b \<and> version_by_id s (di_baseline I) = Some b \<and>
        tenant_version s D (di_candidate I) = Some c \<and> version_by_id s (di_candidate I) = Some c \<and>
        tenant_suite s D (di_suite I) = Some suite \<and> tenant_config s D (di_config I) = Some ec \<and>
        av_app b = es_app suite \<and> av_app c = es_app suite \<and> vc_config ec = demo_evaluators \<and>
        av_adapter b = ''app.adapters.demo_rag'' \<and> av_adapter c = ''app.adapters.demo_rag'' \<and>
        demo_like k True 120 (av_config b) \<and> demo_like k False 260 (av_config c) \<and>
        cases \<noteq> [] \<and> (\<forall>x \<in> set cases. demo_row x) \<and> distinct (map ec_id cases))"

definition cycle_ready :: "service_env \<Rightarrow> service_env \<Rightarrow> 'g compare_env \<Rightarrow> db \<Rightarrow> bool" where
  "cycle_ready EB EC E s \<longleftrightarrow> ids_fresh EB s \<and> ids_fresh EC s \<and> envs_apart EB EC \<and> demo_adapter_loads EB \<and>
     demo_adapter_loads EC \<and> rng_ok (ce_rng E)"

lemma demo_cycle:
  assumes "demo_ready I k s" and "0 < k" and "cycle_ready EB EC E s"
  shows "\<exists>rb s2 rc s3 cmp rep s4 e.
    execute_run EB (di_baseline I) (di_suite I) (di_config I) None DEFAULT_ORGANIZATION_ID s = (Inr rb, s2) \<and>
    execute_run EC (di_candidate I) (di_suite I) (di_config I) None DEFAULT_ORGANIZATION_ID s2 = (Inr rc, s3) \<and>
    compute_comparison E (er_id rb) (er_id rc) None DEFAULT_ORGANIZATION_ID s3 = (Inr (cmp, rep), s4) \<and>
    er_status rb = RunCompleted \<and> er_status rc = RunCompleted \<and> rp_verdict rep = ''fail'' \<and>
    dict_get ''pass_rate'' (rp_metrics rep) = Some (JObj e) \<and>
    dict_get ''baseline_point'' e = Some (JFloat (Fin 1)) \<and> dict_get ''candidate_point'' e = Some (JFloat (Fin 0)) \<and>
    apps s4 = apps s"
proof -
  let ?D = DEFAULT_ORGANIZATION_ID and ?cases = "load_suite_cases s (di_suite I) None"
  note env = assms(3) [unfolded cycle_ready_def]
  from assms(1) obtain b c suite ec where r: "tenant_version s ?D (di_baseline I) = Some b"
    "version_by_id s (di_baseline I) = Some b" "tenant_version s ?D (di_candidate I) = Some c"
    "version_by_id s (di_candidate I) = Some c" "tenant_suite s ?D (di_suite I) = Some suite"
    "tenant_config s ?D (di_config I) = Some ec" "av_app b = es_app suite" "av_app c = es_app suite"
    "vc_config ec = demo_evaluators" "av_adapter b = ''app.adapters.demo_rag''" "av_adapter c = ''app.adapters.demo_rag''"
    "demo_like k True 120 (av_config b)" "demo_like k False 260 (av_config c)" "?cases \<noteq> []"
    "\<forall>x \<in> set ?cases. demo_row x" "distinct (map ec_id ?cases)"
    by (auto simp: demo_ready_def Let_def)
  have like: "demo_like k True (demo_latency True) (av_config b)" "demo_like k False (demo_latency False) (av_config c)"
    using r(12,13) by (simp_all add: demo_latency_def)
  from demo_run [OF r(1,5,6,7,9,10) assms(2) like(1) r(14,15)] env obtain rb ib tb xb where
    run1: "execute_run EB (di_baseline I) (di_suite I) (di_config I) None ?D s = (Inr rb, s\<lparr>runs := runs s @ [rb],
      items := items s @ ib, traces := traces s @ tb, results := results s @ xb\<rparr>)"
    and b: "er_org rb = ?D" "er_version rb = di_baseline I" "er_suite rb = di_suite I" "er_config rb = di_config I"
    and addb: "run_added EB True (map ec_id ?cases) rb ib xb"
    by blast
  define s2 where "s2 = s\<lparr>runs := runs s @ [rb], items := items s @ ib, traces := traces s @ tb, results := results s @ xb\<rparr>"
  have keep: "tenant_version s2 = tenant_version s" "tenant_suite s2 = tenant_suite s" "tenant_config s2 = tenant_config s"
    "load_suite_cases s2 = load_suite_cases s"
    by (simp_all add: fun_eq_iff s2_def tenant_version_def tenant_suite_def tenant_config_def app_in_org_def
      load_suite_cases_def in_suite_def)
  have fresh: "ids_fresh EC s2" unfolding s2_def using ids_fresh_after [OF _ addb] env by blast
  from demo_run [of s2 ?D "di_candidate I" c "di_suite I" suite "di_config I" ec k False EC] r(3,5,6,8,9,11,14,15) like(2)
    assms(2) fresh env obtain rc ic tc xc where
    run2: "execute_run EC (di_candidate I) (di_suite I) (di_config I) None ?D s2 = (Inr rc, s2\<lparr>runs := runs s2 @ [rc],
      items := items s2 @ ic, traces := traces s2 @ tc, results := results s2 @ xc\<rparr>)"
    and c: "er_org rc = ?D" "er_version rc = di_candidate I" "er_suite rc = di_suite I" "er_config rc = di_config I"
    and addc: "run_added EC False (map ec_id ?cases) rc ic xc"
    unfolding keep by blast
  have opp: "opposite_runs EB EC s (map ec_id ?cases) rb ib xb rc ic xc"
    using env addb addc r(14,16) by (simp add: opposite_runs_def)
  have s3: "s2\<lparr>runs := runs s2 @ [rc], items := items s2 @ ic, traces := traces s2 @ tc, results := results s2 @ xc\<rparr> =
      after_runs s rb ib tb xb rc ic tc xc"
    by (simp add: s2_def after_runs_def)
  have "version_by_id s (er_version rb) = Some b" "version_by_id s (er_version rc) = Some c" "av_app b = av_app c"
    "er_suite rb = er_suite rc" "er_config rb = er_config rc" using r b c by simp_all
  with opposite_blocked [OF opp b(1) c(1), of b c E tb tc] env obtain cmp rep s4 e where
    cmp: "compute_comparison E (uuid EB 0) (uuid EC 0) None ?D (after_runs s rb ib tb xb rc ic tc xc) = (Inr (cmp, rep), s4)"
    and rep: "rp_verdict rep = ''fail''" "dict_get ''pass_rate'' (rp_metrics rep) = Some (JObj e)"
    "dict_get ''baseline_point'' e = Some (JFloat (Fin 1))" "dict_get ''candidate_point'' e = Some (JFloat (Fin 0))" by blast
  have "apps s4 = apps s" using cmp by (cases rule: compute_comparison_Inr) (simp add: after_runs_def)
  moreover have "er_id rb = uuid EB 0" "er_id rc = uuid EC 0" "er_status rb = RunCompleted" "er_status rc = RunCompleted"
    using addb addc by (simp_all add: run_added_def)
  ultimately show ?thesis using run1 [folded s2_def] run2 [unfolded s3] cmp rep
    by (intro exI [of _ rb] exI [of _ s2] exI [of _ rc] exI [of _ "after_runs s rb ib tb xb rc ic tc xc"]
        exI [of _ cmp] exI [of _ rep] exI [of _ s4] exI [of _ e]) simp
qed

section \<open>The stored project\<close>

definition demo_fresh :: "demo_ids \<Rightarrow> db \<Rightarrow> bool" where
  "demo_fresh I s \<longleftrightarrow> di_baseline I \<noteq> di_candidate I \<and> inj (di_case I) \<and>
     (\<forall>v \<in> set (versions s). av_id v \<noteq> di_baseline I \<and> av_id v \<noteq> di_candidate I) \<and>
     (\<forall>x \<in> set (suites s). es_id x \<noteq> di_suite I) \<and> (\<forall>c \<in> set (evaluator_configs s). vc_id c \<noteq> di_config I) \<and>
     (\<forall>c \<in> set (eval_cases s). \<forall>k. ec_id c \<noteq> di_case I k) \<and> (\<forall>l \<in> set (suite_cases s). sc_suite l \<noteq> di_suite I)"

lemma demo_case_rows_map:
  "demo_case_rows I n = map (\<lambda>k. \<lparr>ec_id = di_case I k, ec_external = Some (demo_external_id k),
     ec_payload = demo_payload (BASE_DOCS ! (k mod length BASE_DOCS)) (tag_for_index k), ec_created = di_created I k\<rparr>) [0..<n]"
proof -
  have "enumerate 0 (map f [0..<n]) = map (\<lambda>k. (k, f k)) [0..<n]" for f :: "nat \<Rightarrow> string \<times> dict"
    by (rule nth_equalityI) (simp_all add: nth_enumerate_eq)
  then show ?thesis by (simp add: demo_case_rows_def build_eval_cases_def comp_def)
qed

lemma demo_cases_loaded:
  assumes "demo_fresh I s" and "eval_cases s1 = eval_cases s @ demo_case_rows I n"
    and "suite_cases s1 = suite_cases s @ demo_links I n"
  shows "load_suite_cases s1 (di_suite I) None = sort_key ec_created (demo_case_rows I n)"
proof -
  have member: "in_suite s1 (di_suite I) i \<longleftrightarrow> (\<exists>k < n. i = di_case I k)" for i
  proof -
    have "\<not> list_ex (\<lambda>l. sc_suite l = di_suite I \<and> sc_case l = i) (suite_cases s)"
      using assms(1) by (auto simp: list_ex_iff demo_fresh_def)
    moreover have "list_ex (\<lambda>l. sc_suite l = di_suite I \<and> sc_case l = i) (demo_links I n) \<longleftrightarrow> (\<exists>k < n. i = di_case I k)"
      by (auto simp: list_ex_iff demo_links_def)
    ultimately show ?thesis by (simp add: in_suite_def assms(3))
  qed
  have "filter (\<lambda>c. in_suite s1 (di_suite I) (ec_id c)) (eval_cases s) = []"
    using assms(1) by (intro filter_none) (auto simp: member demo_fresh_def)
  moreover have "filter (\<lambda>c. in_suite s1 (di_suite I) (ec_id c)) (demo_case_rows I n) = demo_case_rows I n"
    by (auto simp: filter_id_conv member demo_case_rows_map)
  ultimately show ?thesis by (simp add: load_suite_cases_def assms(2))
qed

lemma demo_cases_ok:
  assumes "inj (di_case I)" and "0 < n"
  defines "cases \<equiv> sort_key ec_created (demo_case_rows I n)"
  shows "cases \<noteq> []" and "\<forall>c \<in> set cases. demo_row c" and "distinct (map ec_id cases)"
proof -
  have "length cases = n" by (simp add: cases_def demo_case_rows_map)
  with assms(2) show "cases \<noteq> []" by auto
  have "BASE_DOCS ! (k mod length BASE_DOCS) \<in> set BASE_DOCS" for k by (rule nth_mem) (simp add: BASE_DOCS_def)
  then have "demo_row \<lparr>ec_id = i, ec_external = x, ec_payload = demo_payload (BASE_DOCS ! (k mod length BASE_DOCS)) t,
      ec_created = m\<rparr>" for i x k t m by (auto simp: demo_row_def simp del: split_paired_Ex)
  then show "\<forall>c \<in> set cases. demo_row c" by (auto simp: cases_def demo_case_rows_map)
  have "mset (map ec_id cases) = mset (map ec_id (demo_case_rows I n))" by (simp add: cases_def)
  moreover have "distinct (map ec_id (demo_case_rows I n))"
    using assms(1) by (simp add: demo_case_rows_map comp_def distinct_map inj_on_def inj_def)
  ultimately show "distinct (map ec_id cases)" by (metis mset_eq_imp_distinct_iff)
qed

lemma project_ready:
  assumes "demo_fresh I s" and "0 < n"
    and "eval_cases s1 = eval_cases s @ demo_case_rows I n" and "suite_cases s1 = suite_cases s @ demo_links I n"
    and "versions s1 = versions s @ [demo_version I (di_baseline I) nb cb, demo_version I (di_candidate I) nc cc]"
    and "suites s1 = suites s @ [suite]" and "es_id suite = di_suite I" and "es_app suite = di_app I"
    and "evaluator_configs s1 = evaluator_configs s @ [config_row I]"
    and "apps s1 = apps s @ [app]" and "ap_id app = di_app I" and "ap_org app = DEFAULT_ORGANIZATION_ID"
    and "demo_like k True 120 cb" and "demo_like k False 260 cc"
  shows "demo_ready I k s1"
proof -
  have app: "app_in_org s1 DEFAULT_ORGANIZATION_ID (di_app I)" using assms(10-12) by (simp add: app_in_org_def)
  note f = assms(1) [unfolded demo_fresh_def]
  have none: "find (\<lambda>v. av_id v = di_baseline I \<and> P v) (versions s) = None" "find (\<lambda>v. av_id v = di_candidate I \<and> P v) (versions s) = None"
    for P using f by (auto intro!: find_none)
  have none': "find (\<lambda>v. av_id v = di_baseline I) (versions s) = None" "find (\<lambda>v. av_id v = di_candidate I) (versions s) = None"
    "find (\<lambda>x. es_id x = di_suite I \<and> Q x) (suites s) = None" "find (\<lambda>x. vc_id x = di_config I \<and> R x) (evaluator_configs s) = None"
    for Q R using f by (auto intro!: find_none)
  note cases = demo_cases_loaded [OF assms(1,3,4)] demo_cases_ok [OF _ assms(2), of I]
  show ?thesis
    unfolding demo_ready_def Let_def cases(1) tenant_version_def version_by_id_def tenant_suite_def tenant_config_def
      assms(5,6,9) find_append none none' option.case
    using app f cases(2-4) assms(7,8,13,14) by (simp add: demo_version_def config_row_def)
qed

lemma HALLUCINATE_like:
  "demo_like k True l (demo_config k [] l)" "demo_like k False l (demo_config k HALLUCINATE l)"
  "demo_like 3 False l ([(''top_k'', JInt 3), (''corpus'', build_demo_corpus), (''latency_ms'', JInt l)] @ HALLUCINATE)"
  by (simp_all add: demo_like_def demo_config_def HALLUCINATE_def)

lemma scenario_ready:
  assumes "demo_fresh I s" and "0 < n" and "scenario_db I n s = Inr s1"
  shows "demo_ready I 1 s1" and "runs s1 = runs s \<and> items s1 = items s \<and> results s1 = results s"
proof -
  note s1 = assms(3) [unfolded scenario_db_def, simplified]
  show "demo_ready I 1 s1"
    by (rule project_ready [OF assms(1,2)]) (use s1 HALLUCINATE_like in \<open>auto split: if_splits\<close>)
  show "runs s1 = runs s \<and> items s1 = items s \<and> results s1 = results s" using s1 by (auto split: if_splits)
qed

lemma seed_ready:
  assumes "demo_fresh I s" and "0 < n" and "seed_db I n s = Inr s1"
  shows "demo_ready I 3 s1" and "runs s1 = runs s \<and> items s1 = items s \<and> results s1 = results s" and "has_app s1 ''demo-rag''"
proof -
  note s1 = assms(3) [unfolded seed_db_def, simplified]
  show "demo_ready I 3 s1"
    by (rule project_ready [OF assms(1,2)]) (use s1 HALLUCINATE_like in \<open>auto split: if_splits\<close>)
  show "runs s1 = runs s \<and> items s1 = items s \<and> results s1 = results s" and "has_app s1 ''demo-rag''"
    using s1 by (auto simp: has_app_def split: if_splits)
qed

lemma cycle_ready_cong:
  "runs s1 = runs s \<and> items s1 = items s \<and> results s1 = results s \<Longrightarrow> cycle_ready EB EC E s1 = cycle_ready EB EC E s"
  by (simp add: cycle_ready_def ids_fresh_def)

text \<open>The summary of a stored report never misses a metric.\<close>

lemma two_points_total:
  assumes "compute_comparison E b c gid org s = (Inr (cmp, rep), s')" and "rng_ok (ce_rng E)"
    and "metric \<in> set (map fst DEFAULT_GATE_RULES)"
  shows "\<exists>q. two_points (rp_metrics rep) metric = Inr q"
  using assms(1)
proof (cases rule: compute_comparison_Inr)
  case (1 gate_id rules new_rules metrics v reasons)
  from report_ok [OF assms(2)] 1(3) assms(3) have "deltas_ok metrics metric" by (metis sum.inject(2))
  then obtain j where j: "dict_get metric metrics = Some j" by (auto simp: deltas_ok_def report_deltas_def split: option.splits)
  from report_entry [OF 1(3) map_of_SomeD [OF j]] obtain e st x y where e: "j = JObj e" "metric_entry (ce_rng E) st x y = Inr e"
    by blast
  from entry_floats [OF e(2), of "''baseline_point''"] entry_floats [OF e(2), of "''candidate_point''"] show ?thesis
    by (auto simp: 1(5) two_points_def point_of_def key_of_def j e(1) subscript_def)
qed

section \<open>Properties\<close>

lemma demo_scenario_outcome:
  assumes "0 < n" and "\<not> has_app s ''demo-rag''" and "\<not> has_config s ''default-rag''" and "demo_fresh I s"
    and "cycle_ready EB EC E s" and "elapsed \<noteq> 0"
  shows "\<exists>sm s' e. run_demo_scenario I EB EC E elapsed n s = (Inr sm, s') \<and>
    ss_case_count sm = n \<and> ss_total_case_executions sm = 2 * n \<and>
    ss_baseline_status sm = RunCompleted \<and> ss_candidate_status sm = RunCompleted \<and> ss_gate_verdict sm = ''fail'' \<and>
    dict_get ''pass_rate'' (ss_metrics sm) = Some (JObj e) \<and>
    dict_get ''baseline_point'' e = Some (JFloat (Fin 1)) \<and> dict_get ''candidate_point'' e = Some (JFloat (Fin 0))"
proof -
  obtain s1 where s1: "scenario_db I n s = Inr s1" using assms(2,3) by (simp add: scenario_db_def)
  note ready = scenario_ready [OF assms(4,1) s1]
  from demo_cycle [OF ready(1) _ assms(5) [folded cycle_ready_cong [OF ready(2)]]] show ?thesis
    using assms(6) by (auto simp: run_demo_scenario_def s1 Let_def)
qed

text \<open>C10: The demo's promise, for any number of cases and in any database: when the two names it takes are free and
  the identifiers it draws are new, the scenario returns; both runs complete, every case passes for the
  faithful version and fails for the hallucinating one, and the gate blocks the release.\<close>

theorem demo_scenario_blocks_release:
  assumes "0 < n" and "\<not> has_app s ''demo-rag''" and "\<not> has_config s ''default-rag''" and "demo_fresh I s"
    and "cycle_ready EB EC E s" and "elapsed \<noteq> 0"
  shows "\<exists>sm s' e. run_demo_scenario I EB EC E elapsed n s = (Inr sm, s') \<and>
    ss_case_count sm = n \<and> ss_total_case_executions sm = 2 * n \<and>
    ss_baseline_status sm = RunCompleted \<and> ss_candidate_status sm = RunCompleted \<and> ss_gate_verdict sm = ''fail'' \<and>
    dict_get ''pass_rate'' (ss_metrics sm) = Some (JObj e) \<and>
    dict_get ''baseline_point'' e = Some (JFloat (Fin 1)) \<and> dict_get ''candidate_point'' e = Some (JFloat (Fin 0))"
  using assms by (rule demo_scenario_outcome)

text \<open>C19: Seeding in process does the same with its own project, and reports the two points of the pass rate; a
  second seed of the database it leaves, with any mode and any identifiers, raises and changes nothing.\<close>

theorem seed_once:
  assumes "0 < n" and "seed_db I n s = Inr s1" and "demo_fresh I s"
    and "cycle_ready (cli_baseline E) (cli_candidate E) (cli_compare E) s"
  shows "\<exists>sm s' q. seed_everything E I n ''sync'' s = Some (Inr sm, s') \<and>
    sd_baseline_status sm = RunCompleted \<and> sd_candidate_status sm = RunCompleted \<and> sd_gate_verdict sm = ''fail'' \<and>
    sd_metrics sm = [(''pass_rate'', JObj [(''baseline_point'', JFloat (Fin 1)), (''candidate_point'', JFloat (Fin 0))]), q] \<and>
    (\<forall>E' I' n' mode. mode \<in> {''sync'', ''celery''} \<longrightarrow>
       seed_everything E' I' n' mode s' = Some (Inl (Exn IntegrityErr ''uq_apps_organization_id_name''), s'))"
proof -
  let ?D = DEFAULT_ORGANIZATION_ID
  note ready = seed_ready [OF assms(3,1,2)]
  from demo_cycle [OF ready(1) _ assms(4) [folded cycle_ready_cong [OF ready(2)]]] obtain rb s2 rc s3 cmp rep s4 e where
    b: "execute_run (cli_baseline E) (di_baseline I) (di_suite I) (di_config I) None ?D s1 = (Inr rb, s2)"
    and c: "execute_run (cli_candidate E) (di_candidate I) (di_suite I) (di_config I) None ?D s2 = (Inr rc, s3)"
    and cmp: "compute_comparison (cli_compare E) (er_id rb) (er_id rc) None ?D s3 = (Inr (cmp, rep), s4)"
    and out: "er_status rb = RunCompleted" "er_status rc = RunCompleted" "rp_verdict rep = ''fail''"
    "dict_get ''pass_rate'' (rp_metrics rep) = Some (JObj e)" "dict_get ''baseline_point'' e = Some (JFloat (Fin 1))"
    "dict_get ''candidate_point'' e = Some (JFloat (Fin 0))" "apps s4 = apps s1" by auto
  have rng: "rng_ok (ce_rng (cli_compare E))" using assms(4) by (simp add: cycle_ready_def)
  obtain q where q: "two_points (rp_metrics rep) ''semantic_similarity'' = Inr q"
    using two_points_total [OF cmp rng, of "''semantic_similarity''"] by (auto simp: DEFAULT_GATE_RULES_def)
  have p: "two_points (rp_metrics rep) ''pass_rate'' =
      Inr (''pass_rate'', JObj [(''baseline_point'', JFloat (Fin 1)), (''candidate_point'', JFloat (Fin 0))])"
    using out by (simp add: two_points_def point_of_def key_of_def subscript_def)
  have taken: "has_app s4 ''demo-rag''" using ready(3) out(7) by (simp add: has_app_def)
  have "seed_everything E' I' n' mode s4 = Some (Inl (Exn IntegrityErr ''uq_apps_organization_id_name''), s4)"
    if "mode \<in> {''sync'', ''celery''}" for E' :: "'b cli_env" and I' n' mode
    using that taken by (auto simp: seed_everything_def seed_db_def)
  then show ?thesis
    unfolding seed_everything_def seed_run_def assms(2) using out p q by (simp add: b c cmp)
qed

section \<open>Witnesses\<close>

definition demo_ids_sample :: demo_ids where
  "demo_ids_sample = \<lparr>di_app = ''ap'', di_config = ''cf'', di_gate = ''g'', di_baseline = ''v1'', di_candidate = ''v2'',
     di_suite = ''su'', di_case = (\<lambda>k. replicate k CHR ''x''), di_now = 0, di_created = int\<rparr>"

definition demo_env_sample :: "char \<Rightarrow> service_env" where
  "demo_env_sample c = sample_env\<lparr>import_module := (\<lambda>_. Inr (Some demo_rag_run)), uuid := (\<lambda>k. c # replicate k CHR ''x'')\<rparr>"

lemma demo_sample_fresh: "demo_fresh demo_ids_sample empty_db"
  by (simp add: demo_fresh_def demo_ids_sample_def empty_db_def inj_def)

lemma demo_sample_loads: "demo_adapter_loads (demo_env_sample c)"
proof -
  have "''app.adapters.demo_rag'' \<in> set (comma_list (allowed_adapter_modules (conf (world sample_env))))"
    by code_simp
  then show ?thesis by (simp add: demo_adapter_loads_def load_adapter_def validate_adapter_module_def demo_env_sample_def)
qed

lemma demo_sample_ready: "cycle_ready (demo_env_sample CHR ''b'') (demo_env_sample CHR ''c'') sample_compare_env empty_db"
proof -
  have "envs_apart (demo_env_sample CHR ''b'') (demo_env_sample CHR ''c'')"
    by (auto simp: envs_apart_def demo_env_sample_def)
  moreover have "ids_fresh (demo_env_sample c) empty_db" for c
    by (simp add: ids_fresh_def demo_env_sample_def empty_db_def inj_def)
  ultimately show ?thesis by (simp add: cycle_ready_def demo_sample_loads sample_compare_env_def cycle_rng_ok)
qed

lemma demo_names_free: "\<not> has_app empty_db n" "\<not> has_config empty_db n" "\<not> has_gate_rule empty_db n"
  by (simp_all add: has_app_def has_config_def has_gate_rule_def empty_db_def)

lemma demo_scenario_blocks_release_witness:
  "\<exists>sm s'. run_demo_scenario demo_ids_sample (demo_env_sample CHR ''b'') (demo_env_sample CHR ''c'') sample_compare_env 2 500
      empty_db = (Inr sm, s') \<and> ss_gate_verdict sm = ''fail''"
  using demo_scenario_blocks_release [OF _ demo_names_free(1,2) demo_sample_fresh demo_sample_ready, of 500 2] by auto

lemma seed_once_witness:
  "\<exists>E sm s'. seed_everything (E :: nat cli_env) demo_ids_sample 500 ''sync'' empty_db = Some (Inr sm, s') \<and>
     sd_gate_verdict sm = ''fail'' \<and>
     seed_everything E demo_ids_sample 500 ''celery'' s' = Some (Inl (Exn IntegrityErr ''uq_apps_organization_id_name''), s')"
proof -
  define E where "E = cycle_env\<lparr>cli_baseline := demo_env_sample CHR ''b'', cli_candidate := demo_env_sample CHR ''c''\<rparr>"
  have ready: "cycle_ready (cli_baseline E) (cli_candidate E) (cli_compare E) empty_db"
    using demo_sample_ready by (simp add: E_def cycle_env_def)
  obtain s1 where "seed_db demo_ids_sample 500 empty_db = Inr s1" by (simp add: seed_db_def demo_names_free)
  from seed_once [OF _ this demo_sample_fresh ready] show ?thesis by fastforce
qed

end
