(* ===== verification/Migrations.thy ===== *)
theory Migrations imports Entities begin

text \<open>
  The schema: the migrations of \<open>backend/migrations/versions\<close> as sequences of DDL statements on a catalogue, and the
  tables that \<open>backend/app/models/entities.py\<close> declares. A statement fails as it does in PostgreSQL: on a name already
  taken, on a name that does not exist, and on dropping what a foreign key needs. Extensions and server defaults are
  left out.
\<close>

section \<open>Catalogues\<close>

datatype column_type =
    VarChar nat | TextType | TimestampTz | JsonType | IntegerType | NumericType nat nat | BooleanType | VectorType nat

datatype fkey = FKey (fk_table: string) (fk_column: string) (fk_cascade: bool)

datatype column =
  Column (cl_name: string) (cl_type: column_type) (cl_nullable: bool) (cl_primary: bool) (cl_ref: "fkey option")

text \<open>
  Unique constraints as name and columns; checks as name, column and admitted values; indexes as name, columns and
  uniqueness; the foreign keys that have a name of their own as name, column and target.
\<close>

record table =
  tb_columns :: "column list"
  tb_uniques :: "(string \<times> string list) list"
  tb_checks :: "(string \<times> string \<times> string list) list"
  tb_indexes :: "(string \<times> string list \<times> bool) list"
  tb_keys :: "(string \<times> string \<times> fkey) list"

definition new_table ::
  "column list \<Rightarrow> (string \<times> string list) list \<Rightarrow> (string \<times> string \<times> string list) list \<Rightarrow> table" where
  "new_table cols uniques checks =
     \<lparr>tb_columns = cols, tb_uniques = uniques, tb_checks = checks, tb_indexes = [], tb_keys = []\<rparr>"

type_synonym catalogue = "(string \<times> table) list"

datatype ddl_error = Duplicate string | Undefined string | Dependent string

type_synonym ddl = "catalogue \<Rightarrow> ddl_error + catalogue"

definition column_names :: "table \<Rightarrow> string list" where
  "column_names tb = map cl_name (tb_columns tb)"

definition relation_names :: "catalogue \<Rightarrow> string list" where
  "relation_names cat =
     concat (map (\<lambda>(t, tb). t # map fst (tb_uniques tb) @ map fst (tb_indexes tb)) cat)"

definition has_column :: "catalogue \<Rightarrow> string \<Rightarrow> string \<Rightarrow> bool" where
  "has_column cat t c = (case map_of cat t of None \<Rightarrow> False | Some tb \<Rightarrow> c \<in> set (column_names tb))"

text \<open>Every foreign key of a table, as column and target.\<close>

definition references :: "table \<Rightarrow> (string \<times> fkey) list" where
  "references tb =
     concat (map (\<lambda>c. case cl_ref c of None \<Rightarrow> [] | Some f \<Rightarrow> [(cl_name c, f)]) (tb_columns tb)) @ map snd (tb_keys tb)"

section \<open>Statements\<close>

definition on_table :: "string \<Rightarrow> (table \<Rightarrow> ddl_error + table) \<Rightarrow> ddl" where
  "on_table t f cat =
     (case map_of cat t of
        None \<Rightarrow> Inl (Undefined t)
      | Some tb \<Rightarrow> and_then (f tb) (\<lambda>tb'. Inr (map (\<lambda>(n, x). (n, if n = t then tb' else x)) cat)))"

definition create_table :: "string \<Rightarrow> table \<Rightarrow> ddl" where
  "create_table t tb cat =
     (let names = t # map fst (tb_uniques tb);
          missing = filter (\<lambda>(c, f). \<not> has_column (cat @ [(t, tb)]) (fk_table f) (fk_column f)) (references tb) in
      case filter (\<lambda>n. n \<in> set (relation_names cat)) names of
        n # _ \<Rightarrow> Inl (Duplicate n)
      | [] \<Rightarrow> (case missing of (c, f) # _ \<Rightarrow> Inl (Undefined (fk_table f)) | [] \<Rightarrow> Inr (cat @ [(t, tb)])))"

definition drop_table :: "string \<Rightarrow> ddl" where
  "drop_table t cat =
     (if t \<notin> set (map fst cat) then Inl (Undefined t)
      else if list_ex (\<lambda>(n, tb). n \<noteq> t \<and> list_ex (\<lambda>(c, f). fk_table f = t) (references tb)) cat then Inl (Dependent t)
      else Inr (filter (\<lambda>(n, tb). n \<noteq> t) cat))"

definition create_index :: "string \<Rightarrow> string \<Rightarrow> string list \<Rightarrow> bool \<Rightarrow> ddl" where
  "create_index i t cols unique cat =
     (if i \<in> set (relation_names cat) then Inl (Duplicate i)
      else on_table t (\<lambda>tb.
        case filter (\<lambda>c. c \<notin> set (column_names tb)) cols of
          c # _ \<Rightarrow> Inl (Undefined c)
        | [] \<Rightarrow> Inr (tb\<lparr>tb_indexes := tb_indexes tb @ [(i, cols, unique)]\<rparr>)) cat)"

definition drop_index :: "string \<Rightarrow> ddl" where
  "drop_index i cat =
     (if i \<notin> set (concat (map (\<lambda>(t, tb). map fst (tb_indexes tb)) cat)) then Inl (Undefined i)
      else Inr (map (\<lambda>(t, tb). (t, tb\<lparr>tb_indexes := filter (\<lambda>x. fst x \<noteq> i) (tb_indexes tb)\<rparr>)) cat))"

definition create_unique_constraint :: "string \<Rightarrow> string \<Rightarrow> string list \<Rightarrow> ddl" where
  "create_unique_constraint u t cols cat =
     (if u \<in> set (relation_names cat) then Inl (Duplicate u)
      else on_table t (\<lambda>tb.
        case filter (\<lambda>c. c \<notin> set (column_names tb)) cols of
          c # _ \<Rightarrow> Inl (Undefined c)
        | [] \<Rightarrow> Inr (tb\<lparr>tb_uniques := tb_uniques tb @ [(u, cols)]\<rparr>)) cat)"

definition drop_constraint :: "string \<Rightarrow> string \<Rightarrow> ddl" where
  "drop_constraint n t =
     on_table t (\<lambda>tb.
       if n \<notin> set (map fst (tb_uniques tb)) \<union> set (map fst (tb_keys tb)) then Inl (Undefined n)
       else Inr (tb\<lparr>tb_uniques := filter (\<lambda>x. fst x \<noteq> n) (tb_uniques tb), tb_keys := filter (\<lambda>x. fst x \<noteq> n) (tb_keys tb)\<rparr>))"

definition add_column :: "string \<Rightarrow> column \<Rightarrow> ddl" where
  "add_column t c =
     on_table t (\<lambda>tb.
       if cl_name c \<in> set (column_names tb) then Inl (Duplicate (cl_name c))
       else Inr (tb\<lparr>tb_columns := tb_columns tb @ [c]\<rparr>))"

text \<open>Dropping a column takes the indexes and the constraints on it along.\<close>

definition drop_column :: "string \<Rightarrow> string \<Rightarrow> ddl" where
  "drop_column t c cat =
     (if list_ex (\<lambda>(n, tb). list_ex (\<lambda>(d, f). fk_table f = t \<and> fk_column f = c) (references tb)) cat then Inl (Dependent c)
      else on_table t (\<lambda>tb.
        if c \<notin> set (column_names tb) then Inl (Undefined c)
        else Inr \<lparr>tb_columns = filter (\<lambda>x. cl_name x \<noteq> c) (tb_columns tb),
               tb_uniques = filter (\<lambda>x. c \<notin> set (snd x)) (tb_uniques tb),
               tb_checks = filter (\<lambda>x. fst (snd x) \<noteq> c) (tb_checks tb),
               tb_indexes = filter (\<lambda>x. c \<notin> set (fst (snd x))) (tb_indexes tb),
               tb_keys = filter (\<lambda>x. fst (snd x) \<noteq> c) (tb_keys tb)\<rparr>) cat)"

definition set_not_null :: "string \<Rightarrow> string \<Rightarrow> ddl" where
  "set_not_null t c =
     on_table t (\<lambda>tb.
       if c \<notin> set (column_names tb) then Inl (Undefined c)
       else Inr (tb\<lparr>tb_columns := map (\<lambda>x. if cl_name x = c then Column c (cl_type x) False (cl_primary x) (cl_ref x) else x)
              (tb_columns tb)\<rparr>))"

definition create_foreign_key :: "string \<Rightarrow> string \<Rightarrow> string \<Rightarrow> fkey \<Rightarrow> ddl" where
  "create_foreign_key n t c f cat =
     (if \<not> has_column cat (fk_table f) (fk_column f) then Inl (Undefined (fk_table f))
      else on_table t (\<lambda>tb.
        if n \<in> set (map fst (tb_keys tb)) then Inl (Duplicate n)
        else if c \<notin> set (column_names tb) then Inl (Undefined c)
        else Inr (tb\<lparr>tb_keys := tb_keys tb @ [(n, c, f)]\<rparr>)) cat)"

primrec run_ddl :: "ddl list \<Rightarrow> ddl" where
  "run_ddl [] cat = Inr cat"
| "run_ddl (d # ds) cat = and_then (d cat) (run_ddl ds)"

section \<open>The migrations\<close>

definition create_apps :: "ddl list" where
  "create_apps =
    [create_table ''apps'' (new_table [Column ''id'' (VarChar 36) False True None,
       Column ''name'' (VarChar 120) False False None,
       Column ''description'' TextType False False None,
       Column ''created_at'' TimestampTz False False None]
      []
      []),
     create_index ''ix_apps_name'' ''apps'' [''name''] True]"

definition create_eval_cases :: "ddl list" where
  "create_eval_cases =
    [create_table ''eval_cases'' (new_table [Column ''id'' (VarChar 36) False True None,
       Column ''external_id'' (VarChar 255) True False None,
       Column ''payload'' JsonType False False None,
       Column ''created_at'' TimestampTz False False None]
      []
      []),
     create_index ''ix_eval_cases_external_id'' ''eval_cases'' [''external_id''] False]"

definition create_evaluator_configs :: "ddl list" where
  "create_evaluator_configs =
    [create_table ''evaluator_configs'' (new_table [Column ''id'' (VarChar 36) False True None,
       Column ''name'' (VarChar 120) False False None,
       Column ''config'' JsonType False False None,
       Column ''created_at'' TimestampTz False False None]
      []
      []),
     create_index ''ix_evaluator_configs_name'' ''evaluator_configs'' [''name''] True]"

definition create_gate_rules :: "ddl list" where
  "create_gate_rules =
    [create_table ''gate_rules'' (new_table [Column ''id'' (VarChar 36) False True None,
       Column ''name'' (VarChar 120) False False None,
       Column ''rules'' JsonType False False None,
       Column ''created_at'' TimestampTz False False None]
      []
      []),
     create_unique_constraint ''uq_gate_rules_name'' ''gate_rules'' [''name'']]"

definition create_embedding_cache :: "ddl list" where
  "create_embedding_cache =
    [create_table ''embedding_cache'' (new_table [Column ''text_hash'' (VarChar 64) False True None,
       Column ''model_id'' (VarChar 120) False True None,
       Column ''embedding'' (VectorType 384) False False None,
       Column ''created_at'' TimestampTz True False None]
      []
      [])]"

definition create_app_versions :: "ddl list" where
  "create_app_versions =
    [create_table ''app_versions'' (new_table [Column ''id'' (VarChar 36) False True None,
       Column ''app_id'' (VarChar 36) True False (Some (FKey ''apps'' ''id'' True)),
       Column ''name'' (VarChar 120) False False None,
       Column ''config'' JsonType False False None,
       Column ''adapter_module'' (VarChar 255) False False None,
       Column ''created_at'' TimestampTz False False None]
      [(''uq_app_versions_app_id_name'', [''app_id'', ''name''])]
      []),
     create_index ''ix_app_versions_app_id'' ''app_versions'' [''app_id''] False]"

definition create_eval_suites :: "ddl list" where
  "create_eval_suites =
    [create_table ''eval_suites'' (new_table [Column ''id'' (VarChar 36) False True None,
       Column ''app_id'' (VarChar 36) True False (Some (FKey ''apps'' ''id'' True)),
       Column ''name'' (VarChar 120) False False None,
       Column ''created_at'' TimestampTz False False None]
      [(''uq_eval_suites_app_id_name'', [''app_id'', ''name''])]
      []),
     create_index ''ix_eval_suites_app_id'' ''eval_suites'' [''app_id''] False]"

definition create_eval_suite_cases :: "ddl list" where
  "create_eval_suite_cases =
    [create_table ''eval_suite_cases'' (new_table [Column ''suite_id'' (VarChar 36) False True (Some (FKey ''eval_suites'' ''id'' True)),
       Column ''case_id'' (VarChar 36) False True (Some (FKey ''eval_cases'' ''id'' True)),
       Column ''created_at'' TimestampTz False False None]
      []
      [])]"

definition create_eval_runs :: "ddl list" where
  "create_eval_runs =
    [create_table ''eval_runs'' (new_table [Column ''id'' (VarChar 36) False True None,
       Column ''app_version_id'' (VarChar 36) True False (Some (FKey ''app_versions'' ''id'' False)),
       Column ''suite_id'' (VarChar 36) True False (Some (FKey ''eval_suites'' ''id'' False)),
       Column ''evaluator_config_id'' (VarChar 36) True False (Some (FKey ''evaluator_configs'' ''id'' False)),
       Column ''status'' (VarChar 20) False False None,
       Column ''started_at'' TimestampTz True False None,
       Column ''completed_at'' TimestampTz True False None,
       Column ''case_count'' IntegerType False False None,
       Column ''case_completed'' IntegerType False False None,
       Column ''case_errored'' IntegerType False False None,
       Column ''created_at'' TimestampTz False False None]
      []
      []),
     create_index ''ix_eval_runs_app_version_id'' ''eval_runs'' [''app_version_id''] False,
     create_index ''ix_eval_runs_evaluator_config_id'' ''eval_runs'' [''evaluator_config_id''] False,
     create_index ''ix_eval_runs_status'' ''eval_runs'' [''status''] False,
     create_index ''ix_eval_runs_suite_id'' ''eval_runs'' [''suite_id''] False]"

definition create_eval_run_items :: "ddl list" where
  "create_eval_run_items =
    [create_table ''eval_run_items'' (new_table [Column ''id'' (VarChar 36) False True None,
       Column ''run_id'' (VarChar 36) True False (Some (FKey ''eval_runs'' ''id'' True)),
       Column ''case_id'' (VarChar 36) True False (Some (FKey ''eval_cases'' ''id'' False)),
       Column ''status'' (VarChar 20) False False None,
       Column ''attempt_count'' IntegerType False False None,
       Column ''recorded_latency_ms'' IntegerType True False None,
       Column ''recorded_cost_usd'' (NumericType 10 6) True False None,
       Column ''error_message'' TextType True False None,
       Column ''started_at'' TimestampTz True False None,
       Column ''completed_at'' TimestampTz True False None]
      [(''uq_eval_run_items_run_id_case_id'', [''run_id'', ''case_id''])]
      []),
     create_index ''ix_eval_run_items_case_id'' ''eval_run_items'' [''case_id''] False,
     create_index ''ix_eval_run_items_run_id'' ''eval_run_items'' [''run_id''] False,
     create_index ''ix_eval_run_items_run_id_status'' ''eval_run_items'' [''run_id'', ''status''] False]"

definition create_traces :: "ddl list" where
  "create_traces =
    [create_table ''traces'' (new_table [Column ''id'' (VarChar 36) False True None,
       Column ''run_item_id'' (VarChar 36) False False (Some (FKey ''eval_run_items'' ''id'' True)),
       Column ''payload'' JsonType False False None,
       Column ''created_at'' TimestampTz False False None]
      []
      []),
     create_index ''ix_traces_run_item_id'' ''traces'' [''run_item_id''] True]"

definition create_eval_results :: "ddl list" where
  "create_eval_results =
    [create_table ''eval_results'' (new_table [Column ''id'' (VarChar 36) False True None,
       Column ''run_item_id'' (VarChar 36) True False (Some (FKey ''eval_run_items'' ''id'' True)),
       Column ''evaluator_name'' (VarChar 120) False False None,
       Column ''score'' (NumericType 10 6) True False None,
       Column ''passed'' BooleanType True False None,
       Column ''errored'' BooleanType False False None,
       Column ''skipped'' BooleanType False False None,
       Column ''error_message'' TextType True False None,
       Column ''details'' JsonType False False None,
       Column ''created_at'' TimestampTz False False None]
      []
      []),
     create_index ''ix_eval_results_run_item_id'' ''eval_results'' [''run_item_id''] False,
     create_index ''ix_eval_results_run_item_id_evaluator_name'' ''eval_results'' [''run_item_id'', ''evaluator_name''] False]"

definition create_comparisons :: "ddl list" where
  "create_comparisons =
    [create_table ''comparisons'' (new_table [Column ''id'' (VarChar 36) False True None,
       Column ''baseline_run_id'' (VarChar 36) True False (Some (FKey ''eval_runs'' ''id'' False)),
       Column ''candidate_run_id'' (VarChar 36) True False (Some (FKey ''eval_runs'' ''id'' False)),
       Column ''gate_rules_id'' (VarChar 36) True False (Some (FKey ''gate_rules'' ''id'' False)),
       Column ''status'' (VarChar 20) False False None,
       Column ''created_at'' TimestampTz False False None]
      []
      []),
     create_index ''ix_comparisons_baseline_run_id'' ''comparisons'' [''baseline_run_id''] False,
     create_index ''ix_comparisons_candidate_run_id'' ''comparisons'' [''candidate_run_id''] False,
     create_index ''ix_comparisons_gate_rules_id'' ''comparisons'' [''gate_rules_id''] False]"

definition create_regression_reports :: "ddl list" where
  "create_regression_reports =
    [create_table ''regression_reports'' (new_table [Column ''id'' (VarChar 36) False True None,
       Column ''comparison_id'' (VarChar 36) False False (Some (FKey ''comparisons'' ''id'' True)),
       Column ''metrics'' JsonType False False None,
       Column ''gate_verdict'' (VarChar 20) False False None,
       Column ''gate_reasons'' JsonType False False None,
       Column ''created_at'' TimestampTz False False None]
      [(''uq_regression_reports_comparison_id'', [''comparison_id''])]
      [])]"

definition create_gold_labels :: "ddl list" where
  "create_gold_labels =
    [create_table ''gold_labels'' (new_table [Column ''id'' (VarChar 36) False True None,
       Column ''case_id'' (VarChar 36) True False (Some (FKey ''eval_cases'' ''id'' False)),
       Column ''version_id'' (VarChar 36) True False (Some (FKey ''app_versions'' ''id'' False)),
       Column ''run_item_id'' (VarChar 36) True False (Some (FKey ''eval_run_items'' ''id'' False)),
       Column ''output_hash'' (VarChar 64) True False None,
       Column ''label_score'' IntegerType False False None,
       Column ''labeler_id'' (VarChar 120) False False None,
       Column ''rubric_version'' (VarChar 40) False False None,
       Column ''labeled_at'' TimestampTz False False None,
       Column ''notes'' TextType True False None]
      []
      []),
     create_index ''ix_gold_labels_case_id'' ''gold_labels'' [''case_id''] False,
     create_index ''ix_gold_labels_version_id'' ''gold_labels'' [''version_id''] False]"

definition upgrade_0001 :: "ddl list" where
  "upgrade_0001 = concat
    [create_apps, create_eval_cases, create_evaluator_configs, create_gate_rules, create_embedding_cache, create_app_versions, create_eval_suites, create_eval_suite_cases, create_eval_runs, create_eval_run_items, create_traces, create_eval_results, create_comparisons, create_regression_reports, create_gold_labels]"

definition downgrade_0001 :: "ddl list" where
  "downgrade_0001 =
    [drop_index ''ix_gold_labels_version_id'',
     drop_index ''ix_gold_labels_case_id'',
     drop_table ''gold_labels'',
     drop_table ''regression_reports'',
     drop_index ''ix_comparisons_gate_rules_id'',
     drop_index ''ix_comparisons_candidate_run_id'',
     drop_index ''ix_comparisons_baseline_run_id'',
     drop_table ''comparisons'',
     drop_index ''ix_eval_results_run_item_id_evaluator_name'',
     drop_index ''ix_eval_results_run_item_id'',
     drop_table ''eval_results'',
     drop_index ''ix_traces_run_item_id'',
     drop_table ''traces'',
     drop_index ''ix_eval_run_items_run_id_status'',
     drop_index ''ix_eval_run_items_run_id'',
     drop_index ''ix_eval_run_items_case_id'',
     drop_table ''eval_run_items'',
     drop_index ''ix_eval_runs_suite_id'',
     drop_index ''ix_eval_runs_status'',
     drop_index ''ix_eval_runs_evaluator_config_id'',
     drop_index ''ix_eval_runs_app_version_id'',
     drop_table ''eval_runs'',
     drop_table ''eval_suite_cases'',
     drop_index ''ix_eval_suites_app_id'',
     drop_table ''eval_suites'',
     drop_index ''ix_app_versions_app_id'',
     drop_table ''app_versions'',
     drop_table ''embedding_cache'',
     drop_constraint ''uq_gate_rules_name'' ''gate_rules'',
     drop_table ''gate_rules'',
     drop_index ''ix_evaluator_configs_name'',
     drop_table ''evaluator_configs'',
     drop_index ''ix_eval_cases_external_id'',
     drop_table ''eval_cases'',
     drop_index ''ix_apps_name'',
     drop_table ''apps'']"

definition upgrade_0002 :: "ddl list" where
  "upgrade_0002 =
    [add_column ''eval_run_items'' (Column ''worker_task_id'' (VarChar 255) True False None),
     add_column ''eval_run_items'' (Column ''lease_expires_at'' TimestampTz True False None)]"

definition downgrade_0002 :: "ddl list" where
  "downgrade_0002 =
    [drop_column ''eval_run_items'' ''lease_expires_at'',
     drop_column ''eval_run_items'' ''worker_task_id'']"

definition upgrade_0003 :: "ddl list" where
  "upgrade_0003 =
    [drop_index ''ix_eval_results_run_item_id_evaluator_name'',
     create_unique_constraint ''uq_eval_results_run_item_id_evaluator_name'' ''eval_results'' [''run_item_id'', ''evaluator_name'']]"

definition downgrade_0003 :: "ddl list" where
  "downgrade_0003 =
    [drop_constraint ''uq_eval_results_run_item_id_evaluator_name'' ''eval_results'',
     create_index ''ix_eval_results_run_item_id_evaluator_name'' ''eval_results'' [''run_item_id'', ''evaluator_name''] False]"

definition create_organizations :: "ddl list" where
  "create_organizations =
    [create_table ''organizations'' (new_table [Column ''id'' (VarChar 36) False True None,
       Column ''name'' (VarChar 120) False False None,
       Column ''slug'' (VarChar 80) False False None,
       Column ''created_at'' TimestampTz False False None]
      []
      []),
     create_index ''ix_organizations_slug'' ''organizations'' [''slug''] True]"

definition create_users :: "ddl list" where
  "create_users =
    [create_table ''users'' (new_table [Column ''id'' (VarChar 36) False True None,
       Column ''email'' (VarChar 320) False False None,
       Column ''display_name'' (VarChar 120) False False None,
       Column ''password_hash'' TextType True False None,
       Column ''status'' (VarChar 20) False False None,
       Column ''failed_login_attempts'' IntegerType False False None,
       Column ''locked_until'' TimestampTz True False None,
       Column ''created_at'' TimestampTz False False None]
      []
      [(''ck_users_status'', ''status'', [''active'', ''disabled''])]),
     create_index ''ix_users_email'' ''users'' [''email''] True,
     create_index ''ix_users_status'' ''users'' [''status''] False,
     create_index ''ix_users_locked_until'' ''users'' [''locked_until''] False]"

definition create_oidc_identities :: "ddl list" where
  "create_oidc_identities =
    [create_table ''oidc_identities'' (new_table [Column ''id'' (VarChar 36) False True None,
       Column ''user_id'' (VarChar 36) False False (Some (FKey ''users'' ''id'' True)),
       Column ''issuer'' (VarChar 512) False False None,
       Column ''subject'' (VarChar 255) False False None,
       Column ''created_at'' TimestampTz False False None]
      [(''uq_oidc_identities_issuer_subject'', [''issuer'', ''subject'']), (''uq_oidc_identities_user_issuer'', [''user_id'', ''issuer''])]
      []),
     create_index ''ix_oidc_identities_user_id'' ''oidc_identities'' [''user_id''] False]"

definition create_memberships :: "ddl list" where
  "create_memberships =
    [create_table ''memberships'' (new_table [Column ''organization_id'' (VarChar 36) False True (Some (FKey ''organizations'' ''id'' True)),
       Column ''user_id'' (VarChar 36) False True (Some (FKey ''users'' ''id'' True)),
       Column ''role'' (VarChar 20) False False None,
       Column ''created_at'' TimestampTz False False None]
      []
      [(''ck_memberships_role'', ''role'', [''owner'', ''admin'', ''evaluator'', ''viewer''])]),
     create_index ''ix_memberships_role'' ''memberships'' [''role''] False]"

definition create_auth_sessions :: "ddl list" where
  "create_auth_sessions =
    [create_table ''auth_sessions'' (new_table [Column ''id'' (VarChar 36) False True None,
       Column ''user_id'' (VarChar 36) False False (Some (FKey ''users'' ''id'' True)),
       Column ''organization_id'' (VarChar 36) False False (Some (FKey ''organizations'' ''id'' True)),
       Column ''token_hash'' (VarChar 64) False False None,
       Column ''expires_at'' TimestampTz False False None,
       Column ''revoked_at'' TimestampTz True False None,
       Column ''created_at'' TimestampTz False False None]
      []
      []),
     create_index ''ix_auth_sessions_user_id'' ''auth_sessions'' [''user_id''] False,
     create_index ''ix_auth_sessions_organization_id'' ''auth_sessions'' [''organization_id''] False,
     create_index ''ix_auth_sessions_token_hash'' ''auth_sessions'' [''token_hash''] True,
     create_index ''ix_auth_sessions_expires_at'' ''auth_sessions'' [''expires_at''] False]"

definition create_personal_api_keys :: "ddl list" where
  "create_personal_api_keys =
    [create_table ''personal_api_keys'' (new_table [Column ''id'' (VarChar 36) False True None,
       Column ''user_id'' (VarChar 36) False False (Some (FKey ''users'' ''id'' True)),
       Column ''organization_id'' (VarChar 36) False False (Some (FKey ''organizations'' ''id'' True)),
       Column ''name'' (VarChar 120) False False None,
       Column ''key_prefix'' (VarChar 16) False False None,
       Column ''token_hash'' (VarChar 64) False False None,
       Column ''expires_at'' TimestampTz True False None,
       Column ''last_used_at'' TimestampTz True False None,
       Column ''revoked_at'' TimestampTz True False None,
       Column ''created_at'' TimestampTz False False None]
      [(''uq_personal_api_keys_user_org_name'', [''user_id'', ''organization_id'', ''name''])]
      []),
     create_index ''ix_personal_api_keys_user_id'' ''personal_api_keys'' [''user_id''] False,
     create_index ''ix_personal_api_keys_organization_id'' ''personal_api_keys'' [''organization_id''] False,
     create_index ''ix_personal_api_keys_key_prefix'' ''personal_api_keys'' [''key_prefix''] False,
     create_index ''ix_personal_api_keys_token_hash'' ''personal_api_keys'' [''token_hash''] True]"

definition add_organization :: "string \<Rightarrow> ddl list" where
  "add_organization t =
    [add_column t (Column ''organization_id'' (VarChar 36) True False None),
     set_not_null t ''organization_id'',
     create_foreign_key (''fk_'' @ t @ ''_organization_id'') t ''organization_id'' (FKey ''organizations'' ''id'' False),
     create_index (''ix_'' @ t @ ''_organization_id'') t [''organization_id''] False]"

definition TENANT_TABLES :: "string list" where
  "TENANT_TABLES = [''apps'', ''evaluator_configs'', ''gate_rules'', ''eval_runs'', ''comparisons'']"

definition rename_unique_names :: "ddl list" where
  "rename_unique_names =
    [drop_index ''ix_apps_name'',
     create_unique_constraint ''uq_apps_organization_id_name'' ''apps'' [''organization_id'', ''name''],
     drop_index ''ix_evaluator_configs_name'',
     create_unique_constraint ''uq_evaluator_configs_organization_id_name'' ''evaluator_configs'' [''organization_id'', ''name''],
     drop_constraint ''uq_gate_rules_name'' ''gate_rules'',
     create_unique_constraint ''uq_gate_rules_organization_id_name'' ''gate_rules'' [''organization_id'', ''name'']]"

definition upgrade_0004 :: "ddl list" where
  "upgrade_0004 = concat
    [create_organizations, create_users, create_oidc_identities, create_memberships, create_auth_sessions, create_personal_api_keys,
     concat (map add_organization TENANT_TABLES), rename_unique_names]"

definition remove_organization :: "string \<Rightarrow> ddl list" where
  "remove_organization t =
    [drop_index (''ix_'' @ t @ ''_organization_id''),
     drop_constraint (''fk_'' @ t @ ''_organization_id'') t,
     drop_column t ''organization_id'']"

definition downgrade_0004 :: "ddl list" where
  "downgrade_0004 =
    [drop_constraint ''uq_gate_rules_organization_id_name'' ''gate_rules'',
     create_unique_constraint ''uq_gate_rules_name'' ''gate_rules'' [''name''],
     drop_constraint ''uq_evaluator_configs_organization_id_name'' ''evaluator_configs'',
     create_index ''ix_evaluator_configs_name'' ''evaluator_configs'' [''name''] True,
     drop_constraint ''uq_apps_organization_id_name'' ''apps'',
     create_index ''ix_apps_name'' ''apps'' [''name''] True] @
    concat (map remove_organization [''comparisons'', ''eval_runs'', ''gate_rules'', ''evaluator_configs'', ''apps'']) @
    [drop_table ''personal_api_keys'',
     drop_table ''auth_sessions'',
     drop_index ''ix_memberships_role'',
     drop_table ''memberships'',
     drop_index ''ix_oidc_identities_user_id'',
     drop_table ''oidc_identities'',
     drop_index ''ix_users_status'',
     drop_index ''ix_users_locked_until'',
     drop_index ''ix_users_email'',
     drop_table ''users'',
     drop_index ''ix_organizations_slug'',
     drop_table ''organizations'']"

section \<open>The models\<close>

text \<open>
  The declared tables. A column is nullable when its type admits \<open>None\<close>; \<open>index=True\<close> names its index after table and
  column and makes it unique with \<open>unique=True\<close>, which alone is a constraint without a declared name.
\<close>

definition users_model :: "table" where
  "users_model = (new_table [Column ''id'' (VarChar 36) False True None,
       Column ''email'' (VarChar 320) False False None,
       Column ''display_name'' (VarChar 120) False False None,
       Column ''password_hash'' TextType True False None,
       Column ''status'' (VarChar 20) False False None,
       Column ''failed_login_attempts'' IntegerType False False None,
       Column ''locked_until'' TimestampTz True False None,
       Column ''created_at'' TimestampTz False False None]
      []
      [(''ck_users_status'', ''status'', [''active'', ''disabled''])])
      \<lparr>tb_indexes := [(''ix_users_email'', [''email''], True),
       (''ix_users_status'', [''status''], False),
       (''ix_users_locked_until'', [''locked_until''], False)]\<rparr>"

definition organizations_model :: "table" where
  "organizations_model = (new_table [Column ''id'' (VarChar 36) False True None,
       Column ''name'' (VarChar 120) False False None,
       Column ''slug'' (VarChar 80) False False None,
       Column ''created_at'' TimestampTz False False None]
      []
      [])
      \<lparr>tb_indexes := [(''ix_organizations_slug'', [''slug''], True)]\<rparr>"

definition oidc_identities_model :: "table" where
  "oidc_identities_model = (new_table [Column ''id'' (VarChar 36) False True None,
       Column ''user_id'' (VarChar 36) False False (Some (FKey ''users'' ''id'' True)),
       Column ''issuer'' (VarChar 512) False False None,
       Column ''subject'' (VarChar 255) False False None,
       Column ''created_at'' TimestampTz False False None]
      [(''uq_oidc_identities_issuer_subject'', [''issuer'', ''subject'']), (''uq_oidc_identities_user_issuer'', [''user_id'', ''issuer''])]
      [])
      \<lparr>tb_indexes := [(''ix_oidc_identities_user_id'', [''user_id''], False)]\<rparr>"

definition memberships_model :: "table" where
  "memberships_model = (new_table [Column ''organization_id'' (VarChar 36) False True (Some (FKey ''organizations'' ''id'' True)),
       Column ''user_id'' (VarChar 36) False True (Some (FKey ''users'' ''id'' True)),
       Column ''role'' (VarChar 20) False False None,
       Column ''created_at'' TimestampTz False False None]
      []
      [(''ck_memberships_role'', ''role'', [''owner'', ''admin'', ''evaluator'', ''viewer''])])
      \<lparr>tb_indexes := [(''ix_memberships_role'', [''role''], False)]\<rparr>"

definition auth_sessions_model :: "table" where
  "auth_sessions_model = (new_table [Column ''id'' (VarChar 36) False True None,
       Column ''user_id'' (VarChar 36) False False (Some (FKey ''users'' ''id'' True)),
       Column ''organization_id'' (VarChar 36) False False (Some (FKey ''organizations'' ''id'' True)),
       Column ''token_hash'' (VarChar 64) False False None,
       Column ''expires_at'' TimestampTz False False None,
       Column ''revoked_at'' TimestampTz True False None,
       Column ''created_at'' TimestampTz False False None]
      []
      [])
      \<lparr>tb_indexes := [(''ix_auth_sessions_user_id'', [''user_id''], False),
       (''ix_auth_sessions_organization_id'', [''organization_id''], False),
       (''ix_auth_sessions_token_hash'', [''token_hash''], True),
       (''ix_auth_sessions_expires_at'', [''expires_at''], False)]\<rparr>"

definition personal_api_keys_model :: "table" where
  "personal_api_keys_model = (new_table [Column ''id'' (VarChar 36) False True None,
       Column ''user_id'' (VarChar 36) False False (Some (FKey ''users'' ''id'' True)),
       Column ''organization_id'' (VarChar 36) False False (Some (FKey ''organizations'' ''id'' True)),
       Column ''name'' (VarChar 120) False False None,
       Column ''key_prefix'' (VarChar 16) False False None,
       Column ''token_hash'' (VarChar 64) False False None,
       Column ''expires_at'' TimestampTz True False None,
       Column ''last_used_at'' TimestampTz True False None,
       Column ''revoked_at'' TimestampTz True False None,
       Column ''created_at'' TimestampTz False False None]
      [(''uq_personal_api_keys_user_org_name'', [''user_id'', ''organization_id'', ''name''])]
      [])
      \<lparr>tb_indexes := [(''ix_personal_api_keys_user_id'', [''user_id''], False),
       (''ix_personal_api_keys_organization_id'', [''organization_id''], False),
       (''ix_personal_api_keys_key_prefix'', [''key_prefix''], False),
       (''ix_personal_api_keys_token_hash'', [''token_hash''], True)]\<rparr>"

definition apps_model :: "table" where
  "apps_model = (new_table [Column ''id'' (VarChar 36) False True None,
       Column ''organization_id'' (VarChar 36) False False (Some (FKey ''organizations'' ''id'' False)),
       Column ''name'' (VarChar 120) False False None,
       Column ''description'' TextType False False None,
       Column ''created_at'' TimestampTz False False None]
      [(''uq_apps_organization_id_name'', [''organization_id'', ''name''])]
      [])
      \<lparr>tb_indexes := [(''ix_apps_organization_id'', [''organization_id''], False)]\<rparr>"

definition app_versions_model :: "table" where
  "app_versions_model = (new_table [Column ''id'' (VarChar 36) False True None,
       Column ''app_id'' (VarChar 36) False False (Some (FKey ''apps'' ''id'' True)),
       Column ''name'' (VarChar 120) False False None,
       Column ''config'' JsonType False False None,
       Column ''adapter_module'' (VarChar 255) False False None,
       Column ''created_at'' TimestampTz False False None]
      [(''uq_app_versions_app_id_name'', [''app_id'', ''name''])]
      [])
      \<lparr>tb_indexes := [(''ix_app_versions_app_id'', [''app_id''], False)]\<rparr>"

definition eval_suites_model :: "table" where
  "eval_suites_model = (new_table [Column ''id'' (VarChar 36) False True None,
       Column ''app_id'' (VarChar 36) False False (Some (FKey ''apps'' ''id'' True)),
       Column ''name'' (VarChar 120) False False None,
       Column ''created_at'' TimestampTz False False None]
      [(''uq_eval_suites_app_id_name'', [''app_id'', ''name''])]
      [])
      \<lparr>tb_indexes := [(''ix_eval_suites_app_id'', [''app_id''], False)]\<rparr>"

definition eval_cases_model :: "table" where
  "eval_cases_model = (new_table [Column ''id'' (VarChar 36) False True None,
       Column ''external_id'' (VarChar 255) True False None,
       Column ''payload'' JsonType False False None,
       Column ''created_at'' TimestampTz False False None]
      []
      [])
      \<lparr>tb_indexes := [(''ix_eval_cases_external_id'', [''external_id''], False)]\<rparr>"

definition eval_suite_cases_model :: "table" where
  "eval_suite_cases_model = (new_table [Column ''suite_id'' (VarChar 36) False True (Some (FKey ''eval_suites'' ''id'' True)),
       Column ''case_id'' (VarChar 36) False True (Some (FKey ''eval_cases'' ''id'' True)),
       Column ''created_at'' TimestampTz False False None]
      []
      [])
      \<lparr>tb_indexes := []\<rparr>"

definition evaluator_configs_model :: "table" where
  "evaluator_configs_model = (new_table [Column ''id'' (VarChar 36) False True None,
       Column ''organization_id'' (VarChar 36) False False (Some (FKey ''organizations'' ''id'' False)),
       Column ''name'' (VarChar 120) False False None,
       Column ''config'' JsonType False False None,
       Column ''created_at'' TimestampTz False False None]
      [(''uq_evaluator_configs_organization_id_name'', [''organization_id'', ''name''])]
      [])
      \<lparr>tb_indexes := [(''ix_evaluator_configs_organization_id'', [''organization_id''], False)]\<rparr>"

definition eval_runs_model :: "table" where
  "eval_runs_model = (new_table [Column ''id'' (VarChar 36) False True None,
       Column ''organization_id'' (VarChar 36) False False (Some (FKey ''organizations'' ''id'' False)),
       Column ''app_version_id'' (VarChar 36) False False (Some (FKey ''app_versions'' ''id'' False)),
       Column ''suite_id'' (VarChar 36) False False (Some (FKey ''eval_suites'' ''id'' False)),
       Column ''evaluator_config_id'' (VarChar 36) False False (Some (FKey ''evaluator_configs'' ''id'' False)),
       Column ''status'' (VarChar 20) False False None,
       Column ''started_at'' TimestampTz True False None,
       Column ''completed_at'' TimestampTz True False None,
       Column ''case_count'' IntegerType False False None,
       Column ''case_completed'' IntegerType False False None,
       Column ''case_errored'' IntegerType False False None,
       Column ''created_at'' TimestampTz False False None]
      []
      [])
      \<lparr>tb_indexes := [(''ix_eval_runs_organization_id'', [''organization_id''], False),
       (''ix_eval_runs_app_version_id'', [''app_version_id''], False),
       (''ix_eval_runs_suite_id'', [''suite_id''], False),
       (''ix_eval_runs_evaluator_config_id'', [''evaluator_config_id''], False),
       (''ix_eval_runs_status'', [''status''], False)]\<rparr>"

definition eval_run_items_model :: "table" where
  "eval_run_items_model = (new_table [Column ''id'' (VarChar 36) False True None,
       Column ''run_id'' (VarChar 36) False False (Some (FKey ''eval_runs'' ''id'' True)),
       Column ''case_id'' (VarChar 36) False False (Some (FKey ''eval_cases'' ''id'' False)),
       Column ''status'' (VarChar 20) False False None,
       Column ''attempt_count'' IntegerType False False None,
       Column ''worker_task_id'' (VarChar 255) True False None,
       Column ''lease_expires_at'' TimestampTz True False None,
       Column ''recorded_latency_ms'' IntegerType True False None,
       Column ''recorded_cost_usd'' (NumericType 10 6) True False None,
       Column ''error_message'' TextType True False None,
       Column ''started_at'' TimestampTz True False None,
       Column ''completed_at'' TimestampTz True False None]
      [(''uq_eval_run_items_run_id_case_id'', [''run_id'', ''case_id''])]
      [])
      \<lparr>tb_indexes := [(''ix_eval_run_items_run_id_status'', [''run_id'', ''status''], False),
       (''ix_eval_run_items_run_id'', [''run_id''], False),
       (''ix_eval_run_items_case_id'', [''case_id''], False)]\<rparr>"

definition traces_model :: "table" where
  "traces_model = (new_table [Column ''id'' (VarChar 36) False True None,
       Column ''run_item_id'' (VarChar 36) False False (Some (FKey ''eval_run_items'' ''id'' True)),
       Column ''payload'' JsonType False False None,
       Column ''created_at'' TimestampTz False False None]
      []
      [])
      \<lparr>tb_indexes := [(''ix_traces_run_item_id'', [''run_item_id''], True)]\<rparr>"

definition eval_results_model :: "table" where
  "eval_results_model = (new_table [Column ''id'' (VarChar 36) False True None,
       Column ''run_item_id'' (VarChar 36) False False (Some (FKey ''eval_run_items'' ''id'' True)),
       Column ''evaluator_name'' (VarChar 120) False False None,
       Column ''score'' (NumericType 10 6) True False None,
       Column ''passed'' BooleanType True False None,
       Column ''errored'' BooleanType False False None,
       Column ''skipped'' BooleanType False False None,
       Column ''error_message'' TextType True False None,
       Column ''details'' JsonType False False None,
       Column ''created_at'' TimestampTz False False None]
      [(''uq_eval_results_run_item_id_evaluator_name'', [''run_item_id'', ''evaluator_name''])]
      [])
      \<lparr>tb_indexes := [(''ix_eval_results_run_item_id'', [''run_item_id''], False)]\<rparr>"

definition gate_rules_model :: "table" where
  "gate_rules_model = (new_table [Column ''id'' (VarChar 36) False True None,
       Column ''organization_id'' (VarChar 36) False False (Some (FKey ''organizations'' ''id'' False)),
       Column ''name'' (VarChar 120) False False None,
       Column ''rules'' JsonType False False None,
       Column ''created_at'' TimestampTz False False None]
      [(''uq_gate_rules_organization_id_name'', [''organization_id'', ''name''])]
      [])
      \<lparr>tb_indexes := [(''ix_gate_rules_organization_id'', [''organization_id''], False)]\<rparr>"

definition comparisons_model :: "table" where
  "comparisons_model = (new_table [Column ''id'' (VarChar 36) False True None,
       Column ''organization_id'' (VarChar 36) False False (Some (FKey ''organizations'' ''id'' False)),
       Column ''baseline_run_id'' (VarChar 36) False False (Some (FKey ''eval_runs'' ''id'' False)),
       Column ''candidate_run_id'' (VarChar 36) False False (Some (FKey ''eval_runs'' ''id'' False)),
       Column ''gate_rules_id'' (VarChar 36) False False (Some (FKey ''gate_rules'' ''id'' False)),
       Column ''status'' (VarChar 20) False False None,
       Column ''created_at'' TimestampTz False False None]
      []
      [])
      \<lparr>tb_indexes := [(''ix_comparisons_organization_id'', [''organization_id''], False),
       (''ix_comparisons_baseline_run_id'', [''baseline_run_id''], False),
       (''ix_comparisons_candidate_run_id'', [''candidate_run_id''], False),
       (''ix_comparisons_gate_rules_id'', [''gate_rules_id''], False)]\<rparr>"

definition regression_reports_model :: "table" where
  "regression_reports_model = (new_table [Column ''id'' (VarChar 36) False True None,
       Column ''comparison_id'' (VarChar 36) False False (Some (FKey ''comparisons'' ''id'' True)),
       Column ''metrics'' JsonType False False None,
       Column ''gate_verdict'' (VarChar 20) False False None,
       Column ''gate_reasons'' JsonType False False None,
       Column ''created_at'' TimestampTz False False None]
      [([], [''comparison_id''])]
      [])
      \<lparr>tb_indexes := []\<rparr>"

definition gold_labels_model :: "table" where
  "gold_labels_model = (new_table [Column ''id'' (VarChar 36) False True None,
       Column ''case_id'' (VarChar 36) False False (Some (FKey ''eval_cases'' ''id'' False)),
       Column ''version_id'' (VarChar 36) False False (Some (FKey ''app_versions'' ''id'' False)),
       Column ''run_item_id'' (VarChar 36) True False (Some (FKey ''eval_run_items'' ''id'' False)),
       Column ''output_hash'' (VarChar 64) True False None,
       Column ''label_score'' IntegerType False False None,
       Column ''labeler_id'' (VarChar 120) False False None,
       Column ''rubric_version'' (VarChar 40) False False None,
       Column ''labeled_at'' TimestampTz False False None,
       Column ''notes'' TextType True False None]
      []
      [])
      \<lparr>tb_indexes := [(''ix_gold_labels_case_id'', [''case_id''], False),
       (''ix_gold_labels_version_id'', [''version_id''], False)]\<rparr>"

definition model_tables :: catalogue where
  "model_tables =
    [(''users'', users_model),
     (''organizations'', organizations_model),
     (''oidc_identities'', oidc_identities_model),
     (''memberships'', memberships_model),
     (''auth_sessions'', auth_sessions_model),
     (''personal_api_keys'', personal_api_keys_model),
     (''apps'', apps_model),
     (''app_versions'', app_versions_model),
     (''eval_suites'', eval_suites_model),
     (''eval_cases'', eval_cases_model),
     (''eval_suite_cases'', eval_suite_cases_model),
     (''evaluator_configs'', evaluator_configs_model),
     (''eval_runs'', eval_runs_model),
     (''eval_run_items'', eval_run_items_model),
     (''traces'', traces_model),
     (''eval_results'', eval_results_model),
     (''gate_rules'', gate_rules_model),
     (''comparisons'', comparisons_model),
     (''regression_reports'', regression_reports_model),
     (''gold_labels'', gold_labels_model)]"

section \<open>Comparing schemas\<close>

definition same_set :: "'a list \<Rightarrow> 'a list \<Rightarrow> bool" where
  "same_set xs ys \<longleftrightarrow> list_all (\<lambda>x. x \<in> set ys) xs \<and> list_all (\<lambda>y. y \<in> set xs) ys"

text \<open>Two tables with the same columns, keys, constraints and indexes, in whatever order.\<close>

definition same_table :: "table \<Rightarrow> table \<Rightarrow> bool" where
  "same_table a b \<longleftrightarrow> same_set (tb_columns a) (tb_columns b) \<and> same_set (tb_uniques a) (tb_uniques b) \<and>
     same_set (tb_checks a) (tb_checks b) \<and> same_set (tb_indexes a) (tb_indexes b) \<and> same_set (tb_keys a) (tb_keys b)"

definition same_catalogue :: "catalogue \<Rightarrow> catalogue \<Rightarrow> bool" where
  "same_catalogue a b \<longleftrightarrow> map fst a = map fst b \<and> list_all (\<lambda>(x, y). same_table (snd x) (snd y)) (zip a b)"

text \<open>
  A stored table against a declared one: the same columns with type and primary key, the same foreign keys and checks,
  the same uniqueness and the same indexes. Names of constraints and nullability are compared apart.
\<close>

definition column_shape :: "column \<Rightarrow> string \<times> column_type \<times> bool" where
  "column_shape c = (cl_name c, cl_type c, cl_primary c)"

definition table_agrees :: "table \<Rightarrow> table \<Rightarrow> bool" where
  "table_agrees tb m \<longleftrightarrow> same_set (map column_shape (tb_columns tb)) (map column_shape (tb_columns m)) \<and>
     same_set (references tb) (references m) \<and> same_set (map snd (tb_uniques tb)) (map snd (tb_uniques m)) \<and>
     same_set (tb_checks tb) (tb_checks m) \<and> same_set (tb_indexes tb) (tb_indexes m)"

definition declared_agrees :: "catalogue \<Rightarrow> string \<times> table \<Rightarrow> bool" where
  "declared_agrees cat p = (case map_of cat (fst p) of None \<Rightarrow> False | Some tb \<Rightarrow> table_agrees tb (snd p))"

text \<open>The columns the database admits a null in and the model does not.\<close>

definition nullable_gaps :: "catalogue \<Rightarrow> (string \<times> string) list" where
  "nullable_gaps cat =
     concat (map (\<lambda>(t, m). map (\<lambda>c. (t, cl_name c))
       (filter (\<lambda>c. \<not> cl_nullable c \<and>
          (case map_of cat t of None \<Rightarrow> False | Some tb \<Rightarrow> list_ex (\<lambda>d. cl_name d = cl_name c \<and> cl_nullable d) (tb_columns tb)))
          (tb_columns m))) model_tables)"

definition GAPS :: "(string \<times> string) list" where
  "GAPS =
     [(''app_versions'', ''app_id''), (''eval_suites'', ''app_id''),
      (''eval_runs'', ''app_version_id''), (''eval_runs'', ''suite_id''), (''eval_runs'', ''evaluator_config_id''),
      (''eval_run_items'', ''run_id''), (''eval_run_items'', ''case_id''), (''eval_results'', ''run_item_id''),
      (''comparisons'', ''baseline_run_id''), (''comparisons'', ''candidate_run_id''), (''comparisons'', ''gate_rules_id''),
      (''gold_labels'', ''case_id''), (''gold_labels'', ''version_id'')]"

definition head_catalogue :: "ddl_error + catalogue" where
  "head_catalogue = run_ddl (upgrade_0001 @ upgrade_0002 @ upgrade_0003 @ upgrade_0004) []"

lemma run_ddl_append: "run_ddl (xs @ ys) cat = and_then (run_ddl xs cat) (run_ddl ys)"
  by (induction xs arbitrary: cat) (auto simp: and_then_def split: sum.splits)

text \<open>One evaluation of the four migrations, forth and back.\<close>

lemma schema_audit:
  "case run_ddl upgrade_0001 [] of Inl _ \<Rightarrow> False | Inr c1 \<Rightarrow>
   run_ddl downgrade_0001 c1 = Inr [] \<and>
   (case run_ddl upgrade_0002 c1 of Inl _ \<Rightarrow> False | Inr c2 \<Rightarrow>
    run_ddl downgrade_0002 c2 = Inr c1 \<and>
    (case run_ddl upgrade_0003 c2 of Inl _ \<Rightarrow> False | Inr c3 \<Rightarrow>
     (case run_ddl downgrade_0003 c3 of Inl _ \<Rightarrow> False | Inr c \<Rightarrow> same_catalogue c c2) \<and>
     (case run_ddl upgrade_0004 c3 of Inl _ \<Rightarrow> False | Inr c4 \<Rightarrow>
      (case run_ddl downgrade_0004 c4 of Inl _ \<Rightarrow> False | Inr c \<Rightarrow> same_catalogue c c3) \<and>
      same_set (map fst c4) (''embedding_cache'' # map fst model_tables) \<and>
      list_all (declared_agrees c4) model_tables \<and> nullable_gaps c4 = GAPS)))"
  by code_simp

lemma head_audit:
  "\<exists>c1 c2 c3 c4. run_ddl upgrade_0001 [] = Inr c1 \<and> run_ddl upgrade_0002 c1 = Inr c2 \<and>
     run_ddl upgrade_0003 c2 = Inr c3 \<and> run_ddl upgrade_0004 c3 = Inr c4 \<and> head_catalogue = Inr c4 \<and>
     same_set (map fst c4) (''embedding_cache'' # map fst model_tables) \<and> list_all (declared_agrees c4) model_tables \<and>
     nullable_gaps c4 = GAPS"
  using schema_audit by (auto simp: head_catalogue_def run_ddl_append split: sum.splits)

text \<open>The type a declared column has in the database.\<close>

lemma head_column:
  assumes "head_catalogue = Inr cat" and "(t, m) \<in> set model_tables" and "c \<in> set (tb_columns m)"
  shows "\<exists>tb d. map_of cat t = Some tb \<and> d \<in> set (tb_columns tb) \<and> cl_name d = cl_name c \<and> cl_type d = cl_type c"
proof -
  from head_audit obtain c4 where "head_catalogue = Inr c4" "list_all (declared_agrees c4) model_tables" by blast
  with assms(1) have "list_all (declared_agrees cat) model_tables" by (metis sum.inject(2))
  with assms(2) have "declared_agrees cat (t, m)" by (simp add: list_all_iff)
  then obtain tb where tb: "map_of cat t = Some tb" "table_agrees tb m"
    by (auto simp: declared_agrees_def split: option.splits)
  then have "column_shape c \<in> set (map column_shape (tb_columns tb))"
    using assms(3) by (auto simp: table_agrees_def same_set_def list_all_iff)
  with tb(1) show ?thesis by (auto simp: column_shape_def)
qed

section \<open>Rows the migrations change\<close>

text \<open>
  \<open>0003\<close> deletes all but the first row of every item and evaluator, the newest first. Rows come with their identifiers.
\<close>

type_synonym stored_result = "string \<times> result_row"

definition result_key :: "stored_result \<Rightarrow> string \<times> string" where
  "result_key x = (rs_item (snd x), rs_name (snd x))"

definition ranks_before :: "stored_result \<Rightarrow> stored_result \<Rightarrow> bool" where
  "ranks_before x y \<longleftrightarrow> rs_created (snd y) < rs_created (snd x) \<or> rs_created (snd x) = rs_created (snd y) \<and> fst y < fst x"

definition duplicate_rank :: "stored_result list \<Rightarrow> stored_result \<Rightarrow> nat" where
  "duplicate_rank rows x = Suc (length (filter (\<lambda>y. result_key y = result_key x \<and> ranks_before y x) rows))"

definition delete_duplicate_results :: "stored_result list \<Rightarrow> stored_result list" where
  "delete_duplicate_results rows = filter (\<lambda>x. \<not> 1 < duplicate_rank rows x) rows"

text \<open>\<open>0004\<close> puts every row of the five tables into the default organisation, which it creates.\<close>

definition default_workspace :: "int \<Rightarrow> org_row" where
  "default_workspace t =
     \<lparr>o_id = DEFAULT_ORGANIZATION_ID, o_name = ''Default Workspace'', o_slug = ''default'', o_created = t\<rparr>"

definition backfill_organization :: "db \<Rightarrow> db" where
  "backfill_organization s = s\<lparr>
     apps := map (\<lambda>r. r\<lparr>ap_org := DEFAULT_ORGANIZATION_ID\<rparr>) (apps s),
     evaluator_configs := map (\<lambda>r. r\<lparr>vc_org := DEFAULT_ORGANIZATION_ID\<rparr>) (evaluator_configs s),
     gate_rules := map (\<lambda>r. r\<lparr>gr_org := DEFAULT_ORGANIZATION_ID\<rparr>) (gate_rules s),
     runs := map (\<lambda>r. r\<lparr>er_org := DEFAULT_ORGANIZATION_ID\<rparr>) (runs s),
     comparisons := map (\<lambda>r. r\<lparr>cm_org := DEFAULT_ORGANIZATION_ID\<rparr>) (comparisons s)\<rparr>"

lemma ranks_before_total: "fst x \<noteq> fst y \<Longrightarrow> ranks_before x y \<or> ranks_before y x"
  by (auto simp: ranks_before_def)

lemma ranks_before_trans: "ranks_before x y \<Longrightarrow> ranks_before y z \<Longrightarrow> ranks_before x z"
  by (auto simp: ranks_before_def)

lemma ranks_before_irrefl: "\<not> ranks_before x x"
  by (simp add: ranks_before_def)

lemma kept_result:
  "x \<in> set (delete_duplicate_results rows) \<longleftrightarrow>
     x \<in> set rows \<and> (\<forall>y \<in> set rows. result_key y = result_key x \<longrightarrow> \<not> ranks_before y x)"
  by (auto simp: delete_duplicate_results_def duplicate_rank_def filter_empty_conv)

text \<open>Every key keeps a row.\<close>

lemma some_result_first:
  assumes "x \<in> set rows"
  shows "\<exists>y \<in> set (delete_duplicate_results rows). result_key y = result_key x"
proof -
  define before where "before y = filter (\<lambda>z. result_key z = result_key y \<and> ranks_before z y) rows" for y
  show ?thesis using assms
  proof (induction "length (before x)" arbitrary: x rule: less_induct)
    case less
    show ?case
    proof (cases "before x")
      case Nil
      then have "x \<in> set (delete_duplicate_results rows)"
        using less.prems by (auto simp: before_def kept_result filter_empty_conv)
      then show ?thesis by blast
    next
      case (Cons y ys)
      then have y: "y \<in> set rows" "result_key y = result_key x" "ranks_before y x"
        using list.set_intros(1) [of y ys] by (simp_all flip: Cons) (simp_all add: before_def)
      have "before y = filter (\<lambda>z. ranks_before z y) (before x)"
        using y(2) ranks_before_trans [OF _ y(3)] by (auto simp: before_def intro!: filter_cong)
      moreover have "y \<in> set (before x)" using Cons by simp
      ultimately have "length (before y) < length (before x)"
        using ranks_before_irrefl [of y] by (simp add: length_filter_less)
      from less.hyps [OF this y(1)] y(2) show ?thesis by simp
    qed
  qed
qed

section \<open>Properties\<close>


text \<open>Every downgrade takes back its upgrade: the schema is the one before, up to the order of what a table holds.\<close>

theorem downgrades_undo_upgrades:
  "\<exists>c1 c2 c3 c4 d2 d3. run_ddl upgrade_0001 [] = Inr c1 \<and> run_ddl upgrade_0002 c1 = Inr c2 \<and>
     run_ddl upgrade_0003 c2 = Inr c3 \<and> run_ddl upgrade_0004 c3 = Inr c4 \<and>
     run_ddl downgrade_0001 c1 = Inr [] \<and> run_ddl downgrade_0002 c2 = Inr c1 \<and>
     run_ddl downgrade_0003 c3 = Inr d2 \<and> same_catalogue d2 c2 \<and> run_ddl downgrade_0004 c4 = Inr d3 \<and> same_catalogue d3 c3"
  using schema_audit by (auto split: sum.splits)

text \<open>Before it makes item and evaluator unique, the third migration keeps for each of them the newest result and
  no other, so the constraint holds and no item loses an evaluator.\<close>

theorem deduplication_keeps_newest:
  assumes "distinct (map fst rows)"
  shows "distinct (map result_key (delete_duplicate_results rows)) \<and>
    result_key ` set (delete_duplicate_results rows) = result_key ` set rows \<and>
    (\<forall>x \<in> set (delete_duplicate_results rows). \<forall>y \<in> set rows.
       result_key y = result_key x \<longrightarrow> y = x \<or> ranks_before x y)"
proof -
  let ?kept = "delete_duplicate_results rows"
  have first: "y = x \<or> ranks_before x y"
    if "x \<in> set ?kept" "y \<in> set rows" "result_key y = result_key x" for x y
  proof (cases "fst y = fst x")
    case True
    with that assms show ?thesis by (auto simp: kept_result distinct_map inj_on_def)
  next
    case False
    with that ranks_before_total [of x y] show ?thesis by (auto simp: kept_result)
  qed
  have "inj_on result_key (set ?kept)"
  proof (rule inj_onI)
    fix x y assume h: "x \<in> set ?kept" "y \<in> set ?kept" "result_key x = result_key y"
    then have "y \<in> set rows" "\<not> ranks_before x y" by (auto simp: kept_result)
    with first [OF h(1) this(1)] h(3) show "x = y" by auto
  qed
  moreover have "distinct ?kept" using assms by (simp add: delete_duplicate_results_def distinct_map)
  moreover have "result_key ` set ?kept = result_key ` set rows"
  proof
    show "result_key ` set ?kept \<subseteq> result_key ` set rows" by (auto simp: kept_result)
    show "result_key ` set rows \<subseteq> result_key ` set ?kept"
    proof
      fix k assume "k \<in> result_key ` set rows"
      then obtain x where "x \<in> set rows" "k = result_key x" by blast
      with some_result_first [OF this(1)] show "k \<in> result_key ` set ?kept" by (metis imageI)
    qed
  qed
  ultimately show ?thesis using first by (simp add: distinct_map)
qed

section \<open>Witnesses\<close>

definition stored_twice :: "stored_result list" where
  "stored_twice = map (\<lambda>(i, t). (i, \<lparr>rs_item = ''i'', rs_name = ''exact_match'', rs_score = None, rs_passed = None,
     rs_errored = False, rs_skipped = True, rs_error = None, rs_details = [], rs_created = t\<rparr>)) [(''a'', 1), (''b'', 2)]"

lemma deduplication_keeps_newest_witness: "result_key ` set (delete_duplicate_results stored_twice) = {(''i'', ''exact_match'')}"
proof -
  have "distinct (map fst stored_twice)" by (simp add: stored_twice_def)
  from deduplication_keeps_newest [OF this] have "result_key ` set (delete_duplicate_results stored_twice) = result_key ` set stored_twice"
    by blast
  then show ?thesis by (simp add: stored_twice_def result_key_def)
qed

end
