(* ===== verification/Request_Schemas.thy ===== *)
theory Request_Schemas imports Migrations Credentials begin

text \<open>
  \<open>backend/app/schemas\<close>: what the request bodies of the API must satisfy, and what its responses show of a row. The
  checks are those the models declare, on fields of the declared types; that a missing field or one of another type is
  refused is the library's part. A field that passes its length bounds goes through the model's own validator.
\<close>

section \<open>Fields\<close>

definition text_field :: "nat \<Rightarrow> nat \<Rightarrow> string \<Rightarrow> string res" where
  "text_field lo hi v =
     (if length v < lo then Inl (Exn ValueErr ''string_too_short'')
      else if hi < length v then Inl (Exn ValueErr ''string_too_long'')
      else Inr v)"

definition optional :: "('a \<Rightarrow> 'a res) \<Rightarrow> 'a option \<Rightarrow> 'a option res" where
  "optional check v = (case v of None \<Rightarrow> Inr None | Some x \<Rightarrow> and_then (check x) (\<lambda>y. Inr (Some y)))"

definition int_field :: "int \<Rightarrow> int \<Rightarrow> int \<Rightarrow> int res" where
  "int_field lo hi v =
     (if v < lo then Inl (Exn ValueErr ''greater_than_equal'')
      else if hi < v then Inl (Exn ValueErr ''less_than_equal'')
      else Inr v)"

definition VALID_ROLES :: "string list" where
  "VALID_ROLES = [''owner'', ''admin'', ''evaluator'', ''viewer'']"

definition validate_role :: "string \<Rightarrow> string res" where
  "validate_role value =
     (if value \<notin> set VALID_ROLES then Inl (Exn ValueErr ''Invalid membership role'') else Inr value)"

section \<open>Requests\<close>

datatype request =
    BootstrapCreate string string string string string
  | LoginCreate string string "string option"
  | OrganizationSwitch string
  | PasswordChange string string
  | ApiKeyCreate string "int option"
  | OrganizationCreate string string
  | MemberCreate string string "string option" string
  | MemberRoleUpdate string
  | AppCreate string string
  | AppVersionCreate string string dict
  | EvalSuiteCreate string
  | EvalCaseImportRequest "(string option \<times> dict) list"
  | EvaluatorConfigCreate string dict
  | GateRuleCreate string "(string \<times> dict) list"

definition bootstrap_create :: "string \<Rightarrow> string \<Rightarrow> string \<Rightarrow> string \<Rightarrow> string \<Rightarrow> request res" where
  "bootstrap_create email password display_name organization_name organization_slug =
     and_then (and_then (text_field 3 320 email) normalize_email) (\<lambda>e.
     and_then (text_field 12 128 password) (\<lambda>p.
     and_then (text_field 1 120 display_name) (\<lambda>d.
     and_then (text_field 1 120 organization_name) (\<lambda>n.
     and_then (and_then (text_field 2 80 organization_slug) normalize_slug) (\<lambda>g.
     Inr (BootstrapCreate e p d n g))))))"

definition login_create :: "string \<Rightarrow> string \<Rightarrow> string option \<Rightarrow> request res" where
  "login_create email password organization_slug =
     and_then (and_then (text_field 3 320 email) normalize_email) (\<lambda>e.
     and_then (text_field 1 128 password) (\<lambda>p.
     and_then (optional (text_field 0 80) organization_slug) (\<lambda>g.
     Inr (LoginCreate e p g))))"

definition organization_switch :: "string \<Rightarrow> request res" where
  "organization_switch organization_slug =
     and_then (text_field 2 80 organization_slug) (\<lambda>g. Inr (OrganizationSwitch g))"

definition password_change :: "string \<Rightarrow> string \<Rightarrow> request res" where
  "password_change current_password new_password =
     and_then (text_field 1 128 current_password) (\<lambda>c.
     and_then (text_field 12 128 new_password) (\<lambda>n.
     Inr (PasswordChange c n)))"

definition api_key_create :: "string \<Rightarrow> int option \<Rightarrow> request res" where
  "api_key_create key_name expires_in_days =
     and_then (text_field 1 120 key_name) (\<lambda>n.
     and_then (optional (int_field 1 365) expires_in_days) (\<lambda>d.
     Inr (ApiKeyCreate n d)))"

definition organization_create :: "string \<Rightarrow> string \<Rightarrow> request res" where
  "organization_create org_name slug =
     and_then (text_field 1 120 org_name) (\<lambda>n.
     and_then (and_then (text_field 2 80 slug) normalize_slug) (\<lambda>g.
     Inr (OrganizationCreate n g)))"

definition member_create :: "string \<Rightarrow> string \<Rightarrow> string option \<Rightarrow> string \<Rightarrow> request res" where
  "member_create email display_name password role =
     and_then (and_then (text_field 3 320 email) normalize_email) (\<lambda>e.
     and_then (text_field 1 120 display_name) (\<lambda>d.
     and_then (optional (text_field 12 128) password) (\<lambda>p.
     and_then (validate_role role) (\<lambda>r.
     Inr (MemberCreate e d p r)))))"

definition member_role_update :: "string \<Rightarrow> request res" where
  "member_role_update role = and_then (validate_role role) (\<lambda>r. Inr (MemberRoleUpdate r))"

definition app_create :: "string \<Rightarrow> string \<Rightarrow> request res" where
  "app_create app_name description =
     and_then (text_field 1 120 app_name) (\<lambda>n. Inr (AppCreate n description))"

definition app_version_create :: "string \<Rightarrow> string \<Rightarrow> dict \<Rightarrow> request res" where
  "app_version_create version_name adapter_module config =
     and_then (text_field 1 120 version_name) (\<lambda>n.
     and_then (text_field 1 255 adapter_module) (\<lambda>m.
     Inr (AppVersionCreate n m config)))"

definition eval_suite_create :: "string \<Rightarrow> request res" where
  "eval_suite_create suite_name = and_then (text_field 1 120 suite_name) (\<lambda>n. Inr (EvalSuiteCreate n))"

definition eval_case_import_request :: "(string option \<times> dict) list \<Rightarrow> request res" where
  "eval_case_import_request cases =
     (if cases = [] then Inl (Exn ValueErr ''too_short'') else Inr (EvalCaseImportRequest cases))"

definition evaluator_config_create :: "string \<Rightarrow> dict \<Rightarrow> request res" where
  "evaluator_config_create config_name config =
     and_then (text_field 1 120 config_name) (\<lambda>n. Inr (EvaluatorConfigCreate n config))"

definition gate_rule_create :: "string \<Rightarrow> (string \<times> dict) list \<Rightarrow> request res" where
  "gate_rule_create rule_name rules =
     and_then (text_field 1 120 rule_name) (\<lambda>n. Inr (GateRuleCreate n rules))"

fun validated :: "request \<Rightarrow> request res" where
  "validated (BootstrapCreate e p d n g) = bootstrap_create e p d n g"
| "validated (LoginCreate e p g) = login_create e p g"
| "validated (OrganizationSwitch g) = organization_switch g"
| "validated (PasswordChange c n) = password_change c n"
| "validated (ApiKeyCreate n d) = api_key_create n d"
| "validated (OrganizationCreate n g) = organization_create n g"
| "validated (MemberCreate e d p r) = member_create e d p r"
| "validated (MemberRoleUpdate r) = member_role_update r"
| "validated (AppCreate n d) = app_create n d"
| "validated (AppVersionCreate n m c) = app_version_create n m c"
| "validated (EvalSuiteCreate n) = eval_suite_create n"
| "validated (EvalCaseImportRequest cs) = eval_case_import_request cs"
| "validated (EvaluatorConfigCreate n c) = evaluator_config_create n c"
| "validated (GateRuleCreate n r) = gate_rule_create n r"

section \<open>Responses\<close>

record user_read =
  ur_id :: string
  ur_email :: string
  ur_display_name :: string
  ur_status :: string
  ur_created_at :: int

definition user_read_of :: "user_row \<Rightarrow> user_read" where
  "user_read_of u = \<lparr>ur_id = u_id u, ur_email = u_email u, ur_display_name = u_display_name u,
     ur_status = (if u_active u then ''active'' else ''disabled''), ur_created_at = u_created u\<rparr>"

record api_key_read =
  kr_id :: string
  kr_name :: string
  kr_prefix :: string
  kr_expires_at :: "int option"
  kr_last_used_at :: "int option"
  kr_revoked_at :: "int option"
  kr_created_at :: int

definition api_key_read_of :: "api_key_row \<Rightarrow> api_key_read" where
  "api_key_read_of k = \<lparr>kr_id = ak_id k, kr_name = ak_name k, kr_prefix = ak_prefix k, kr_expires_at = ak_expires k,
     kr_last_used_at = ak_last_used k, kr_revoked_at = ak_revoked k, kr_created_at = ak_created k\<rparr>"

section \<open>What a request stores\<close>

text \<open>The texts a handler stores of an accepted request, with their columns.\<close>

fun stored_texts :: "request \<Rightarrow> (string \<times> string \<times> string) list" where
  "stored_texts (BootstrapCreate e p d n g) =
     [(''users'', ''email'', e), (''users'', ''display_name'', d), (''organizations'', ''name'', n), (''organizations'', ''slug'', g)]"
| "stored_texts (ApiKeyCreate n d) = [(''personal_api_keys'', ''name'', n)]"
| "stored_texts (OrganizationCreate n g) = [(''organizations'', ''name'', n), (''organizations'', ''slug'', g)]"
| "stored_texts (MemberCreate e d p r) =
     [(''users'', ''email'', e), (''users'', ''display_name'', d), (''memberships'', ''role'', r)]"
| "stored_texts (MemberRoleUpdate r) = [(''memberships'', ''role'', r)]"
| "stored_texts (AppCreate n d) = [(''apps'', ''name'', n), (''apps'', ''description'', d)]"
| "stored_texts (AppVersionCreate n m c) = [(''app_versions'', ''name'', n), (''app_versions'', ''adapter_module'', m)]"
| "stored_texts (EvalSuiteCreate n) = [(''eval_suites'', ''name'', n)]"
| "stored_texts (EvalCaseImportRequest cs) =
     concat (map (\<lambda>(x, payload). case x of None \<Rightarrow> [] | Some i \<Rightarrow> [(''eval_cases'', ''external_id'', i)]) cs)"
| "stored_texts (EvaluatorConfigCreate n c) = [(''evaluator_configs'', ''name'', n)]"
| "stored_texts (GateRuleCreate n r) = [(''gate_rules'', ''name'', n)]"
| "stored_texts _ = []"

text \<open>A text of a length its column takes.\<close>

definition takes :: "column_type \<Rightarrow> string \<Rightarrow> bool" where
  "takes ty v \<longleftrightarrow> (case ty of VarChar n \<Rightarrow> length v \<le> n | TextType \<Rightarrow> True | _ \<Rightarrow> False)"

definition fits :: "catalogue \<Rightarrow> string \<times> string \<times> string \<Rightarrow> bool" where
  "fits cat x = (case x of (t, c, v) \<Rightarrow>
     (case map_of cat t of None \<Rightarrow> False
      | Some tb \<Rightarrow> list_ex (\<lambda>d. cl_name d = c \<and> takes (cl_type d) v) (tb_columns tb)))"

lemma text_field_Inr: "text_field lo hi v = Inr w \<longleftrightarrow> w = v \<and> lo \<le> length v \<and> length v \<le> hi"
  by (auto simp: text_field_def)

text \<open>The length a declared column bounds its texts by.\<close>

definition declared_type :: "string \<Rightarrow> string \<Rightarrow> column_type option" where
  "declared_type t c =
     (case map_of model_tables t of
        None \<Rightarrow> None
      | Some m \<Rightarrow> map_option cl_type (find (\<lambda>d. cl_name d = c) (tb_columns m)))"

lemma declared_types:
  "declared_type ''users'' ''email'' = Some (VarChar 320)"
  "declared_type ''users'' ''display_name'' = Some (VarChar 120)"
  "declared_type ''organizations'' ''name'' = Some (VarChar 120)"
  "declared_type ''organizations'' ''slug'' = Some (VarChar 80)"
  "declared_type ''personal_api_keys'' ''name'' = Some (VarChar 120)"
  "declared_type ''memberships'' ''role'' = Some (VarChar 20)"
  "declared_type ''apps'' ''name'' = Some (VarChar 120)"
  "declared_type ''apps'' ''description'' = Some TextType"
  "declared_type ''app_versions'' ''name'' = Some (VarChar 120)"
  "declared_type ''app_versions'' ''adapter_module'' = Some (VarChar 255)"
  "declared_type ''eval_suites'' ''name'' = Some (VarChar 120)"
  "declared_type ''evaluator_configs'' ''name'' = Some (VarChar 120)"
  "declared_type ''gate_rules'' ''name'' = Some (VarChar 120)"
  "declared_type ''eval_cases'' ''external_id'' = Some (VarChar 255)"
  by (simp_all add: declared_type_def model_tables_def users_model_def organizations_model_def personal_api_keys_model_def
    memberships_model_def apps_model_def app_versions_model_def eval_suites_model_def evaluator_configs_model_def
    gate_rules_model_def eval_cases_model_def new_table_def)

lemma model_columns_distinct: "\<forall>m \<in> set model_tables. distinct (column_names (snd m))"
  by (simp add: model_tables_def column_names_def new_table_def users_model_def organizations_model_def oidc_identities_model_def
    memberships_model_def auth_sessions_model_def personal_api_keys_model_def apps_model_def app_versions_model_def
    eval_suites_model_def eval_cases_model_def eval_suite_cases_model_def evaluator_configs_model_def eval_runs_model_def
    eval_run_items_model_def traces_model_def eval_results_model_def gate_rules_model_def comparisons_model_def
    regression_reports_model_def gold_labels_model_def)

lemma fits_iff:
  assumes "declared_type t c = Some ty" and "head_catalogue = Inr cat"
  shows "fits cat (t, c, v) \<longleftrightarrow> takes ty v"
proof -
  from assms(1) obtain m d where m: "map_of model_tables t = Some m" "find (\<lambda>d. cl_name d = c) (tb_columns m) = Some d" "cl_type d = ty"
    by (auto simp: declared_type_def split: option.splits)
  then have d: "d \<in> set (tb_columns m)" "cl_name d = c" by (auto simp: find_Some_iff)
  note mem = map_of_SomeD [OF m(1)]
  from head_column [OF assms(2) mem d(1)] obtain tb x where
    tb: "map_of cat t = Some tb" "x \<in> set (tb_columns tb)" "cl_name x = c" "cl_type x = ty" using d(2) m(3) by auto
  have "cl_type y = ty" if y: "y \<in> set (tb_columns tb)" "cl_name y = c" for y
  proof -
    from head_audit obtain c4 where "head_catalogue = Inr c4" "list_all (declared_agrees c4) model_tables" by blast
    with assms(2) have "list_all (declared_agrees cat) model_tables" by (metis sum.inject(2))
    with mem tb(1) have "table_agrees tb m" by (auto simp: list_all_iff declared_agrees_def)
    then have "column_shape y \<in> set (map column_shape (tb_columns m))"
      using y(1) by (auto simp: table_agrees_def same_set_def list_all_iff)
    then obtain z where z: "z \<in> set (tb_columns m)" "cl_name z = c" "cl_type z = cl_type y"
      using y(2) by (auto simp: column_shape_def)
    have "distinct (column_names m)" using model_columns_distinct mem by force
    with z(1,2) d have "z = d" by (auto simp: column_names_def distinct_map inj_on_def)
    with z(3) m(3) show ?thesis by simp
  qed
  with tb show ?thesis by (auto simp: fits_def list_ex_iff)
qed

lemmas column_fits = declared_types [THEN fits_iff]

lemma strip_length: "length (py_strip s) \<le> length s"
  unfolding py_strip_def py_rstrip_by_def py_lstrip_by_def
  by (metis le_trans length_dropWhile_le length_rev)

lemma set_strip: "set (py_strip s) \<subseteq> set s"
  unfolding py_strip_def py_rstrip_by_def py_lstrip_by_def by (metis set_dropWhileD set_rev subsetI)

definition sharp_s :: char where
  "sharp_s = CHR 0xDF"

lemma casefold_length:
  "length (py_casefold s) \<le> 2 * length s" "sharp_s \<notin> set s \<Longrightarrow> length (py_casefold s) = length s"
proof -
  have sharp: "code_point c = 223 \<longleftrightarrow> c = sharp_s" for c
  proof
    assume "code_point c = 223"
    then have "c = char_of (223 :: nat)" by (metis char_of_char)
    also have "\<dots> = sharp_s" by code_simp
    finally show "c = sharp_s" .
  qed (simp add: sharp_s_def)
  show "length (py_casefold s) \<le> 2 * length s" by (induction s) (auto simp: py_casefold_def)
  show "sharp_s \<notin> set s \<Longrightarrow> length (py_casefold s) = length s"
    by (induction s) (auto simp: py_casefold_def sharp)
qed

lemma normal_email:
  assumes "normalize_email v = Inr e"
  shows "length e \<le> 2 * length v" and "sharp_s \<notin> set v \<Longrightarrow> length e \<le> length v"
proof -
  from assms have e: "e = py_casefold (py_strip v)" by (auto simp: normalize_email_def Let_def split: if_splits)
  show "length e \<le> 2 * length v" unfolding e using casefold_length(1) [of "py_strip v"] strip_length [of v] by linarith
  show "sharp_s \<notin> set v \<Longrightarrow> length e \<le> length v"
    unfolding e using casefold_length(2) [of "py_strip v"] strip_length [of v] set_strip [of v] by (metis subsetD)
qed

lemma normal_slug: "normalize_slug v = Inr e \<Longrightarrow> length e \<le> length v"
  using strip_length [of v] by (auto simp: normalize_slug_def Let_def py_lower_def split: if_splits)

text \<open>The email of a request, as it was sent.\<close>

fun email_of :: "request \<Rightarrow> string" where
  "email_of (BootstrapCreate e p d n g) = e"
| "email_of (MemberCreate e d p r) = e"
| "email_of _ = []"

text \<open>The two kinds of text that can outgrow their column: an identifier of an imported case, which nothing bounds, and an
  email whose case folding is longer than what was sent.\<close>

definition outgrown :: "request \<Rightarrow> string \<times> string \<times> string \<Rightarrow> bool" where
  "outgrown r x = (case x of (t, c, v) \<Rightarrow>
     t = ''eval_cases'' \<and> c = ''external_id'' \<and> 255 < length v \<or>
     t = ''users'' \<and> c = ''email'' \<and> 320 < length v \<and> length v \<le> 640 \<and> sharp_s \<in> set (email_of r))"

lemma bounded_email:
  assumes "text_field 3 320 v = Inr w" and "normalize_email w = Inr e" and "320 < length e"
  shows "length e \<le> 640 \<and> sharp_s \<in> set v"
  using normal_email [OF assms(2)] assms(1,3) by (auto simp: text_field_Inr)

lemma role_length: "validate_role v = Inr r \<Longrightarrow> length r \<le> 20"
  by (auto simp: validate_role_def VALID_ROLES_def split: if_splits)

section \<open>Properties\<close>

text \<open>C35: Every text a validated request has the API store fits its column in the migrated database, with two
  exceptions: case identifiers over 255 characters, and emails that case folding makes longer than 320.\<close>

theorem accepted_texts_fit:
  assumes "head_catalogue = Inr cat" and "validated r = Inr r'"
  shows "list_all (\<lambda>x. fits cat x \<longleftrightarrow> \<not> outgrown r x) (stored_texts r')"
proof -
  note fit = column_fits [OF assms(1)]
  show ?thesis
  proof (cases r)
    case (BootstrapCreate e p d n g)
    with assms(2) show ?thesis
      using bounded_email [of e] normal_slug
      by (fastforce simp: bootstrap_create_def and_then_Inr_iff text_field_Inr fit takes_def outgrown_def)
  next
    case (MemberCreate e d p q)
    with assms(2) show ?thesis
      using bounded_email [of e] role_length
      by (fastforce simp: member_create_def and_then_Inr_iff text_field_Inr fit takes_def outgrown_def)
  next
    case (OrganizationCreate n g)
    with assms(2) show ?thesis
      using normal_slug
      by (fastforce simp: organization_create_def and_then_Inr_iff text_field_Inr fit takes_def outgrown_def)
  next
    case (EvalCaseImportRequest cs)
    with assms(2) show ?thesis
      by (auto simp: eval_case_import_request_def list_all_iff fit takes_def outgrown_def split: if_splits option.splits)
  qed (use assms(2) role_length in \<open>auto simp: and_then_Inr_iff text_field_Inr fit takes_def outgrown_def
      login_create_def organization_switch_def password_change_def api_key_create_def member_role_update_def
      app_create_def app_version_create_def eval_suite_create_def evaluator_config_create_def gate_rule_create_def\<close>)
qed

text \<open>An email within its bounds whose normal form no user row can hold.\<close>

theorem email_outgrows_column:
  "\<exists>v e. length v \<le> 320 \<and> and_then (text_field 3 320 v) normalize_email = Inr e \<and> 320 < length e"
proof -
  define v where "v = replicate 160 sharp_s @ ''@a.b''"
  have "length v \<le> 320" by (simp add: v_def)
  moreover have "case and_then (text_field 3 320 v) normalize_email of Inl _ \<Rightarrow> False | Inr e \<Rightarrow> 320 < length e"
    unfolding v_def by code_simp
  then obtain e where "and_then (text_field 3 320 v) normalize_email = Inr e" "320 < length e"
    by (cases "and_then (text_field 3 320 v) normalize_email") simp_all
  ultimately show ?thesis by blast
qed

text \<open>What a response shows of a user or of a key does not depend on password or token hash, nor on the count of failed
  logins: two rows that differ only there read the same.\<close>

theorem responses_hide_secrets:
  "user_read_of (u\<lparr>u_password_hash := h, u_failed := n, u_locked_until := l\<rparr>) = user_read_of u \<and>
   api_key_read_of (k\<lparr>ak_token_hash := t\<rparr>) = api_key_read_of k"
  by (simp add: user_read_of_def api_key_read_of_def)

section \<open>Witnesses\<close>

lemma accepted_texts_fit_witness:
  "\<exists>cat. head_catalogue = Inr cat \<and> fits cat (''apps'', ''name'', ''demo'')"
proof -
  from head_audit obtain cat where cat: "head_catalogue = Inr cat" by blast
  have "validated (AppCreate ''demo'' []) = Inr (AppCreate ''demo'' [])" by (simp add: app_create_def text_field_def)
  from accepted_texts_fit [OF cat this] have "fits cat (''apps'', ''name'', ''demo'')" by (simp add: outgrown_def)
  with cat show ?thesis by blast
qed

end
