(* ===== verification/Gold_Set.thy ===== *)
theory Gold_Set imports Py_Base begin

text \<open>
  \<open>backend/app/calibration/gold_set.py\<close>: the entry type and the fifty author-scored entries of the synthetic calibration
  fixture, ten to a definition. The notes of the author are Unicode text, given by code points, since one of them has a
  dash outside Latin-1; nothing computes with them.
\<close>

definition cps :: "string \<Rightarrow> nat list" where
  "cps s = map of_char s"

datatype gold_label_entry = GoldLabelEntry (case_id: string) (question: string) (expected_answer: string)
  (baseline_answer: string) (label_score: int) (label_notes: "nat list") (token_f1_overlap: real) (keyword_coverage: real)
  (retrieval_hit: bool) (forbidden_claim_triggered: bool) (entry_latency_ms: int) (estimated_cost_usd: real)

definition fixture_1_10 :: "gold_label_entry list" where
  "fixture_1_10 =
    [GoldLabelEntry ''demo-0001'' ''Which Python module is used for virtual environments?''
       ''Python uses the venv module for virtual environments.''
       ''Python uses the venv module for virtual environments.''
       5 (cps ''Perfect match. All expected facts present. No hallucination.'')
       1 1 True False 120 (4 / 1000000),
     GoldLabelEntry ''demo-0002'' ''Which Python module is used for JSON handling?''
       ''Python uses the json module for JSON documents.''
       ''Python uses the json module for JSON documents.''
       5 (cps ''Perfect. Exact expected answer.'')
       1 1 True False 120 (4 / 1000000),
     GoldLabelEntry ''demo-0003'' ''Which Python module is used for datetime operations?''
       ''Python uses the datetime module for dates and times.''
       ''Python uses the datetime module for dates and times.''
       5 (cps ''Perfect match.'')
       1 1 True False 120 (4 / 1000000),
     GoldLabelEntry ''demo-0004'' ''Which Python module is used for file system paths?''
       ''Python uses the pathlib module for file system paths.''
       ''Python uses the pathlib module for file system paths.''
       5 (cps ''Perfect match.'')
       1 1 True False 120 (4 / 1000000),
     GoldLabelEntry ''demo-0005'' ''Which Python module is used for async concurrency?''
       ''Python uses the asyncio module for async concurrency.''
       ''Python uses the asyncio module for async concurrency.''
       5 (cps ''Perfect match.'')
       1 1 True False 120 (4 / 1000000),
     GoldLabelEntry ''demo-0006'' ''Which Python module is used for math operations?''
       ''Python uses the math module for mathematical operations.''
       ''Python uses the math module for mathematical operations.''
       5 (cps ''Perfect match.'')
       1 1 True False 120 (4 / 1000000),
     GoldLabelEntry ''demo-0007'' ''Which Python module is used for logging?''
       ''Python uses the logging module for event logging.''
       ''Python uses the logging module for event logging.''
       5 (cps ''Perfect. All facts present.'')
       1 1 True False 120 (4 / 1000000),
     GoldLabelEntry ''demo-0008'' ''Which Python module is used for type hints?''
       ''Python uses the typing module for type hints.''
       ''Python uses the typing module for type hints.''
       5 (cps ''Perfect match.'')
       1 1 True False 120 (4 / 1000000),
     GoldLabelEntry ''demo-0009'' ''Which Python module is used for CSV files?''
       ''Python uses the csv module for CSV files.''
       ''Python uses the csv module for CSV files.''
       5 (cps ''Perfect match.'')
       1 1 True False 120 (4 / 1000000),
     GoldLabelEntry ''demo-0010'' ''Which Python module is used for SQLite database access?''
       ''Python uses the sqlite3 module for SQLite database access.''
       ''Python uses the sqlite3 module for SQLite database access.''
       5 (cps ''Perfect match.'')
       1 1 True False 120 (4 / 1000000)]"

definition fixture_11_20 :: "gold_label_entry list" where
  "fixture_11_20 =
    [GoldLabelEntry ''demo-0011'' ''Which Python module is used for regular expressions?''
       ''Python uses the re module for regular expressions.''
       ''Python uses the re module for regular expressions.''
       5 (cps ''Perfect. Exact answer.'')
       1 1 True False 120 (4 / 1000000),
     GoldLabelEntry ''demo-0012'' ''Which Python module is used for random numbers?''
       ''Python uses the random module for pseudo-random number generation.''
       ''Python uses the random module for pseudo-random number generation.''
       5 (cps ''Perfect match.'')
       1 1 True False 120 (4 / 1000000),
     GoldLabelEntry ''demo-0013'' ''Which Python module is used for unit testing?''
       ''Python uses the unittest module for test automation and shared setup code.''
       ''Python uses the unittest module for test automation and shared setup code.''
       5 (cps ''Perfect. All facts present.'')
       1 1 True False 120 (4 / 1000000),
     GoldLabelEntry ''demo-0014'' ''Which Python module is used for collections data types?''
       ''Python uses the collections module for specialized container datatypes.''
       ''Python uses the collections module for specialized container datatypes.''
       5 (cps ''Perfect match.'')
       1 1 True False 120 (4 / 1000000),
     GoldLabelEntry ''demo-0015'' ''Which Python module is used for iterators and generators?''
       ''Python uses the itertools module for fast iterator functions.''
       ''Python uses the itertools module for fast iterator functions.''
       5 (cps ''Perfect match.'')
       1 1 True False 120 (4 / 1000000),
     GoldLabelEntry ''demo-0016'' ''Which Python module is used for system-specific parameters?''
       ''Python uses the sys module for system-specific parameters and functions.''
       ''Python uses the sys module for system-specific parameters and functions.''
       5 (cps ''Perfect match.'')
       1 1 True False 120 (4 / 1000000),
     GoldLabelEntry ''demo-0017'' ''Which Python module is used for OS interactions?''
       ''Python uses the os module for operating system interfaces.''
       ''Python uses the os module for operating system interfaces.''
       5 (cps ''Perfect match.'')
       1 1 True False 120 (4 / 1000000),
     GoldLabelEntry ''demo-0018'' ''Which Python module is used for HTTP requests?''
       ''Python uses the urllib module for URL handling and HTTP requests.''
       ''Python uses the urllib module for URL handling and HTTP requests.''
       5 (cps ''Perfect match.'')
       1 1 True False 120 (4 / 1000000),
     GoldLabelEntry ''demo-0019'' ''Which Python module is used for threading?''
       ''Python uses the threading module for concurrent execution across threads.''
       ''Python uses the threading module for concurrent execution across threads.''
       5 (cps ''Perfect. All facts present.'')
       1 1 True False 120 (4 / 1000000),
     GoldLabelEntry ''demo-0020'' ''Which Python module is used for multiprocessing?''
       ''Python uses the multiprocessing module for parallel execution across processes.''
       ''Python uses the multiprocessing module for parallel execution across processes.''
       5 (cps ''Perfect match.'')
       1 1 True False 120 (4 / 1000000)]"

definition fixture_21_30 :: "gold_label_entry list" where
  "fixture_21_30 =
    [GoldLabelEntry ''demo-0025'' ''What does the datetime module provide?''
       ''The datetime module supplies classes for manipulating dates and times.''
       ''The datetime module supplies classes for manipulating dates and times.''
       5 (cps ''Perfect. Verbatim from corpus.'')
       1 1 True False 120 (4 / 1000000),
     GoldLabelEntry ''demo-0030'' ''What does the logging module do?''
       ''The logging module provides flexible event logging for applications.''
       ''The logging module provides flexible event logging for applications.''
       5 (cps ''Perfect match from corpus.'')
       1 1 True False 120 (4 / 1000000),
     GoldLabelEntry ''demo-0040'' ''What does the argparse module do?''
       ''The argparse module parses command-line arguments and options.''
       ''The argparse module parses command-line arguments and options.''
       5 (cps ''Perfect match from corpus.'')
       1 1 True False 120 (4 / 1000000),
     GoldLabelEntry ''demo-0050'' ''What does the hashlib module provide?''
       ''The hashlib module implements secure hash and message digest algorithms.''
       ''The hashlib module implements secure hash and message digest algorithms.''
       5 (cps ''Perfect match from corpus.'')
       1 1 True False 120 (4 / 1000000),
     GoldLabelEntry ''demo-0060'' ''What does the base64 module do?''
       ''The base64 module encodes and decodes base64 data.''
       ''The base64 module encodes and decodes base64 data.''
       5 (cps ''Perfect match from corpus.'')
       1 1 True False 120 (4 / 1000000),
     GoldLabelEntry ''demo-0070'' ''How does Python handle datetime?''
       ''The datetime module supplies classes for manipulating dates and times.''
       ''The datetime module supplies classes for manipulating dates and times.''
       5 (cps ''Exact answer from corpus. Correct and complete.'')
       1 1 True False 120 (4 / 1000000),
     GoldLabelEntry ''demo-0071'' ''Tell me about Python logging capabilities''
       ''The logging module provides flexible event logging for applications.''
       ''The logging module provides flexible event logging for applications.''
       5 (cps ''Answer is corpus verbatim. Complete and correct.'')
       1 1 True False 120 (4 / 1000000),
     GoldLabelEntry ''demo-0072'' ''What is argparse used for?''
       ''The argparse module parses command-line arguments and options.''
       ''The argparse module parses command-line arguments and options.''
       5 (cps ''Corpus verbatim. Correct.'')
       1 1 True False 120 (4 / 1000000),
     GoldLabelEntry ''demo-0073'' ''Explain Python concurrency with asyncio''
       ''The asyncio module supports concurrent code with async and await syntax.''
       ''The asyncio module supports concurrent code with async and await syntax.''
       5 (cps ''Corpus verbatim. Correct.'')
       1 1 True False 120 (4 / 1000000),
     GoldLabelEntry ''demo-0074'' ''What can you do with the collections module?''
       ''The collections module provides specialized container datatypes.''
       ''The collections module provides specialized container datatypes.''
       5 (cps ''Corpus verbatim. Correct.'')
       1 1 True False 120 (4 / 1000000)]"

definition fixture_31_40 :: "gold_label_entry list" where
  "fixture_31_40 =
    [GoldLabelEntry ''demo-0080'' ''What does venv do in Python?''
       ''Python uses the venv module for virtual environments.''
       ''Python uses the venv module for virtual environments.''
       5 (cps ''Correct and complete.'')
       1 1 True False 120 (4 / 1000000),
     GoldLabelEntry ''demo-0081'' ''How to work with JSON in Python?''
       ''Python uses the json module for JSON documents.''
       ''Python uses the json module for JSON documents.''
       5 (cps ''Correct. Slightly terse but complete.'')
       1 1 True False 120 (4 / 1000000),
     GoldLabelEntry ''demo-0082'' ''What is unittest for?''
       ''The unittest module supports test automation and shared setup code.''
       ''The unittest module supports test automation and shared setup code.''
       5 (cps ''Corpus verbatim. Correct.'')
       1 1 True False 120 (4 / 1000000),
     GoldLabelEntry ''demo-0083'' ''Describe Python's file path handling''
       ''The pathlib module represents filesystem paths as objects.''
       ''The pathlib module represents filesystem paths as objects.''
       5 (cps ''Corpus verbatim. Correct.'')
       1 1 True False 120 (4 / 1000000),
     GoldLabelEntry ''demo-0084'' ''How does hashlib work in Python?''
       ''The hashlib module implements secure hash and message digest algorithms.''
       ''The hashlib module implements secure hash and message digest algorithms.''
       5 (cps ''Corpus verbatim. Correct.'')
       1 1 True False 120 (4 / 1000000),
     GoldLabelEntry ''demo-0090'' ''How do you encode data to base64 format?''
       ''The base64 module encodes and decodes base64 data.''
       ''The base64 module encodes and decodes base64 data.''
       5 (cps ''Correct. All facts present.'')
       1 (5 / 10) True False 120 (4 / 1000000),
     GoldLabelEntry ''demo-0091'' ''What is the purpose of the sys module?''
       ''The sys module provides system-specific parameters and functions.''
       ''The sys module provides system-specific parameters and functions.''
       5 (cps ''Corpus verbatim. Correct.'')
       1 1 True False 120 (4 / 1000000),
     GoldLabelEntry ''demo-0092'' ''How does Python support multiprocessing?''
       ''The multiprocessing module supports parallel execution across processes.''
       ''The multiprocessing module supports parallel execution across processes.''
       5 (cps ''Corpus verbatim. Correct.'')
       1 1 True False 120 (4 / 1000000),
     GoldLabelEntry ''demo-0093'' ''What module handles CSVs?''
       ''Python uses the csv module for CSV files.''
       ''Python uses the csv module for CSV files.''
       5 (cps ''Correct and complete.'')
       1 1 True False 120 (4 / 1000000),
     GoldLabelEntry ''demo-0094'' ''How do you do threading in Python?''
       ''Python uses the threading module for concurrent execution across threads.''
       ''Python uses the threading module for concurrent execution across threads.''
       5 (cps ''All facts present. Correct.'')
       1 1 True False 120 (4 / 1000000)]"

definition fixture_41_50 :: "gold_label_entry list" where
  "fixture_41_50 =
    [GoldLabelEntry ''demo-0095'' ''What Python tool creates isolated environments?''
       ''Python uses the venv module for virtual environments.''
       ''Python uses the venv module for virtual environments.''
       5 (cps ''All facts present. Semantic is perfect. Keywords hit 50% because 'isolated' not in expected_facts.'')
       1 (5 / 10) True False 120 (4 / 1000000),
     GoldLabelEntry ''demo-0096'' ''Tell me how Python deals with JSON documents''
       ''Python uses the json module for JSON documents.''
       ''Python uses the json module for JSON documents.''
       5 (cps ''Perfect answer. Keyword score 50% because 'deals with' not in expected_facts list.'')
       1 (5 / 10) True False 120 (4 / 1000000),
     GoldLabelEntry ''demo-0097'' ''Python module for time operations?''
       ''The datetime module supplies classes for manipulating dates and times.''
       ''The datetime module supplies classes for manipulating dates and times.''
       5 (cps ''Perfect answer. Keyword coverage 50% because 'time operations' not in expected_facts.'')
       1 (5 / 10) True False 120 (4 / 1000000),
     GoldLabelEntry ''demo-0098'' ''What reads Python CLI flags?''
       ''The argparse module parses command-line arguments and options.''
       ''The argparse module parses command-line arguments and options.''
       5 (cps ''Perfect answer. Keyword 50% as 'CLI flags' differs from 'command-line arguments'.'')
       1 (5 / 10) True False 120 (4 / 1000000),
     GoldLabelEntry ''demo-0099'' ''Python crypto hash functions?''
       ''The hashlib module implements secure hash and message digest algorithms.''
       ''The hashlib module implements secure hash and message digest algorithms.''
       5 (cps ''Perfect answer. Keyword 50% as 'crypto' not in expected_facts.'')
       1 (5 / 10) True False 120 (4 / 1000000),
     GoldLabelEntry ''demo-0100'' ''How do you write concurrent code in Python?''
       ''The asyncio module supports concurrent code with async and await syntax.''
       ''The asyncio module supports concurrent code with async and await syntax.''
       5 (cps ''Perfect answer. Keyword 50% '' @ [8212] @ cps '' 'write' not in expected_facts.'')
       1 (5 / 10) True False 120 (4 / 1000000),
     GoldLabelEntry ''demo-h1'' ''Which Python module is used for virtual environments?''
       ''Python uses the venv module for virtual environments.''
       ''Python uses a telepathic compiler backed by a quantum database for venv.''
       2 (cps ''Contains hallucinated claims (telepathic compiler, quantum database). Answer is partially correct but polluted.'')
       (25 / 100) (5 / 10) True True 260 (4 / 1000000),
     GoldLabelEntry ''demo-h2'' ''Which Python module is used for JSON handling?''
       ''Python uses the json module for JSON documents.''
       ''Python uses a telepathic compiler backed by a quantum database for json.''
       2 (cps ''Hallucinates telepathic compiler + quantum database. Module name correct but output untrustworthy.'')
       (25 / 100) (5 / 10) True True 260 (4 / 1000000),
     GoldLabelEntry ''demo-h3'' ''Which Python module is used for datetime operations?''
       ''Python uses the datetime module for dates and times.''
       ''Python uses a quantum database for datetime and does not need modules.''
       1 (cps ''Severe hallucination. Claims quantum database replaces datetime. Completely wrong.'')
       (25 / 100) 0 True True 260 (4 / 1000000),
     GoldLabelEntry ''demo-h4'' ''Which Python module is used for async concurrency?''
       ''Python uses the asyncio module for async concurrency.''
       ''Python uses a quantum database for async code and does not need modules.''
       1 (cps ''Severe hallucination. Denies module exists. Completely wrong.'')
       (25 / 100) 0 True True 260 (4 / 1000000)]"

definition SYNTHETIC_CALIBRATION_FIXTURE :: "gold_label_entry list" where
  "SYNTHETIC_CALIBRATION_FIXTURE = fixture_1_10 @
     fixture_11_20 @
     fixture_21_30 @
     fixture_31_40 @
     fixture_41_50"

lemmas fixture_defs = SYNTHETIC_CALIBRATION_FIXTURE_def fixture_1_10_def fixture_11_20_def fixture_21_30_def fixture_31_40_def fixture_41_50_def

end
