(* ===== verification/Calibration_Analysis.thy ===== *)
theory Calibration_Analysis imports Calibration Gold_Set begin

text \<open>
  \<open>backend/app/calibration/analyze.py\<close>: the descriptive analysis of the calibration fixture. The result is a record with the
  entries of the dictionary the code builds; \<open>rp\<close> is the decimal form of a float in a formatted string. The sentences of
  the named findings are Unicode text, given by code points.
\<close>

section \<open>The analysis\<close>

record evaluator_rates =
  pearson_r :: real
  spearman_rho :: real
  false_positive_rate :: real
  false_negative_rate :: real

record error_tally =
  tally_count :: nat
  tally_rate :: real
  tally_out_of :: nat

record named_finding =
  finding_title :: "nat list"
  finding_severity :: "nat list"
  finding_evidence :: "nat list"
  finding_recommendation :: "nat list"

record calibration_report =
  study_type :: string
  independent_labelers :: nat
  production_validated :: bool
  limitations :: "string list"
  gold_set_size :: nat
  label_distribution :: "(string \<times> nat) list"
  evaluator_table :: "(string \<times> evaluator_rates) list"
  confusion_matrices :: "(string \<times> matrix) list"
  false_positives :: "(string \<times> error_tally) list"
  false_negatives :: "(string \<times> error_tally) list"
  named_findings :: "named_finding list"

text \<open>One round of the loop over the evaluators: the matrix, then the counts and rates it gives.\<close>

definition matrix_of :: "int list \<Rightarrow> string \<times> real list \<Rightarrow> (string \<times> matrix) res" where
  "matrix_of gold_labels = (\<lambda>(name, scores).
     and_then (confusion_matrix scores gold_labels) (\<lambda>m. Inr (name, m)))"

definition fp_count :: "matrix \<Rightarrow> nat" where
  "fp_count m = cell ''fail'' ''pass'' m + cell ''fail'' ''borderline'' m"

definition fn_count :: "matrix \<Rightarrow> nat" where
  "fn_count m = cell ''pass'' ''fail'' m + cell ''borderline'' ''fail'' m"

definition n_pass_borderline :: "int list \<Rightarrow> nat" where
  "n_pass_borderline gold_labels = length (filter (\<lambda>label. 3 \<le> label) gold_labels)"

definition n_fail :: "int list \<Rightarrow> nat" where
  "n_fail gold_labels = length (filter (\<lambda>label. label \<le> 2) gold_labels)"

definition rate_of :: "nat \<Rightarrow> nat \<Rightarrow> real" where
  "rate_of n out_of = (if 0 < out_of then real n / real out_of else 0)"

definition rates_of :: "int list \<Rightarrow> real list \<Rightarrow> matrix \<Rightarrow> evaluator_rates" where
  "rates_of gold_labels scores m =
     \<lparr>pearson_r = py_round 4 (pearson_correlation scores (map of_int gold_labels)),
      spearman_rho = py_round 4 (spearman_correlation scores (map of_int gold_labels)),
      false_positive_rate = py_round 4 (rate_of (fp_count m) (n_pass_borderline gold_labels)),
      false_negative_rate = py_round 4 (rate_of (fn_count m) (n_fail gold_labels))\<rparr>"

definition tally :: "nat \<Rightarrow> nat \<Rightarrow> error_tally" where
  "tally n out_of = \<lparr>tally_count = n, tally_rate = py_round 4 (rate_of n out_of), tally_out_of = out_of\<rparr>"

definition evaluator_data :: "gold_label_entry list \<Rightarrow> (string \<times> real list) list" where
  "evaluator_data entries =
     [(''token_f1_overlap'', map token_f1_overlap entries), (''keyword_coverage'', map keyword_coverage entries)]"

definition distribution_of :: "int list \<Rightarrow> (string \<times> nat) list" where
  "distribution_of gold_labels =
     map (\<lambda>label. (show_int label, length (filter (\<lambda>l. l = label) gold_labels))) (sort (remdups gold_labels))"

definition rates_named :: "string \<Rightarrow> (string \<times> evaluator_rates) list \<Rightarrow> evaluator_rates" where
  "rates_named name table = (case map_of table name of Some r \<Rightarrow> r
     | None \<Rightarrow> \<lparr>pearson_r = 0, spearman_rho = 0, false_positive_rate = 0, false_negative_rate = 0\<rparr>)"

definition findings_of :: "(real \<Rightarrow> string) \<Rightarrow> gold_label_entry list \<Rightarrow> (string \<times> evaluator_rates) list \<Rightarrow> named_finding list" where
  "findings_of rp entries evaluators =
     (let kw = rates_named ''keyword_coverage'' evaluators; sem = rates_named ''token_f1_overlap'' evaluators;
          low_keyword_high_label_count = length (filter (\<lambda>e. keyword_coverage e < 1 \<and> label_score e = 5) entries);
          triggered_count = length (filter forbidden_claim_triggered entries);
          triggered_bad = length (filter (\<lambda>e. forbidden_claim_triggered e \<and> label_score e \<le> 2) entries)
      in [\<lparr>finding_title = cps ''Lexical keyword coverage over-penalizes correct paraphrases'',
           finding_severity = cps ''medium'',
           finding_evidence = cps (''keyword_coverage Pearson r = '' @ rp (pearson_r kw) @ '' vs token_f1_overlap Pearson r = ''
             @ rp (pearson_r sem) @ ''. In '' @ show_nat low_keyword_high_label_count
             @ '' fixture cases received an author score of 5/5 but keyword_coverage < 1.0 because the question used synonyms ''
             @ ''(e.g., 'isolated environments' for 'virtual environments'). ''
             @ ''This is a hypothesis to validate with independent labels.''),
           finding_recommendation = cps (''Do not use keyword_coverage as a regression gate for cases with ''
             @ ''synonym-heavy questions without an independently labeled validation set.'')\<rparr>,
          \<lparr>finding_title = cps ''Forbidden-claim evaluator detects the injected fixture phrases'',
           finding_severity = cps ''low'',
           finding_evidence = cps (''Of '' @ show_nat triggered_count @ '' cases where forbidden_claim fired, ''
             @ show_nat triggered_bad @ '' received author label_score '') @ [8804] @ cps ('' 2. ''
             @ ''The phrases and expected detections were constructed together, so this does ''
             @ ''not measure performance on unseen hallucinations.''),
           finding_recommendation = cps (''Use exact forbidden-claim matching as one safety signal, then validate its ''
             @ ''coverage and false-positive rate on independently collected outputs.'')\<rparr>,
          \<lparr>finding_title = cps ''Token overlap tracks this fixture's author scores'',
           finding_severity = cps ''info'',
           finding_evidence = cps ''token_f1_overlap Spearman '' @ [961] @ cps ('' = '' @ rp (spearman_rho sem)
             @ '' vs keyword_coverage Spearman '') @ [961] @ cps ('' = '' @ rp (spearman_rho kw)
             @ ''. This relationship may be inflated by the fixture construction.''),
           finding_recommendation = cps (''Treat token overlap as a deterministic smoke-test metric. Calibrate semantic ''
             @ ''or judge-based gates on blinded, independently labeled real outputs.'')\<rparr>])"

definition analyze_entries :: "(real \<Rightarrow> string) \<Rightarrow> gold_label_entry list \<Rightarrow> calibration_report res" where
  "analyze_entries rp entries =
     (let gold_labels = map label_score entries; scored = evaluator_data entries in
      and_then (map_res (matrix_of gold_labels) scored) (\<lambda>matrices.
        let evaluators = map2 (\<lambda>(name, scores) (_, m). (name, rates_of gold_labels scores m)) scored matrices
        in Inr \<lparr>study_type = ''author_scored_synthetic_fixture'', independent_labelers = 0, production_validated = False,
             limitations = [''Cases are constructed from the deterministic demo dataset.'',
               ''Scores were assigned by the project author, without blinded independent review.'',
               ''Evaluator values are committed fixture data rather than a production run export.''],
             gold_set_size = length entries,
             label_distribution = distribution_of gold_labels,
             evaluator_table = evaluators,
             confusion_matrices = matrices,
             false_positives = map (\<lambda>(name, m). (name, tally (fp_count m) (n_pass_borderline gold_labels))) matrices,
             false_negatives = map (\<lambda>(name, m). (name, tally (fn_count m) (n_fail gold_labels))) matrices,
             named_findings = findings_of rp entries evaluators\<rparr>))"

definition analyze_calibration :: "(real \<Rightarrow> string) \<Rightarrow> calibration_report res" where
  "analyze_calibration rp = analyze_entries rp SYNTHETIC_CALIBRATION_FIXTURE"

section \<open>Lemmas\<close>

lemma rate_of_unit: "n \<le> out_of \<Longrightarrow> 0 \<le> py_round 4 (rate_of n out_of) \<and> py_round 4 (rate_of n out_of) \<le> 1"
  by (rule conjI; rule py_round_unit [THEN conjunct1] py_round_unit [THEN conjunct2]) (simp_all add: rate_of_def)

lemma py_round_abs_le_1:
  assumes "\<bar>x\<bar> \<le> 1" shows "\<bar>py_round n x\<bar> \<le> 1"
  using py_round_mono [of "-1" x n] py_round_mono [of x 1 n] py_round_of_nat_power [of n "-1"] assms
  by (simp add: abs_le_iff)

lemma spearman_bounded: "\<bar>spearman_correlation scores labels\<bar> \<le> 1"
  by (simp add: spearman_correlation_def pearson_bounded)

lemma matrix_of_map:
  "confusion_matrix (map f es) (map g es) = Inr (foldl (\<lambda>m (s, l). bump_cell (bin_evaluator_score s) (bin_gold_label l) m)
     empty_matrix (zip (map f es) (map g es)))"
  by (simp add: confusion_matrix_def)

lemma cell_map:
  assumes "confusion_matrix (map f es) (map g es) = Inr m"
  shows "cell r c m = length (filter (\<lambda>e. bin_evaluator_score (f e) = r \<and> bin_gold_label (g e) = c) es)"
  using confusion_matrix_counts [OF assms, of r c]
  by (simp add: zip_map_map zip_same_conv_map comp_def filter_map)

lemma filter_add:
  assumes "\<And>x. P x \<Longrightarrow> \<not> Q x"
  shows "length (filter P xs) + length (filter Q xs) = length (filter (\<lambda>x. P x \<or> Q x) xs)"
  using assms by (induction xs) auto

lemma fp_count_map:
  assumes "confusion_matrix (map f es) (map g es) = Inr m"
  shows "fp_count m = length (filter (\<lambda>e. f e < 1 / 2 \<and> 3 \<le> g e) es)"
  unfolding fp_count_def cell_map [OF assms]
  by (subst filter_add) (auto simp: bin_evaluator_score_def bin_gold_label_def intro!: arg_cong [where f = length] filter_cong split: if_splits)

lemma fn_count_map:
  assumes "confusion_matrix (map f es) (map g es) = Inr m"
  shows "fn_count m = length (filter (\<lambda>e. 1 / 2 \<le> f e \<and> g e \<le> 2) es)"
  unfolding fn_count_def cell_map [OF assms]
  by (subst filter_add) (auto simp: bin_evaluator_score_def bin_gold_label_def intro!: arg_cong [where f = length] filter_cong split: if_splits)

lemma length_filter_conj_le: "length (filter (\<lambda>x. P x \<and> Q x) xs) \<le> length (filter Q xs)"
  by (induction xs) auto

lemma sum_distribution:
  "set xs \<subseteq> set ls \<Longrightarrow> distinct ls \<Longrightarrow> (\<Sum>l\<leftarrow>ls. length (filter (\<lambda>x. x = l) xs)) = length xs"
proof (induction xs)
  case (Cons x xs)
  have "(\<Sum>l\<leftarrow>ls. length (filter (\<lambda>y. y = l) (x # xs))) =
      (\<Sum>l\<leftarrow>ls. (if l = x then 1 else 0) + length (filter (\<lambda>y. y = l) xs))"
    by (rule arg_cong [where f = sum_list]) auto
  also have "\<dots> = 1 + length xs"
    using Cons by (simp add: sum_list_addf sum_list_map_eq_sum_count2 [symmetric] sum_list_distinct_conv_sum_set)
  finally show ?case by simp
qed simp

lemma distribution_total: "sum_list (map snd (distribution_of labels)) = length labels"
  using sum_distribution [of labels "sort (remdups labels)"] by (simp add: distribution_of_def comp_def)

text \<open>A correlation, without square roots: the three sums behind it, and bounds for their quotient.\<close>

definition pearson_sums :: "real list \<Rightarrow> real list \<Rightarrow> real \<times> real \<times> real" where
  "pearson_sums xs labels =
     (let ys = map normalize_gold_label labels; xm = sum_list xs / real (length xs); ym = sum_list ys / real (length ys)
      in (sum_list (map (\<lambda>(x, y). (x - xm) * (y - ym)) (zip xs ys)),
          sum_list (map (\<lambda>x. (x - xm) ^ 2) xs), sum_list (map (\<lambda>y. (y - ym) ^ 2) ys)))"

lemma quotient_between:
  fixes N X Y :: real
  assumes "0 < X" "0 < Y" "0 \<le> N" "0 \<le> l" "l ^ 2 * (X * Y) \<le> N ^ 2" "0 \<le> u" "N ^ 2 \<le> u ^ 2 * (X * Y)"
  shows "l \<le> N / (sqrt X * sqrt Y)" "N / (sqrt X * sqrt Y) \<le> u"
proof -
  have pos: "0 < sqrt X * sqrt Y" using assms(1,2) by simp
  have sq: "(c * (sqrt X * sqrt Y)) ^ 2 = c ^ 2 * (X * Y)" for c using assms(1,2) by (simp add: power_mult_distrib)
  have "l * (sqrt X * sqrt Y) \<le> N"
    by (rule power2_le_imp_le) (use assms(3,5) in \<open>simp_all add: sq\<close>)
  with pos show "l \<le> N / (sqrt X * sqrt Y)" by (simp add: pos_le_divide_eq)
  have "N \<le> u * (sqrt X * sqrt Y)"
    by (rule power2_le_imp_le) (use assms(6,7) pos in \<open>simp_all add: sq\<close>)
  with pos show "N / (sqrt X * sqrt Y) \<le> u" by (simp add: pos_divide_le_eq)
qed

lemma pearson_eqI:
  assumes "pearson_sums xs ys = (N, X, Y)" and "length xs = length ys" "2 \<le> length xs"
    and "0 < X" "0 < Y" "0 \<le> N" "0 \<le> l" "l ^ 2 * (X * Y) \<le> N ^ 2" "0 \<le> u" "N ^ 2 \<le> u ^ 2 * (X * Y)"
    and "py_round 6 l = v" "py_round 6 u = v"
  shows "pearson_correlation xs ys = v"
proof -
  have "pearson_correlation xs ys = py_round 6 (N / (sqrt X * sqrt Y))"
    using assms(1-5) by (auto simp: pearson_correlation_def pearson_sums_def Let_def)
  moreover note py_round_mono [OF quotient_between(1) [OF assms(4-10)], of 6] py_round_mono [OF quotient_between(2) [OF assms(4-10)], of 6]
  ultimately show ?thesis using assms(11,12) by simp
qed

lemmas round_simps = py_round_def round_half_even_def Let_def

abbreviation "fixture_labels \<equiv> map label_score SYNTHETIC_CALIBRATION_FIXTURE"

abbreviation "fixture_f1 \<equiv> map token_f1_overlap SYNTHETIC_CALIBRATION_FIXTURE"

abbreviation "fixture_keywords \<equiv> map keyword_coverage SYNTHETIC_CALIBRATION_FIXTURE"

lemma fixture_length: "length SYNTHETIC_CALIBRATION_FIXTURE = 50"
  by code_simp

lemma fixture_columns:
  "fixture_labels = replicate 46 5 @ [2, 2, 1, 1]"
  "fixture_f1 = replicate 46 1 @ replicate 4 (25 / 100)"
  "fixture_keywords = replicate 35 1 @ [(5 / 10)] @ replicate 4 1 @ replicate 8 (5 / 10) @ [0, 0]"
  by (simp_all add: fixture_defs numeral_eq_Suc)

lemma fixture_sums:
  "pearson_sums fixture_f1 (map of_int fixture_labels) = (483 / 200, 207 / 100, 72 / 25)"
  "pearson_sums fixture_keywords (map of_int fixture_labels) = (459 / 200, 681 / 200, 72 / 25)"
  unfolding fixture_columns by (simp_all add: pearson_sums_def normalize_gold_label_def numeral_eq_Suc)

lemma fixture_rank_sums:
  "pearson_sums (rank fixture_f1) (rank (map of_int fixture_labels)) = (575, 2300, 144)"
  "pearson_sums (rank fixture_keywords) (rank (map of_int fixture_labels)) = (534, 5412, 144)"
  unfolding fixture_columns rank_map by (simp_all add: pearson_sums_def normalize_gold_label_def numeral_eq_Suc)

lemma fixture_correlations:
  "pearson_correlation fixture_f1 (map of_int fixture_labels) = 989090 / 1000000"
  "pearson_correlation fixture_keywords (map of_int fixture_labels) = 732872 / 1000000"
  "spearman_correlation fixture_f1 (map of_int fixture_labels) = 999132 / 1000000"
  "spearman_correlation fixture_keywords (map of_int fixture_labels) = 604897 / 1000000"
proof -
  show "pearson_correlation fixture_f1 (map of_int fixture_labels) = 989090 / 1000000"
    by (rule pearson_eqI [OF fixture_sums(1), where l = "98908978 / 100000000" and u = "98908979 / 100000000"])
      (simp_all add: fixture_length round_simps power2_eq_square)
  show "pearson_correlation fixture_keywords (map of_int fixture_labels) = 732872 / 1000000"
    by (rule pearson_eqI [OF fixture_sums(2), where l = "73287159 / 100000000" and u = "73287160 / 100000000"])
      (simp_all add: fixture_length round_simps power2_eq_square)
  have "pearson_correlation (rank fixture_f1) (rank (map of_int fixture_labels)) = 999132 / 1000000"
    by (rule pearson_eqI [OF fixture_rank_sums(1), where l = "99913156 / 100000000" and u = "99913157 / 100000000"])
      (simp_all add: fixture_length length_rank round_simps power2_eq_square)
  then show "spearman_correlation fixture_f1 (map of_int fixture_labels) = 999132 / 1000000"
    by (simp add: spearman_correlation_def fixture_length)
  have "pearson_correlation (rank fixture_keywords) (rank (map of_int fixture_labels)) = 604897 / 1000000"
    by (rule pearson_eqI [OF fixture_rank_sums(2), where l = "60489656 / 100000000" and u = "60489657 / 100000000"])
      (simp_all add: fixture_length length_rank round_simps power2_eq_square)
  then show "spearman_correlation fixture_keywords (map of_int fixture_labels) = 604897 / 1000000"
    by (simp add: spearman_correlation_def fixture_length)
qed

section \<open>Properties\<close>


text \<open>On the committed fixture the analysis gives the figures the calibration report publishes.\<close>

theorem fixture_report_reproduced:
  "\<exists>a. analyze_calibration rp = Inr a \<and> gold_set_size a = 50 \<and>
     label_distribution a = [(''1'', 2), (''2'', 2), (''5'', 46)] \<and>
     evaluator_table a =
       [(''token_f1_overlap'', \<lparr>pearson_r = 9891 / 10000, spearman_rho = 9991 / 10000,
           false_positive_rate = 0, false_negative_rate = 0\<rparr>),
        (''keyword_coverage'', \<lparr>pearson_r = 7329 / 10000, spearman_rho = 6049 / 10000,
           false_positive_rate = 0, false_negative_rate = 1 / 2\<rparr>)]"
proof -
  have n: "n_pass_borderline fixture_labels = 46" "n_fail fixture_labels = 4"
    "distribution_of fixture_labels = [(''1'', 2), (''2'', 2), (''5'', 46)]"
    unfolding fixture_columns by code_simp+
  obtain m1 where m1: "confusion_matrix fixture_f1 fixture_labels = Inr m1" using matrix_of_map by blast
  obtain m2 where m2: "confusion_matrix fixture_keywords fixture_labels = Inr m2" using matrix_of_map by blast
  have c: "fp_count m1 = 0" "fn_count m1 = 0" "fp_count m2 = 0" "fn_count m2 = 2"
    unfolding fp_count_map [OF m1] fp_count_map [OF m2] fn_count_map [OF m1] fn_count_map [OF m2]
    by (simp_all add: fixture_defs)
  show ?thesis
    by (simp add: analyze_calibration_def Let_def analyze_entries_def evaluator_data_def matrix_of_def m1 m2 n c rates_of_def
        rate_of_def fixture_length fixture_correlations del: map_map) (simp add: round_simps)
qed

end
