(* ===== verification/Demo_Dashboard.thy ===== *)
theory Demo_Dashboard imports Dashboard Demo_Scenario begin

text \<open>
  \<open>backend/app/services/dashboard_snapshot.py\<close>, the route \<open>/demo\<close> of \<open>backend/app/api/dashboard.py\<close>, and
  \<open>benchmarks/run_demo.py\<close>, which writes the file they read. The content of the file is a JSON value; that writing and
  reading it back keeps the value is the JSON library's part. The sample rows are the constants of the source.
\<close>

section \<open>The benchmark report\<close>

definition summary_json :: "scenario_summary \<Rightarrow> json" where
  "summary_json sm = JObj
     [(''case_count'', JInt (int (ss_case_count sm))),
      (''total_case_executions'', JInt (int (ss_total_case_executions sm))),
      (''elapsed_seconds'', JFloat (Fin (ss_elapsed_seconds sm))),
      (''cases_per_minute'', JFloat (Fin (ss_cases_per_minute sm))),
      (''baseline_status'', JStr (run_status_text (ss_baseline_status sm))),
      (''candidate_status'', JStr (run_status_text (ss_candidate_status sm))),
      (''gate_verdict'', JStr (ss_gate_verdict sm)), (''metrics'', JObj (ss_metrics sm)),
      (''gate_reasons'', JList (map JObj (ss_gate_reasons sm)))]"

definition run_demo_report :: "string \<Rightarrow> nat \<Rightarrow> scenario_summary \<Rightarrow> json" where
  "run_demo_report generated_at cases sm = JObj
     [(''generated_at'', JStr generated_at), (''benchmark'', JStr ''deterministic_demo_rag_regression''),
      (''reproduction_command'',
       JStr (''uv run --directory backend python ../benchmarks/run_demo.py --cases '' @ show_nat cases)),
      (''summary'', summary_json sm)]"

section \<open>The snapshot\<close>

text \<open>A dictionary display: its values are computed in order, and the first that raises decides.\<close>

definition dict_of :: "(string \<times> json res) list \<Rightarrow> json res" where
  "dict_of entries =
     and_then (map_res (\<lambda>(k, r). and_then r (\<lambda>v. Inr (k, v))) entries) (\<lambda>d. Inr (JObj d))"

definition list_of :: "json res list \<Rightarrow> json res" where
  "list_of rs = and_then (map_res id rs) (\<lambda>xs. Inr (JList xs))"

definition figure :: "json \<Rightarrow> string \<Rightarrow> string \<Rightarrow> json res" where
  "figure metrics key name = and_then (subscript metrics key) (\<lambda>m. subscript m name)"

definition demo_metric_specs :: "(string \<times> string \<times> string \<times> string \<times> string \<times> real) list" where
  "demo_metric_specs =
     [(''pass_rate'', ''Pass rate'', ''Pass'', ''%'', ''higher'', 2 / 100),
      (''semantic_similarity'', ''Token overlap'', ''Overlap'', ''score'', ''higher'', 2 / 100),
      (''p95_latency_ms'', ''p95 latency'', ''p95'', ''ms'', ''lower'', 50),
      (''cost_mean_usd'', ''Mean cost'', ''Cost'', ''usd'', ''lower'', 2 / 10)]"

definition demo_metric_status :: "string \<Rightarrow> string" where
  "demo_metric_status metric_key = (if metric_key = ''cost_mean_usd'' then ''pass'' else ''fail'')"

definition demo_card :: "json \<Rightarrow> string \<times> string \<times> string \<times> string \<times> string \<times> real \<Rightarrow> json res" where
  "demo_card metrics = (\<lambda>(key, label, short_label, unit, direction, tolerance).
     dict_of [(''key'', Inr (JStr key)), (''label'', Inr (JStr label)), (''shortLabel'', Inr (JStr short_label)),
       (''unit'', Inr (JStr unit)), (''baseline'', figure metrics key ''baseline_point''),
       (''candidate'', figure metrics key ''candidate_point''),
       (''baselineCi'', list_of [figure metrics key ''baseline_ci_lower'', figure metrics key ''baseline_ci_upper'']),
       (''candidateCi'', list_of [figure metrics key ''candidate_ci_lower'', figure metrics key ''candidate_ci_upper'']),
       (''delta'', figure metrics key ''delta_point''),
       (''deltaCi'', list_of [figure metrics key ''delta_ci_lower'', figure metrics key ''delta_ci_upper'']),
       (''direction'', Inr (JStr direction)), (''tolerance'', Inr (JFloat (Fin tolerance))),
       (''status'', Inr (JStr (demo_metric_status key)))])"

definition demo_metrics :: "json \<Rightarrow> json res" where
  "demo_metrics metrics = list_of (map (demo_card metrics) demo_metric_specs)"

definition demo_runs :: "json \<Rightarrow> json res" where
  "demo_runs metrics = list_of
     [dict_of [(''id'', Inr (JStr ''run_candidate_500'')),
          (''version'', Inr (JStr ''v2_candidate_hallucination_injected'')),
          (''suite'', Inr (JStr ''demo_rag_500'')), (''cases'', Inr (JInt 500)),
          (''passRate'', figure metrics ''pass_rate'' ''candidate_point''),
          (''semanticSimilarity'', figure metrics ''semantic_similarity'' ''candidate_point''),
          (''p95LatencyMs'', figure metrics ''p95_latency_ms'' ''candidate_point''),
          (''costMeanUsd'', figure metrics ''cost_mean_usd'' ''candidate_point''),
          (''createdAt'', Inr (JStr ''2026-05-31 18:00 IST'')), (''status'', Inr (JStr ''completed''))],
      dict_of [(''id'', Inr (JStr ''run_baseline_500'')), (''version'', Inr (JStr ''v1_baseline_bge_top3'')),
          (''suite'', Inr (JStr ''demo_rag_500'')), (''cases'', Inr (JInt 500)),
          (''passRate'', figure metrics ''pass_rate'' ''baseline_point''),
          (''semanticSimilarity'', figure metrics ''semantic_similarity'' ''baseline_point''),
          (''p95LatencyMs'', figure metrics ''p95_latency_ms'' ''baseline_point''),
          (''costMeanUsd'', figure metrics ''cost_mean_usd'' ''baseline_point''),
          (''createdAt'', Inr (JStr ''2026-05-31 17:59 IST'')), (''status'', Inr (JStr ''completed''))],
      dict_of [(''id'', Inr (JStr ''run_prompt_rewrite_100'')),
          (''version'', Inr (JStr ''v3_prompt_rewrite_preview'')), (''suite'', Inr (JStr ''demo_rag_100'')),
          (''cases'', Inr (JInt 100)), (''passRate'', Inr (JFloat (Fin (94 / 100)))),
          (''semanticSimilarity'', Inr (JFloat (Fin (91 / 100)))), (''p95LatencyMs'', Inr (JInt 188)),
          (''costMeanUsd'', Inr (JFloat (Fin (5 / 1000000)))),
          (''createdAt'', Inr (JStr ''2026-05-30 22:18 IST'')), (''status'', Inr (JStr ''completed''))],
      dict_of [(''id'', Inr (JStr ''run_flaky_subset'')), (''version'', Inr (JStr ''v1_baseline_rerun_n5'')),
          (''suite'', Inr (JStr ''flaky_subset_50'')), (''cases'', Inr (JInt 250)),
          (''passRate'', Inr (JFloat (Fin (972 / 1000)))),
          (''semanticSimilarity'', Inr (JFloat (Fin (956 / 1000)))), (''p95LatencyMs'', Inr (JInt 142)),
          (''costMeanUsd'', Inr (JFloat (Fin (4 / 1000000)))),
          (''createdAt'', Inr (JStr ''2026-05-30 20:41 IST'')), (''status'', Inr (JStr ''partial''))]]"

definition demo_trace_cases :: json where
  "demo_trace_cases =
     JList [JObj [(''id'', JStr ''demo-0001''), (''tag'', JStr ''hallucination_risk''),
         (''evaluator'', JStr ''token_f1_overlap''),
         (''reason'', JStr ''Candidate answered with forbidden synthetic claim''),
         (''question'', JStr ''Which Python module is used for venv?''),
         (''expected'', JStr ''Python uses the venv module for virtual environments.''),
         (''baselineAnswer'', JStr ''Python uses the venv module for virtual environments.''),
         (''candidateAnswer'', JStr ''Python uses a telepathic compiler backed by a quantum database for venv.''),
         (''semanticScore'', JFloat (Fin (25 / 100))), (''keywordScore'', JInt 0),
         (''retrievalHit'', JBool True), (''latencyMs'', JInt 260),
         (''costUsd'', JFloat (Fin (4 / 1000000))),
         (''chunks'', JList [JObj [(''rank'', JInt 1), (''docId'', JStr ''python-venv''),
               (''text'', JStr ''The venv module creates lightweight Python virtual environments.''),
               (''score'', JFloat (Fin (96 / 100)))],
             JObj [(''rank'', JInt 2), (''docId'', JStr ''python-pathlib''),
               (''text'', JStr ''The pathlib module represents filesystem paths as objects.''),
               (''score'', JFloat (Fin (44 / 100)))],
             JObj [(''rank'', JInt 3), (''docId'', JStr ''python-unittest''),
               (''text'', JStr ''The unittest module supports test automation and shared setup code.''),
               (''score'', JFloat (Fin (39 / 100)))]])],
       JObj [(''id'', JStr ''demo-0007''), (''tag'', JStr ''reasoning_required''),
         (''evaluator'', JStr ''contains_keywords''),
         (''reason'', JStr ''Expected facts were missing from the generated answer''),
         (''question'', JStr ''Which Python module is used for asyncio?''),
         (''expected'', JStr ''Python uses asyncio for async concurrency.''),
         (''baselineAnswer'', JStr ''Python uses asyncio for async concurrency.''),
         (''candidateAnswer'', JStr ''Python uses a quantum database for async code and does not need modules.''),
         (''semanticScore'', JFloat (Fin (31 / 100))), (''keywordScore'', JInt 0),
         (''retrievalHit'', JBool True), (''latencyMs'', JInt 260),
         (''costUsd'', JFloat (Fin (4 / 1000000))),
         (''chunks'', JList [JObj [(''rank'', JInt 1), (''docId'', JStr ''python-asyncio''),
               (''text'', JStr ''The asyncio module supports concurrent code with async and await syntax.''),
               (''score'', JFloat (Fin (94 / 100)))],
             JObj [(''rank'', JInt 2), (''docId'', JStr ''python-logging''),
               (''text'', JStr ''The logging module provides flexible event logging for applications.''),
               (''score'', JFloat (Fin (35 / 100)))],
             JObj [(''rank'', JInt 3), (''docId'', JStr ''python-json''),
               (''text'', JStr ''The json module encodes and decodes JSON documents.''),
               (''score'', JFloat (Fin (32 / 100)))]])],
       JObj [(''id'', JStr ''demo-0010''), (''tag'', JStr ''edge_case''),
         (''evaluator'', JStr ''forbidden_claim''),
         (''reason'', JStr ''Forbidden claim matched the generated answer''),
         (''question'', JStr ''Which Python module is used for sqlite3?''),
         (''expected'', JStr ''Python uses sqlite3 for SQLite database access.''),
         (''baselineAnswer'', JStr ''Python uses sqlite3 for SQLite database access.''),
         (''candidateAnswer'', JStr ''Python uses sqlite3 only after the telepathic compiler opens the database.''),
         (''semanticScore'', JFloat (Fin (29 / 100))), (''keywordScore'', JFloat (Fin (5 / 10))),
         (''retrievalHit'', JBool True), (''latencyMs'', JInt 260),
         (''costUsd'', JFloat (Fin (4 / 1000000))),
         (''chunks'', JList [JObj [(''rank'', JInt 1), (''docId'', JStr ''python-sqlite3''),
               (''text'', JStr ''The sqlite3 module provides a DB-API interface for SQLite databases.''),
               (''score'', JFloat (Fin (97 / 100)))],
             JObj [(''rank'', JInt 2), (''docId'', JStr ''python-json''),
               (''text'', JStr ''The json module encodes and decodes JSON documents.''),
               (''score'', JFloat (Fin (38 / 100)))],
             JObj [(''rank'', JInt 3), (''docId'', JStr ''python-datetime''),
               (''text'', JStr ''The datetime module supplies classes for manipulating dates and times.''),
               (''score'', JFloat (Fin (27 / 100)))]])]]"

definition demo_trace_pagination :: json where
  "demo_trace_pagination = JObj [(''total'', JInt 500), (''limit'', JInt 3), (''offset'', JInt 0), (''returned'', JInt 3)]"

definition demo_tag_breakdown :: json where
  "demo_tag_breakdown =
     JList [JObj [(''tag'', JStr ''hallucination_risk''), (''baselineCaseCount'', JInt 180),
         (''candidateCaseCount'', JInt 180), (''candidateFailureCount'', JInt 180),
         (''candidatePassRate'', JFloat (Fin 0))],
       JObj [(''tag'', JStr ''reasoning_required''), (''baselineCaseCount'', JInt 170),
         (''candidateCaseCount'', JInt 170), (''candidateFailureCount'', JInt 170),
         (''candidatePassRate'', JFloat (Fin 0))],
       JObj [(''tag'', JStr ''edge_case''), (''baselineCaseCount'', JInt 150),
         (''candidateCaseCount'', JInt 150), (''candidateFailureCount'', JInt 150),
         (''candidatePassRate'', JFloat (Fin 0))]]"

definition demo_gate_rules :: json where
  "demo_gate_rules =
     JList [JObj [(''metric'', JStr ''Pass rate''), (''direction'', JStr ''higher''),
         (''tolerance'', JStr ''2 percentage points''), (''verdict'', JStr ''fail'')],
       JObj [(''metric'', JStr ''Token overlap''), (''direction'', JStr ''higher''),
         (''tolerance'', JStr ''0.02 score drop''), (''verdict'', JStr ''fail'')],
       JObj [(''metric'', JStr ''p95 latency''), (''direction'', JStr ''lower''),
         (''tolerance'', JStr ''50ms slower''), (''verdict'', JStr ''fail'')],
       JObj [(''metric'', JStr ''Mean cost''), (''direction'', JStr ''lower''),
         (''tolerance'', JStr ''20 percent increase''), (''verdict'', JStr ''pass'')]]"

definition load_demo_dashboard_snapshot :: "json \<Rightarrow> json res" where
  "load_demo_dashboard_snapshot benchmark =
     and_then (subscript benchmark ''summary'') (\<lambda>summary.
     and_then (subscript summary ''metrics'') (\<lambda>metrics.
     dict_of
       [(''benchmarkSummary'', dict_of
          [(''generatedAt'', subscript benchmark ''generated_at''), (''benchmark'', subscript benchmark ''benchmark''),
           (''reproductionCommand'', subscript benchmark ''reproduction_command''),
           (''caseCount'', subscript summary ''case_count''),
           (''totalExecutions'', subscript summary ''total_case_executions''),
           (''elapsedSeconds'', subscript summary ''elapsed_seconds''),
           (''casesPerMinute'', subscript summary ''cases_per_minute''),
           (''gateVerdict'', subscript summary ''gate_verdict'')]),
        (''metrics'', demo_metrics metrics), (''runs'', demo_runs metrics), (''traceCases'', Inr demo_trace_cases),
        (''tracePagination'', Inr demo_trace_pagination), (''tagBreakdown'', Inr demo_tag_breakdown),
        (''gateRules'', Inr demo_gate_rules)]))"

section \<open>The route\<close>

definition set_default :: "string \<Rightarrow> json \<Rightarrow> dict \<Rightarrow> dict" where
  "set_default k v d = (case dict_get k d of None \<Rightarrow> dict_put k v d | Some _ \<Rightarrow> d)"

definition get_demo_dashboard_snapshot :: "json \<Rightarrow> dict res" where
  "get_demo_dashboard_snapshot benchmark =
     and_then (load_demo_dashboard_snapshot benchmark) (\<lambda>snapshot.
     and_then (as_dict ''__setitem__'' snapshot) (\<lambda>d0.
     let d = dict_put ''comparisonId'' JNull (dict_put ''dataSource'' (JStr ''demo'') d0) in
     and_then (and_then (key_of ''benchmarkSummary'' d) (as_dict ''setdefault'')) (\<lambda>summary.
     Inr (dict_put ''benchmarkSummary''
       (JObj (set_default ''suiteName'' (JStr ''demo_rag_500'') (set_default ''projectName'' (JStr ''Demo RAG QA'') summary))) d))))"

section \<open>Lemmas\<close>

definition entry_fields :: "string list" where
  "entry_fields = [''baseline_point'', ''candidate_point'', ''baseline_ci_lower'', ''baseline_ci_upper'', ''candidate_ci_lower'',
     ''candidate_ci_upper'', ''delta_point'', ''delta_ci_lower'', ''delta_ci_upper'']"

text \<open>A metric table as the comparison makes it: an entry per metric, with every figure.\<close>

definition full_report :: "dict \<Rightarrow> bool" where
  "full_report metrics \<longleftrightarrow>
     list_all (\<lambda>k. list_all (\<lambda>f. is_ok (figure (JObj metrics) k f)) entry_fields) (map fst demo_metric_specs)"

lemma entry_is_full: "metric_entry R stat B C = Inr e \<Longrightarrow> list_all (\<lambda>f. dict_get f e \<noteq> None) entry_fields"
  by (auto simp: metric_entry_def Let_def and_then_Inr_iff entry_fields_def split: prod.splits)

lemma built_report_is_full:
  assumes "build_metric_report R B C = Inr metrics"
  shows "full_report metrics"
proof -
  have "list_all (\<lambda>f. is_ok (figure (JObj metrics) m f)) entry_fields" if st: "(m, stat) \<in> set statistic_by_metric" for m stat
  proof -
    from report_points [OF assms st] obtain e where e: "dict_get m metrics = Some (JObj e)"
      and "metric_entry R stat (dict_get_or m (Listed []) B) (dict_get_or m (Listed []) C) = Inr e" by metis
    from entry_is_full [OF this(2)] show ?thesis
      by (auto simp: list_all_iff figure_def subscript_def key_of_def e is_ok_def)
  qed
  then show ?thesis
    by (simp add: full_report_def demo_metric_specs_def statistic_by_metric_def)
qed

lemma scenario_metrics:
  assumes "run_demo_scenario I EB EC E elapsed n s = (Inr sm, s')"
  shows "full_report (ss_metrics sm)" and "ss_case_count sm = n"
  using assms
  by (auto simp: run_demo_scenario_def Let_def elim!: compute_comparison_Inr dest: built_report_is_full
      split: sum.splits prod.splits if_splits)

text \<open>A shown of the demo dashboard that repeats the figures of the report's entry for its metric.\<close>

definition shows_entry :: "json \<Rightarrow> string \<Rightarrow> json \<Rightarrow> bool" where
  "shows_entry metrics key shown \<longleftrightarrow>
     subscript shown ''key'' = Inr (JStr key) \<and>
     subscript shown ''baseline'' = figure metrics key ''baseline_point'' \<and>
     subscript shown ''candidate'' = figure metrics key ''candidate_point'' \<and>
     subscript shown ''delta'' = figure metrics key ''delta_point''"

lemma dict_of_Inr: "dict_of entries = Inr j \<longleftrightarrow>
    (\<exists>d. j = JObj d \<and> map_res (\<lambda>(k, r). and_then r (\<lambda>v. Inr (k, v))) entries = Inr d)"
  by (auto simp: dict_of_def and_then_Inr_iff)

lemma is_ok_Inr: "is_ok r \<longleftrightarrow> (\<exists>x. r = Inr x)"
  by (cases r) (auto simp: is_ok_def)

lemma demo_card_shows:
  assumes "list_all (\<lambda>f. is_ok (figure metrics key f)) entry_fields"
  shows "\<exists>shown. demo_card metrics (key, l, sh, u, d, t) = Inr shown \<and> shows_entry metrics key shown"
  using assms
  by (auto simp: entry_fields_def is_ok_Inr demo_card_def dict_of_def list_of_def shows_entry_def subscript_def key_of_def)

lemma map_res_over_map: "map_res f (map g xs) = map_res (\<lambda>x. f (g x)) xs"
  by (induction xs) simp_all

lemma demo_cards_show:
  assumes "list_all (\<lambda>spec. list_all (\<lambda>f. is_ok (figure metrics (fst spec) f)) entry_fields) specs"
  shows "\<exists>cards. map_res (demo_card metrics) specs = Inr cards \<and> list_all2 (shows_entry metrics) (map fst specs) cards"
  using assms
proof (induction specs)
  case (Cons spec specs)
  obtain key l sh u d t where "spec = (key, l, sh, u, d, t)" by (metis prod_cases6)
  with Cons demo_card_shows [of metrics key l sh u d t] show ?case by auto
qed simp

lemma demo_runs_shown: "full_report metrics \<Longrightarrow> \<exists>rs. demo_runs (JObj metrics) = Inr rs"
  by (auto simp: full_report_def demo_metric_specs_def entry_fields_def is_ok_Inr demo_runs_def dict_of_def list_of_def)

lemma demo_metrics_shown:
  assumes "full_report metrics"
  shows "\<exists>cards. demo_metrics (JObj metrics) = Inr (JList cards) \<and>
    list_all2 (shows_entry (JObj metrics)) (map fst demo_metric_specs) cards"
proof -
  from assms have "list_all (\<lambda>spec. list_all (\<lambda>f. is_ok (figure (JObj metrics) (fst spec) f)) entry_fields) demo_metric_specs"
    by (simp add: full_report_def list.pred_map comp_def)
  from demo_cards_show [OF this] show ?thesis
    by (auto simp: demo_metrics_def list_of_def map_res_over_map)
qed

section \<open>Properties\<close>

text \<open>The demo dashboard can show whatever the demo benchmark writes: for every scenario that returns, the route
  answers with the size and the verdict of the scenario and one shown for each of the four metrics, in order, with the
  figures of the gate's report.\<close>

theorem demo_dashboard_shows_benchmark:
  assumes "run_demo_scenario I EB EC E elapsed n s = (Inr sm, s')"
  shows "\<exists>snap summary cards. get_demo_dashboard_snapshot (run_demo_report now_text n sm) = Inr snap \<and>
     dict_get ''benchmarkSummary'' snap = Some summary \<and> subscript summary ''caseCount'' = Inr (JInt (int n)) \<and>
     subscript summary ''gateVerdict'' = Inr (JStr (ss_gate_verdict sm)) \<and>
     dict_get ''metrics'' snap = Some (JList cards) \<and>
     list_all2 (shows_entry (JObj (ss_metrics sm)))
       [''pass_rate'', ''semantic_similarity'', ''p95_latency_ms'', ''cost_mean_usd''] cards"
proof -
  note full = scenario_metrics(1) [OF assms]
  obtain cards where cards: "demo_metrics (JObj (ss_metrics sm)) = Inr (JList cards)"
    "list_all2 (shows_entry (JObj (ss_metrics sm))) (map fst demo_metric_specs) cards"
    using demo_metrics_shown [OF full] by blast
  obtain rs where "demo_runs (JObj (ss_metrics sm)) = Inr rs" using demo_runs_shown [OF full] by blast
  with cards show ?thesis
    by (simp add: get_demo_dashboard_snapshot_def load_demo_dashboard_snapshot_def run_demo_report_def summary_json_def
        subscript_def key_of_def dict_of_def set_default_def scenario_metrics(2) [OF assms] demo_metric_specs_def)
qed

lemma demo_dashboard_shows_benchmark_witness:
  "\<exists>sm snap. get_demo_dashboard_snapshot (run_demo_report ''2026-05-31'' 500 sm) = Inr snap \<and>
     ss_gate_verdict sm = ''fail''"
proof -
  obtain sm s' where sm: "run_demo_scenario demo_ids_sample (demo_env_sample CHR ''b'') (demo_env_sample CHR ''c'')
      sample_compare_env 2 500 empty_db = (Inr sm, s')" "ss_gate_verdict sm = ''fail''"
    using demo_scenario_outcome [OF _ demo_names_free(1,2) demo_sample_fresh demo_sample_ready, of 500 2] by auto
  from demo_dashboard_shows_benchmark [OF this(1), of "''2026-05-31''"] sm(2) show ?thesis
    by blast
qed

end
