(* ===== verification/Benchmarks.thy ===== *)
theory Benchmarks imports Demo_Dashboard Calibration begin

text \<open>
  \<open>benchmarks/flaky_eval.py\<close>: the synthetic observations whose flakiness is classified. \<open>benchmarks/worker_throughput.py\<close>:
  the throughput summary made of the dashboard's answer, with that answer as JSON. Running \<open>docker\<close>, fetching over HTTP and
  writing the files are left out.
\<close>

section \<open>Flaky observations\<close>

definition numbered :: "string \<Rightarrow> nat \<Rightarrow> string" where
  "numbered label index = label @ ''-'' @ pad_left 3 (show_nat (index + 1))"

definition stable_scores :: "real \<Rightarrow> real list" where
  "stable_scores base = [base, base + 1 / 100, base - 1 / 100, base + 5 / 1000, base - 5 / 1000]"

definition flaky_scores :: "real \<Rightarrow> real list" where
  "flaky_scores base = [base, base + 11 / 100, base - 8 / 100, base + 5 / 100, base - 3 / 100]"

definition inconclusive_scores :: "real \<Rightarrow> real list" where
  "inconclusive_scores base = [base, 98 / 100, 15 / 100, base + 21 / 100, base - 19 / 100]"

definition build_synthetic_flaky_observations :: "(string \<times> real list) list" where
  "build_synthetic_flaky_observations =
     map (\<lambda>i. (numbered ''stable'' i, stable_scores (86 / 100 + real (i mod 4) * (1 / 100)))) [0..<25] @
     map (\<lambda>i. (numbered ''flaky'' i, flaky_scores (72 / 100 + real (i mod 3) * (2 / 100)))) [0..<15] @
     map (\<lambda>i. (numbered ''inconclusive'' i, inconclusive_scores (52 / 100 + real (i mod 2) * (4 / 100)))) [0..<10]"

section \<open>The dashboard's answer\<close>

definition dashboard_summary_json :: "summary \<Rightarrow> json" where
  "dashboard_summary_json sm = JObj
     [(''generatedAt'', JStr (sm_generated_at sm)), (''benchmark'', JStr ''latest_persisted_comparison''),
      (''projectName'', JStr (sm_project sm)), (''suiteName'', JStr (sm_suite sm)),
      (''baselineVersion'', JStr (sm_baseline_version sm)), (''candidateVersion'', JStr (sm_candidate_version sm)),
      (''caseCount'', JInt (int (sm_case_count sm))), (''totalExecutions'', JInt (int (sm_total_executions sm))),
      (''elapsedSeconds'', JFloat (Fin (sm_elapsed_seconds sm))),
      (''casesPerMinute'', JFloat (Fin (sm_cases_per_minute sm))), (''gateVerdict'', JStr (sm_gate_verdict sm))]"

definition shown_metric_json :: "shown_metric \<Rightarrow> json" where
  "shown_metric_json m = JObj
     [(''key'', JStr (dm_key m)), (''label'', JStr (dm_label m)), (''shortLabel'', JStr (dm_short m)),
      (''unit'', JStr (dm_unit m)), (''baseline'', JFloat (dm_baseline m)), (''candidate'', JFloat (dm_candidate m)),
      (''baselineCi'', JList (map JFloat (dm_baseline_ci m))), (''candidateCi'', JList (map JFloat (dm_candidate_ci m))),
      (''delta'', JFloat (dm_delta m)), (''deltaCi'', JList (map JFloat (dm_delta_ci m))),
      (''direction'', JStr (dm_direction m)), (''tolerance'', JFloat (dm_tolerance m)), (''status'', JStr (dm_status m))]"

definition shown_run_json :: "shown_run \<Rightarrow> json" where
  "shown_run_json r = JObj
     [(''id'', JStr (dn_id r)), (''version'', JStr (dn_version r)), (''suite'', JStr (dn_suite r)),
      (''cases'', JInt (int (dn_cases r))), (''caseCompleted'', JInt (int (dn_completed r))),
      (''caseErrored'', JInt (int (dn_errored r))), (''passRate'', JFloat (Fin (dn_pass_rate r))),
      (''semanticSimilarity'', JFloat (Fin (dn_similarity r))), (''p95LatencyMs'', JFloat (Fin (dn_p95_latency r))),
      (''costMeanUsd'', JFloat (Fin (dn_cost_mean r))), (''createdAt'', JStr (dn_created_at r)),
      (''status'', JStr (run_status_text (dn_status r)))]"

definition shown_chunk_json :: "shown_chunk \<Rightarrow> json" where
  "shown_chunk_json c = JObj
     [(''rank'', JInt (int (dk_rank c))), (''docId'', JStr (dk_doc_id c)), (''text'', JStr (dk_text c)),
      (''score'', JFloat (dk_score c))]"

definition trace_case_json :: "trace_case \<Rightarrow> json" where
  "trace_case_json t = JObj
     [(''id'', JStr (tc_id t)), (''tag'', JStr (tc_tag t)), (''evaluator'', JStr (tc_evaluator t)),
      (''reason'', JStr (tc_reason t)), (''question'', JStr (tc_question t)), (''expected'', JStr (tc_expected t)),
      (''baselineAnswer'', JStr (tc_baseline_answer t)), (''candidateAnswer'', JStr (tc_candidate_answer t)),
      (''semanticScore'', JFloat (Fin (tc_semantic t))), (''keywordScore'', JFloat (Fin (tc_keyword t))),
      (''retrievalHit'', JBool (tc_retrieval_hit t)), (''latencyMs'', JInt (tc_latency t)),
      (''costUsd'', JFloat (Fin (tc_cost t))), (''chunks'', JList (map shown_chunk_json (tc_chunks t))),
      (''adapter'', JStr (tc_adapter t))]"

definition tag_row_json :: "tag_row \<Rightarrow> json" where
  "tag_row_json t = JObj
     [(''tag'', JStr (tg_tag t)), (''baselineCaseCount'', JInt (int (tg_baseline_cases t))),
      (''candidateCaseCount'', JInt (int (tg_candidate_cases t))),
      (''candidateFailureCount'', JInt (int (tg_candidate_failures t))),
      (''candidatePassRate'', JFloat (Fin (tg_pass_rate t)))]"

definition shown_rule_json :: "shown_rule \<Rightarrow> json" where
  "shown_rule_json r = JObj
     [(''metric'', JStr (dr_metric r)), (''direction'', JStr (dr_direction r)), (''tolerance'', JStr (dr_tolerance r)),
      (''verdict'', dr_verdict r)]"

definition snapshot_json :: "snapshot \<Rightarrow> dict" where
  "snapshot_json p =
     [(''dataSource'', JStr ''live''), (''comparisonId'', JStr (sp_comparison p)),
      (''benchmarkSummary'', dashboard_summary_json (sp_summary p)),
      (''metrics'', JList (map shown_metric_json (sp_metrics p))), (''runs'', JList (map shown_run_json (sp_runs p))),
      (''traceCases'', JList (map trace_case_json (sp_trace_cases p))),
      (''tracePagination'', JObj [(''total'', JInt (int (sp_total p))), (''limit'', JInt (int (sp_limit p))),
         (''offset'', JInt (int (sp_offset p))), (''returned'', JInt (int (sp_returned p)))]),
      (''tagBreakdown'', JList (map tag_row_json (sp_tags p))),
      (''gateRules'', JList (map shown_rule_json (sp_gate_rules p)))]"

section \<open>Worker throughput\<close>

definition payload_error :: "string \<Rightarrow> 'a res" where
  "payload_error msg = Inl (Exn ValueErr msg)"

definition required_dict :: "dict \<Rightarrow> string \<Rightarrow> dict res" where
  "required_dict payload key =
     (case dict_get key payload of
        Some (JObj d) \<Rightarrow> Inr d
      | _ \<Rightarrow> payload_error (''Missing dashboard field: '' @ key))"

text \<open>\<open>dotted_key.rsplit(".", maxsplit=1)[-1]\<close> is what follows the last dot.\<close>

definition after_last_dot :: "string \<Rightarrow> string" where
  "after_last_dot dotted_key = rev (takeWhile (\<lambda>c. c \<noteq> CHR ''.'') (rev dotted_key))"

definition required_value :: "dict \<Rightarrow> string \<Rightarrow> json res" where
  "required_value payload dotted_key =
     (case dict_get (after_last_dot dotted_key) payload of
        None \<Rightarrow> payload_error (''Missing dashboard field: '' @ dotted_key)
      | Some v \<Rightarrow> Inr v)"

definition metric_figures :: "dict \<Rightarrow> json" where
  "metric_figures metric = JObj
     (map (\<lambda>k. (k, dict_get_or k JNull metric)) [''baseline'', ''candidate'', ''delta'', ''status''])"

definition add_metric :: "(real \<Rightarrow> string) \<Rightarrow> dict \<Rightarrow> json \<Rightarrow> dict" where
  "add_metric show_float metrics metric =
     (case metric of
        JObj d \<Rightarrow> (case dict_get ''key'' d of None \<Rightarrow> metrics
                   | Some k \<Rightarrow> dict_put (py_str show_float k) (metric_figures d) metrics)
      | _ \<Rightarrow> metrics)"

definition metrics_by_key :: "(real \<Rightarrow> string) \<Rightarrow> json \<Rightarrow> dict res" where
  "metrics_by_key show_float metrics_payload =
     (case metrics_payload of
        JList xs \<Rightarrow> Inr (foldl (add_metric show_float) [] xs)
      | _ \<Rightarrow> payload_error ''Dashboard metrics must be a list'')"

definition worker_summary ::
  "(real \<Rightarrow> string) \<Rightarrow> string \<Rightarrow> dict \<Rightarrow> int \<Rightarrow> int \<Rightarrow> string \<Rightarrow> string \<Rightarrow> json res" where
  "worker_summary show_float generated_at payload case_count worker_concurrency env_label source =
     and_then (required_dict payload ''benchmarkSummary'') (\<lambda>benchmark_summary.
     and_then (metrics_by_key show_float (dict_get_or ''metrics'' (JList []) payload)) (\<lambda>metrics.
     and_then (required_value benchmark_summary ''benchmarkSummary.caseCount'') (\<lambda>dashboard_case_count.
     if \<not> py_eq dashboard_case_count (JInt case_count) then
       payload_error (''benchmarkSummary.caseCount does not match requested case count ('' @
         py_str show_float dashboard_case_count @ '' != '' @ show_int case_count @ '')'')
     else dict_of
       [(''generated_at'', Inr (JStr generated_at)), (''benchmark'', Inr (JStr ''docker_celery_worker_throughput'')),
        (''execution_mode'', Inr (JStr ''celery'')), (''environment'', Inr (JStr env_label)),
        (''source'', Inr (JStr source)), (''case_count'', Inr (JInt case_count)),
        (''total_executions'', required_value benchmark_summary ''benchmarkSummary.totalExecutions''),
        (''worker_concurrency'', Inr (JInt worker_concurrency)),
        (''elapsed_seconds'', required_value benchmark_summary ''benchmarkSummary.elapsedSeconds''),
        (''cases_per_minute'', required_value benchmark_summary ''benchmarkSummary.casesPerMinute''),
        (''gate_verdict'', required_value benchmark_summary ''benchmarkSummary.gateVerdict''),
        (''metrics'', Inr (JObj metrics)),
        (''reproduction_commands'', Inr (JList
          [JStr ''docker compose up --build -d'',
           JStr (''docker compose exec backend uv run python -m app.cli.seed --mode celery --cases '' @ show_int case_count),
           JStr ''curl http://localhost:8000/api/dashboard/latest'', JStr ''docker compose logs worker --tail 100''])),
        (''limitations'', Inr (JList
          [JStr ''Measured with the deterministic demo adapter, not an external LLM provider.'',
           JStr ''Local Docker throughput is a smoke benchmark, not a production capacity claim.'',
           JStr ''The rate includes eval pipeline overhead for this seeded workload.'']))])))"

section \<open>Lemmas\<close>

lemma metrics_of_cards:
  "dict_get k (foldl (add_metric show_float) acc (map shown_metric_json cards)) =
     (case map_of (rev (map (\<lambda>m. (dm_key m, m)) cards)) k of
        None \<Rightarrow> dict_get k acc
      | Some m \<Rightarrow> Some (JObj [(''baseline'', JFloat (dm_baseline m)), (''candidate'', JFloat (dm_candidate m)),
          (''delta'', JFloat (dm_delta m)), (''status'', JStr (dm_status m))]))"
  by (induction cards arbitrary: acc)
    (auto simp: add_metric_def shown_metric_json_def metric_figures_def dict_get_or_def map_of_dict_put map_add_def
      split: option.splits)

lemma py_eq_int: "py_eq (JInt a) (JInt b) \<longleftrightarrow> a = b"
  by (subst py_eq.simps) simp

lemma last_parts:
  "after_last_dot ''benchmarkSummary.caseCount'' = ''caseCount''"
  "after_last_dot ''benchmarkSummary.totalExecutions'' = ''totalExecutions''"
  "after_last_dot ''benchmarkSummary.elapsedSeconds'' = ''elapsedSeconds''"
  "after_last_dot ''benchmarkSummary.casesPerMinute'' = ''casesPerMinute''"
  "after_last_dot ''benchmarkSummary.gateVerdict'' = ''gateVerdict''"
  by (simp_all add: after_last_dot_def)

lemma sqrt_less: "0 \<le> c \<Longrightarrow> sqrt x < c \<longleftrightarrow> x < c ^ 2"
  using real_sqrt_less_iff [of x "c ^ 2"] by simp

text \<open>The observations spread around their base by fixed amounts.\<close>

lemma spread:
  "pstdev (stable_scores b) = sqrt (5 / 100000)"
  "pstdev (flaky_scores b) = sqrt (428 / 100000)"
  "pstdev (inconclusive_scores (52 / 100)) = sqrt (10657 / 125000)"
  "pstdev (inconclusive_scores (56 / 100)) = sqrt (10613 / 125000)"
  by (simp_all add: pstdev_def average_def stable_scores_def flaky_scores_def inconclusive_scores_def power2_eq_square field_simps)

lemma class_of_sqrt:
  "classification_for_stddev (sqrt x) =
     (if x < 25 / 10000 then ''stable'' else if x < 4 / 100 then ''flaky'' else ''inconclusive'')"
  using sqrt_less [of "5 / 100" x] sqrt_less [of "20 / 100" x]
  by (simp add: classification_for_stddev_def STABLE_STDDEV_THRESHOLD_def INCONCLUSIVE_STDDEV_THRESHOLD_def power2_eq_square)

lemma synthetic_class:
  "classification_for_stddev (pstdev (stable_scores b)) = ''stable''"
  "classification_for_stddev (pstdev (flaky_scores b)) = ''flaky''"
  "classification_for_stddev (pstdev (inconclusive_scores (52 / 100 + real (i mod 2) * (4 / 100)))) = ''inconclusive''"
proof -
  show "classification_for_stddev (pstdev (stable_scores b)) = ''stable''"
    "classification_for_stddev (pstdev (flaky_scores b)) = ''flaky''"
    by (simp_all add: spread class_of_sqrt)
  have "52 / 100 + real (i mod 2) * (4 / 100) = 52 / 100 \<or> 52 / 100 + real (i mod 2) * (4 / 100) = 56 / 100"
    by (cases "i mod 2 = 0") simp_all
  then show "classification_for_stddev (pstdev (inconclusive_scores (52 / 100 + real (i mod 2) * (4 / 100)))) = ''inconclusive''"
    by (elim disjE) (simp_all only: spread class_of_sqrt, simp_all)
qed

definition classified_as :: "string \<Rightarrow> real list \<Rightarrow> flaky_case" where
  "classified_as case_id scores = \<lparr>fc_case_id = case_id, fc_run_count = length scores, fc_mean_score = average scores,
     fc_score_stddev = pstdev scores, fc_classification = classification_for_stddev (pstdev scores)\<rparr>"

lemma classify_all:
  "list_all (\<lambda>(k, s). 2 \<le> length s) obs \<Longrightarrow> classify_flaky_cases obs = Inr (map (\<lambda>(k, s). (k, classified_as k s)) obs)"
  by (induction obs) (auto simp: classify_flaky_cases_def classify_case_def classified_as_def)

section \<open>Properties\<close>

text \<open>The worker benchmark reads any snapshot the dashboard serves: it refuses one of another size than the run it
  asked for, and otherwise reports the dashboard's executions, verdict, and the figures of the card of each metric.\<close>

theorem worker_benchmark_reads_dashboard:
  "if cases = int (sm_case_count (sp_summary snap))
   then \<exists>d ms. worker_summary show_float generated_at (snapshot_json snap) cases concurrency env_label src = Inr (JObj d) \<and>
     dict_get ''total_executions'' d = Some (JInt (int (sm_total_executions (sp_summary snap)))) \<and>
     dict_get ''gate_verdict'' d = Some (JStr (sm_gate_verdict (sp_summary snap))) \<and>
     dict_get ''metrics'' d = Some (JObj ms) \<and>
     (\<forall>k. dict_get k ms = map_option (\<lambda>m. JObj [(''baseline'', JFloat (dm_baseline m)), (''candidate'', JFloat (dm_candidate m)),
          (''delta'', JFloat (dm_delta m)), (''status'', JStr (dm_status m))])
        (map_of (rev (map (\<lambda>m. (dm_key m, m)) (sp_metrics snap))) k))
   else worker_summary show_float generated_at (snapshot_json snap) cases concurrency env_label src =
     Inl (Exn ValueErr (''benchmarkSummary.caseCount does not match requested case count ('' @
       show_int (int (sm_case_count (sp_summary snap))) @ '' != '' @ show_int cases @ '')''))"
proof -
  let ?sm = "sp_summary snap" and ?payload = "snapshot_json snap"
  define ms where "ms = foldl (add_metric show_float) [] (map shown_metric_json (sp_metrics snap))"
  have metrics: "metrics_by_key show_float (dict_get_or ''metrics'' (JList []) ?payload) = Inr ms"
    by (simp add: snapshot_json_def dict_get_or_def metrics_by_key_def ms_def)
  obtain bs where bs: "required_dict ?payload ''benchmarkSummary'' = Inr bs" and "dashboard_summary_json ?sm = JObj bs"
    by (simp add: required_dict_def snapshot_json_def dashboard_summary_json_def)
  then have got: "required_value bs ''benchmarkSummary.caseCount'' = Inr (JInt (int (sm_case_count ?sm)))"
    "required_value bs ''benchmarkSummary.totalExecutions'' = Inr (JInt (int (sm_total_executions ?sm)))"
    "required_value bs ''benchmarkSummary.elapsedSeconds'' = Inr (JFloat (Fin (sm_elapsed_seconds ?sm)))"
    "required_value bs ''benchmarkSummary.casesPerMinute'' = Inr (JFloat (Fin (sm_cases_per_minute ?sm)))"
    "required_value bs ''benchmarkSummary.gateVerdict'' = Inr (JStr (sm_gate_verdict ?sm))"
    by (auto simp: required_value_def last_parts dashboard_summary_json_def)
  have look: "dict_get k ms = map_option (\<lambda>m. JObj [(''baseline'', JFloat (dm_baseline m)), (''candidate'', JFloat (dm_candidate m)),
        (''delta'', JFloat (dm_delta m)), (''status'', JStr (dm_status m))]) (map_of (rev (map (\<lambda>m. (dm_key m, m)) (sp_metrics snap))) k)" for k
    unfolding ms_def metrics_of_cards by (simp split: option.split)
  show ?thesis
    using look by (simp add: worker_summary_def bs metrics got dict_of_def py_eq_int payload_error_def)
qed

text \<open>The synthetic observations are classified as they are named: the 25 stable cases as stable, the 15 flaky ones as
  flaky, the 10 inconclusive ones as inconclusive, and the gate leaves out exactly the last two groups.\<close>

theorem synthetic_flakiness_detected:
  "\<exists>cs. classify_flaky_cases build_synthetic_flaky_observations = Inr cs \<and>
     fs_stable_count (summarize_flakiness cs) = 25 \<and> fs_flaky_count (summarize_flakiness cs) = 15 \<and>
     fs_inconclusive_count (summarize_flakiness cs) = 10 \<and>
     fs_excluded_from_gate (summarize_flakiness cs) = map (numbered ''flaky'') [0..<15] @ map (numbered ''inconclusive'') [0..<10]"
proof -
  have "list_all (\<lambda>(k, s). 2 \<le> length s) build_synthetic_flaky_observations"
    by (auto simp: list_all_iff build_synthetic_flaky_observations_def stable_scores_def flaky_scores_def
        inconclusive_scores_def)
  note all = classify_all [OF this]
  let ?cs = "map (\<lambda>(k, s). (k, classified_as k s)) build_synthetic_flaky_observations"
  have "fs_stable_count (summarize_flakiness ?cs) = 25" "fs_flaky_count (summarize_flakiness ?cs) = 15"
    "fs_inconclusive_count (summarize_flakiness ?cs) = 10"
    "fs_excluded_from_gate (summarize_flakiness ?cs) = map (numbered ''flaky'') [0..<15] @ map (numbered ''inconclusive'') [0..<10]"
    by (simp_all add: summarize_flakiness_def build_synthetic_flaky_observations_def filter_map comp_def classified_as_def
        synthetic_class synthetic_class(3) [simplified] del: upt_rec_numeral upt_Suc)
  with all show ?thesis by blast
qed

end
