(* ===== verification/Application_Shell.thy ===== *)
theory Application_Shell imports Auth_Api Engine Backend_Settings begin

text \<open>
  \<open>backend/app/main.py\<close>, \<open>core/logging.py\<close>, \<open>core/observability.py\<close>, \<open>core/redis.py\<close>, \<open>db/health.py\<close>, \<open>api/health.py\<close>,
  \<open>api/metrics.py\<close> and \<open>api/evaluators.py\<close>: what surrounds every request (its identifier, its log line, its metrics), the
  probes and the metrics route. The frameworks (FastAPI, logging, Prometheus, OpenTelemetry, Sentry) are left out; what the
  code hands them is kept. The handler behind the middleware is an argument: it answers or it raises.
\<close>

section \<open>Request identifiers\<close>

text \<open>\<open>str.isalnum\<close> on one character.\<close>

definition py_isalnum :: "char \<Rightarrow> bool" where
  "py_isalnum c = (let n = code_point c in
     48 \<le> n \<and> n \<le> 57 \<or> 65 \<le> n \<and> n \<le> 90 \<or> 97 \<le> n \<and> n \<le> 122 \<or>
     n \<in> {170, 178, 179, 181, 185, 186, 188, 189, 190} \<or> 192 \<le> n \<and> n \<noteq> 215 \<and> n \<noteq> 247)"

definition acceptable_request_id :: "string \<Rightarrow> bool" where
  "acceptable_request_id supplied \<longleftrightarrow>
     0 < length supplied \<and> length supplied \<le> 128 \<and>
     list_all (\<lambda>c. py_isalnum c \<or> c \<in> set ''-_.'') supplied"

definition choose_request_id :: "string \<Rightarrow> string \<Rightarrow> string" where
  "choose_request_id supplied fresh = (if acceptable_request_id supplied then supplied else fresh)"

section \<open>Structured log lines\<close>

text \<open>The values an attribute of a log record can have: those JSON can hold, and any other object.\<close>

datatype log_value = LogJson json | LogOther

record log_record =
  lr_levelname :: string
  lr_name :: string
  lr_message :: string
  lr_exception :: "(string \<times> string) option"
  lr_attributes :: "(string \<times> log_value) list"

definition reserved_attributes :: "string list" where
  "reserved_attributes =
     [''args'', ''asctime'', ''created'', ''exc_info'', ''exc_text'', ''filename'', ''funcName'', ''levelname'', ''levelno'',
      ''lineno'', ''module'', ''msecs'', ''msg'', ''name'', ''pathname'', ''process'', ''processName'', ''relativeCreated'',
      ''stack_info'', ''thread'', ''threadName'']"

definition add_attribute :: "dict \<Rightarrow> string \<times> log_value \<Rightarrow> dict" where
  "add_attribute payload = (\<lambda>(key, v).
     if key \<in> set reserved_attributes then payload
     else (case v of LogJson j \<Rightarrow> dict_put key j payload | LogOther \<Rightarrow> payload))"

definition format_record :: "string \<Rightarrow> log_record \<Rightarrow> dict" where
  "format_record timestamp r =
     foldl add_attribute
       ([(''timestamp'', JStr timestamp), (''level'', JStr (py_lower (lr_levelname r))), (''logger'', JStr (lr_name r)),
         (''message'', JStr (lr_message r))] @
        (case lr_exception r of None \<Rightarrow> []
         | Some (kind, msg) \<Rightarrow> [(''exception'', JObj [(''type'', JStr kind), (''message'', JStr msg)])]))
       (lr_attributes r)"

section \<open>The middleware\<close>

record http_response =
  hr_status :: int
  hr_headers :: "(string \<times> string) list"

text \<open>The process-wide metrics and the lines logged so far.\<close>

record shell =
  in_progress :: int
  requests_total :: "((string \<times> string \<times> string) \<times> nat) list"
  request_durations :: "((string \<times> string) \<times> real) list"
  log_lines :: "log_record list"

record open_request =
  rq_method :: string
  rq_path :: string
  rq_id :: string
  rq_started :: real

text \<open>Setting a header replaces the one of the same name in any case.\<close>

fun set_header :: "string \<Rightarrow> string \<Rightarrow> (string \<times> string) list \<Rightarrow> (string \<times> string) list" where
  "set_header k v [] = [(k, v)]"
| "set_header k v (h # hs) =
     (if py_lower (fst h) = py_lower k then (k, v) # filter (\<lambda>x. py_lower (fst x) \<noteq> py_lower k) hs
      else h # set_header k v hs)"

definition get_header :: "string \<Rightarrow> (string \<times> string) list \<Rightarrow> string option" where
  "get_header k hs = map_option snd (find (\<lambda>h. py_lower (fst h) = py_lower k) hs)"

definition request_line :: "open_request \<Rightarrow> int \<Rightarrow> real \<Rightarrow> log_record" where
  "request_line rq status_code now =
     \<lparr>lr_levelname = ''INFO'', lr_name = ''api.request'', lr_message = ''request completed'', lr_exception = None,
      lr_attributes = map (\<lambda>(k, j). (k, LogJson j))
        (foldl (\<lambda>d (k, j). dict_put k j d)
          [(''method'', JStr (rq_method rq)), (''path'', JStr (rq_path rq)), (''status'', JInt status_code),
           (''latency_ms'', JInt (round_half_even ((now - rq_started rq) * 1000)))]
          [(''request_id'', JStr (rq_id rq))])\<rparr>"

definition count_at :: "'k \<Rightarrow> ('k \<times> nat) list \<Rightarrow> nat" where
  "count_at k d = (case map_of d k of None \<Rightarrow> 0 | Some n \<Rightarrow> n)"

definition record_http_request :: "string \<Rightarrow> string \<Rightarrow> int \<Rightarrow> real \<Rightarrow> shell \<Rightarrow> shell" where
  "record_http_request verb route status_code duration s =
     (let k = (verb, route, show_int status_code) in
      s\<lparr>requests_total := dict_put k (count_at k (requests_total s) + 1) (requests_total s),
        request_durations := request_durations s @ [((verb, route), duration)]\<rparr>)"

definition begin_request :: "string \<Rightarrow> string \<Rightarrow> string option \<Rightarrow> string \<Rightarrow> real \<Rightarrow> shell \<Rightarrow> open_request \<times> shell" where
  "begin_request verb path supplied fresh now s =
     (\<lparr>rq_method = verb, rq_path = path,
       rq_id = choose_request_id (case supplied of None \<Rightarrow> [] | Some x \<Rightarrow> x) fresh, rq_started = now\<rparr>,
      s\<lparr>in_progress := in_progress s + 1\<rparr>)"

definition security_headers :: "string \<Rightarrow> (string \<times> string) list" where
  "security_headers request_id =
     [(''X-Request-ID'', request_id), (''X-Content-Type-Options'', ''nosniff''), (''X-Frame-Options'', ''DENY''),
      (''Referrer-Policy'', ''no-referrer'')]"

definition with_headers :: "string \<Rightarrow> http_response \<Rightarrow> http_response" where
  "with_headers request_id r =
     r\<lparr>hr_headers := foldl (\<lambda>hs (k, v). set_header k v hs) (hr_headers r) (security_headers request_id)\<rparr>"

definition finish_request ::
  "open_request \<Rightarrow> string option \<Rightarrow> real \<Rightarrow> exn + http_response \<Rightarrow> shell \<Rightarrow> (exn + http_response) \<times> shell" where
  "finish_request rq route now outcome s =
     (let status_code = (case outcome of Inl _ \<Rightarrow> 500 | Inr r \<Rightarrow> hr_status r);
          route_path = (case route of None \<Rightarrow> ''unmatched'' | Some p \<Rightarrow> p);
          s1 = s\<lparr>log_lines := log_lines s @ [request_line rq status_code now]\<rparr>;
          s2 = record_http_request (rq_method rq) route_path status_code (now - rq_started rq) s1
      in (map_sum id (with_headers (rq_id rq)) outcome, s2\<lparr>in_progress := in_progress s2 - 1\<rparr>))"

text \<open>Requests in flight: each starts and ends on its own, in any order.\<close>

inductive shell_step :: "shell \<times> open_request list \<Rightarrow> shell \<times> open_request list \<Rightarrow> bool" where
  start: "acceptable_request_id fresh \<Longrightarrow> begin_request verb path supplied fresh now s = (rq, s') \<Longrightarrow>
    shell_step (s, rqs) (s', rq # rqs)"
| finish: "finish_request rq route now outcome s = (r, s') \<Longrightarrow> shell_step (s, rqs @ rq # rest) (s', rqs @ rest)"

inductive shell_reach :: "shell \<times> open_request list \<Rightarrow> bool" where
  fresh_process: "shell_reach (\<lparr>in_progress = 0, requests_total = [], request_durations = [], log_lines = []\<rparr>, [])"
| stepped: "shell_reach x \<Longrightarrow> shell_step x y \<Longrightarrow> shell_reach y"

section \<open>Probes\<close>

text \<open>A probe that raises, by a refused connection or by its timeout, counts as down.\<close>

definition probe :: "bool res \<Rightarrow> bool" where
  "probe r = (case r of Inl _ \<Rightarrow> False | Inr b \<Rightarrow> b)"

text \<open>The revisions of \<open>migrations/versions\<close> with their predecessors, and the head Alembic finds among them.\<close>

definition revisions :: "(string \<times> string option) list" where
  "revisions =
     [(''20260605_0001'', None), (''20260820_0002'', Some ''20260605_0001''), (''20260820_0003'', Some ''20260820_0002''),
      (''20260820_0004'', Some ''20260820_0003'')]"

definition expected_schema_revision :: "(string \<times> string option) list \<Rightarrow> string res" where
  "expected_schema_revision revs =
     (case filter (\<lambda>r. Some r \<notin> set (map snd revs)) (map fst revs) of
        [] \<Rightarrow> Inl (Exn RuntimeErr ''Alembic migration head is unavailable'')
      | [h] \<Rightarrow> Inr h
      | _ \<Rightarrow> Inl (Exn RuntimeErr ''The script directory has multiple heads''))"

definition check_database_schema :: "string option res \<Rightarrow> bool" where
  "check_database_schema stored =
     probe (and_then stored (\<lambda>revision.
       and_then (expected_schema_revision revisions) (\<lambda>head. Inr (revision = Some head))))"

record health =
  h_status :: string
  h_api :: bool
  h_database :: bool
  h_redis :: bool
  h_schema_ready :: bool

definition dependency_health :: "bool res \<Rightarrow> bool res \<Rightarrow> string option res \<Rightarrow> health" where
  "dependency_health database redis stored =
     (let database_ok = probe database; redis_ok = probe redis; schema_ok = check_database_schema stored
      in \<lparr>h_status = (if database_ok \<and> redis_ok \<and> schema_ok then ''ok'' else ''degraded''), h_api = True,
          h_database = database_ok, h_redis = redis_ok, h_schema_ready = schema_ok\<rparr>)"

definition readyz :: "bool res \<Rightarrow> bool res \<Rightarrow> string option res \<Rightarrow> int \<times> health" where
  "readyz database redis stored =
     (let h = dependency_health database redis stored in (if h_status h \<noteq> ''ok'' then 503 else 200, h))"

section \<open>Operations routes\<close>

definition metrics_route :: "string option \<Rightarrow> string option \<Rightarrow> string option \<Rightarrow> 'm \<Rightarrow> 'm response" where
  "metrics_route expected authorization x_metrics_token page =
     (let supplied = (if is_set x_metrics_token then x_metrics_token else bearer_token authorization) in
      if is_set expected then
        if \<not> is_set supplied then http 401 ''Valid metrics token required''
        else (case compare_digest (the supplied) (the expected) of
                Inl exc \<Rightarrow> Inl (Unhandled exc)
              | Inr same \<Rightarrow> if same then Inr page else http 401 ''Valid metrics token required'')
      else Inr page)"

definition list_evaluators :: "(string \<Rightarrow> bool) \<Rightarrow> principal \<Rightarrow> dict list response" where
  "list_evaluators installed p = Inr (evaluator_capabilities installed)"

text \<open>The headers for the trace exporter, written \<open>key=value,key=value\<close>.\<close>

definition add_parsed_header :: "(string \<times> string) list \<Rightarrow> string \<Rightarrow> (string \<times> string) list" where
  "add_parsed_header headers item =
     (case py_partition (CHR ''='') item of
        (key, separator, header_value) \<Rightarrow>
          if separator \<and> py_strip key \<noteq> [] \<and> py_strip header_value \<noteq> []
          then dict_put (py_strip key) (py_strip header_value) headers else headers)"

definition parse_headers :: "string option \<Rightarrow> (string \<times> string) list option" where
  "parse_headers text_value =
     (if \<not> is_set text_value then None
      else (let headers = foldl add_parsed_header [] (py_split (CHR '','') (the text_value))
            in if headers = [] then None else Some headers))"

text \<open>What \<open>create_app\<close> switches on: the documentation routes, the origins and the hosts.\<close>

record app_options =
  ao_docs :: "string option"
  ao_redoc :: "string option"
  ao_openapi :: "string option"
  ao_cors :: "string list option"
  ao_hosts :: "string list option"

definition create_application :: "settings \<Rightarrow> app_options" where
  "create_application S =
     (let expose_docs = py_lower (environment S) \<notin> {''production'', ''prod''};
          origins = comma_list (cors_origins S); hosts = comma_list (allowed_hosts S)
      in \<lparr>ao_docs = (if expose_docs then Some ''/docs'' else None),
          ao_redoc = (if expose_docs then Some ''/redoc'' else None),
          ao_openapi = (if expose_docs then Some ''/openapi.json'' else None),
          ao_cors = (if origins \<noteq> [] then Some origins else None),
          ao_hosts = (if hosts \<noteq> [] then Some hosts else None)\<rparr>)"

section \<open>Lemmas\<close>

lemma count_at_put: "sum_list (map snd (dict_put k (Suc (count_at k d)) d)) = Suc (sum_list (map snd d))"
  by (induction d) (auto simp: count_at_def)

lemma chosen_id_acceptable: "acceptable_request_id fresh \<Longrightarrow> acceptable_request_id (choose_request_id supplied fresh)"
  by (simp add: choose_request_id_def)

definition line_request_id :: "log_record \<Rightarrow> log_value option" where
  "line_request_id r = map_of (lr_attributes r) ''request_id''"

lemma request_line_id [simp]: "line_request_id (request_line rq status_code now) = Some (LogJson (JStr (rq_id rq)))"
  by (simp add: line_request_id_def request_line_def)

text \<open>What holds between any two events: the gauge counts the open requests, every finished one has a line and a sample,
  and every identifier is acceptable.\<close>

definition accounted :: "shell \<times> open_request list \<Rightarrow> bool" where
  "accounted x \<longleftrightarrow>
     in_progress (fst x) = int (length (snd x)) \<and>
     sum_list (map snd (requests_total (fst x))) = length (log_lines (fst x)) \<and>
     length (request_durations (fst x)) = length (log_lines (fst x)) \<and>
     list_all (\<lambda>rq. acceptable_request_id (rq_id rq)) (snd x) \<and>
     list_all (\<lambda>r. \<exists>i. line_request_id r = Some (LogJson (JStr i)) \<and> acceptable_request_id i) (log_lines (fst x))"

lemma accounted_step:
  assumes "shell_step x y" and "accounted x"
  shows "accounted y"
  using assms(1)
proof cases
  case (start fresh verb path supplied now s rq s' rqs)
  with assms(2) show ?thesis by (auto simp: accounted_def begin_request_def chosen_id_acceptable)
next
  case (finish rq route now outcome s r s' rqs rest)
  with assms(2) show ?thesis
    by (auto simp: accounted_def finish_request_def Let_def record_http_request_def count_at_put)
qed

lemma reach_accounted: "shell_reach x \<Longrightarrow> accounted x"
  by (induction rule: shell_reach.induct) (auto simp: accounted_def accounted_step [unfolded accounted_def] intro: accounted_step)

lemma get_set_header: "get_header k (set_header k' v hs) = (if py_lower k = py_lower k' then Some v else get_header k hs)"
proof (induction hs)
  case (Cons h hs)
  have "find (\<lambda>h. py_lower (fst h) = py_lower k) (filter (\<lambda>x. py_lower (fst x) \<noteq> py_lower k') hs) =
      find (\<lambda>h. py_lower (fst h) = py_lower k) hs" if "py_lower k \<noteq> py_lower k'"
    using that by (induction hs) auto
  with Cons show ?case by (auto simp: get_header_def)
qed (simp add: get_header_def)

lemma safe_characters:
  assumes "acceptable_request_id i" and "c \<in> set i"
  shows "33 \<le> code_point c \<and> c \<notin> set '':;,''"
proof -
  have dots: "py_isalnum CHR '':'' = False" "py_isalnum CHR '';'' = False" "py_isalnum CHR '','' = False" by code_simp+
  from assms have "py_isalnum c \<or> c \<in> set ''-_.''" by (auto simp: acceptable_request_id_def list_all_iff)
  then show ?thesis using dots by (auto simp: py_isalnum_def Let_def)
qed

definition written_headers :: "(string \<times> string) list \<Rightarrow> string" where
  "written_headers hs = py_join '','' (map (\<lambda>(k, v). k @ ''='' @ v) hs)"

definition plain_header :: "string \<times> string \<Rightarrow> bool" where
  "plain_header h \<longleftrightarrow> fst h \<noteq> [] \<and> py_strip (fst h) = fst h \<and> CHR ''='' \<notin> set (fst h) \<and> CHR '','' \<notin> set (fst h) \<and>
     snd h \<noteq> [] \<and> py_strip (snd h) = snd h \<and> CHR '','' \<notin> set (snd h)"

lemma partition_pair: "c \<notin> set k \<Longrightarrow> py_partition c (k @ c # v) = (k, True, v)"
  by (induction k) (auto simp: py_partition_def split: list.splits)

lemma parsed_headers:
  "list_all plain_header hs \<Longrightarrow> distinct (map fst (acc @ hs)) \<Longrightarrow>
     foldl add_parsed_header acc (map (\<lambda>(k, v). k @ ''='' @ v) hs) = acc @ hs"
proof (induction hs arbitrary: acc)
  case (Cons h hs)
  obtain k v where h: "h = (k, v)" by (cases h)
  have "add_parsed_header acc (k @ ''='' @ v) = acc @ [(k, v)]"
    using Cons.prems by (auto simp: h plain_header_def add_parsed_header_def partition_pair dict_put_fresh)
  with Cons show ?case by (simp add: h)
qed simp

section \<open>Properties\<close>


text \<open>Every response carries its request's identifier, the supplied one when it is acceptable, and the three security
  headers, whatever the handler set; no character of the identifier can end or split a header.\<close>

theorem responses_correlated:
  assumes "acceptable_request_id fresh" and "begin_request verb path supplied fresh now s = (rq, s1)"
    and "finish_request rq route later (Inr r) s2 = (out, s3)"
  shows "\<exists>r'. out = Inr r' \<and> hr_status r' = hr_status r \<and>
     get_header ''X-Request-ID'' (hr_headers r') = Some (choose_request_id (case supplied of None \<Rightarrow> [] | Some x \<Rightarrow> x) fresh) \<and>
     get_header ''X-Content-Type-Options'' (hr_headers r') = Some ''nosniff'' \<and>
     get_header ''X-Frame-Options'' (hr_headers r') = Some ''DENY'' \<and>
     get_header ''Referrer-Policy'' (hr_headers r') = Some ''no-referrer'' \<and>
     list_all (\<lambda>c. 33 \<le> code_point c \<and> c \<notin> set '':;,'') (rq_id rq)"
proof -
  have "acceptable_request_id (rq_id rq)" using assms(1,2) by (auto simp: begin_request_def chosen_id_acceptable)
  then have "list_all (\<lambda>c. 33 \<le> code_point c \<and> c \<notin> set '':;,'') (rq_id rq)" unfolding list_all_iff using safe_characters by blast
  with assms(2,3) show ?thesis
    by (auto simp: begin_request_def finish_request_def Let_def with_headers_def security_headers_def get_set_header py_lower_def
      py_lower_char_def)
qed

text \<open>The service is ready exactly when both stores answer and the database is at the revision of the last migration.\<close>

theorem ready_at_head:
  "fst (readyz database redis stored) = 200 \<longleftrightarrow>
     database = Inr True \<and> redis = Inr True \<and> stored = Inr (Some ''20260820_0004'')"
  by (auto simp: readyz_def dependency_health_def probe_def check_database_schema_def expected_schema_revision_def revisions_def
    and_then_Inr_iff split: sum.splits if_splits)

text \<open>In production nobody reads the metrics without the configured token.\<close>

theorem production_metrics_guarded:
  assumes "require_auth_in_production S = Inr S" and "py_lower (environment S) \<in> {''production'', ''prod''}"
    and "metrics_route (metrics_token S) authorization x_token page = Inr shown"
  shows "shown = page \<and> metrics_token S = (if is_set x_token then x_token else bearer_token authorization) \<and>
    is_set (metrics_token S)"
  using assms
  by (auto simp: require_auth_in_production_def metrics_route_def Let_def http_def compare_digest_def is_set_def
    split: if_splits option.splits sum.splits)

text \<open>The exporter headers are read back as they were written, when the keys are different, and keys and values are
  trimmed and free of the separators that would end them.\<close>

theorem trace_headers_roundtrip:
  assumes "hs \<noteq> []" and "list_all plain_header hs" and "distinct (map fst hs)"
  shows "parse_headers (Some (written_headers hs)) = Some hs"
proof -
  have free: "list_all (\<lambda>x. CHR '','' \<notin> set x) (map (\<lambda>(k, v). k @ ''='' @ v) hs)"
    using assms(2) by (auto simp: list_all_iff plain_header_def)
  have "py_split (CHR '','') (written_headers hs) = map (\<lambda>(k, v). k @ ''='' @ v) hs"
    unfolding written_headers_def using assms(1) by (intro py_split_join free) simp
  moreover have "is_set (Some (written_headers hs))"
    using assms(1) by (cases hs; cases "tl hs") (auto simp: is_set_def written_headers_def)
  ultimately show ?thesis
    using parsed_headers [OF assms(2), of "[]"] assms(1,3) by (simp add: parse_headers_def)
qed

section \<open>Witnesses\<close>


lemma responses_correlated_witness:
  "\<exists>rq s1 r' s3. begin_request ''GET'' ''/livez'' (Some ''request-123'') ''a1'' 0
       \<lparr>in_progress = 0, requests_total = [], request_durations = [], log_lines = []\<rparr> = (rq, s1) \<and>
     finish_request rq None 1 (Inr \<lparr>hr_status = 200, hr_headers = []\<rparr>) s1 = (Inr r', s3) \<and>
     get_header ''X-Frame-Options'' (hr_headers r') = Some ''DENY''"
proof -
  obtain rq s1 where b: "begin_request ''GET'' ''/livez'' (Some ''request-123'') ''a1'' 0
      \<lparr>in_progress = 0, requests_total = [], request_durations = [], log_lines = []\<rparr> = (rq, s1)" by fastforce
  obtain out s3 where f: "finish_request rq None 1 (Inr \<lparr>hr_status = 200, hr_headers = []\<rparr>) s1 = (out, s3)" by fastforce
  have "acceptable_request_id ''a1''" by code_simp
  from responses_correlated [OF this b f] b f show ?thesis by auto
qed

lemma production_metrics_guarded_witness:
  "metrics_route (Some ''t'') None (Some ''t'') (0 :: nat) = Inr 0 \<and> is_set (Some ''t'')"
proof -
  define S where "S = default_settings\<lparr>environment := ''production'', auth_token_pepper := ''p'', bootstrap_token := Some ''b'',
    metrics_token := Some ''t''\<rparr>"
  have ok: "require_auth_in_production S = Inr S" "py_lower (environment S) \<in> {''production'', ''prod''}"
    "metrics_token S = Some ''t''"
    by (simp_all add: S_def require_auth_in_production_def is_set_def py_lower_def py_lower_char_def)
  have m: "metrics_route (metrics_token S) None (Some ''t'') (0 :: nat) = Inr 0"
    by (simp add: ok(3) metrics_route_def is_set_def compare_digest_def ascii_def)
  from production_metrics_guarded [OF ok(1,2) m] m ok(3) show ?thesis by simp
qed

lemma trace_headers_roundtrip_witness:
  "parse_headers (Some ''x-team=evals,x-key=a=b'') = Some [(''x-team'', ''evals''), (''x-key'', ''a=b'')]"
proof -
  have p: "list_all plain_header [(''x-team'', ''evals''), (''x-key'', ''a=b'')]" by code_simp
  have w: "written_headers [(''x-team'', ''evals''), (''x-key'', ''a=b'')] = ''x-team=evals,x-key=a=b''"
    by (simp add: written_headers_def)
  from trace_headers_roundtrip [OF _ p] show ?thesis by (simp add: w)
qed

end
