(* ===== verification/Worker_Spec.thy ===== *)
theory Worker_Spec imports Run_Worker begin

text \<open>
  What the worker of \<open>backend/app/workers/tasks.py\<close> promises, without rows, leases and clocks: a board of items, each open,
  held by one task, or settled. The transactions of concurrent deliveries, as \<open>Run_Worker\<close> interleaves them, refine it.
\<close>

section \<open>The board\<close>

datatype slot = Open | Held string | Settled item_status

type_synonym board = "string \<rightharpoonup> slot"

text \<open>A task that holds nothing takes an open item; it settles the item it holds, or loses it.\<close>

inductive board_step :: "board \<Rightarrow> board \<Rightarrow> bool" where
  take_item: "b iid = Some Open \<Longrightarrow> \<forall>j. b j \<noteq> Some (Held k) \<Longrightarrow> board_step b (b(iid \<mapsto> Held k))"
| settle_item: "b iid = Some (Held k) \<Longrightarrow> st \<in> {ItemCompleted, ItemErrored} \<Longrightarrow> board_step b (b(iid \<mapsto> Settled st))"
| lose_item: "b iid = Some (Held k) \<Longrightarrow> board_step b (b(iid \<mapsto> Open))"

inductive_cases board_stepE: "board_step b b'"

abbreviation board_steps :: "board \<Rightarrow> board \<Rightarrow> bool" where
  "board_steps \<equiv> board_step\<^sup>*\<^sup>*"

definition exclusive :: "board \<Rightarrow> bool" where
  "exclusive b \<longleftrightarrow> (\<forall>i j k. b i = Some (Held k) \<and> b j = Some (Held k) \<longrightarrow> i = j)"

text \<open>What the board keeps: its items, the settled ones as they are, and one item per task.\<close>

lemma board_step_keeps:
  assumes "board_step b b'"
  shows "dom b' = dom b" and "b i = Some (Settled st) \<Longrightarrow> b' i = Some (Settled st)" and "exclusive b \<Longrightarrow> exclusive b'"
proof -
  show "dom b' = dom b" using assms by (auto elim!: board_stepE split: if_splits)
  show "b' i = Some (Settled st)" if "b i = Some (Settled st)" using assms that by (auto elim!: board_stepE)
  show "exclusive b'" if "exclusive b"
    using assms
  proof cases
    case (take_item iid k)
    with that show ?thesis unfolding exclusive_def by (auto split: if_splits)
  next
    case (settle_item iid k st)
    with that show ?thesis unfolding exclusive_def by (auto split: if_splits)
  next
    case (lose_item iid k)
    with that show ?thesis unfolding exclusive_def by (auto split: if_splits)
  qed
qed

lemma board_steps_keep:
  assumes "board_steps b b'"
  shows "dom b' = dom b" and "b i = Some (Settled st) \<Longrightarrow> b' i = Some (Settled st)" and "exclusive b \<Longrightarrow> exclusive b'"
  using assms by (induction rule: rtranclp_induct) (auto simp: board_step_keeps)

text \<open>Several tasks can lose their items at once.\<close>

definition released :: "(string \<Rightarrow> bool) \<Rightarrow> board \<Rightarrow> board" where
  "released P b = (\<lambda>iid. case b iid of Some (Held k) \<Rightarrow> if P k then Some Open else b iid | x \<Rightarrow> x)"

lemma released_steps:
  assumes "finite (dom b)"
  shows "board_steps b (released P b)"
proof -
  have "board_steps b (\<lambda>iid. if iid \<in> A then released P b iid else b iid)" if "finite A" for A
    using that
  proof induction
    case (insert iid A)
    let ?b = "\<lambda>i. if i \<in> A then released P b i else b i"
    have "board_steps ?b (\<lambda>i. if i \<in> insert iid A then released P b i else b i)"
    proof (cases "\<exists>k. b iid = Some (Held k) \<and> P k")
      case True
      then obtain k where "?b iid = Some (Held k)" "released P b iid = Some Open" using insert(2) by (auto simp: released_def)
      from lose_item [of ?b, OF this(1)] have "board_step ?b (?b(iid \<mapsto> Open))" .
      moreover have "(\<lambda>i. if i \<in> insert iid A then released P b i else b i) = ?b(iid \<mapsto> Open)"
        using \<open>released P b iid = Some Open\<close> by auto
      ultimately show ?thesis by (simp only: r_into_rtranclp)
    next
      case False
      then have "released P b iid = b iid" by (auto simp: released_def split: option.splits slot.splits)
      then have "(\<lambda>i. if i \<in> insert iid A then released P b i else b i) = ?b" using insert(2) by auto
      then show ?thesis by simp
    qed
    with insert show ?case by (meson rtranclp_trans)
  qed simp
  moreover have "(\<lambda>iid. if iid \<in> dom b then released P b iid else b iid) = released P b"
    by (rule ext) (simp add: released_def domIff split: option.split)
  ultimately show ?thesis using assms by metis
qed

section \<open>The cluster as a board\<close>

definition slot_of :: "cluster \<Rightarrow> item_row \<Rightarrow> slot" where
  "slot_of S i =
     (if terminal (ri_status i) then Settled (ri_status i)
      else (case ri_task i of
              None \<Rightarrow> Open
            | Some k \<Rightarrow>
                (case cl_busy S k of
                   None \<Rightarrow> Open
                 | Some w \<Rightarrow> if dl_item (wk_delivery w) = ri_id i then Held k else Open)))"

definition board_of :: "cluster \<Rightarrow> board" where
  "board_of S = (\<lambda>iid. map_option (slot_of S) (item_by_id (cl_db S) iid))"

lemma finite_board: "finite (dom (board_of S))"
proof (rule finite_subset)
  show "dom (board_of S) \<subseteq> ri_id ` set (items (cl_db S))"
    by (auto simp: board_of_def dest!: item_by_id_mem)
qed simp

lemma slot_held: "slot_of S i = Held k \<Longrightarrow> cl_busy S k \<noteq> None"
  by (auto simp: slot_of_def split: if_splits option.splits)

lemma idle_holds_nothing: "cl_busy S k = None \<Longrightarrow> board_of S iid \<noteq> Some (Held k)"
  by (auto simp: board_of_def dest!: slot_held)

lemma board_idle:
  assumes "\<And>k. busy k = cl_busy S k \<or> busy k = None"
  shows "board_of (S\<lparr>cl_now := t, cl_busy := busy\<rparr>) = released (\<lambda>k. busy k = None) (board_of S)"
proof
  fix iid
  have "slot_of (S\<lparr>cl_now := t, cl_busy := busy\<rparr>) i =
      (case slot_of S i of Held k \<Rightarrow> if busy k = None then Open else slot_of S i | x \<Rightarrow> x)" for i
  proof (cases "ri_task i")
    case (Some k)
    with assms [of k] show ?thesis by (auto simp: slot_of_def split: option.split)
  qed (simp add: slot_of_def)
  then show "board_of (S\<lparr>cl_now := t, cl_busy := busy\<rparr>) iid = released (\<lambda>k. busy k = None) (board_of S) iid"
    by (auto simp: board_of_def released_def split: option.split slot.split)
qed

lemma board_same_items:
  "items s' = items (cl_db S) \<Longrightarrow> board_of (S\<lparr>cl_db := s'\<rparr>) = board_of S"
proof -
  have "slot_of (S\<lparr>cl_db := s'\<rparr>) = slot_of S" by (rule ext) (simp add: slot_of_def split: option.split)
  then show "items s' = items (cl_db S) \<Longrightarrow> ?thesis" by (simp add: board_of_def item_by_id_def)
qed

lemma busy_slot:
  assumes "cluster_inv S" and "cl_busy S k = Some w"
  obtains i where "item_by_id (cl_db S) (dl_item (wk_delivery w)) = Some i" "ri_status i = ItemRunning" "ri_task i = Some k"
    "\<exists>l. ri_lease i = Some l \<and> cl_now S < l" "board_of S (dl_item (wk_delivery w)) = Some (Held k)"
proof -
  from owned_item [OF assms] obtain i l where i: "i \<in> set (items (cl_db S))" "ri_id i = dl_item (wk_delivery w)"
    "ri_status i = ItemRunning" "ri_task i = Some k" "ri_lease i = Some l" "cl_now S < l" .
  have "distinct (map ri_id (items (cl_db S)))" using assms(1) by (simp add: cluster_inv_def)
  from item_by_id_unique [OF this i(1)] i assms(2) that show thesis
    by (auto simp: board_of_def slot_of_def terminal_def)
qed

text \<open>A commit settles the item of its task and touches no other.\<close>

lemma board_settle:
  assumes inv: "cluster_inv S" and busy: "cl_busy S k = Some w"
    and its: "items s' = update_where (\<lambda>i. ri_id i = dl_item (wk_delivery w)) f (items (cl_db S))"
    and f: "\<And>i. ri_id (f i) = ri_id i" "\<And>i. ri_status (f i) = st" and st: "st \<in> {ItemCompleted, ItemErrored}"
  shows "board_step (board_of S) (board_of (S\<lparr>cl_db := s', cl_busy := (cl_busy S)(k := None)\<rparr>))"
proof -
  let ?iid = "dl_item (wk_delivery w)" and ?S' = "S\<lparr>cl_db := s', cl_busy := (cl_busy S)(k := None)\<rparr>"
  from busy_slot [OF inv busy] obtain i where i: "item_by_id (cl_db S) ?iid = Some i" "board_of S ?iid = Some (Held k)" .
  have lookup: "item_by_id s' j = map_option (\<lambda>x. if ri_id x = ?iid then f x else x) (item_by_id (cl_db S) j)" for j
    by (rule item_by_id_update [OF f(1) its])
  have "board_of ?S' j = ((board_of S)(?iid \<mapsto> Settled st)) j" for j
  proof (cases "j = ?iid")
    case True
    have "terminal st" using st by (auto simp: terminal_def)
    with True i lookup [of j] item_by_id_mem [OF i(1)] show ?thesis by (simp add: board_of_def slot_of_def f)
  next
    case False
    have "slot_of ?S' x = slot_of S x" if "ri_id x = j" for x
      using that False busy by (auto simp: slot_of_def split: option.splits)
    with False lookup [of j] show ?thesis
      by (cases "item_by_id (cl_db S) j") (auto simp: board_of_def dest: item_by_id_mem)
  qed
  then have "board_of ?S' = (board_of S)(?iid \<mapsto> Settled st)" by blast
  with settle_item [of "board_of S", OF i(2) st] show ?thesis by simp
qed

text \<open>A claim takes an item that nobody at work holds.\<close>

lemma board_claim:
  assumes inv: "cluster_inv S" and free: "cl_busy S (task_id_of d) = None"
    and claim: "claim_run_item (cl_now S) (dl_item d) (task_id_of d) n (cl_db S) = (True, s')"
  shows "board_step (board_of S) (board_of (S\<lparr>cl_db := s', cl_busy := (cl_busy S)(task_id_of d \<mapsto>
      \<lparr>wk_delivery = d, wk_deadline = t\<rparr>)\<rparr>))"
proof -
  let ?k = "task_id_of d" and ?S' = "S\<lparr>cl_db := s', cl_busy := (cl_busy S)(task_id_of d \<mapsto> \<lparr>wk_delivery = d, wk_deadline = t\<rparr>)\<rparr>"
  let ?P = "\<lambda>i. ri_id i = dl_item d \<and> claimable (cl_now S) ?k i"
  note facts = claim_facts [OF claim]
  have dist: "distinct (map ri_id (items (cl_db S)))" using inv by (simp add: cluster_inv_def)
  from facts(1) obtain i where i: "i \<in> set (items (cl_db S))" "ri_id i = dl_item d" "claimable (cl_now S) ?k i" by blast
  have look: "item_by_id (cl_db S) (dl_item d) = Some i" using item_by_id_unique [OF dist i(1)] i(2) by simp
  have "slot_of S i = Open"
  proof (rule ccontr)
    assume "slot_of S i \<noteq> Open"
    moreover have "\<not> terminal (ri_status i)" using i(3) terminal_not_running by blast
    ultimately obtain k w where k: "ri_task i = Some k" "cl_busy S k = Some w" "dl_item (wk_delivery w) = dl_item d"
      using i(2) by (auto simp: slot_of_def split: option.splits if_splits)
    from busy_slot [OF inv k(2)] obtain i' where "item_by_id (cl_db S) (dl_item d) = Some i'"
      "ri_status i' = ItemRunning" "ri_task i' = Some k" "\<exists>l. ri_lease i' = Some l \<and> cl_now S < l" unfolding k(3) .
    with look i(3) k(2) free show False by (auto simp: claimable_def)
  qed
  with look have was: "board_of S (dl_item d) = Some Open" by (simp add: board_of_def)
  have lookup: "item_by_id s' j = map_option (\<lambda>x. if ?P x then claimed_row (cl_now S) ?k n x else x) (item_by_id (cl_db S) j)" for j
    by (rule item_by_id_update [OF _ facts(2)]) simp
  have "board_of ?S' j = ((board_of S)(dl_item d \<mapsto> Held ?k)) j" for j
  proof (cases "j = dl_item d")
    case True
    with lookup [of j] look i show ?thesis by (simp add: board_of_def slot_of_def terminal_def)
  next
    case False
    have "slot_of ?S' x = slot_of S x" if "ri_id x = j" for x
      using that False free by (auto simp: slot_of_def split: option.splits)
    with False lookup [of j] show ?thesis
      by (cases "item_by_id (cl_db S) j") (auto simp: board_of_def dest: item_by_id_mem)
  qed
  then have "board_of ?S' = (board_of S)(dl_item d \<mapsto> Held ?k)" by blast
  moreover have "\<forall>j. board_of S j \<noteq> Some (Held ?k)" using idle_holds_nothing [OF free] by blast
  ultimately show ?thesis using take_item [of "board_of S", OF was] by simp
qed

lemma board_fail:
  assumes inv: "cluster_inv S" and busy: "cl_busy S k = Some w"
  shows "board_step (board_of S) (board_of (S\<lparr>cl_db := commit_failure t exc (dl_item (wk_delivery w)) n (cl_db S),
      cl_busy := (cl_busy S)(k := None)\<rparr>))"
proof -
  from busy_slot [OF inv busy] obtain i where "item_by_id (cl_db S) (dl_item (wk_delivery w)) = Some i" "ri_status i = ItemRunning" .
  then have "items (commit_failure t exc (dl_item (wk_delivery w)) n (cl_db S)) =
      update_where (\<lambda>x. ri_id x = dl_item (wk_delivery w)) (errored_row t exc (n + 1)) (items (cl_db S))"
    by (simp add: commit_failure_facts terminal_def)
  from board_settle [OF inv busy this] show ?thesis by simp
qed

lemma step_refines:
  assumes "cluster_step E S S'" and inv: "cluster_inv S"
  shows "board_steps (board_of S) (board_of S')"
  using assms(1)
proof cases
  case (tick t)
  have "kill_late t (cl_busy S) k = cl_busy S k \<or> kill_late t (cl_busy S) k = None" for k
    by (auto simp: kill_late_def split: option.splits)
  from board_idle [OF this, of t] show ?thesis using released_steps [OF finite_board] by (simp add: tick(1))
next
  case (claim d s')
  show ?thesis unfolding claim(1) by (intro r_into_rtranclp board_claim [OF inv claim(2,3)])
next
  case (clear k w)
  then show ?thesis by (simp add: board_same_items)
next
  case (complete k w c v ec out rs s')
  from complete(5) show ?thesis
  proof (cases rule: commit_completed_facts)
    case (1 l cost rows)
    from board_settle [OF inv complete(2) 1(1), of ItemCompleted] show ?thesis
      unfolding complete(1) by (intro r_into_rtranclp) simp
  qed
next
  case (fail k w exc)
  show ?thesis unfolding fail(1) by (intro r_into_rtranclp board_fail [OF inv fail(2)])
next
  case (give_up k)
  have "S' = S\<lparr>cl_now := cl_now S, cl_busy := (cl_busy S)(k := None)\<rparr>" by (simp add: give_up)
  then have "board_of S' = released (\<lambda>k'. ((cl_busy S)(k := None)) k' = None) (board_of S)"
    by (elim ssubst) (rule board_idle, simp)
  then show ?thesis using released_steps [OF finite_board] by (simp only:)
next
  case (refresh rid)
  then show ?thesis by (simp add: board_same_items)
next
  case (callback positional rid outcome s')
  then show ?thesis using completion_facts [OF callback(2)] by (simp add: board_same_items)
qed

text \<open>On a cluster's board no task holds two items.\<close>

lemma board_exclusive: "exclusive (board_of S)"
proof -
  have "dl_item (wk_delivery (the (cl_busy S k))) = iid" if "board_of S iid = Some (Held k)" for iid k
    using that by (auto simp: board_of_def slot_of_def dest!: item_by_id_mem split: if_splits option.splits)
  then show ?thesis unfolding exclusive_def by metis
qed

section \<open>Properties\<close>


section \<open>Witnesses\<close>


end
