(* ===== verification/Gate_Command.thy ===== *)
theory Gate_Command imports Runs_Api begin

text \<open>
  The gate command of \<open>backend/app/cli/gate.py\<close> against the API that serves it: the route \<open>/api/comparisons/{id}/ci-report\<close>
  of \<open>backend/app/api/comparisons.py\<close> behind the authentication of \<open>backend/app/core/auth.py\<close>. The router's reading of a URL and the
  transport of the answer (\<open>raise_for_status\<close> and JSON) are arguments.
\<close>

section \<open>The route\<close>

definition header_value :: "string \<Rightarrow> (string \<times> string) list \<Rightarrow> string option" where
  "header_value name headers = map_option snd (find (\<lambda>h. py_lower (fst h) = py_lower name) headers)"

definition serve_ci_report ::
  "credential_env \<Rightarrow> (string \<Rightarrow> string option) \<Rightarrow> (real \<Rightarrow> string) \<Rightarrow> string \<Rightarrow> db \<Rightarrow>
   string \<Rightarrow> (string \<times> string) list \<Rightarrow> bool \<Rightarrow> string option \<Rightarrow> ci_payload response \<times> db" where
  "serve_ci_report E router repr_of generated_at s url headers fail_on_warn dashboard_url =
     (case router url of
        None \<Rightarrow> (http 404 ''Not Found'', s)
      | Some comparison_id \<Rightarrow>
          (case get_current_principal E (header_value ''X-EvalForge-Api-Key'' headers)
                  (header_value ''Authorization'' headers) s of
             (Inl e, s') \<Rightarrow> (Inl e, s')
           | (Inr p, s') \<Rightarrow>
               (get_ci_gate_report repr_of generated_at comparison_id dashboard_url fail_on_warn p s', s')))"

definition gate_against_api ::
  "credential_env \<Rightarrow> (string \<Rightarrow> string option) \<Rightarrow> (ci_payload response \<Rightarrow> ci_payload res) \<Rightarrow> (real \<Rightarrow> string) \<Rightarrow> string \<Rightarrow>
   (ci_payload \<Rightarrow> string) \<Rightarrow> gate_args \<Rightarrow> db \<Rightarrow> (nat \<times> (string \<times> string) list) res" where
  "gate_against_api E router deliver repr_of generated_at dumps args s =
     gate_main (\<lambda>url headers fail_on_warn dashboard_url.
         deliver (fst (serve_ci_report E router repr_of generated_at s url headers fail_on_warn dashboard_url)))
       dumps args"

text \<open>The transport turns every failure into an exception and delivers a payload as it was sent, if at all.\<close>

definition transport_ok :: "(ci_payload response \<Rightarrow> ci_payload res) \<Rightarrow> bool" where
  "transport_ok deliver \<longleftrightarrow>
     (\<forall>e. \<not> is_ok (deliver (Inl e))) \<and> (\<forall>p. is_ok (deliver (Inr p)) \<longrightarrow> deliver (Inr p) = Inr p)"

section \<open>Lemmas\<close>

lemma transport_Inr:
  assumes "transport_ok deliver" and "deliver r = Inr p"
  shows "r = Inr p"
proof -
  from assms(1) have fails: "\<not> is_ok (deliver (Inl e))" and keeps: "is_ok (deliver (Inr x)) \<longrightarrow> deliver (Inr x) = Inr x" for e x
    unfolding transport_ok_def by blast+
  from assms(2) have ok: "is_ok (deliver r)" by simp
  show ?thesis
  proof (cases r)
    case (Inl e)
    with ok fails [of e] show ?thesis by simp
  next
    case (Inr x)
    with ok keeps [of x] assms(2) show ?thesis by simp
  qed
qed

text \<open>The headers of the command carry its key, and no other credential.\<close>

lemma command_headers:
  defines "hs \<equiv> (\<lambda>key. map (\<lambda>k. (''X-EvalForge-Api-Key'', k)) (nonempty key))"
  shows "header_value ''Authorization'' (hs key) = None"
    and "supplied_key (header_value ''X-EvalForge-Api-Key'' (hs key)) None = supplied_key key None"
    and "get_current_principal E (header_value ''X-EvalForge-Api-Key'' (hs key)) None s = get_current_principal E key None s"
proof -
  have "py_lower ''X-EvalForge-Api-Key'' \<noteq> py_lower ''Authorization''" by code_simp
  then show "header_value ''Authorization'' (hs key) = None"
    by (auto simp: header_value_def hs_def nonempty_def split: option.split)
  show *: "supplied_key (header_value ''X-EvalForge-Api-Key'' (hs key)) None = supplied_key key None"
    by (auto simp: header_value_def hs_def nonempty_def supplied_key_def is_set_def bearer_token_def split: option.splits)
  then show "get_current_principal E (header_value ''X-EvalForge-Api-Key'' (hs key)) None s = get_current_principal E key None s"
    by (simp add: get_current_principal_def)
qed

lemma served_report:
  assumes "get_ci_gate_report repr_of ts cid url fow p s = Inr payload"
  obtains c r where "tenant_comparison s (p_org p) cid = Some c" "report_of s cid = Some r"
    "build_ci_gate_report repr_of ts c r url fow = Inr payload"
  using assms
  by (auto simp: get_ci_gate_report_def and_then_Inr_iff found_or_404_def unhandled_def http_def split: option.splits sum.splits)

lemma built_fields:
  assumes "build_ci_gate_report repr_of ts c r url fow = Inr payload"
  shows "ci_should_fail payload = should_fail_ci (rp_verdict r) fow"
  using assms by (auto simp: build_ci_gate_report_def and_then_Inr_iff Let_def)

text \<open>Authentication leaves what a comparison stored.\<close>

lemma principal_keeps_reports:
  assumes "get_current_principal E key auth s = (r, s')"
  shows "comparisons s' = comparisons s" and "reports s' = reports s"
  using assms
  by (auto simp: get_current_principal_def authenticate_opaque_token_def Let_def
    split: sum.splits bool.splits option.splits if_splits prod.splits)

text \<open>A command whose key is served, with the report the API builds for it.\<close>

lemma command_run:
  assumes "py_strip (ga_base_url args) \<noteq> []" and "router (report_url args) = Some cid"
    and "\<And>payload. deliver (Inr payload) = Inr payload"
    and "get_current_principal E (ga_api_key args) None s = (Inr p, s')"
    and "tenant_comparison s' (p_org p) cid = Some c" and "report_of s' cid = Some r"
    and "\<And>url. \<exists>payload. build_ci_gate_report repr_of ts c r url (ga_fail_on_warn args) = Inr payload \<and> ci_should_fail payload = f"
  shows "\<exists>files. gate_against_api E router deliver repr_of ts dumps args s = Inr (if f then 1 else 0, files)"
proof -
  define dash where "dash = (case nonempty (ga_dashboard_url args) of [] \<Rightarrow> None | u # _ \<Rightarrow> Some u)"
  from assms(7) [of dash] obtain payload where
    b: "build_ci_gate_report repr_of ts c r dash (ga_fail_on_warn args) = Inr payload" "ci_should_fail payload = f" by blast
  have "get_ci_gate_report repr_of ts cid dash (ga_fail_on_warn args) p s' = Inr payload"
    using assms(5,6) b(1) by (simp add: get_ci_gate_report_def found_or_404_def unhandled_def)
  then have "fst (serve_ci_report E router repr_of ts s (report_url args)
      (map (\<lambda>key. (''X-EvalForge-Api-Key'', key)) (nonempty (ga_api_key args))) (ga_fail_on_warn args) dash) = Inr payload"
    using assms(2,4) by (simp add: serve_ci_report_def command_headers)
  then show ?thesis
    using assms(1,3) b(2) unfolding gate_against_api_def gate_main_def fetch_ci_gate_report_def dash_def Let_def by simp
qed

section \<open>Properties\<close>


text \<open>C25: From comparison to exit code: once an evaluator's request has compared two runs, under an identifier not used before, the gate
  command run with any key of that organisation returns 1 exactly when the worst verdict of the comparison's own rules on the
  metrics it stored is a failure, or a warning under \<open>--fail-on-warn\<close>, and 0 otherwise.\<close>

theorem gate_command_follows_comparison:
  assumes "rng_ok (ce_rng C)" and "create_comparison C b c gid p s = (Inr (cmp, rep), s1)"
    and "cm_id cmp \<notin> cm_id ` set (comparisons s) \<union> rp_comparison ` set (reports s)"
    and "get_current_principal E (ga_api_key args) None s1 = (Inr q, s2)" and "p_org q = p_org p"
    and "router (report_url args) = Some (cm_id cmp)" and "py_strip (ga_base_url args) \<noteq> []"
    and "\<And>payload. deliver (Inr payload) = Inr payload"
  shows "\<exists>g rs new files w. choose_gate_rules C s (p_org p) gid = Inr (g, map rule_json rs, new) \<and>
    w = worst (map (spec_of (rp_metrics rep)) rs) \<and>
    gate_against_api E router deliver repr_of ts dumps args s1 =
      Inr (if w = Fail \<or> ga_fail_on_warn args \<and> w = Warn then 1 else 0, files)"
proof -
  from assms(2) have "compute_comparison C b c gid (p_org p) s = (Inr (cmp, rep), s1)"
    by (auto simp: create_comparison_def value_error_as_def http_def split: sum.splits prod.splits if_splits)
  then show ?thesis
  proof (cases rule: compute_comparison_Inr)
    case (1 gate_id rules new_rules metrics v reasons)
    from gate_verdict [OF assms(1) chosen_rules_valid [OF 1(2), of "ce_repr C"]] 1(3,4)
    obtain rs where rs: "rules = map rule_json rs" "list_all rule_ok rs"
      "v = verdict_name (worst (map (spec_of metrics) rs))"
      "reasons = map (reason_of metrics) (filter (\<lambda>x. spec_of metrics x \<noteq> Pass) rs)"
      by (metis prod.inject sum.inject(2))
    let ?w = "worst (map (spec_of metrics) rs)"
    have stored: "comparisons s2 = comparisons s @ [cmp]" "reports s2 = reports s @ [rep]"
      using principal_keeps_reports [OF assms(4)] 1(13) by simp_all
    have none: "find (\<lambda>x. cm_id x = cm_id cmp \<and> cm_org x = p_org p) (comparisons s) = None"
      "find (\<lambda>x. rp_comparison x = cm_id cmp) (reports s) = None"
      using assms(3) by (simp_all add: find_None_iff image_iff) metis+
    have found: "tenant_comparison s2 (p_org q) (cm_id cmp) = Some cmp" "report_of s2 (cm_id cmp) = Some rep"
      using assms(5) 1(8,9) none by (simp_all add: tenant_comparison_def report_of_def stored find_append)
    have "\<exists>payload. build_ci_gate_report repr_of ts cmp rep url (ga_fail_on_warn args) = Inr payload \<and>
        ci_should_fail payload = (?w = Fail \<or> ga_fail_on_warn args \<and> ?w = Warn)" for url
      by (rule ci_payload_built [OF assms(1) 1(3) rs(2), of rep repr_of ts cmp url "ga_fail_on_warn args"])
        (use 1(5-7) rs(3,4) in auto)
    note run = command_run [where router = router and deliver = deliver and dumps = dumps and repr_of = repr_of and ts = ts,
      OF assms(7,6,8,4) found this]
    from run 1(2,5) rs(1) show ?thesis by metis
  qed
qed

section \<open>Witnesses\<close>

definition house_runs :: db where
  "house_runs = two_runs\<lparr>runs := map (\<lambda>r. r\<lparr>er_org := DEFAULT_ORGANIZATION_ID\<rparr>) (runs two_runs)\<rparr>"

lemma house_comparison:
  "\<exists>cmp rep s1. create_comparison sample_compare_env ''a'' ''b'' None (unowned_principal Development) house_runs =
     (Inr (cmp, rep), s1)"
proof -
  have "check_runs house_runs DEFAULT_ORGANIZATION_ID ''a'' ''b'' = Inr ()"
    by (simp add: check_runs_def tenant_run_def version_by_id_def house_runs_def two_runs_def finished_run_def finished_def
      case_ids_of_def finished_item_def)
  moreover obtain g new where
    "choose_gate_rules sample_compare_env house_runs DEFAULT_ORGANIZATION_ID None = Inr (g, DEFAULT_GATE_RULES, new)"
    using default_chosen by blast
  moreover have "rng_ok (ce_rng sample_compare_env)" by (simp add: sample_compare_env_def cycle_rng_ok)
  ultimately obtain cmp rep s1 where
    "compute_comparison sample_compare_env ''a'' ''b'' None DEFAULT_ORGANIZATION_ID house_runs = (Inr (cmp, rep), s1)"
    using compute_comparison_total by meson
  then show ?thesis
    by (simp add: create_comparison_def unowned_principal_def require_role_def value_error_as_def)
qed

lemma house_principal:
  "get_current_principal plain_credentials None None s = (Inr (unowned_principal Development), s)"
  by (simp add: get_current_principal_def supplied_key_def bearer_token_def is_set_def plain_credentials_def default_settings_def)

definition house_args :: "string \<Rightarrow> gate_args" where
  "house_args cid = sample_args\<lparr>ga_comparison_id := cid\<rparr>"

definition direct :: "ci_payload response \<Rightarrow> ci_payload res" where
  "direct r = (case r of Inl _ \<Rightarrow> Inl (Exn HttpStatusErr []) | Inr p \<Rightarrow> Inr p)"

text \<open>A URL read by taking off what the command puts around the identifier.\<close>

definition read_url :: "string \<Rightarrow> string option" where
  "read_url url = (let n = length ''http://h/api/comparisons/'' in Some (take (length url - n - length ''/ci-report'') (drop n url)))"

lemma house_url: "read_url (report_url (house_args cid)) = Some cid" "py_strip (ga_base_url (house_args cid)) \<noteq> []"
proof -
  have "py_rstrip_by (\<lambda>c. c = CHR ''/'') ''http://h'' = ''http://h''" "py_strip ''http://h'' \<noteq> []" by code_simp+
  then show "read_url (report_url (house_args cid)) = Some cid" "py_strip (ga_base_url (house_args cid)) \<noteq> []"
    by (simp_all add: read_url_def report_url_def house_args_def sample_args_def Let_def)
qed

lemma house_keyless: "ga_api_key (house_args cid) = None"
  by (simp add: house_args_def sample_args_def)

theorem gate_command_follows_comparison_witness:
  "\<exists>cmp rep s1 code files. create_comparison sample_compare_env ''a'' ''b'' None (unowned_principal Development) house_runs =
     (Inr (cmp, rep), s1) \<and>
   gate_against_api plain_credentials read_url direct plain_repr [] (\<lambda>_. []) (house_args (cm_id cmp)) s1 = Inr (code, files) \<and> code \<le> 1"
proof -
  obtain cmp rep s1 where c: "create_comparison sample_compare_env ''a'' ''b'' None (unowned_principal Development) house_runs =
     (Inr (cmp, rep), s1)" using house_comparison by blast
  have fresh: "cm_id cmp \<notin> cm_id ` set (comparisons house_runs) \<union> rp_comparison ` set (reports house_runs)"
    by (simp add: house_runs_def two_runs_def empty_db_def)
  have rng: "rng_ok (ce_rng sample_compare_env)" by (simp add: sample_compare_env_def cycle_rng_ok)
  have who: "get_current_principal plain_credentials (ga_api_key (house_args (cm_id cmp))) None s1 =
     (Inr (unowned_principal Development), s1)" by (simp add: house_keyless house_principal)
  have direct: "direct (Inr x) = Inr x" for x by (simp add: direct_def)
  note run = gate_command_follows_comparison [where router = read_url and deliver = direct, OF rng c fresh who refl house_url direct]
  from run [of plain_repr "[]" "\<lambda>_. []"] c show ?thesis by fastforce
qed

definition failed_comparison :: db where
  "failed_comparison = empty_db\<lparr>
     comparisons := [sample_comparison\<lparr>cm_org := DEFAULT_ORGANIZATION_ID\<rparr>], reports := [sample_report [] ''fail'' []]\<rparr>"

lemma direct_ok: "transport_ok direct"
  by (simp add: transport_ok_def direct_def)


end
