(* ===== verification/Read_Models.thy ===== *)
theory Read_Models imports Runs_Api Request_Schemas begin

text \<open>
  The response bodies of the API, \<open>backend/app/schemas\<close>: which fields of a row each route sends, as JSON in the declared
  order, with \<open>build_comparison_response\<close> of \<open>api/comparisons.py\<close> and the rows of \<open>list_run_items\<close>. The text of a time is the
  argument \<open>iso_of\<close>; the identifiers of results and traces, which no row here holds, are the arguments \<open>result_id\<close> and \<open>trace_id\<close>.
\<close>

section \<open>Parts\<close>

definition opt_json :: "('a \<Rightarrow> json) \<Rightarrow> 'a option \<Rightarrow> json" where
  "opt_json f v = (case v of None \<Rightarrow> JNull | Some x \<Rightarrow> f x)"

definition time_json :: "(int \<Rightarrow> string) \<Rightarrow> int option \<Rightarrow> json" where
  "time_json iso_of = opt_json (\<lambda>t. JStr (iso_of t))"

fun auth_type_name :: "auth_type \<Rightarrow> string" where
  "auth_type_name SystemApiKey = ''system_api_key''"
| "auth_type_name Development = ''development''"
| "auth_type_name SessionToken = ''session''"
| "auth_type_name ApiKeyToken = ''personal_api_key''"

section \<open>Users and organizations\<close>

definition user_json :: "(int \<Rightarrow> string) \<Rightarrow> user_row \<Rightarrow> json" where
  "user_json iso_of u = (let r = user_read_of u in
     JObj [(''id'', JStr (ur_id r)), (''email'', JStr (ur_email r)), (''display_name'', JStr (ur_display_name r)),
       (''status'', JStr (ur_status r)), (''created_at'', JStr (iso_of (ur_created_at r)))])"

definition organization_json :: "(int \<Rightarrow> string) \<Rightarrow> org_row \<Rightarrow> json" where
  "organization_json iso_of r =
     JObj [(''id'', JStr (o_id r)), (''name'', JStr (o_name r)), (''slug'', JStr (o_slug r)), (''created_at'', JStr (iso_of (o_created r)))]"

definition organization_membership_json :: "(int \<Rightarrow> string) \<Rightarrow> org_row \<times> role \<Rightarrow> json" where
  "organization_membership_json iso_of r =
     JObj [(''organization'', organization_json iso_of (fst r)), (''role'', JStr (role_name (snd r)))]"

definition principal_fields :: "(int \<Rightarrow> string) \<Rightarrow> user_row option \<Rightarrow> org_row \<Rightarrow> role \<Rightarrow> auth_type \<Rightarrow> dict" where
  "principal_fields iso_of user org r kind =
     [(''user'', opt_json (user_json iso_of) user), (''organization'', organization_json iso_of org), (''role'', JStr (role_name r)),
      (''authentication_type'', JStr (auth_type_name kind))]"

definition principal_json :: "(int \<Rightarrow> string) \<Rightarrow> principal_read \<Rightarrow> json" where
  "principal_json iso_of r = JObj (principal_fields iso_of (pr_user r) (pr_org r) (pr_role r) (pr_auth r))"

definition token_json :: "(int \<Rightarrow> string) \<Rightarrow> token_response \<Rightarrow> json" where
  "token_json iso_of r =
     JObj (principal_fields iso_of (Some (tk_user r)) (tk_org r) (tk_role r) SessionToken @
       [(''access_token'', JStr (tk_access_token r)), (''token_type'', JStr ''bearer''),
        (''expires_at'', JStr (iso_of (tk_expires_at r)))])"

definition api_key_fields :: "(int \<Rightarrow> string) \<Rightarrow> api_key_row \<Rightarrow> dict" where
  "api_key_fields iso_of k = (let r = api_key_read_of k in
     [(''id'', JStr (kr_id r)), (''name'', JStr (kr_name r)), (''key_prefix'', JStr (kr_prefix r)),
      (''expires_at'', time_json iso_of (kr_expires_at r)), (''last_used_at'', time_json iso_of (kr_last_used_at r)),
      (''revoked_at'', time_json iso_of (kr_revoked_at r)), (''created_at'', JStr (iso_of (kr_created_at r)))])"

definition api_key_created_json :: "(int \<Rightarrow> string) \<Rightarrow> api_key_row \<times> string \<Rightarrow> json" where
  "api_key_created_json iso_of r = JObj (api_key_fields iso_of (fst r) @ [(''api_key'', JStr (snd r))])"

definition member_json :: "(int \<Rightarrow> string) \<Rightarrow> user_row \<times> role \<times> int \<Rightarrow> json" where
  "member_json iso_of r = (case r of (u, r0, joined) \<Rightarrow>
     JObj [(''user'', user_json iso_of u), (''role'', JStr (role_name r0)), (''joined_at'', JStr (iso_of joined))])"

section \<open>The registry\<close>

definition app_json :: "(int \<Rightarrow> string) \<Rightarrow> app_row \<Rightarrow> json" where
  "app_json iso_of r =
     JObj [(''id'', JStr (ap_id r)), (''name'', JStr (ap_name r)), (''description'', JStr (ap_description r)),
       (''created_at'', JStr (iso_of (ap_created r)))]"

definition app_version_json :: "(int \<Rightarrow> string) \<Rightarrow> version_row \<Rightarrow> json" where
  "app_version_json iso_of r =
     JObj [(''id'', JStr (av_id r)), (''app_id'', JStr (av_app r)), (''name'', JStr (av_name r)),
       (''adapter_module'', JStr (av_adapter r)), (''config'', JObj (av_config r)), (''created_at'', JStr (iso_of (av_created r)))]"

definition eval_suite_json :: "(int \<Rightarrow> string) \<Rightarrow> suite_row \<Rightarrow> json" where
  "eval_suite_json iso_of r =
     JObj [(''id'', JStr (es_id r)), (''app_id'', JStr (es_app r)), (''name'', JStr (es_name r)),
       (''created_at'', JStr (iso_of (es_created r)))]"

definition eval_case_import_json :: "case_row list \<times> string list \<Rightarrow> json" where
  "eval_case_import_json r =
     JObj [(''imported'', JInt (int (length (fst r)))), (''errors'', JList (map JStr (snd r)))]"

definition eval_case_json :: "(int \<Rightarrow> string) \<Rightarrow> case_row \<Rightarrow> json" where
  "eval_case_json iso_of r =
     JObj [(''id'', JStr (ec_id r)), (''external_id'', opt_json JStr (ec_external r)), (''payload'', JObj (ec_payload r)),
       (''created_at'', JStr (iso_of (ec_created r)))]"

definition eval_suite_summary_json :: "nat \<times> (string \<times> nat) list \<Rightarrow> json" where
  "eval_suite_summary_json r =
     JObj [(''case_count'', JInt (int (fst r))),
       (''tag_distribution'', JObj (map (\<lambda>(t, n). (t, JInt (int n))) (snd r)))]"

definition evaluator_config_json :: "(int \<Rightarrow> string) \<Rightarrow> evaluator_config_row \<Rightarrow> json" where
  "evaluator_config_json iso_of r =
     JObj [(''id'', JStr (vc_id r)), (''name'', JStr (vc_name r)), (''config'', JObj (vc_config r)),
       (''created_at'', JStr (iso_of (vc_created r)))]"

definition gate_rule_json :: "(int \<Rightarrow> string) \<Rightarrow> gate_rule_row \<Rightarrow> json" where
  "gate_rule_json iso_of r =
     JObj [(''id'', JStr (gr_id r)), (''name'', JStr (gr_name r)), (''rules'', JObj (gr_rules r)),
       (''created_at'', JStr (iso_of (gr_created r)))]"

text \<open>A capability keeps the declared keys; three of them have defaults.\<close>

definition evaluator_capability_json :: "dict \<Rightarrow> json" where
  "evaluator_capability_json d =
     JObj (map (\<lambda>k. (k, dict_get_or k JNull d)) [''name'', ''category'', ''deterministic'', ''available'', ''missing_modules''] @
       [(''dependency_group'', dict_get_or ''dependency_group'' JNull d),
        (''deprecated'', dict_get_or ''deprecated'' (JBool False) d), (''alias_for'', dict_get_or ''alias_for'' JNull d)])"

section \<open>Runs\<close>

definition run_json :: "(int \<Rightarrow> string) \<Rightarrow> run_row \<Rightarrow> json" where
  "run_json iso_of r =
     JObj [(''id'', JStr (er_id r)), (''app_version_id'', JStr (er_version r)), (''suite_id'', JStr (er_suite r)),
       (''evaluator_config_id'', JStr (er_config r)), (''status'', JStr (run_status_text (er_status r))),
       (''case_count'', JInt (int (er_case_count r))), (''case_completed'', JInt (int (er_case_completed r))),
       (''case_errored'', JInt (int (er_case_errored r))), (''started_at'', time_json iso_of (er_started r)),
       (''completed_at'', time_json iso_of (er_completed_at r)), (''created_at'', JStr (iso_of (er_created r)))]"

definition eval_result_json :: "(int \<Rightarrow> string) \<Rightarrow> (result_row \<Rightarrow> string) \<Rightarrow> result_row \<Rightarrow> json" where
  "eval_result_json iso_of result_id r =
     JObj [(''id'', JStr (result_id r)), (''evaluator_name'', JStr (rs_name r)),
       (''score'', opt_json (\<lambda>x. JFloat (Fin x)) (rs_score r)), (''passed'', opt_json JBool (rs_passed r)),
       (''errored'', JBool (rs_errored r)), (''skipped'', JBool (rs_skipped r)),
       (''error_message'', opt_json JStr (rs_error r)), (''details'', JObj (rs_details r)),
       (''created_at'', JStr (iso_of (rs_created r)))]"

definition run_item_json :: "(int \<Rightarrow> string) \<Rightarrow> (result_row \<Rightarrow> string) \<Rightarrow> item_row \<times> result_row list \<Rightarrow> json" where
  "run_item_json iso_of result_id x = (case x of (i, rs) \<Rightarrow>
     JObj [(''id'', JStr (ri_id i)), (''run_id'', JStr (ri_run i)), (''case_id'', JStr (ri_case i)),
       (''status'', JStr (item_status_name (ri_status i))), (''attempt_count'', JInt (int (ri_attempts i))),
       (''recorded_latency_ms'', opt_json JInt (ri_latency i)),
       (''recorded_cost_usd'', opt_json (\<lambda>x. JFloat (Fin x)) (ri_cost i)),
       (''error_message'', opt_json JStr (ri_error i)), (''started_at'', time_json iso_of (ri_started i)),
       (''completed_at'', time_json iso_of (ri_completed i)), (''results'', JList (map (eval_result_json iso_of result_id) rs))])"

definition trace_json :: "(int \<Rightarrow> string) \<Rightarrow> (trace_row \<Rightarrow> string) \<Rightarrow> trace_row \<Rightarrow> json" where
  "trace_json iso_of trace_id r =
     JObj [(''id'', JStr (trace_id r)), (''run_item_id'', JStr (tr_item r)), (''payload'', JObj (tr_payload r)),
       (''created_at'', JStr (iso_of (tr_created r)))]"

section \<open>Comparisons\<close>

definition regression_report_json :: "(int \<Rightarrow> string) \<Rightarrow> report_row \<Rightarrow> json" where
  "regression_report_json iso_of r =
     JObj [(''id'', JStr (rp_id r)), (''comparison_id'', JStr (rp_comparison r)), (''metrics'', JObj (rp_metrics r)),
       (''gate_verdict'', JStr (rp_verdict r)), (''gate_reasons'', JList (map JObj (rp_reasons r))),
       (''created_at'', JStr (iso_of (rp_created r)))]"

definition build_comparison_response :: "(int \<Rightarrow> string) \<Rightarrow> comparison_row \<times> report_row \<Rightarrow> json" where
  "build_comparison_response iso_of x = (case x of (c, r) \<Rightarrow>
     JObj [(''id'', JStr (cm_id c)), (''baseline_run_id'', JStr (cm_baseline c)), (''candidate_run_id'', JStr (cm_candidate c)),
       (''gate_rules_id'', JStr (cm_gate c)), (''status'', JStr (cm_status c)), (''created_at'', JStr (iso_of (cm_created c))),
       (''report'', regression_report_json iso_of r)])"

definition gate_decision_json :: "string \<times> dict list \<Rightarrow> json" where
  "gate_decision_json x = JObj [(''verdict'', JStr (fst x)), (''reasons'', JList (map JObj (snd x)))]"

definition ci_gate_metric_json :: "metric_row \<Rightarrow> json" where
  "ci_gate_metric_json r =
     JObj [(''name'', JStr (mr_name r)), (''baseline'', JFloat (mr_baseline r)), (''candidate'', JFloat (mr_candidate r)),
       (''delta'', JFloat (mr_delta r)), (''delta_ci'', JList (map JFloat (mr_delta_ci r))), (''status'', mr_status r)]"

definition ci_gate_report_json :: "ci_payload \<Rightarrow> json" where
  "ci_gate_report_json r =
     JObj [(''comparison_id'', JStr (ci_comparison_id r)), (''baseline_run_id'', JStr (ci_baseline_run_id r)),
       (''candidate_run_id'', JStr (ci_candidate_run_id r)), (''verdict'', JStr (ci_verdict r)),
       (''should_fail_ci'', JBool (ci_should_fail r)), (''dashboard_url'', opt_json JStr (ci_dashboard_url r)),
       (''generated_at'', JStr (ci_generated_at r)), (''metrics'', JList (map ci_gate_metric_json (ci_metrics r))),
       (''gate_reasons'', JList (map JObj (ci_gate_reasons r))), (''markdown'', JStr (ci_markdown r))]"

section \<open>Lemmas\<close>

text \<open>A body does not tell a password or a token hash.\<close>

lemma bodies_hide_secrets:
  "user_json iso_of (u\<lparr>u_password_hash := h, u_failed := n, u_locked_until := l\<rparr>) = user_json iso_of u"
  "token_json iso_of (t\<lparr>tk_user := tk_user t\<lparr>u_password_hash := h, u_failed := n, u_locked_until := l\<rparr>\<rparr>) = token_json iso_of t"
  "api_key_fields iso_of (k\<lparr>ak_token_hash := h'\<rparr>) = api_key_fields iso_of k"
proof -
  show user: "user_json iso_of (u\<lparr>u_password_hash := h, u_failed := n, u_locked_until := l\<rparr>) = user_json iso_of u" for u
    by (simp add: user_json_def user_read_of_def)
  then show "token_json iso_of (t\<lparr>tk_user := tk_user t\<lparr>u_password_hash := h, u_failed := n, u_locked_until := l\<rparr>\<rparr>) = token_json iso_of t"
    by (simp add: token_json_def principal_fields_def opt_json_def)
  show "api_key_fields iso_of (k\<lparr>ak_token_hash := h'\<rparr>) = api_key_fields iso_of k"
    by (simp add: api_key_fields_def api_key_read_of_def)
qed

text \<open>The results of one item, picked from the sorted results of its page.\<close>

lemma page_results:
  assumes "ri_id i \<in> ids"
  shows "filter (\<lambda>r. rs_item r = ri_id i) (sort_key rs_created (filter (\<lambda>r. rs_item r \<in> ids) rs)) =
    sort_key rs_created (filter (\<lambda>r. rs_item r = ri_id i) rs)"
proof -
  have "filter (\<lambda>r. rs_item r = ri_id i) (filter (\<lambda>r. rs_item r \<in> ids) rs) = filter (\<lambda>r. rs_item r = ri_id i) rs"
    using assms by (auto intro: filter_cong)
  then show ?thesis by (simp only: filter_sort)
qed

definition items_with_results :: "db \<Rightarrow> string \<Rightarrow> (item_row \<times> result_row list) list" where
  "items_with_results s run_id =
     map (\<lambda>i. (i, sort_key rs_created (filter (\<lambda>r. rs_item r = ri_id i) (results s)))) (run_items s run_id)"

lemma item_page:
  assumes "tenant_run s (p_org p) run_id = Some r"
  shows "list_run_items run_id limit offset p s = Inr (take limit (drop offset (items_with_results s run_id)))"
  using assms
  by (simp add: list_run_items_def org_run_def found_or_404_def items_with_results_def page_results take_map drop_map Let_def
    cong: map_cong)

text \<open>What a client reads of the body of a case to import it again.\<close>

definition exported_case :: "json \<Rightarrow> string option \<times> dict" where
  "exported_case j = (case j of
     JObj d \<Rightarrow>
       ((case dict_get ''external_id'' d of Some (JStr x) \<Rightarrow> Some x | _ \<Rightarrow> None),
        (case dict_get ''payload'' d of Some (JObj p) \<Rightarrow> p | _ \<Rightarrow> []))
   | _ \<Rightarrow> (None, []))"

lemma exported_case_body: "exported_case (eval_case_json iso_of c) = (ec_external c, ec_payload c)"
  by (simp add: exported_case_def eval_case_json_def opt_json_def split: option.split)

text \<open>Rows that an import made pass any other import.\<close>

definition importable :: "string option \<times> dict \<Rightarrow> bool" where
  "importable x \<longleftrightarrow> dict_get ''input'' (snd x) \<noteq> None \<and> \<not> (case fst x of None \<Rightarrow> False | Some i \<Rightarrow> 255 < length i)"

lemma imported_importable:
  "import_rows E index imported cases = Inr (rows, errors) \<Longrightarrow> list_all (\<lambda>c. importable (ec_external c, ec_payload c)) rows"
  by (induction E index imported cases arbitrary: rows errors rule: import_rows.induct)
    (auto simp: and_then_Inr_iff importable_def split: if_splits)

lemma import_all:
  "list_all importable cases \<Longrightarrow> \<exists>rows. import_rows E index imported cases = Inr (rows, []) \<and>
     map (\<lambda>c. (ec_external c, ec_payload c)) rows = cases"
proof (induction cases arbitrary: index imported)
  case (Cons x cases)
  obtain external_id payload where x: "x = (external_id, payload)" by fastforce
  from Cons obtain rows where "import_rows E (Suc index) (Suc imported) cases = Inr (rows, [])"
    "map (\<lambda>c. (ec_external c, ec_payload c)) rows = cases" by fastforce
  with Cons.prems show ?case by (auto simp: x importable_def)
qed simp

section \<open>Properties\<close>

text \<open>The pages of a run's items, as long as they are asked for, list every item of the run once, by case, each with all of its
  own results in the order of their creation.\<close>

theorem item_pages_complete:
  assumes "tenant_run s (p_org p) run_id = Some r" and "length (run_items s run_id) \<le> n * m"
  shows "\<exists>pages. map_res (\<lambda>k. list_run_items run_id n (n * k) p s) [0..<m] = Inr pages \<and>
    concat pages = items_with_results s run_id"
proof -
  have "map_res (\<lambda>k. list_run_items run_id n (n * k) p s) [0..<m] =
      Inr (map (\<lambda>k. take n (drop (n * k) (items_with_results s run_id))) [0..<m])"
    by (rule map_res_ok) (simp add: item_page [OF assms(1)])
  moreover have "concat (map (\<lambda>k. take n (drop (n * k) (items_with_results s run_id))) [0..<m]) = items_with_results s run_id"
    using assms(2) by (simp add: concat_pages items_with_results_def)
  ultimately show ?thesis by blast
qed


text \<open>The evaluators that the API lists as available are exactly those a configuration can use: a configuration with one
  registered evaluator validates exactly when the listed body of that evaluator says so.\<close>

theorem listed_available_iff_accepted:
  assumes "name \<in> set (map fst EVALUATOR_REGISTRY)"
  shows "is_ok (validate_evaluator_config show_float installed [(''evaluators'', JList [JObj [(''name'', JStr name)]])]) \<longleftrightarrow>
    evaluator_capability_json (evaluator_capability installed name) \<in> set (map evaluator_capability_json (evaluator_capabilities installed)) \<and>
    dict_get ''available'' (evaluator_capability installed name) = Some (JBool True)"
proof -
  have stripped: "py_strip name = name" "name \<noteq> []" using assms by (auto simp: EVALUATOR_REGISTRY_def, code_simp+)
  have "\<forall>x \<in> set EVALUATOR_METADATA. dict_get ''available'' (snd x) = None" by (simp add: EVALUATOR_METADATA_def)
  then have unreported: "dict_get ''available'' (dict_get_or name [] EVALUATOR_METADATA) = None"
    by (auto simp: dict_get_or_def dest!: map_of_SomeD split: option.split)
  have listed: "evaluator_capability installed name \<in> set (evaluator_capabilities installed)"
    using assms by (auto simp: evaluator_capabilities_def)
  have "is_ok (validate_evaluator_config show_float installed [(''evaluators'', JList [JObj [(''name'', JStr name)]])]) \<longleftrightarrow>
      missing_of (evaluator_capability installed name) = []"
    using assms stripped capability_lookup [OF assms, of installed]
    by (simp add: validate_evaluator_config_def check_spec_def Let_def dict_get_or_def)
  moreover have "dict_get ''available'' (evaluator_capability installed name) = Some (JBool True) \<longleftrightarrow>
      missing_of (evaluator_capability installed name) = []"
    unfolding missing_of_capability by (simp add: evaluator_capability_def Let_def map_add_def unreported)
  ultimately show ?thesis using listed by auto
qed

section \<open>Witnesses\<close>


theorem item_pages_complete_witness:
  "\<exists>pages. map_res (\<lambda>k. list_run_items ''a'' 1 (1 * k) sample_principal
       (two_runs\<lparr>runs := [finished_run ''a''\<lparr>er_org := ''org''\<rparr>]\<rparr>)) [0..<1] = Inr pages \<and>
     concat pages = items_with_results (two_runs\<lparr>runs := [finished_run ''a''\<lparr>er_org := ''org''\<rparr>]\<rparr>) ''a''"
proof -
  let ?s = "two_runs\<lparr>runs := [finished_run ''a''\<lparr>er_org := ''org''\<rparr>]\<rparr>"
  have run: "tenant_run ?s (p_org sample_principal) ''a'' = Some (finished_run ''a''\<lparr>er_org := ''org''\<rparr>)"
    by (simp add: tenant_run_def finished_run_def sample_principal_def)
  have len: "length (run_items ?s ''a'') \<le> 1 * 1"
    by (simp add: run_items_def two_runs_def finished_item_def)
  from item_pages_complete [OF run len] show ?thesis .
qed

end
