(* ===== verification/Log_Setup.thy ===== *)
theory Log_Setup imports Application_Shell begin

text \<open>
  The set-up of logging in \<open>backend/app/core/logging.py\<close>, with what \<open>logging\<close> makes of a record: the level that applies to a
  logger, the root's handlers, and the handler of last resort when there is none. It shows what becomes of the line that the
  middleware of \<open>main.py\<close> logs for each request.
\<close>

section \<open>Loggers\<close>

text \<open>How a handler writes a record: as a JSON line, as a readable line, or by the handler of last resort.\<close>

datatype log_format = StructuredLine | PlainLine | LastResort

record log_setup =
  ls_root :: int
  ls_handlers :: "log_format list"
  ls_levels :: "(string \<times> int) list"

text \<open>A process before any set-up: the root logger has level \<open>WARNING\<close> and no handler.\<close>

definition process_start :: log_setup where
  "process_start = \<lparr>ls_root = 30, ls_handlers = [], ls_levels = []\<rparr>"

text \<open>The level of the nearest ancestor that has one.\<close>

definition effective_level :: "log_setup \<Rightarrow> string \<Rightarrow> int" where
  "effective_level L name =
     (case filter (\<lambda>(n, l). l \<noteq> 0 \<and> (n = name \<or> prefix (n @ ''.'') name)) (ls_levels L) of
        [] \<Rightarrow> ls_root L
      | cs \<Rightarrow> snd (last (sort_key (\<lambda>(n, l). length n) cs)))"

definition emitted :: "log_setup \<Rightarrow> string \<Rightarrow> int \<Rightarrow> log_format list" where
  "emitted L name level =
     (if level < effective_level L name then []
      else if ls_handlers L = [] then (if 30 \<le> level then [LastResort] else [])
      else ls_handlers L)"

section \<open>Set-up\<close>

text \<open>The attributes of \<open>logging\<close> in capitals: the levels, and two others, which \<open>setLevel\<close> rejects. A character outside ASCII is
  in no such name, so comparing in lower case is comparing in upper case.\<close>

definition level_names :: "(string \<times> int) list" where
  "level_names = [(''CRITICAL'', 50), (''FATAL'', 50), (''ERROR'', 40), (''WARNING'', 30), (''WARN'', 30), (''INFO'', 20),
     (''DEBUG'', 10), (''NOTSET'', 0)]"

definition log_level :: "string \<Rightarrow> int res" where
  "log_level level =
     (if py_lower level = ''basic_format'' then Inl (Exn ValueErr ''Unknown level'')
      else if py_lower level = ''_styles'' then Inl (Exn TypeErr ''Level not an integer or a valid string'')
      else Inr (case find (\<lambda>(n, _). py_lower n = py_lower level) level_names of None \<Rightarrow> 20 | Some (_, l) \<Rightarrow> l))"

definition quiet_loggers :: "string list" where
  "quiet_loggers = [''sqlalchemy.engine'', ''httpx'', ''httpcore'', ''uvicorn.access'']"

definition configure_logging :: "bool \<Rightarrow> string \<Rightarrow> log_setup \<Rightarrow> log_setup res" where
  "configure_logging structured level L =
     and_then (log_level level) (\<lambda>n.
     Inr \<lparr>ls_root = n, ls_handlers = [if structured then StructuredLine else PlainLine],
          ls_levels = foldl (\<lambda>d name. dict_put name 30 d) (ls_levels L) quiet_loggers\<rparr>)"

section \<open>Lemmas\<close>

lemma dict_put_same: "map_of d k = Some v \<Longrightarrow> dict_put k v d = d"
  by (induction d) (auto split: if_splits)

lemma quiet_twice:
  "foldl (\<lambda>d name. dict_put name 30 d) (foldl (\<lambda>d name. dict_put name 30 d) d quiet_loggers) quiet_loggers =
   foldl (\<lambda>d name. dict_put name (30 :: int) d) d quiet_loggers"
  by (simp add: quiet_loggers_def dict_put_same map_of_dict_put)

lemma quiet_from_start: "foldl (\<lambda>d name. dict_put name 30 d) [] quiet_loggers = map (\<lambda>n. (n, 30 :: int)) quiet_loggers"
  by (simp add: quiet_loggers_def)

lemma request_logger: "lr_name (request_line rq status_code now) = ''api.request''"
  by (simp add: request_line_def)

section \<open>Properties\<close>

text \<open>The last set-up counts, and however often it is repeated a record is written once.\<close>

theorem last_set_up_counts:
  assumes "configure_logging a l L = Inr L1"
  shows "configure_logging b m L1 = configure_logging b m L \<and> length (ls_handlers L1) = 1"
  using assms by (auto simp: configure_logging_def and_then_Inr_iff quiet_twice)

text \<open>The line of a request is logged at level 20 (\<open>INFO\<close>). In a process that has not called the set-up it is written nowhere; in one
  that has called it with its defaults it is one JSON line, and so is a line of the worker, while \<open>httpx\<close> stays silent below
  \<open>WARNING\<close>.\<close>

theorem request_lines_need_set_up:
  "emitted process_start (lr_name (request_line rq status_code now)) 20 = [] \<and>
   (\<exists>L. configure_logging True ''INFO'' process_start = Inr L \<and>
      emitted L (lr_name (request_line rq status_code now)) 20 = [StructuredLine] \<and>
      emitted L ''evalforge.worker'' 20 = [StructuredLine] \<and> emitted L ''httpx'' 20 = [])"
proof -
  have "log_level ''INFO'' = Inr 20" by code_simp
  then have set_up: "configure_logging True ''INFO'' process_start =
      Inr \<lparr>ls_root = 20, ls_handlers = [StructuredLine], ls_levels = map (\<lambda>n. (n, 30)) quiet_loggers\<rparr>"
    by (simp add: configure_logging_def process_start_def quiet_from_start)
  then show ?thesis
    unfolding request_logger by (auto simp: emitted_def effective_level_def process_start_def quiet_loggers_def)
qed

text \<open>A set-up that raises, on the name of an attribute that is no level, leaves the loggers as they were.\<close>

theorem set_up_total:
  "is_ok (configure_logging structured level L) \<longleftrightarrow> py_lower level \<notin> {''basic_format'', ''_styles''}"
  by (simp add: configure_logging_def log_level_def)

end
