(* ===== verification/Load_Tests.thy ===== *)
theory Load_Tests imports Statistics begin

text \<open>
  \<open>benchmarks/locustfile.py\<close>: the profile of simulated users over time, what a user sends, and the thresholds that decide the exit
  code of a load test. \<open>benchmarks/throughput.py\<close>: the figures of the in-process benchmark. The environment is a function from
  names to values, the statistics of Locust and the clock are arguments. (\<open>throughput.py\<close> does not reach its figures: it imports
  a name that \<open>app.db.session\<close> lacks.)
\<close>

section \<open>The load profile\<close>

definition integer_setting :: "(string \<Rightarrow> string option) \<Rightarrow> string \<Rightarrow> int \<Rightarrow> int res" where
  "integer_setting environ name dflt =
     to_int (JStr (case environ name of None \<Rightarrow> show_int dflt | Some v \<Rightarrow> v))"

record load_stage =
  lg_duration :: int
  lg_users :: int
  lg_spawn_rate :: int

definition load_stage_of :: "(string \<Rightarrow> string option) \<Rightarrow> string \<Rightarrow> int \<Rightarrow> int \<Rightarrow> int \<Rightarrow> load_stage res" where
  "load_stage_of environ name duration user_count spawn_rate =
     and_then (integer_setting environ (''EVALFORGE_LOAD_'' @ name @ ''_SECONDS'') duration) (\<lambda>d.
     and_then (integer_setting environ (''EVALFORGE_LOAD_'' @ name @ ''_USERS'') user_count) (\<lambda>u.
     and_then (integer_setting environ (''EVALFORGE_LOAD_'' @ name @ ''_SPAWN_RATE'') spawn_rate) (\<lambda>r.
     Inr \<lparr>lg_duration = d, lg_users = u, lg_spawn_rate = r\<rparr>)))"

definition load_stages :: "(string \<Rightarrow> string option) \<Rightarrow> load_stage list res" where
  "load_stages environ =
     and_then (load_stage_of environ ''RAMP'' 60 25 5) (\<lambda>ramp.
     and_then (load_stage_of environ ''SUSTAIN'' 300 50 10) (\<lambda>sustain.
     and_then (load_stage_of environ ''SPIKE'' 360 100 25) (\<lambda>spike.
     Inr [ramp, sustain, spike])))"

fun tick_from :: "real \<Rightarrow> int \<Rightarrow> load_stage list \<Rightarrow> (int \<times> int) option" where
  "tick_from elapsed boundary [] = None"
| "tick_from elapsed boundary (stage # stages) =
     (let boundary' = boundary + lg_duration stage in
      if elapsed < of_int boundary' then Some (lg_users stage, lg_spawn_rate stage)
      else tick_from elapsed boundary' stages)"

definition tick :: "load_stage list \<Rightarrow> real \<Rightarrow> (int \<times> int) option" where
  "tick stages elapsed = tick_from elapsed 0 stages"

section \<open>A user\<close>

definition load_headers :: "(string \<Rightarrow> string option) \<Rightarrow> (string \<times> string) list" where
  "load_headers environ =
     (case environ ''EVALFORGE_LOAD_API_KEY'' of
        None \<Rightarrow> []
      | Some token \<Rightarrow> if token = [] then [] else [(''Authorization'', ''Bearer '' @ token)])"

text \<open>The requests with their weights; no answer (status 0) or a status from 400 is a failure, except that an empty dashboard is none.\<close>

definition load_tasks :: "(nat \<times> string) list" where
  "load_tasks = [(10, ''/livez''), (5, ''/api/apps?limit=50''), (4, ''/api/dashboard/latest?failure_limit=25''),
     (2, ''/api/runs?limit=50''), (1, ''/api/comparisons?limit=50'')]"

definition counts_as_failure :: "string \<Rightarrow> nat \<Rightarrow> bool" where
  "counts_as_failure path status_code \<longleftrightarrow>
     (status_code = 0 \<or> 400 \<le> status_code) \<and> \<not> (path = ''/api/dashboard/latest?failure_limit=25'' \<and> status_code = 404)"

section \<open>Thresholds\<close>

text \<open>\<open>fail_ratio\<close> and \<open>p95\<close> are the runner's statistics; the exit code stays as it was unless a threshold is passed.\<close>

definition enforce_load_test_thresholds ::
  "(string \<Rightarrow> string option) \<Rightarrow> real \<Rightarrow> int option \<Rightarrow> int option \<Rightarrow> int option res" where
  "enforce_load_test_thresholds environ fail_ratio p95 exit_code =
     and_then (to_float (JStr (case environ ''EVALFORGE_LOAD_MAX_FAILURE_RATIO'' of None \<Rightarrow> ''0.01'' | Some v \<Rightarrow> v))) (\<lambda>max_ratio.
     and_then (integer_setting environ ''EVALFORGE_LOAD_MAX_P95_MS'' 750) (\<lambda>max_p95.
     let p95_ms = (case p95 of None \<Rightarrow> 0 | Some x \<Rightarrow> x)
     in Inr (if flt_less max_ratio (Fin fail_ratio) \<or> max_p95 < p95_ms then Some 1 else exit_code)))"

section \<open>The in-process benchmark\<close>

definition latency_p50 :: "int list \<Rightarrow> int res" where
  "latency_p50 latencies =
     (let sorted_lat = sort latencies; n = length sorted_lat
      in if 0 < n then py_index sorted_lat (py_trunc (real n * (1 / 2))) else Inr 0)"

definition latency_p95 :: "int list \<Rightarrow> int res" where
  "latency_p95 latencies =
     (let sorted_lat = sort latencies; n = length sorted_lat
      in if 1 < n then py_index sorted_lat (py_trunc (real n * (95 / 100)))
         else if 0 < n then py_index sorted_lat 0 else Inr 0)"

text \<open>\<open>round(mean(..), 1)\<close> of integers: an integer when the mean is one.\<close>

definition mean_json :: "int list \<Rightarrow> json" where
  "mean_json latencies =
     (if sum_list latencies mod int (length latencies) = 0 then JInt (sum_list latencies div int (length latencies))
      else JFloat (Fin (py_round 1 (average (map of_int latencies)))))"

definition throughput_report :: "string \<Rightarrow> nat \<Rightarrow> real \<Rightarrow> int list \<Rightarrow> dict \<Rightarrow> json res" where
  "throughput_report generated_at case_count elapsed latencies summary_dict =
     (let elapsed_seconds = py_round 3 elapsed in
      and_then (latency_p50 latencies) (\<lambda>p50.
      and_then (latency_p95 latencies) (\<lambda>p95.
      if elapsed_seconds = 0 then Inl (Exn ZeroDivErr ''float division by zero'')
      else Inr (JObj
        [(''generated_at'', JStr generated_at), (''benchmark'', JStr ''sync_throughput_real''),
         (''execution_mode'', JStr ''sync (in-process)''),
         (''note'', JStr ''Real sync-mode executor. Not simulated. Celery benchmark requires Docker.''),
         (''summary'', JObj
           [(''case_count'', JInt (int case_count)), (''total_items_executed'', JInt (2 * int case_count)),
            (''elapsed_seconds'', JFloat (Fin elapsed_seconds)),
            (''cases_per_minute'', JFloat (Fin (py_round 1 (real case_count / elapsed_seconds * 60)))),
            (''p50_latency_ms'', JInt p50), (''p95_latency_ms'', JInt p95),
            (''mean_latency_ms'', if latencies = [] then JInt 0 else mean_json latencies),
            (''max_latency_ms'', JInt (if latencies = [] then 0 else last (sort latencies))),
            (''baseline_status'', dict_get_or ''baseline_status'' (JStr ''unknown'') summary_dict),
            (''candidate_status'', dict_get_or ''candidate_status'' (JStr ''unknown'') summary_dict),
            (''gate_verdict'', dict_get_or ''gate_verdict'' (JStr ''unknown'') summary_dict)])]))))"

section \<open>Lemmas\<close>

text \<open>The time at which stage \<open>i\<close> starts.\<close>

definition stage_start :: "load_stage list \<Rightarrow> nat \<Rightarrow> int" where
  "stage_start stages i = sum_list (map lg_duration (take i stages))"

lemma stage_start_simps [simp]:
  "stage_start stages 0 = 0" "stage_start (x # stages) (Suc i) = lg_duration x + stage_start stages i"
  by (simp_all add: stage_start_def)

lemma tick_from_spec:
  assumes "list_all (\<lambda>x. 0 \<le> lg_duration x) stages" and "of_int boundary \<le> elapsed"
  shows "case tick_from elapsed boundary stages of
      None \<Rightarrow> of_int (boundary + stage_start stages (length stages)) \<le> elapsed
    | Some (u, r) \<Rightarrow> \<exists>i < length stages. u = lg_users (stages ! i) \<and> r = lg_spawn_rate (stages ! i) \<and>
        of_int (boundary + stage_start stages i) \<le> elapsed \<and> elapsed < of_int (boundary + stage_start stages (Suc i))"
  using assms
proof (induction stages arbitrary: boundary)
  case (Cons x stages)
  show ?case
  proof (cases "elapsed < of_int (boundary + lg_duration x)")
    case True
    with Cons.prems show ?thesis by (auto simp: Let_def stage_start_def intro!: exI [of _ 0])
  next
    case False
    with Cons have IH: "case tick_from elapsed (boundary + lg_duration x) stages of
        None \<Rightarrow> of_int (boundary + lg_duration x + stage_start stages (length stages)) \<le> elapsed
      | Some (u, r) \<Rightarrow> \<exists>i < length stages. u = lg_users (stages ! i) \<and> r = lg_spawn_rate (stages ! i) \<and>
          of_int (boundary + lg_duration x + stage_start stages i) \<le> elapsed \<and>
          elapsed < of_int (boundary + lg_duration x + stage_start stages (Suc i))"
      by simp
    show ?thesis
    proof (cases "tick_from elapsed (boundary + lg_duration x) stages")
      case None
      with IH False show ?thesis by (simp add: Let_def add.assoc)
    next
      case (Some p)
      with IH obtain i where "i < length stages" "fst p = lg_users (stages ! i)" "snd p = lg_spawn_rate (stages ! i)"
        "of_int (boundary + lg_duration x + stage_start stages i) \<le> elapsed"
        "elapsed < of_int (boundary + lg_duration x + stage_start stages (Suc i))" by (auto split: prod.splits)
      then have "Suc i < length (x # stages) \<and> fst p = lg_users ((x # stages) ! Suc i) \<and> snd p = lg_spawn_rate ((x # stages) ! Suc i) \<and>
          of_int (boundary + stage_start (x # stages) (Suc i)) \<le> elapsed \<and>
          elapsed < of_int (boundary + stage_start (x # stages) (Suc (Suc i)))"
        by (simp add: add.assoc)
      with Some False show ?thesis by (auto simp: Let_def split: prod.splits)
    qed
  qed
qed simp

lemma default_setting: "integer_setting (\<lambda>_. None) name n = to_int (JStr (show_int n))"
  by (simp add: integer_setting_def)

section \<open>Properties\<close>

text \<open>At every moment of a load test the profile asks for the users and the spawn rate of the stage whose interval contains that
  moment; stages follow one another, each for its own duration, and the test ends when the last one is over.\<close>

theorem tick_follows_stages:
  assumes "list_all (\<lambda>x. 0 \<le> lg_duration x) stages" and "0 \<le> elapsed"
  shows "case tick stages elapsed of
      None \<Rightarrow> of_int (stage_start stages (length stages)) \<le> elapsed
    | Some (u, r) \<Rightarrow> \<exists>i < length stages. u = lg_users (stages ! i) \<and> r = lg_spawn_rate (stages ! i) \<and>
        of_int (stage_start stages i) \<le> elapsed \<and> elapsed < of_int (stage_start stages (Suc i))"
  using tick_from_spec [of stages 0 elapsed, unfolded add_0] assms by (simp add: tick_def)

text \<open>The profile of \<open>docs/load-testing.md\<close>: without settings, 25 users for one minute, 50 for five, then 100, for six.\<close>

theorem default_profile:
  "\<exists>stages. load_stages (\<lambda>_. None) = Inr stages \<and> map lg_users stages = [25, 50, 100] \<and>
     map (stage_start stages) [0, 1, 2, 3] = [0, 60, 360, 720]"
proof -
  have "to_int (JStr (show_int 60)) = Inr 60" "to_int (JStr (show_int 25)) = Inr 25" "to_int (JStr (show_int 5)) = Inr 5"
    "to_int (JStr (show_int 300)) = Inr 300" "to_int (JStr (show_int 50)) = Inr 50" "to_int (JStr (show_int 10)) = Inr 10"
    "to_int (JStr (show_int 360)) = Inr 360" "to_int (JStr (show_int 100)) = Inr 100"
    by code_simp+
  then show ?thesis by (simp add: load_stages_def load_stage_of_def default_setting stage_start_def numeral_eq_Suc)
qed

text \<open>Without settings a load test that would exit with 0 exits with 1 exactly when more than one request in a hundred failed or
  the 95th percentile is above 750 milliseconds.\<close>

theorem default_thresholds:
  "enforce_load_test_thresholds (\<lambda>_. None) fail_ratio p95 None =
     Inr (if 1 / 100 < fail_ratio \<or> (\<exists>x. p95 = Some x \<and> 750 < x) then Some 1 else None)"
proof -
  have "parse_decimal ''0.01'' = Some (1 / 100)"
    by (simp add: parse_decimal_def parse_exponent_def py_isdigit_def read_nat_def)
  moreover have "drop_underscores False (py_strip ''0.01'') = Some ''0.01''" "py_lower ''0.01'' = ''0.01''" by code_simp+
  ultimately have ratio: "to_float (JStr ''0.01'') = Inr (Fin (1 / 100))"
    by (simp add: parse_float_def take_sign_def flt_of_real_small)
  have "to_int (JStr (show_int 750)) = Inr 750" by code_simp
  with ratio show ?thesis
    by (auto simp: enforce_load_test_thresholds_def default_setting flt_less_def Let_def split: option.splits)
qed

text \<open>The percentiles of the benchmark are always there: no list of latencies makes them raise, the median is at most the 95th
  percentile, and both are among the latencies.\<close>

theorem latency_percentiles_total:
  "\<exists>a b. latency_p50 latencies = Inr a \<and> latency_p95 latencies = Inr b \<and> a \<le> b \<and>
     (if latencies = [] then a = 0 \<and> b = 0 else a \<in> set latencies \<and> b \<in> set latencies)"
proof (cases "latencies = []")
  case False
  define n where "n = length latencies"
  define l where "l = sort latencies"
  have n: "0 < n" "length l = n" "set l = set latencies" using False by (simp_all add: n_def l_def)
  define i where "i = nat \<lfloor>real n * (1 / 2)\<rfloor>"
  define j where "j = nat \<lfloor>real n * (95 / 100)\<rfloor>"
  have idx: "py_trunc (real n * (1 / 2)) = int i" "py_trunc (real n * (95 / 100)) = int j"
    by (simp_all add: py_trunc_def i_def j_def)
  have "\<lfloor>real n * (1 / 2)\<rfloor> \<le> \<lfloor>real n * (95 / 100)\<rfloor>" by (rule floor_mono) simp
  then have "i \<le> j" by (simp add: i_def j_def nat_mono)
  have "\<lfloor>real n * (95 / 100)\<rfloor> < int n" using n(1) by (simp add: floor_less_iff)
  then have "j < n" using n(1) by (simp add: j_def nat_less_iff)
  have l: "l ! i \<le> l ! j" using \<open>i \<le> j\<close> \<open>j < n\<close> n(2) by (auto simp: l_def intro!: sorted_nth_mono)
  have a: "latency_p50 latencies = Inr (l ! i)"
    using \<open>i \<le> j\<close> \<open>j < n\<close> n(1,2) idx(1) unfolding latency_p50_def l_def [symmetric] Let_def n(2) by (simp add: py_index_def n(2))
  show ?thesis
  proof (cases "1 < n")
    case True
    have "latency_p95 latencies = Inr (l ! j)"
      using \<open>j < n\<close> True n(2) idx(2) unfolding latency_p95_def l_def [symmetric] Let_def n(2) by (simp add: py_index_def n(2))
    with a l False show ?thesis using \<open>i \<le> j\<close> \<open>j < n\<close> n(2,3) by (metis nth_mem order_le_less_trans)
  next
    case False
    with n(1) have one: "n = 1" by simp
    with \<open>j < n\<close> \<open>i \<le> j\<close> have "i = 0" by simp
    have "latency_p95 latencies = Inr (l ! 0)"
      using one n(2) unfolding latency_p95_def l_def [symmetric] Let_def n(2) by (simp add: py_index_def n(2))
    with a \<open>i = 0\<close> \<open>latencies \<noteq> []\<close> n show ?thesis by (metis nth_mem order_refl)
  qed
qed (simp add: latency_p50_def latency_p95_def Let_def)

end
