(* ===== verification/Spec2Isabelle.thy ===== *)
theory Spec2Isabelle imports Statistics Calibration Caches Engine Cost_Simulator Gate_Report Comparisons Run_Worker Run_Dispatcher Tenancy Dashboard Cli_Run Demo_Scenario Request_Schemas Calibration_Analysis Benchmarks Application_Shell Worker_Spec Gate_Command Read_Models Log_Setup Load_Tests begin

text \<open>
  EvalForge is a service that evaluates retrieval applications. An organisation registers an application and its versions,
  suites of cases and evaluator configurations; a run sends every case of a suite through the adapter of a version and
  scores the output with the configured evaluators; a comparison of two runs samples their metrics, estimates the differences
  with a seeded bootstrap and gives a release verdict (pass, warn or fail). Runs are executed in the process of the request
  or by workers on a queue. The dashboard, the CI report and the commands show and start all this. This development models the
  Python backend under \<open>src/backend\<close> and the programs under \<open>src/benchmarks\<close>.

  \<^bold>\<open>How the program is modelled.\<close>

  \<^item> The database is the record \<open>db\<close> of \<open>Entities\<close>, one list of rows per table. A handler is a function from its arguments and
    the database to a response and the database it leaves: what it has not committed when it raises is rolled back, so
    such a branch returns the database it was given. Unique, foreign-key and range violations are branches that raise.
  \<^item> Exceptions are values: \<open>'a res\<close> is \<open>exn + 'a\<close> in \<open>Py_Base\<close>, and \<open>and_then\<close> sequences. \<open>'a response\<close> adds the HTTP errors a
    handler raises itself and keeps what escapes it as \<open>Unhandled\<close>.
  \<^item> A finite float is a real number: arithmetic is exact and IEEE rounding is not modelled. Where infinities and NaN can
    arrive from outside, a float is an \<open>flt\<close>. A \<open>str\<close> is a string of the code points up to U+00FF; the few texts with others
    are lists of code points. A \<open>dict\<close> is an association list in insertion order. Times are microseconds.
  \<^item> What is not under \<open>src\<close> is an argument or a field of an environment record: the generator behind \<open>random.Random\<close>, the
    embedding and NLI models, tokenizers, scrypt, keyed hashes, random bytes, UUIDs, the clock (one reading per call of an
    operation), HTTP, module import, \<open>str.format\<close>, and the text of floats and times. Hypotheses on them are named
    (\<open>rng_ok\<close>, the freshness of generated identifiers, a decoder that inverts an encoder) and each has a witness.
  \<^item> A query without \<open>ORDER BY\<close> comes in the order of its table; texts are ordered by code points.

  \<^bold>\<open>The theories.\<close> Paths are relative to \<open>src/backend/app\<close>; definitions have the names of the functions they translate.

  \<^item> \<open>Py_Base\<close>: the prelude. Strings, JSON values with Python's truth and equality, \<open>round\<close>, slices, conversions; the
    collections \<open>py_defs\<close> and \<open>py_bounds\<close>; lemmas that several components use.
  \<^item> \<open>Statistics\<close> (\<open>services/statistics.py\<close>): means, percentiles, both bootstraps, the regression test, the report per tag.
    The locale \<open>sample_statistic\<close> holds what makes a bootstrap of a statistic sound; it is interpreted for the mean and the 95th
    percentile here and for the gate's percentile in \<open>Gates\<close>.
  \<^item> \<open>Calibration\<close> (\<open>services/calibration.py\<close>, \<open>services/flakiness.py\<close>): correlations, tied ranks, the confusion matrix, the
    classification of repeated scores. The rank loops are proved to compute mid-ranks.
  \<^item> \<open>Gold_Set\<close>, \<open>Calibration_Analysis\<close> (\<open>calibration\<close>): the fifty labelled entries and the analysis of them, for which the counts
    and bounds of its rates are proved and whose report on the fixture is computed.
  \<^item> \<open>Text_Metrics\<close>, \<open>Evaluators\<close>, \<open>Engine\<close> (\<open>evaluators\<close>, and the vectors of \<open>services/embedding_cache.py\<close>): tokens, the ten
    evaluators, the registry, the validation of a configuration and the evaluation of a case. \<open>evaluator_contract\<close> states what
    the engine needs of an evaluator and \<open>threshold_contract\<close> extends it; each evaluator is an interpretation.
  \<^item> \<open>Backend_Settings\<close> (\<open>core/config.py\<close>): settings and their validators.
  \<^item> \<open>Adapters\<close> (\<open>adapters\<close>): the demo adapter, the two model adapters, the endpoint checks, the loader.
  \<^item> \<open>Cost_Simulator\<close>, \<open>Caches\<close> (\<open>services/cost_simulator.py\<close>, \<open>adapter_cache.py\<close>, \<open>embedding_cache.py\<close>). The locale
    \<open>timed_cache\<close> is the contract of a cache with a lifetime, interpreted on the output cache.
  \<^item> \<open>Gates\<close>, \<open>Comparisons\<close>, \<open>Gate_Report\<close> (\<open>services/comparison.py\<close>, \<open>services/ci_gate_report.py\<close>, \<open>cli/gate.py\<close>): the metric
    report, the gate rules, the verdict, the comparison on the database, the CI report. \<open>Gate_Command\<close> is the gate command
    run against the API that serves the report: which answers it can turn into an exit code. The strings of verdicts are proved
    to agree with the linearly ordered type \<open>verdict\<close>.
  \<^item> \<open>Entities\<close> (\<open>models/entities.py\<close>, \<open>core/tenancy.py\<close>): tables as records, roles (a linear order) and principals.
  \<^item> \<open>Migrations\<close> (\<open>migrations/versions\<close>): the four migrations as changes of a catalogue of tables, and the tables that the models
    declare.
  \<^item> \<open>Request_Schemas\<close>, \<open>Read_Models\<close> (\<open>schemas\<close>): the declared checks of requests; the bodies of responses as JSON, with
    what they show of a row, and what a client can do with them: pages that cover a run, cases that can be imported again.
  \<^item> \<open>Run_Executor\<close>, \<open>Run_Worker\<close>, \<open>Run_Dispatcher\<close> (\<open>services/run_executor.py\<close>, \<open>workers/tasks.py\<close>,
    \<open>services/run_dispatcher.py\<close>): the run in process, the worker's transactions and the dispatch onto the queue.
    \<open>cluster_step\<close> interleaves the transactions of any number of deliveries; \<open>drive\<close> is one task delivered until it returns.
  \<^item> \<open>Worker_Spec\<close>: the abstract board of items that the worker refines.
  \<^item> \<open>Credentials\<close>, \<open>Auth_Api\<close>, \<open>Organizations\<close> (\<open>services/authentication.py\<close>, \<open>core/auth.py\<close>, \<open>api/auth.py\<close>,
    \<open>api/organizations.py\<close>): password hashes and tokens, principals, the handlers of sessions, keys and members. \<open>auth_step\<close> and
    \<open>tenancy_step\<close> are the steps a database makes when any request is served.
  \<^item> \<open>Registry\<close>, \<open>Runs_Api\<close> (\<open>api/apps.py\<close>, \<open>suites.py\<close>, \<open>evaluator_configs.py\<close>, \<open>gate_rules.py\<close>, \<open>runs.py\<close>, \<open>comparisons.py\<close>).
  \<^item> \<open>Tenant_View\<close>, \<open>Tenancy\<close>: isolation of organisations. \<open>tenant_view\<close> is what an organisation can see; the locale \<open>unwinding\<close>
    proves noninterference from local conditions, which its interpretation \<open>api\<close> discharges for all handlers.
  \<^item> \<open>Dashboard\<close>, \<open>Demo_Dashboard\<close> (\<open>services/dashboard_aggregation.py\<close>, \<open>services/dashboard_snapshot.py\<close>, \<open>api/dashboard.py\<close>).
  \<^item> \<open>Cli_Run\<close>, \<open>Demo\<close>, \<open>Demo_Scenario\<close> (\<open>cli/run.py\<close>, \<open>demo\<close>, \<open>cli/seed.py\<close>): the cycle of two runs and a comparison, the demo
    corpus, the scenario and the seed.
  \<^item> \<open>Benchmarks\<close>, \<open>Load_Tests\<close> (\<open>src/benchmarks\<close>): the flakiness benchmark, the summary of the worker benchmark, the load profile
    with its thresholds, and the figures of the in-process benchmark.
  \<^item> \<open>Application_Shell\<close> (\<open>main.py\<close>, \<open>core/logging.py\<close>, \<open>core/observability.py\<close>, \<open>db/health.py\<close>, \<open>api/health.py\<close>, \<open>metrics.py\<close>,
    \<open>evaluators.py\<close>): what surrounds a request. \<open>shell_step\<close> interleaves requests that begin and finish. \<open>Log_Setup\<close> adds the
    set-up of logging and what becomes of a record with and without it.

  \<^bold>\<open>What the lemmas show.\<close> For the pure parts: ranges and exact results of every branch, agreement with a reference definition
  (mid-ranks, the worst metric verdict, base64 round trips). For stored data: invariants that every operation keeps
  (\<open>tenancy_ok\<close>, \<open>state_ok\<close> and the ownership of items), frames (what an operation leaves untouched) and the
  contract of each handler, errors included. For sequences of requests or transactions: rule induction over the step relations.
  For composition: the dispatcher driven through the worker to the completion callback, the commands through executor and
  comparison, the demo scenario from corpus to verdict, and the dashboard against the comparison it shows.

  \<^bold>\<open>Loops.\<close> Loops over data are structural. \<open>rank_end\<close>, \<open>rank_loop\<close>, \<open>find_tokens\<close>, \<open>split_after_punctuation\<close>, \<open>py_eq\<close> and
  \<open>drive\<close> have termination proofs (\<open>drive\<close> by the retries the task has left). The polling loop of the command is a
  \<open>partial_function (option)\<close>, whose end is proved from the progress of the clock. No definition uses fuel.

  \<^bold>\<open>Not modelled.\<close> Frameworks and what only configures them: the routing of FastAPI, the type checks of pydantic, Celery's transport, the
  SQL engine, Alembic's environment (\<open>migrations/env.py\<close>), argument parsers, printing, Prometheus, OpenTelemetry and Sentry;
  the lists of exports (\<open>__init__.py\<close>) and the constants of Celery's configuration other than the time limit.
  Identifiers of traces and results are left out of their rows, as nothing reads them. The frontend is another program.
\<close>

end
